(* ===== verification/Prelude.thy ===== *)
theory Prelude
  imports Main "HOL-Library.List_Lexorder"
begin

text \<open>
  Shared vocabulary of the development: bytes and Python strings, the exceptions of
  \<^verbatim>\<open>src/mgk/errors.py\<close> together with the library exceptions the code catches, results
  that are either an exception or a value, operations that read and write a state, and the
  rules by which the component theories reason about them.
\<close>

named_theorems res_simps \<open>rewriting results and state-passing operations\<close>
named_theorems keeps_intro \<open>an operation relates its input state to its output state\<close>

section \<open>Bytes and strings\<close>

text \<open>
  A byte is an 8-bit \<open>char\<close>, so a bytes literal of the source is a string literal here. A
  Python \<^verbatim>\<open>str\<close> is a list of code points; \<open>U\<close> reads a literal as one.
\<close>

type_synonym bytes = string
type_synonym ustr = "nat list"

definition U :: "string \<Rightarrow> ustr" where
  "U s = map of_char s"

lemma U_eq_iff [simp]: "U s = U t \<longleftrightarrow> s = t"
  by (simp add: U_def inj_map_eq_map inj_def)

lemma U_Nil [simp]: "U [] = []"
  by (simp add: U_def)

lemma U_eq_Nil_iff [simp]: "U s = [] \<longleftrightarrow> s = []" "[] = U s \<longleftrightarrow> s = []"
  by (auto simp: U_def)

lemma length_U [simp]: "length (U s) = length s"
  by (simp add: U_def)

lemma set_U_bound: "c \<in> set (U s) \<Longrightarrow> c < 256"
  by (auto simp: U_def)

text \<open>\<^verbatim>\<open>s.startswith(p)\<close>, \<^verbatim>\<open>s.endswith(p)\<close>\<close>

fun startswith :: "'a list \<Rightarrow> 'a list \<Rightarrow> bool" where
  "startswith s [] = True"
| "startswith [] (p # ps) = False"
| "startswith (c # s) (p # ps) = (c = p \<and> startswith s ps)"

lemma startswith_iff: "startswith s p \<longleftrightarrow> (\<exists>t. s = p @ t)"
  by (induction s p rule: startswith.induct) auto

lemma startswith_append [simp]: "startswith (p @ s) p"
  by (auto simp: startswith_iff)

definition endswith :: "'a list \<Rightarrow> 'a list \<Rightarrow> bool" where
  "endswith s p = startswith (rev s) (rev p)"

lemma endswith_iff: "endswith s p \<longleftrightarrow> (\<exists>t. s = t @ p)"
  by (auto simp: endswith_def startswith_iff) (metis rev_append rev_rev_ident)

text \<open>\<^verbatim>\<open>s.split(sep)\<close> for a one-character separator: always at least one part.\<close>

fun split_on :: "'a \<Rightarrow> 'a list \<Rightarrow> 'a list list" where
  "split_on sep [] = [[]]"
| "split_on sep (c # s) =
     (if c = sep then [] # split_on sep s
      else (case split_on sep s of [] \<Rightarrow> [[c]] | p # ps \<Rightarrow> (c # p) # ps))"

fun join_with :: "'a \<Rightarrow> 'a list list \<Rightarrow> 'a list" where
  "join_with sep [] = []"
| "join_with sep [p] = p"
| "join_with sep (p # q # ps) = p @ sep # join_with sep (q # ps)"

lemma split_on_not_Nil [simp]: "split_on sep s \<noteq> []"
  by (cases s) (auto split: list.split)

lemma join_with_Cons_Cons: "join_with sep ((c # p) # ps) = c # join_with sep (p # ps)"
  by (cases ps) auto

lemma join_split [simp]: "join_with sep (split_on sep s) = s"
proof (induction s)
  case Nil
  show ?case by simp
next
  case (Cons c s)
  obtain p ps where s: "split_on sep s = p # ps"
    using split_on_not_Nil [of sep s] by (cases "split_on sep s") blast+
  with Cons show ?case
    by (cases "c = sep") (simp_all add: join_with_Cons_Cons)
qed

lemma split_on_no_sep: "p \<in> set (split_on sep s) \<Longrightarrow> sep \<notin> set p"
proof (induction s arbitrary: p)
  case Nil
  then show ?case by simp
next
  case (Cons c s)
  then show ?case by (auto split: if_splits list.splits)
qed

lemma set_split_on: "p \<in> set (split_on sep s) \<Longrightarrow> c \<in> set p \<Longrightarrow> c \<in> set s"
  by (induction s arbitrary: p) (fastforce split: if_splits list.splits)+

text \<open>Decimal numerals, as \<^verbatim>\<open>str(n)\<close> writes them.\<close>

fun nat_digits :: "nat \<Rightarrow> ustr" where
  "nat_digits n = (if n < 10 then [48 + n] else nat_digits (n div 10) @ [48 + n mod 10])"

declare nat_digits.simps [simp del]

definition int_str :: "int \<Rightarrow> ustr" where
  "int_str i = (if i < 0 then 45 # nat_digits (nat (- i)) else nat_digits (nat i))"

lemma nat_digits_not_Nil [simp]: "nat_digits n \<noteq> []"
  by (subst nat_digits.simps) simp

lemma nat_digits_range: "c \<in> set (nat_digits n) \<Longrightarrow> 48 \<le> c \<and> c \<le> 57"
proof (induction n rule: nat_digits.induct)
  case (1 n)
  show ?case
  proof (cases "n < 10")
    case True
    with "1.prems" show ?thesis by (simp add: nat_digits.simps [of n])
  next
    case False
    with "1.prems" have "c \<in> set (nat_digits (n div 10)) \<or> c = 48 + n mod 10"
      by (auto simp add: nat_digits.simps [of n])
    with False "1.IH" show ?thesis by auto
  qed
qed

lemma hd_nat_digits_pos: "0 < n \<Longrightarrow> hd (nat_digits n) \<noteq> 48"
proof (induction n rule: nat_digits.induct)
  case (1 n)
  then show ?case by (cases "n < 10") (auto simp: nat_digits.simps [of n])
qed

section \<open>Exceptions and results\<close>

text \<open>
  The classes of \<^verbatim>\<open>errors.py\<close> in its order, then the library exceptions that the code
  raises itself or tells apart in an \<^verbatim>\<open>except\<close> clause. A message that the code writes is
  kept as it stands; of a library exception only the kind is kept, with a short tag.
\<close>

datatype exn_kind =
    MGKError | CanonicalizationError | SchemaError | AuthorizationDenied | SignatureError
  | EpochError | TimeWindowError | ReplayError | ScopeError | ResourceError
  | StateIntegrityError | AuditIntegrityError | ExecutionDenied
  | ValueError | TypeError | KeyError | AttributeError | RuntimeError | AssertionError
  | UnicodeError | JSONDecodeError | InvalidSignature | OverflowError
  | OSError | FileNotFoundError | FileExistsError
  | SqliteDatabaseError | SqliteIntegrityError | OutOfFuel

datatype exn = Exn (exn_kind_of: exn_kind) (exn_msg: string)

definition is_mgk_error :: "exn \<Rightarrow> bool" where
  "is_mgk_error e \<longleftrightarrow> exn_kind_of e \<in> {MGKError, CanonicalizationError, SchemaError,
     AuthorizationDenied, SignatureError, EpochError, TimeWindowError, ReplayError, ScopeError,
     ResourceError, StateIntegrityError, AuditIntegrityError, ExecutionDenied}"

definition is_value_error :: "exn \<Rightarrow> bool" where
  "is_value_error e \<longleftrightarrow> exn_kind_of e \<in> {ValueError, CanonicalizationError, UnicodeError,
     JSONDecodeError}"

definition is_os_error :: "exn \<Rightarrow> bool" where
  "is_os_error e \<longleftrightarrow> exn_kind_of e \<in> {OSError, FileNotFoundError, FileExistsError}"

definition is_db_error :: "exn \<Rightarrow> bool" where
  "is_db_error e \<longleftrightarrow> exn_kind_of e \<in> {SqliteDatabaseError, SqliteIntegrityError}"

text \<open>The class attribute \<^verbatim>\<open>code\<close> of the taxonomy.\<close>

fun error_code :: "exn_kind \<Rightarrow> string" where
  "error_code CanonicalizationError = ''CANONICALIZATION_ERROR''"
| "error_code SchemaError = ''SCHEMA_ERROR''"
| "error_code AuthorizationDenied = ''AUTHORIZATION_DENIED''"
| "error_code SignatureError = ''SIGNATURE_ERROR''"
| "error_code EpochError = ''EPOCH_ERROR''"
| "error_code TimeWindowError = ''TIME_WINDOW_ERROR''"
| "error_code ReplayError = ''REPLAY_ERROR''"
| "error_code ScopeError = ''SCOPE_ERROR''"
| "error_code ResourceError = ''RESOURCE_ERROR''"
| "error_code StateIntegrityError = ''STATE_INTEGRITY_ERROR''"
| "error_code AuditIntegrityError = ''AUDIT_INTEGRITY_ERROR''"
| "error_code ExecutionDenied = ''EXECUTION_DENIED''"
| "error_code _ = ''MGK_ERROR''"

type_synonym 'a res = "exn + 'a"

definition rbind :: "'a res \<Rightarrow> ('a \<Rightarrow> 'b res) \<Rightarrow> 'b res" where
  "rbind m f = (case m of Inl e \<Rightarrow> Inl e | Inr x \<Rightarrow> f x)"

lemma rbind_Inl [simp, res_simps]: "rbind (Inl e) f = Inl e"
  by (simp add: rbind_def)

lemma rbind_Inr [simp, res_simps]: "rbind (Inr x) f = f x"
  by (simp add: rbind_def)

lemma rbind_eq_Inr_iff [res_simps]:
  "rbind m f = Inr y \<longleftrightarrow> (\<exists>x. m = Inr x \<and> f x = Inr y)"
  by (cases m) auto

lemma rbind_eq_Inl_iff:
  "rbind m f = Inl e \<longleftrightarrow> m = Inl e \<or> (\<exists>x. m = Inr x \<and> f x = Inl e)"
  by (cases m) auto

lemma rbind_cong [fundef_cong]:
  "m = m' \<Longrightarrow> (\<And>x. m' = Inr x \<Longrightarrow> f x = f' x) \<Longrightarrow> rbind m f = rbind m' f'"
  by (cases m') auto

lemma rbind_assoc: "rbind (rbind m f) g = rbind m (\<lambda>x. rbind (f x) g)"
  by (cases m) auto

definition rmap :: "('a \<Rightarrow> 'b) \<Rightarrow> 'a res \<Rightarrow> 'b res" where
  "rmap f m = rbind m (\<lambda>x. Inr (f x))"

lemma rmap_simps [simp, res_simps]: "rmap f (Inl e) = Inl e" "rmap f (Inr x) = Inr (f x)"
  by (simp_all add: rmap_def)

lemma rmap_eq_Inr_iff [res_simps]: "rmap f m = Inr y \<longleftrightarrow> (\<exists>x. m = Inr x \<and> y = f x)"
  by (cases m) auto

definition is_ok :: "'a res \<Rightarrow> bool" where
  "is_ok m = (case m of Inl e \<Rightarrow> False | Inr x \<Rightarrow> True)"

lemma is_ok_simps [simp]: "\<not> is_ok (Inl e)" "is_ok (Inr x)"
  by (simp_all add: is_ok_def)

lemma is_ok_iff: "is_ok m \<longleftrightarrow> (\<exists>x. m = Inr x)"
  by (cases m) auto

text \<open>\<^verbatim>\<open>try: m except K: h\<close> on results: \<open>p\<close> says which exceptions are caught.\<close>

definition rcatch :: "(exn \<Rightarrow> bool) \<Rightarrow> (exn \<Rightarrow> 'a res) \<Rightarrow> 'a res \<Rightarrow> 'a res" where
  "rcatch p h m = (case m of Inl e \<Rightarrow> (if p e then h e else Inl e) | Inr x \<Rightarrow> Inr x)"

lemma rcatch_simps [simp, res_simps]:
  "rcatch p h (Inl e) = (if p e then h e else Inl e)" "rcatch p h (Inr x) = Inr x"
  by (simp_all add: rcatch_def)

lemma rcatch_raise_eq_Inr_iff:
  "(\<And>e. \<exists>e'. h e = Inl e') \<Longrightarrow> rcatch p h m = Inr x \<longleftrightarrow> m = Inr x"
  by (cases m) (auto dest: spec, metis sum.distinct(1))

text \<open>\<open>errs_in K m\<close>: every exception \<open>m\<close> can end in is of a kind in \<open>K\<close>.\<close>

definition errs_in :: "exn_kind set \<Rightarrow> 'a res \<Rightarrow> bool" where
  "errs_in K m \<longleftrightarrow> (\<forall>e. m = Inl e \<longrightarrow> exn_kind_of e \<in> K)"

lemma errs_in_simps [simp]:
  "errs_in K (Inr x)" "errs_in K (Inl e) \<longleftrightarrow> exn_kind_of e \<in> K"
  by (simp_all add: errs_in_def)

lemma errs_inD: "errs_in K m \<Longrightarrow> m = Inl e \<Longrightarrow> exn_kind_of e \<in> K"
  by (simp add: errs_in_def)

lemma errs_in_rbind:
  "errs_in K m \<Longrightarrow> (\<And>x. m = Inr x \<Longrightarrow> errs_in K (f x)) \<Longrightarrow> errs_in K (rbind m f)"
  by (cases m) auto

lemma errs_in_rmap: "errs_in K m \<Longrightarrow> errs_in K (rmap f m)"
  by (cases m) auto

lemma errs_in_rcatch:
  "(\<And>e. m = Inl e \<Longrightarrow> \<not> p e \<Longrightarrow> exn_kind_of e \<in> K) \<Longrightarrow> (\<And>e. m = Inl e \<Longrightarrow> p e \<Longrightarrow> errs_in K (h e)) \<Longrightarrow>
     errs_in K (rcatch p h m)"
  by (cases m) auto

lemma errs_in_mono: "errs_in K m \<Longrightarrow> K \<subseteq> L \<Longrightarrow> errs_in L m"
  by (auto simp: errs_in_def)

lemma errs_in_if: "(b \<Longrightarrow> errs_in K m) \<Longrightarrow> (\<not> b \<Longrightarrow> errs_in K m') \<Longrightarrow> errs_in K (if b then m else m')"
  by simp

lemmas errs_in_intro = errs_in_rbind errs_in_rmap errs_in_rcatch errs_in_if

section \<open>Operations on a state\<close>

text \<open>
  A method that reads and writes state maps a state to a result and the state afterwards. The
  state survives an exception: what was written before the \<^verbatim>\<open>raise\<close> stays written.
\<close>

type_synonym ('w, 'a) op = "'w \<Rightarrow> 'a res \<times> 'w"

definition sret :: "'a \<Rightarrow> ('w, 'a) op" where
  "sret x w = (Inr x, w)"

definition sraise :: "exn \<Rightarrow> ('w, 'a) op" where
  "sraise e w = (Inl e, w)"

definition slift :: "'a res \<Rightarrow> ('w, 'a) op" where
  "slift r w = (r, w)"

definition sget :: "('w \<Rightarrow> 'a) \<Rightarrow> ('w, 'a) op" where
  "sget f w = (Inr (f w), w)"

definition smodify :: "('w \<Rightarrow> 'w) \<Rightarrow> ('w, unit) op" where
  "smodify f w = (Inr (), f w)"

definition sbind :: "('w, 'a) op \<Rightarrow> ('a \<Rightarrow> ('w, 'b) op) \<Rightarrow> ('w, 'b) op" where
  "sbind m f w = (case m w of (Inl e, w') \<Rightarrow> (Inl e, w') | (Inr x, w') \<Rightarrow> f x w')"

definition scatch :: "(exn \<Rightarrow> bool) \<Rightarrow> (exn \<Rightarrow> ('w, 'a) op) \<Rightarrow> ('w, 'a) op \<Rightarrow> ('w, 'a) op" where
  "scatch p h m w =
     (case m w of (Inl e, w') \<Rightarrow> (if p e then h e w' else (Inl e, w')) | (Inr x, w') \<Rightarrow> (Inr x, w'))"

abbreviation any_exn :: "exn \<Rightarrow> bool" where
  "any_exn \<equiv> (\<lambda>_. True)"

lemmas op_defs = sret_def sraise_def slift_def sget_def smodify_def sbind_def scatch_def

lemma sbind_simps [simp]:
  "sbind (sret x) f = f x" "sbind (sraise e) f = sraise e"
  "sbind (slift (Inr x)) f = f x" "sbind (slift (Inl e)) f = sraise e"
  by (simp_all add: op_defs fun_eq_iff)

lemma sret_eq [simp, res_simps]: "sret x w = (r, w') \<longleftrightarrow> r = Inr x \<and> w' = w"
  by (auto simp: sret_def)

lemma sraise_eq [simp, res_simps]: "sraise e w = (r, w') \<longleftrightarrow> r = Inl e \<and> w' = w"
  by (auto simp: sraise_def)

lemma slift_eq [simp, res_simps]: "slift x w = (r, w') \<longleftrightarrow> x = r \<and> w' = w"
  by (auto simp: slift_def)

lemma sget_eq [simp, res_simps]: "sget f w = (r, w') \<longleftrightarrow> r = Inr (f w) \<and> w' = w"
  by (auto simp: sget_def)

lemma smodify_eq [simp, res_simps]: "smodify f w = (r, w') \<longleftrightarrow> r = Inr () \<and> w' = f w"
  by (auto simp: smodify_def)

lemma sbind_ok [res_simps]:
  "sbind m f w = (Inr y, w'') \<longleftrightarrow> (\<exists>x w'. m w = (Inr x, w') \<and> f x w' = (Inr y, w''))"
  by (auto simp: sbind_def split: prod.splits sum.splits)

lemma sbind_err [res_simps]:
  "sbind m f w = (Inl e, w'') \<longleftrightarrow>
     m w = (Inl e, w'') \<or> (\<exists>x w'. m w = (Inr x, w') \<and> f x w' = (Inl e, w''))"
  by (auto simp: sbind_def split: prod.splits sum.splits)

text \<open>An operation on a component of a larger state, which \<open>get\<close> and \<open>put\<close> access.\<close>

definition szoom :: "('w \<Rightarrow> 's) \<Rightarrow> ('s \<Rightarrow> 'w \<Rightarrow> 'w) \<Rightarrow> ('s, 'a) op \<Rightarrow> ('w, 'a) op" where
  "szoom get put m w = (case m (get w) of (r, s) \<Rightarrow> (r, put s w))"

lemma szoom_eq [res_simps]:
  "szoom get put m w = (r, w') \<longleftrightarrow> (\<exists>s. m (get w) = (r, s) \<and> w' = put s w)"
  by (auto simp: szoom_def split: prod.splits)

lemma sbind_cases:
  assumes "sbind m f w = (r, w')"
  obtains (err) e where "m w = (Inl e, w')" "r = Inl e"
    | (ok) x v where "m w = (Inr x, v)" "f x v = (r, w')"
  using assms by (cases r) (auto simp: sbind_ok sbind_err)

lemma scatch_cases:
  assumes "scatch p h m w = (r, w')"
  obtains (ok) x where "m w = (Inr x, w')" "r = Inr x"
    | (skip) e where "m w = (Inl e, w')" "\<not> p e" "r = Inl e"
    | (handled) e v where "m w = (Inl e, v)" "p e" "h e v = (r, w')"
  using assms by (auto simp: scatch_def split: prod.splits sum.splits if_splits)

lemma scatch_ok:
  "(\<And>e v x v'. h e v \<noteq> (Inr x, v')) \<Longrightarrow> scatch p h m w = (Inr x, w') \<longleftrightarrow> m w = (Inr x, w')"
  by (auto simp: scatch_def split: prod.splits sum.splits if_splits)

text \<open>
  \<open>keeps R m\<close>: whatever the outcome of \<open>m\<close>, the state before and the state after are related
  by \<open>R\<close>. With a reflexive and transitive \<open>R\<close> this composes along the code's structure.
\<close>

definition keeps :: "('w \<Rightarrow> 'w \<Rightarrow> bool) \<Rightarrow> ('w, 'a) op \<Rightarrow> bool" where
  "keeps R m \<longleftrightarrow> (\<forall>w. R w (snd (m w)))"

definition preorder_rel :: "('w \<Rightarrow> 'w \<Rightarrow> bool) \<Rightarrow> bool" where
  "preorder_rel R \<longleftrightarrow> reflp R \<and> transp R"

lemma preorder_rel_same [intro, simp]: "preorder_rel (\<lambda>w w'. f w' = f w)"
  by (auto simp: preorder_rel_def reflp_def transp_def)

lemma keepsD: "keeps R m \<Longrightarrow> m w = (r, w') \<Longrightarrow> R w w'"
  by (metis keeps_def snd_conv)

lemma keepsI: "(\<And>w r w'. m w = (r, w') \<Longrightarrow> R w w') \<Longrightarrow> keeps R m"
  by (metis keeps_def prod.collapse)

lemma keeps_pure [keeps_intro]:
  assumes "preorder_rel R"
  shows "keeps R (sret x)" and "keeps R (sraise e)" and "keeps R (slift r)" and "keeps R (sget f)"
  using assms by (auto simp: keeps_def op_defs preorder_rel_def reflp_def)

lemma keeps_sbind [keeps_intro]:
  assumes R: "preorder_rel R" and m: "keeps R m" and f: "\<And>x. keeps R (f x)"
  shows "keeps R (sbind m f)"
proof (rule keepsI)
  fix w r w'
  assume step: "sbind m f w = (r, w')"
  obtain r1 w1 where m1: "m w = (r1, w1)" by fastforce
  with m have 1: "R w w1" by (rule keepsD)
  show "R w w'"
  proof (cases r1)
    case (Inl e)
    with step m1 1 show ?thesis by (simp add: sbind_def)
  next
    case (Inr x)
    with step m1 have "f x w1 = (r, w')" by (simp add: sbind_def)
    with f have "R w1 w'" by (rule keepsD)
    with 1 R show ?thesis by (auto simp: preorder_rel_def elim: transpE)
  qed
qed

lemma keeps_scatch [keeps_intro]:
  assumes R: "preorder_rel R" and m: "keeps R m" and h: "\<And>e. keeps R (h e)"
  shows "keeps R (scatch p h m)"
proof (rule keepsI)
  fix w r w'
  assume step: "scatch p h m w = (r, w')"
  obtain r1 w1 where m1: "m w = (r1, w1)" by fastforce
  with m have 1: "R w w1" by (rule keepsD)
  show "R w w'"
  proof (cases "\<exists>e. r1 = Inl e \<and> p e")
    case True
    then obtain e where "r1 = Inl e" "p e" by blast
    with step m1 have "h e w1 = (r, w')" by (simp add: scatch_def)
    with h have "R w1 w'" by (rule keepsD)
    with 1 R show ?thesis by (auto simp: preorder_rel_def elim: transpE)
  next
    case False
    with step m1 1 show ?thesis by (auto simp: scatch_def split: sum.splits if_splits)
  qed
qed

lemma keeps_if [keeps_intro]:
  "(b \<Longrightarrow> keeps R m) \<Longrightarrow> (\<not> b \<Longrightarrow> keeps R m') \<Longrightarrow> keeps R (if b then m else m')"
  by simp

lemma keeps_option [keeps_intro]:
  "(x = None \<Longrightarrow> keeps R m) \<Longrightarrow> (\<And>y. x = Some y \<Longrightarrow> keeps R (f y)) \<Longrightarrow>
     keeps R (case x of None \<Rightarrow> m | Some y \<Rightarrow> f y)"
  by (cases x) auto

lemma keeps_prod [keeps_intro]: "(\<And>a b. x = (a, b) \<Longrightarrow> keeps R (f a b)) \<Longrightarrow> keeps R (case x of (a, b) \<Rightarrow> f a b)"
  by (cases x) auto

lemma keeps_smodify: "(\<And>w. R w (f w)) \<Longrightarrow> keeps R (smodify f)"
  by (simp add: keeps_def smodify_def)

lemma keeps_szoom: "keeps Q m \<Longrightarrow> (\<And>w s. Q (get w) s \<Longrightarrow> R w (put s w)) \<Longrightarrow> keeps R (szoom get put m)"
  by (auto simp: keeps_def szoom_def split: prod.splits) (metis snd_conv)

lemma keeps_mono: "keeps Q m \<Longrightarrow> (\<And>w w'. Q w w' \<Longrightarrow> R w w') \<Longrightarrow> keeps R m"
  by (auto simp: keeps_def)

section \<open>Interface: a codec\<close>

text \<open>
  An encoder and a decoder under an environment \<open>E\<close>, where \<open>ok E\<close> says that the environment
  obeys its documentation. The encoder may first bring a value into the normal form \<open>norm\<close>; the
  decoder refuses everything the encoder would not have written.
\<close>

locale codec =
  fixes ok :: "'e \<Rightarrow> bool"
    and enc :: "'e \<Rightarrow> 'a \<Rightarrow> 'b res"
    and dec :: "'e \<Rightarrow> 'b \<Rightarrow> 'a res"
    and norm :: "'e \<Rightarrow> 'a \<Rightarrow> 'a"
  assumes dec_enc: "ok E \<Longrightarrow> enc E x = Inr y \<Longrightarrow> dec E y = Inr (norm E x)"
    and enc_dec: "dec E y = Inr x \<Longrightarrow> enc E x = Inr y"
begin

lemma enc_norm: "ok E \<Longrightarrow> enc E x = Inr y \<Longrightarrow> enc E (norm E x) = Inr y"
  by (rule enc_dec) (rule dec_enc)

lemma norm_dec: "ok E \<Longrightarrow> dec E y = Inr x \<Longrightarrow> norm E x = x"
  using dec_enc enc_dec by (metis sum.inject(2))

lemma dec_inject: "dec E y = Inr x \<Longrightarrow> dec E y' = Inr x \<Longrightarrow> y = y'"
  using enc_dec by (metis sum.inject(2))

lemma enc_inject: "ok E \<Longrightarrow> enc E x = Inr y \<Longrightarrow> enc E x' = Inr y \<Longrightarrow> norm E x = norm E x'"
  using dec_enc by (metis sum.inject(2))

lemma dec_iff: "ok E \<Longrightarrow> dec E y = Inr x \<longleftrightarrow> enc E x = Inr y \<and> norm E x = x"
  using dec_enc enc_dec norm_dec by metis

end

text \<open>Evaluation rules for the concrete inputs of the witnesses.\<close>

named_theorems eval_simps \<open>unfolding the model on a concrete input\<close>

declare U_def [eval_simps] char_of_eq_iff [eval_simps] int_str_def [eval_simps]
  nat_digits.simps [eval_simps] rmap_def [eval_simps]

end
