(* ===== verification/Utf8.thy ===== *)
theory Utf8
  imports Prelude
begin

text \<open>
  The two codecs the kernel takes from the standard library as strict inverses of each other:
  UTF-8 (\<^verbatim>\<open>str.encode("utf-8", "strict")\<close>, \<^verbatim>\<open>bytes.decode("utf-8", "strict")\<close>) and the
  lower-case hexadecimal of \<^verbatim>\<open>hexdigest()\<close>. Encoding fails on a surrogate, decoding on
  overlong forms, encoded surrogates and anything above U+10FFFF.
\<close>

section \<open>UTF-8\<close>

definition is_surrogate :: "nat \<Rightarrow> bool" where
  "is_surrogate c \<longleftrightarrow> 0xD800 \<le> c \<and> c \<le> 0xDFFF"

definition is_scalar :: "nat \<Rightarrow> bool" where
  "is_scalar c \<longleftrightarrow> c \<le> 0x10FFFF \<and> \<not> is_surrogate c"

definition utf8_char :: "nat \<Rightarrow> bytes" where
  "utf8_char c =
     (if c < 0x80 then [char_of c]
      else if c < 0x800 then [char_of (0xC0 + c div 64), char_of (0x80 + c mod 64)]
      else if c < 0x10000 then
        [char_of (0xE0 + c div 4096), char_of (0x80 + c div 64 mod 64), char_of (0x80 + c mod 64)]
      else
        [char_of (0xF0 + c div 262144), char_of (0x80 + c div 4096 mod 64),
         char_of (0x80 + c div 64 mod 64), char_of (0x80 + c mod 64)])"

definition utf8_encode :: "ustr \<Rightarrow> bytes res" where
  "utf8_encode s =
     (if list_all is_scalar s then Inr (concat (map utf8_char s))
      else Inl (Exn UnicodeError ''utf-8''))"

definition is_cont :: "char \<Rightarrow> bool" where
  "is_cont b \<longleftrightarrow> 0x80 \<le> (of_char b :: nat) \<and> (of_char b :: nat) < 0xC0"

definition cont_bits :: "char \<Rightarrow> nat" where
  "cont_bits b = of_char b - 0x80"

text \<open>One code point from the front of a byte string, with the rest.\<close>

definition utf8_next :: "bytes \<Rightarrow> (nat \<times> bytes) option" where
  "utf8_next bs = (case bs of [] \<Rightarrow> None | b0 # r0 \<Rightarrow>
     (let n = of_char b0 :: nat in
      if n < 0x80 then Some (n, r0)
      else if 0xC2 \<le> n \<and> n < 0xE0 then
        (case r0 of b1 # r1 \<Rightarrow>
           if is_cont b1 then Some ((n - 0xC0) * 64 + cont_bits b1, r1) else None
         | _ \<Rightarrow> None)
      else if 0xE0 \<le> n \<and> n < 0xF0 then
        (case r0 of b1 # b2 # r2 \<Rightarrow>
           (let c = (n - 0xE0) * 4096 + cont_bits b1 * 64 + cont_bits b2 in
            if is_cont b1 \<and> is_cont b2 \<and> 0x800 \<le> c \<and> \<not> is_surrogate c then Some (c, r2)
            else None)
         | _ \<Rightarrow> None)
      else if 0xF0 \<le> n \<and> n < 0xF5 then
        (case r0 of b1 # b2 # b3 # r3 \<Rightarrow>
           (let c = (n - 0xF0) * 262144 + cont_bits b1 * 4096 + cont_bits b2 * 64 + cont_bits b3 in
            if is_cont b1 \<and> is_cont b2 \<and> is_cont b3 \<and> 0x10000 \<le> c \<and> c \<le> 0x10FFFF
            then Some (c, r3) else None)
         | _ \<Rightarrow> None)
      else None))"

lemma utf8_next_shorter: "utf8_next bs = Some (c, r) \<Longrightarrow> length r < length bs"
  by (auto simp: utf8_next_def Let_def split: list.splits if_splits)

function utf8_decode_opt :: "bytes \<Rightarrow> ustr option" where
  "utf8_decode_opt bs =
     (if bs = [] then Some []
      else case utf8_next bs of None \<Rightarrow> None
           | Some (c, r) \<Rightarrow> map_option (Cons c) (utf8_decode_opt r))"
  by pat_completeness auto
termination
  by (relation "measure length") (auto dest: utf8_next_shorter)

declare utf8_decode_opt.simps [simp del]

definition utf8_decode :: "bytes \<Rightarrow> ustr res" where
  "utf8_decode bs = (case utf8_decode_opt bs of None \<Rightarrow> Inl (Exn UnicodeError ''utf-8'') | Some s \<Rightarrow> Inr s)"

lemma utf8_decode_opt_Nil [simp]: "utf8_decode_opt [] = Some []"
  by (simp add: utf8_decode_opt.simps)

lemma utf8_char_not_Nil [simp]: "utf8_char c \<noteq> []"
  by (simp add: utf8_char_def)

lemma cont_char [simp]:
  "m < 64 \<Longrightarrow> is_cont (char_of (0x80 + m :: nat))"
  "m < 64 \<Longrightarrow> cont_bits (char_of (0x80 + m :: nat)) = m"
  by (simp_all add: is_cont_def cont_bits_def)

lemma div_mod_64: "b < 64 \<Longrightarrow> (a * 64 + b) div 64 = a \<and> (a * 64 + b) mod 64 = (b :: nat)"
  by simp

lemma utf8_char_2:
  assumes "2 \<le> x" "x < 32" "y < 64"
  shows "utf8_char (x * 64 + y) = [char_of (0xC0 + x), char_of (0x80 + y)]"
proof -
  have "(x * 64 + y) div 64 = x" "(x * 64 + y) mod 64 = y" using assms by simp_all
  moreover have "\<not> x * 64 + y < 128" "x * 64 + y < 2048" using assms by linarith+
  ultimately show ?thesis by (simp add: utf8_char_def)
qed

lemma utf8_char_3:
  assumes "0x800 \<le> x * 4096 + y * 64 + z" "x < 16" "y < 64" "z < 64"
  shows "utf8_char (x * 4096 + y * 64 + z) = [char_of (0xE0 + x), char_of (0x80 + y), char_of (0x80 + z)]"
proof -
  let ?c = "x * 4096 + y * 64 + z"
  have c: "?c = (x * 64 + y) * 64 + z" by simp
  have "?c mod 64 = z" "?c div 64 = x * 64 + y"
    unfolding c using div_mod_64 [OF assms(4)] by blast+
  moreover have "?c div 4096 = ?c div 64 div 64" by (simp add: div_mult2_eq [symmetric])
  moreover have "(x * 64 + y) div 64 = x" "(x * 64 + y) mod 64 = y" using assms(3) by simp_all
  moreover have "\<not> ?c < 128" "\<not> ?c < 2048" "?c < 65536" using assms by linarith+
  ultimately show ?thesis unfolding utf8_char_def by simp
qed

lemma utf8_char_4:
  assumes "0x10000 \<le> x * 262144 + y * 4096 + z * 64 + u" "y < 64" "z < 64" "u < 64"
  shows "utf8_char (x * 262144 + y * 4096 + z * 64 + u) =
    [char_of (0xF0 + x), char_of (0x80 + y), char_of (0x80 + z), char_of (0x80 + u)]"
proof -
  let ?c = "x * 262144 + y * 4096 + z * 64 + u"
  have c: "?c = ((x * 64 + y) * 64 + z) * 64 + u" by simp
  have "?c mod 64 = u" "?c div 64 = (x * 64 + y) * 64 + z"
    unfolding c using div_mod_64 [OF assms(4)] by blast+
  moreover have "?c div 4096 = ?c div 64 div 64" "?c div 262144 = ?c div 64 div 64 div 64"
    by (simp_all add: div_mult2_eq [symmetric])
  moreover have "((x * 64 + y) * 64 + z) div 64 = x * 64 + y" "((x * 64 + y) * 64 + z) mod 64 = z"
    "(x * 64 + y) div 64 = x" "(x * 64 + y) mod 64 = y"
    using div_mod_64 [OF assms(3)] div_mod_64 [OF assms(2)] by blast+
  moreover have "\<not> ?c < 128" "\<not> ?c < 2048" "\<not> ?c < 65536" using assms by linarith+
  ultimately show ?thesis unfolding utf8_char_def by simp
qed

lemma split_64: fixes c :: nat obtains x y where "c = x * 64 + y" "y < 64"
  by (rule that [of "c div 64" "c mod 64"]) simp_all

lemma utf8_next_char:
  assumes "is_scalar c"
  shows "utf8_next (utf8_char c @ r) = Some (c, r)"
proof -
  consider "c < 0x80" | "0x80 \<le> c" "c < 0x800" | "0x800 \<le> c" "c < 0x10000"
    | "0x10000 \<le> c" "c \<le> 0x10FFFF"
    using assms unfolding is_scalar_def by linarith
  then show ?thesis
  proof cases
    case 1
    then show ?thesis by (simp add: utf8_char_def utf8_next_def)
  next
    case 2
    obtain x y where c: "c = x * 64 + y" and y: "y < 64" by (rule split_64)
    from 2 y have x: "2 \<le> x" "x < 32" unfolding c by linarith+
    with y utf8_char_2 [OF x y] show ?thesis by (simp add: utf8_next_def Let_def c)
  next
    case 3
    obtain w z where w: "c = w * 64 + z" and z: "z < 64" by (rule split_64)
    obtain x y where x: "w = x * 64 + y" and y: "y < 64" by (rule split_64)
    have c: "c = x * 4096 + y * 64 + z" by (simp add: w x)
    from 3 z y have xb: "x < 16" "0x800 \<le> x * 4096 + y * 64 + z" unfolding c by linarith+
    have "\<not> is_surrogate c" using assms by (simp add: is_scalar_def)
    with y z xb utf8_char_3 [OF xb(2) xb(1) y z] show ?thesis
      by (simp add: utf8_next_def Let_def c)
  next
    case 4
    obtain w u where w: "c = w * 64 + u" and u: "u < 64" by (rule split_64)
    obtain v z where v: "w = v * 64 + z" and z: "z < 64" by (rule split_64)
    obtain x y where x: "v = x * 64 + y" and y: "y < 64" by (rule split_64)
    have c: "c = x * 262144 + y * 4096 + z * 64 + u" by (simp add: w v x)
    from 4 z y u have xb: "x < 5" "0x10000 \<le> x * 262144 + y * 4096 + z * 64 + u"
      unfolding c by linarith+
    with 4 y z u utf8_char_4 [OF xb(2) y z u] show ?thesis
      by (simp add: utf8_next_def Let_def c)
  qed
qed

lemma is_contD: "is_cont b \<Longrightarrow> cont_bits b < 64 \<and> char_of (0x80 + cont_bits b) = b"
  by (auto simp: is_cont_def cont_bits_def)

lemma utf8_next_SomeD:
  assumes "utf8_next bs = Some (c, r)"
  shows "is_scalar c \<and> bs = utf8_char c @ r"
proof -
  from assms obtain b0 r0 where bs: "bs = b0 # r0"
    by (auto simp: utf8_next_def split: list.splits)
  define n :: nat where "n = of_char b0"
  have b0: "char_of n = b0" by (simp add: n_def)
  note unf = assms [unfolded utf8_next_def bs list.case Let_def, folded n_def]
  consider "n < 0x80" | "0xC2 \<le> n" "n < 0xE0" | "0xE0 \<le> n" "n < 0xF0" | "0xF0 \<le> n" "n < 0xF5"
    using unf by (auto split: if_splits)
  then show ?thesis
  proof cases
    case 1
    with unf b0 bs show ?thesis by (auto simp: utf8_char_def is_scalar_def is_surrogate_def)
  next
    case 2
    with unf obtain b1 where b1: "r0 = b1 # r" "is_cont b1" "c = (n - 0xC0) * 64 + cont_bits b1"
      by (auto split: list.splits if_splits)
    from 2 have "2 \<le> n - 0xC0" "n - 0xC0 < 32" "0xC0 + (n - 0xC0) = n" by auto
    with b1 bs b0 is_contD [OF b1(2)] utf8_char_2 [of "n - 0xC0" "cont_bits b1"]
    show ?thesis by (auto simp: is_scalar_def is_surrogate_def)
  next
    case 3
    with unf obtain b1 b2 where b: "r0 = b1 # b2 # r" "is_cont b1" "is_cont b2"
      "c = (n - 0xE0) * 4096 + cont_bits b1 * 64 + cont_bits b2" "0x800 \<le> c" "\<not> is_surrogate c"
      by (auto split: list.splits if_splits)
    from 3 have n: "n - 0xE0 < 16" "0xE0 + (n - 0xE0) = n" by auto
    note cb = is_contD [OF b(2)] is_contD [OF b(3)]
    have "c \<le> 0x10FFFF" using b(4) n cb by linarith
    with b bs b0 n cb utf8_char_3 [of "n - 0xE0" "cont_bits b1" "cont_bits b2"]
    show ?thesis by (simp add: is_scalar_def)
  next
    case 4
    with unf obtain b1 b2 b3 where b: "r0 = b1 # b2 # b3 # r" "is_cont b1" "is_cont b2" "is_cont b3"
      "c = (n - 0xF0) * 262144 + cont_bits b1 * 4096 + cont_bits b2 * 64 + cont_bits b3"
      "0x10000 \<le> c" "c \<le> 0x10FFFF"
      by (auto split: list.splits if_splits)
    from 4 have n: "0xF0 + (n - 0xF0) = n" by auto
    note cb = is_contD [OF b(2)] is_contD [OF b(3)] is_contD [OF b(4)]
    from b bs b0 n cb utf8_char_4 [of "n - 0xF0" "cont_bits b1" "cont_bits b2" "cont_bits b3"]
    show ?thesis by (simp add: is_scalar_def is_surrogate_def)
  qed
qed

lemma utf8_decode_encode_opt:
  "list_all is_scalar s \<Longrightarrow> utf8_decode_opt (concat (map utf8_char s)) = Some s"
proof (induction s)
  case Nil
  show ?case by simp
next
  case (Cons c s)
  then show ?case by (simp add: utf8_decode_opt.simps utf8_next_char)
qed

lemma utf8_decode_optD:
  "utf8_decode_opt bs = Some s \<Longrightarrow> list_all is_scalar s \<and> concat (map utf8_char s) = bs"
proof (induction bs arbitrary: s rule: utf8_decode_opt.induct)
  case (1 bs)
  show ?case
  proof (cases "bs = []")
    case True
    with "1.prems" show ?thesis by simp
  next
    case False
    with "1.prems" obtain c r t where cr: "utf8_next bs = Some (c, r)"
      and t: "utf8_decode_opt r = Some t" and s: "s = c # t"
      by (auto simp: utf8_decode_opt.simps [of bs] split: option.splits)
    from "1.IH" [OF False cr _ t] utf8_next_SomeD [OF cr] s show ?thesis by simp
  qed
qed

text \<open>Strict UTF-8 is a bijection between scalar strings and the byte strings that decode.\<close>

lemma utf8_decode_encode: "utf8_encode s = Inr bs \<Longrightarrow> utf8_decode bs = Inr s"
  by (auto simp: utf8_encode_def utf8_decode_def utf8_decode_encode_opt split: if_splits)

lemma utf8_encode_decode: "utf8_decode bs = Inr s \<Longrightarrow> utf8_encode s = Inr bs"
  by (auto simp: utf8_encode_def utf8_decode_def split: option.splits dest!: utf8_decode_optD)

end
