(* ===== verification/Platform.thy ===== *)
theory Platform
  imports Utf8
begin

text \<open>
  What the program takes from outside the repository as a black box: SHA-256, Unicode
  normalization form C and the Ed25519 primitives of the \<^verbatim>\<open>cryptography\<close> package. They are a
  parameter of every definition that reaches them; \<open>platform_ok\<close> states the documented facts the
  code relies on. No collision resistance or unforgeability is assumed: where these matter, the
  theorems name the two colliding strings of the run (\<open>collides\<close>) or exhibit the signature.
\<close>

record platform =
  sha256 :: "bytes \<Rightarrow> bytes"
  nfc :: "ustr \<Rightarrow> ustr"
  ed_public :: "bytes \<Rightarrow> bytes"
  ed_sign :: "bytes \<Rightarrow> bytes \<Rightarrow> bytes"
  ed_verify :: "bytes \<Rightarrow> bytes \<Rightarrow> bytes \<Rightarrow> bool"

definition platform_ok :: "platform \<Rightarrow> bool" where
  "platform_ok E \<longleftrightarrow>
     (\<forall>b. length (sha256 E b) = 32)
   \<and> (\<forall>s. nfc E (nfc E s) = nfc E s)
   \<and> (\<forall>s. (\<forall>c \<in> set s. c < 128) \<longrightarrow> nfc E s = s)
   \<and> (\<forall>s. nfc E s = [] \<longrightarrow> s = [])
   \<and> (\<forall>k. length (ed_public E k) = 32)
   \<and> (\<forall>k m. length (ed_sign E k m) = 64)
   \<and> (\<forall>k m. ed_verify E (ed_public E k) m (ed_sign E k m))"

lemma platform_okD:
  assumes "platform_ok E"
  shows "length (sha256 E b) = 32" and "nfc E (nfc E s) = nfc E s"
    and "(\<And>c. c \<in> set s \<Longrightarrow> c < 128) \<Longrightarrow> nfc E s = s"
    and "length (ed_public E k) = 32" and "length (ed_sign E k m) = 64"
    and "ed_verify E (ed_public E k) m (ed_sign E k m)"
    and "nfc E s = [] \<longleftrightarrow> s = []"
  using assms by (auto simp add: platform_ok_def)

text \<open>
  A concrete platform on which witnesses compute. Its hash keeps a length and two running sums
  and its signature repeats the hash under the key; neither is secure, both satisfy the laws.
\<close>

definition demo_hash :: "bytes \<Rightarrow> bytes" where
  "demo_hash b =
     (let s = foldl (\<lambda>a c. (a * 31 + of_char c) mod 65521) (7 :: nat) b in
      [char_of (s div 256), char_of (s mod 256), char_of (length b div 256), char_of (length b mod 256)]
      @ replicate 28 CHR 0x2A)"

definition demo_platform :: platform where
  "demo_platform = \<lparr>sha256 = demo_hash, nfc = id, ed_public = demo_hash,
     ed_sign = (\<lambda>k m. demo_hash k @ demo_hash m),
     ed_verify = (\<lambda>p m s. s = p @ demo_hash m)\<rparr>"

lemma length_demo_hash [simp]: "length (demo_hash b) = 32"
  by (simp add: demo_hash_def Let_def)

lemma platform_ok_demo: "platform_ok demo_platform"
  by (simp add: platform_ok_def demo_platform_def)

section \<open>Hexadecimal digests\<close>

definition hex_char :: "nat \<Rightarrow> nat" where
  "hex_char n = (if n < 10 then 48 + n else 87 + n)"

definition hex_of_bytes :: "bytes \<Rightarrow> ustr" where
  "hex_of_bytes bs = concat (map (\<lambda>b. [hex_char (of_char b div 16), hex_char (of_char b mod 16)]) bs)"

text \<open>\<^verbatim>\<open>hashlib.sha256(data).hexdigest()\<close>\<close>

definition sha256_hex :: "platform \<Rightarrow> bytes \<Rightarrow> ustr" where
  "sha256_hex E data = hex_of_bytes (sha256 E data)"

text \<open>\<^verbatim>\<open>re.fullmatch(r"[0-9a-f]{n}", s)\<close>\<close>

definition is_hex :: "nat \<Rightarrow> bool" where
  "is_hex c \<longleftrightarrow> (48 \<le> c \<and> c \<le> 57) \<or> (97 \<le> c \<and> c \<le> 102)"

definition hex_match :: "nat \<Rightarrow> ustr \<Rightarrow> bool" where
  "hex_match n s \<longleftrightarrow> length s = n \<and> list_all is_hex s"

lemma is_hex_char: "n < 16 \<Longrightarrow> is_hex (hex_char n)"
  by (auto simp: is_hex_def hex_char_def)

lemma hex_char_inj: "m < 16 \<Longrightarrow> n < 16 \<Longrightarrow> hex_char m = hex_char n \<longleftrightarrow> m = n"
  by (auto simp: hex_char_def)

lemma length_hex_of_bytes [simp]: "length (hex_of_bytes bs) = 2 * length bs"
  by (induction bs) (simp_all add: hex_of_bytes_def)

lemma hex_of_bytes_is_hex: "list_all is_hex (hex_of_bytes bs)"
proof (induction bs)
  case (Cons b bs)
  have "(of_char b :: nat) div 16 < 16" by (simp add: less_mult_imp_div_less)
  with Cons show ?case by (simp add: hex_of_bytes_def is_hex_char)
qed (simp add: hex_of_bytes_def)

lemma hex_of_bytes_inject: "hex_of_bytes a = hex_of_bytes b \<longleftrightarrow> a = b"
proof
  show "hex_of_bytes a = hex_of_bytes b \<Longrightarrow> a = b"
  proof (induction a arbitrary: b)
    case Nil
    then show ?case by (cases b) (simp_all add: hex_of_bytes_def)
  next
    case (Cons x a)
    then obtain y c where b: "b = y # c" by (cases b) (simp_all add: hex_of_bytes_def)
    let ?x = "of_char x :: nat" and ?y = "of_char y :: nat"
    have "?x div 16 < 16" "?y div 16 < 16" by (simp_all add: less_mult_imp_div_less)
    with Cons.prems b have "?x div 16 = ?y div 16" "?x mod 16 = ?y mod 16"
      and eq: "hex_of_bytes a = hex_of_bytes c"
      by (simp_all add: hex_of_bytes_def hex_char_inj)
    then have "?x = ?y" by (metis div_mult_mod_eq)
    with Cons.IH [OF eq] b show ?case by simp
  qed
qed simp

lemma sha256_hex_match: "platform_ok E \<Longrightarrow> hex_match 64 (sha256_hex E b)"
  by (simp add: hex_match_def sha256_hex_def hex_of_bytes_is_hex platform_okD)

lemma sha256_hex_eq_iff: "sha256_hex E a = sha256_hex E b \<longleftrightarrow> sha256 E a = sha256 E b"
  by (simp add: sha256_hex_def hex_of_bytes_inject)

text \<open>
  Two given strings that differ and have one digest. Digests have a fixed length, so some such pair
  exists; what a forger would have to produce is this pair, and a theorem that ends in a collision
  says which strings of the run it is made of.
\<close>

definition collides :: "platform \<Rightarrow> bytes \<Rightarrow> bytes \<Rightarrow> bool" where
  "collides E a b \<longleftrightarrow> a \<noteq> b \<and> sha256 E a = sha256 E b"

lemma same_digest: "sha256_hex E a = sha256_hex E b \<longleftrightarrow> a = b \<or> collides E a b"
  by (auto simp: collides_def sha256_hex_eq_iff)

end
