(* ===== verification/Pyval.thy ===== *)
theory Pyval
  imports Prelude "HOL-Library.AList"
begin

text \<open>
  The dynamically typed values the kernel passes around: what \<^verbatim>\<open>json.loads\<close> returns and
  what callers may put in \<^verbatim>\<open>parameters\<close>. A dictionary is the list of its items in
  insertion order. \<open>POther\<close> stands for a value of any type the code never accepts (floats,
  tuples, bytes, objects), \<open>KOther\<close> for a dictionary key that is not a string; both carry the
  type's name, which is all the code reads of them.
\<close>

datatype pykey = KStr ustr | KOther string

datatype pyval =
    PNone | PBool bool | PInt int | PStr ustr
  | PList "pyval list"
  | PDict "(pykey \<times> pyval) list"
  | POther string

type_synonym pydict = "(pykey \<times> pyval) list"

section \<open>Dictionaries\<close>

definition kw :: "string \<Rightarrow> pykey" where
  "kw k = KStr (U k)"

lemma kw_eq_iff [simp]: "kw a = kw b \<longleftrightarrow> a = b"
  by (simp add: kw_def)

definition mk_dict :: "(string \<times> pyval) list \<Rightarrow> pydict" where
  "mk_dict xs = map (\<lambda>(k, v). (kw k, v)) xs"

lemma mk_dict_simps [simp]:
  "mk_dict [] = []" "mk_dict ((k, v) # xs) = (kw k, v) # mk_dict xs"
  by (simp_all add: mk_dict_def)

definition pstr :: "string \<Rightarrow> pyval" where
  "pstr s = PStr (U s)"

lemma pstr_eq_iff [simp]: "pstr a = pstr b \<longleftrightarrow> a = b"
  by (simp add: pstr_def)

lemma pstr_distinct [simp]:
  "pstr a \<noteq> PNone" "pstr a \<noteq> PBool b" "pstr a \<noteq> PInt i" "pstr a \<noteq> PList xs" "pstr a \<noteq> PDict d"
  "PNone \<noteq> pstr a" "PBool b \<noteq> pstr a" "PInt i \<noteq> pstr a" "PList xs \<noteq> pstr a" "PDict d \<noteq> pstr a"
  by (simp_all add: pstr_def)

text \<open>\<^verbatim>\<open>d.get(k)\<close>; \<^verbatim>\<open>d[k]\<close> for a key that was checked before; \<^verbatim>\<open>d[k] = v\<close>;
  \<^verbatim>\<open>d.pop(k)\<close>; \<^verbatim>\<open>set(d) == {...}\<close>.\<close>

definition dget :: "pydict \<Rightarrow> string \<Rightarrow> pyval option" where
  "dget d k = map_of d (kw k)"

definition dval :: "pydict \<Rightarrow> string \<Rightarrow> pyval" where
  "dval d k = (case dget d k of None \<Rightarrow> PNone | Some v \<Rightarrow> v)"

definition dset :: "pydict \<Rightarrow> string \<Rightarrow> pyval \<Rightarrow> pydict" where
  "dset d k v = AList.update (kw k) v d"

definition dpop :: "pydict \<Rightarrow> string \<Rightarrow> pydict" where
  "dpop d k = filter (\<lambda>kv. fst kv \<noteq> kw k) d"

definition has_keys :: "pydict \<Rightarrow> string list \<Rightarrow> bool" where
  "has_keys d ks \<longleftrightarrow>
     list_all (\<lambda>kv. list_ex (\<lambda>k. fst kv = kw k) ks) d \<and> list_all (\<lambda>k. dget d k \<noteq> None) ks"

lemma has_keys_iff: "has_keys d ks \<longleftrightarrow> fst ` set d = kw ` set ks"
  by (auto simp: has_keys_def list_all_iff list_ex_iff dget_def map_of_eq_None_iff image_iff)

lemma has_keys_dget: "has_keys d ks \<Longrightarrow> k \<in> set ks \<Longrightarrow> \<exists>v. dget d k = Some v"
  by (auto simp: has_keys_def list_all_iff)

lemma dget_Nil [simp]: "dget [] k = None"
  by (simp add: dget_def)

lemma dget_Cons [simp]: "dget ((kw k', v) # d) k = (if k = k' then Some v else dget d k)"
  by (auto simp: dget_def)

lemma dval_Cons [simp]: "dval ((kw k', v) # d) k = (if k = k' then v else dval d k)"
  by (auto simp: dval_def)

lemma dget_eq_dval: "dget d k = Some v \<Longrightarrow> dval d k = v"
  by (simp add: dval_def)

lemma dget_dset [simp]: "dget (dset d k v) k' = (if k' = k then Some v else dget d k')"
  by (auto simp: dget_def dset_def update_conv')

lemma dget_dpop [simp]: "dget (dpop d k) k' = (if k' = k then None else dget d k')"
  by (induction d) (auto simp: dget_def dpop_def)

lemma dset_new: "dget d k = None \<Longrightarrow> dset d k v = d @ [(kw k, v)]"
  by (induction d) (auto simp: dget_def dset_def split: if_splits)

lemma dpop_dset_new: "dget d k = None \<Longrightarrow> dpop (dset d k v) k = d"
  by (induction d) (auto simp: dget_def dset_def dpop_def split: if_splits)

section \<open>Comparisons with the constants of the code\<close>

text \<open>\<^verbatim>\<open>v == "literal"\<close> and \<^verbatim>\<open>v == n\<close>; a bool equals the integers 0 and 1.\<close>

definition py_is_str :: "pyval \<Rightarrow> string \<Rightarrow> bool" where
  "py_is_str v s \<longleftrightarrow> v = pstr s"

definition py_eq_str :: "pyval \<Rightarrow> ustr \<Rightarrow> bool" where
  "py_eq_str v s \<longleftrightarrow> v = PStr s"

definition py_eq_int :: "pyval \<Rightarrow> int \<Rightarrow> bool" where
  "py_eq_int v i = (case v of PInt j \<Rightarrow> j = i | PBool b \<Rightarrow> i = of_bool b | _ \<Rightarrow> False)"

lemma py_eq_int_PInt [simp]: "py_eq_int (PInt j) i \<longleftrightarrow> j = i"
  by (simp add: py_eq_int_def)

text \<open>\<^verbatim>\<open>hash(v)\<close> works for everything but lists and dictionaries.\<close>

definition hashable :: "pyval \<Rightarrow> bool" where
  "hashable v = (case v of PList _ \<Rightarrow> False | PDict _ \<Rightarrow> False | _ \<Rightarrow> True)"

text \<open>A match on the type of a value keeps what every branch keeps.\<close>

lemma keeps_pyval [keeps_intro]:
  assumes "v = PNone \<Longrightarrow> keeps R a" "\<And>x. v = PBool x \<Longrightarrow> keeps R (b x)" "\<And>x. v = PInt x \<Longrightarrow> keeps R (c x)"
    "\<And>x. v = PStr x \<Longrightarrow> keeps R (d x)" "\<And>x. v = PList x \<Longrightarrow> keeps R (e x)"
    "\<And>x. v = PDict x \<Longrightarrow> keeps R (f x)" "\<And>x. v = POther x \<Longrightarrow> keeps R (g x)"
  shows "keeps R (case v of PNone \<Rightarrow> a | PBool x \<Rightarrow> b x | PInt x \<Rightarrow> c x | PStr x \<Rightarrow> d x | PList x \<Rightarrow> e x
    | PDict x \<Rightarrow> f x | POther x \<Rightarrow> g x)"
  using assms by (cases v) auto

end
