(* ===== verification/Json.thy ===== *)
theory Json
  imports Pyval
begin

text \<open>
  The part of the standard library's \<^verbatim>\<open>json\<close> module that the kernel calls: the compact
  \<^verbatim>\<open>dumps(\<dots>, ensure_ascii=False, separators=(",", ":"), sort_keys=True)\<close> and \<^verbatim>\<open>loads\<close>
  with the hooks \<^verbatim>\<open>parse_float\<close>, \<^verbatim>\<open>parse_constant\<close> and \<^verbatim>\<open>object_pairs_hook\<close>. The parser
  spends fuel; \<open>jvalue_fuel\<close> shows that twice the length of the text is always enough.
\<close>

section \<open>Writing\<close>

definition hex_digit :: "nat \<Rightarrow> nat" where
  "hex_digit n = (if n < 10 then 48 + n else 87 + n)"

definition esc_char :: "nat \<Rightarrow> ustr" where
  "esc_char c =
     (if c = 34 then [92, 34] else if c = 92 then [92, 92]
      else if c = 10 then [92, 110] else if c = 13 then [92, 114] else if c = 9 then [92, 116]
      else if c = 12 then [92, 102] else if c = 8 then [92, 98]
      else if c < 32 then [92, 117, 48, 48, hex_digit (c div 16), hex_digit (c mod 16)]
      else [c])"

definition json_str :: "ustr \<Rightarrow> ustr" where
  "json_str s = 34 # concat (map esc_char s) @ [34]"

fun key_str :: "pykey \<Rightarrow> ustr" where
  "key_str (KStr s) = s"
| "key_str (KOther t) = U t"

text \<open>
  The kernel validates before it dumps, so neither \<open>POther\<close> nor \<open>KOther\<close> ever reaches \<open>dumps\<close>
  (\<open>validate_json_ok\<close> in the theory of \<^verbatim>\<open>canonical.py\<close>); their equations only make the
  function total.
\<close>

fun dumps :: "pyval \<Rightarrow> ustr"
and dumps_elems :: "pyval list \<Rightarrow> ustr"
and dumps_members :: "pydict \<Rightarrow> ustr" where
  "dumps PNone = U ''null''"
| "dumps (PBool b) = (if b then U ''true'' else U ''false'')"
| "dumps (PInt i) = int_str i"
| "dumps (PStr s) = json_str s"
| "dumps (PList xs) = 91 # dumps_elems xs @ [93]"
| "dumps (PDict d) = 123 # dumps_members d @ [125]"
| "dumps (POther t) = []"
| "dumps_elems [] = []"
| "dumps_elems (x # xs) = dumps x @ (if xs = [] then [] else 44 # dumps_elems xs)"
| "dumps_members [] = []"
| "dumps_members ((k, x) # d) =
     json_str (key_str k) @ 58 # dumps x @ (if d = [] then [] else 44 # dumps_members d)"

text \<open>\<^verbatim>\<open>sort_keys=True\<close>: the items of every dictionary by key, in code point order.\<close>

fun sort_keys :: "pyval \<Rightarrow> pyval" where
  "sort_keys (PList xs) = PList (map sort_keys xs)"
| "sort_keys (PDict d) =
     PDict (sort_key (\<lambda>kv. key_str (fst kv)) (map (\<lambda>(k, v). (k, sort_keys v)) d))"
| "sort_keys v = v"

section \<open>Reading\<close>

record jhooks =
  on_float :: "ustr \<Rightarrow> pyval res"
  on_const :: "ustr \<Rightarrow> pyval res"
  on_pairs :: "(ustr \<times> pyval) list \<Rightarrow> pyval res"

definition jerr :: "'a res" where
  "jerr = Inl (Exn JSONDecodeError ''json'')"

definition is_ws :: "nat \<Rightarrow> bool" where
  "is_ws c \<longleftrightarrow> c = 32 \<or> c = 9 \<or> c = 10 \<or> c = 13"

definition skip_ws :: "ustr \<Rightarrow> ustr" where
  "skip_ws s = dropWhile is_ws s"

definition is_digit :: "nat \<Rightarrow> bool" where
  "is_digit c \<longleftrightarrow> 48 \<le> c \<and> c \<le> 57"

definition hex_val :: "nat \<Rightarrow> nat option" where
  "hex_val c =
     (if 48 \<le> c \<and> c \<le> 57 then Some (c - 48)
      else if 97 \<le> c \<and> c \<le> 102 then Some (c - 87)
      else if 65 \<le> c \<and> c \<le> 70 then Some (c - 55) else None)"

definition hex4 :: "ustr \<Rightarrow> (nat \<times> ustr) option" where
  "hex4 s = (case s of a # b # c # d # r \<Rightarrow>
       (case (hex_val a, hex_val b, hex_val c, hex_val d) of
          (Some x, Some y, Some z, Some u) \<Rightarrow> Some (((x * 16 + y) * 16 + z) * 16 + u, r)
        | _ \<Rightarrow> None)
     | _ \<Rightarrow> None)"

text \<open>
  After a backslash. A high surrogate followed by an escaped low surrogate is one code point;
  alone it is kept as it is.
\<close>

definition unescape :: "ustr \<Rightarrow> (nat \<times> ustr) option" where
  "unescape s = (case s of [] \<Rightarrow> None | c # r \<Rightarrow>
     (if c = 34 then Some (34, r) else if c = 92 then Some (92, r) else if c = 47 then Some (47, r)
      else if c = 98 then Some (8, r) else if c = 102 then Some (12, r)
      else if c = 110 then Some (10, r) else if c = 114 then Some (13, r)
      else if c = 116 then Some (9, r)
      else if c = 117 then
        (case hex4 r of None \<Rightarrow> None
         | Some (u, r1) \<Rightarrow>
             if 0xD800 \<le> u \<and> u \<le> 0xDBFF \<and> startswith r1 [92, 117] then
               (case hex4 (drop 2 r1) of None \<Rightarrow> None
                | Some (v, r2) \<Rightarrow>
                    if 0xDC00 \<le> v \<and> v \<le> 0xDFFF
                    then Some (0x10000 + (u - 0xD800) * 0x400 + (v - 0xDC00), r2)
                    else Some (u, r1))
             else Some (u, r1))
      else None))"

lemma hex4_shorter: "hex4 s = Some (u, r) \<Longrightarrow> length r < length s"
  by (auto simp: hex4_def split: list.splits option.splits)

lemma unescape_shorter: "unescape s = Some (u, r) \<Longrightarrow> length r < length s"
  by (force simp: unescape_def split: list.splits option.splits if_splits prod.splits dest!: hex4_shorter)

text \<open>The characters of a string, from after its opening quote; strict about control characters.\<close>

function jstring_opt :: "ustr \<Rightarrow> (ustr \<times> ustr) option" where
  "jstring_opt [] = None"
| "jstring_opt (c # r) =
     (if c = 34 then Some ([], r)
      else if c = 92 then
        (case unescape r of None \<Rightarrow> None
         | Some (u, r') \<Rightarrow> map_option (\<lambda>(t, r''). (u # t, r'')) (jstring_opt r'))
      else if c < 32 then None
      else map_option (\<lambda>(t, r''). (c # t, r'')) (jstring_opt r))"
  by pat_completeness auto
termination
  by (relation "measure length") (auto dest!: unescape_shorter)

definition jstring :: "ustr \<Rightarrow> (ustr \<times> ustr) res" where
  "jstring s = (case jstring_opt s of None \<Rightarrow> jerr | Some x \<Rightarrow> Inr x)"

definition digits_val :: "ustr \<Rightarrow> nat" where
  "digits_val ds = foldl (\<lambda>a d. a * 10 + (d - 48)) 0 ds"

text \<open>The fraction and the exponent of a number, when there is one; both must hold a digit.\<close>

definition scan_frac :: "ustr \<Rightarrow> ustr \<times> ustr" where
  "scan_frac s = (case s of c # d # r \<Rightarrow>
       (if c = 46 \<and> is_digit d then (46 # takeWhile is_digit (d # r), dropWhile is_digit (d # r))
        else ([], s))
     | _ \<Rightarrow> ([], s))"

definition scan_exp :: "ustr \<Rightarrow> ustr \<times> ustr" where
  "scan_exp s = (case s of c # r \<Rightarrow>
       (if c = 101 \<or> c = 69 then
          (let sg = (case r of x # _ \<Rightarrow> if x = 43 \<or> x = 45 then [x] else [] | [] \<Rightarrow> []);
               t = drop (length sg) r in
           if takeWhile is_digit t \<noteq> [] then (c # sg @ takeWhile is_digit t, dropWhile is_digit t)
           else ([], s))
        else ([], s))
     | [] \<Rightarrow> ([], s))"

definition max_int_digits :: nat where
  "max_int_digits = 4300"

definition junsigned :: "jhooks \<Rightarrow> bool \<Rightarrow> ustr \<Rightarrow> (pyval \<times> ustr) res" where
  "junsigned H neg t =
     (case t of [] \<Rightarrow> jerr | c # r \<Rightarrow>
        if \<not> is_digit c then jerr
        else
          let ds = (if c = 48 then [48] else c # takeWhile is_digit r);
              rest = (if c = 48 then r else dropWhile is_digit r);
              (frac, r1) = scan_frac rest;
              (expo, r2) = scan_exp r1 in
          if frac = [] \<and> expo = [] then
            (if max_int_digits < length ds
             then Inl (Exn ValueError ''Exceeds the limit for integer string conversion'')
             else Inr (PInt (if neg then - int (digits_val ds) else int (digits_val ds)), rest))
          else rbind (on_float H ((if neg then [45] else []) @ ds @ frac @ expo)) (\<lambda>v. Inr (v, r2)))"

definition jnumber :: "jhooks \<Rightarrow> ustr \<Rightarrow> (pyval \<times> ustr) res" where
  "jnumber H s = (if startswith s [45] then junsigned H True (drop 1 s) else junsigned H False s)"

fun jvalue :: "jhooks \<Rightarrow> nat \<Rightarrow> ustr \<Rightarrow> (pyval \<times> ustr) res"
and jelems :: "jhooks \<Rightarrow> nat \<Rightarrow> ustr \<Rightarrow> (pyval list \<times> ustr) res"
and jmembers :: "jhooks \<Rightarrow> nat \<Rightarrow> ustr \<Rightarrow> ((ustr \<times> pyval) list \<times> ustr) res" where
  "jvalue H 0 s = Inl (Exn OutOfFuel ''json'')"
| "jvalue H (Suc n) s =
     (case s of [] \<Rightarrow> jerr | c # r \<Rightarrow>
        if c = 34 then rbind (jstring r) (\<lambda>(t, r1). Inr (PStr t, r1))
        else if c = 123 then
          (case skip_ws r of [] \<Rightarrow> jerr | c1 # r1 \<Rightarrow>
             if c1 = 125 then rbind (on_pairs H []) (\<lambda>v. Inr (v, r1))
             else rbind (jmembers H n (c1 # r1)) (\<lambda>(ps, r2). rbind (on_pairs H ps) (\<lambda>v. Inr (v, r2))))
        else if c = 91 then
          (case skip_ws r of [] \<Rightarrow> jerr | c1 # r1 \<Rightarrow>
             if c1 = 93 then Inr (PList [], r1)
             else rbind (jelems H n (c1 # r1)) (\<lambda>(xs, r2). Inr (PList xs, r2)))
        else if startswith s (U ''null'') then Inr (PNone, drop 4 s)
        else if startswith s (U ''true'') then Inr (PBool True, drop 4 s)
        else if startswith s (U ''false'') then Inr (PBool False, drop 5 s)
        else if startswith s (U ''NaN'') then rbind (on_const H (U ''NaN'')) (\<lambda>v. Inr (v, drop 3 s))
        else if startswith s (U ''Infinity'') then
          rbind (on_const H (U ''Infinity'')) (\<lambda>v. Inr (v, drop 8 s))
        else if startswith s (U ''-Infinity'') then
          rbind (on_const H (U ''-Infinity'')) (\<lambda>v. Inr (v, drop 9 s))
        else jnumber H s)"
| "jelems H 0 s = Inl (Exn OutOfFuel ''json'')"
| "jelems H (Suc n) s =
     rbind (jvalue H n s) (\<lambda>(v, r1).
       case skip_ws r1 of [] \<Rightarrow> jerr | c # r2 \<Rightarrow>
         if c = 93 then Inr ([v], r2)
         else if c = 44 then rbind (jelems H n (skip_ws r2)) (\<lambda>(vs, r3). Inr (v # vs, r3))
         else jerr)"
| "jmembers H 0 s = Inl (Exn OutOfFuel ''json'')"
| "jmembers H (Suc n) s =
     (case s of [] \<Rightarrow> jerr | q # r \<Rightarrow>
        if q \<noteq> 34 then jerr
        else rbind (jstring r) (\<lambda>(k, r1).
          case skip_ws r1 of [] \<Rightarrow> jerr | c1 # r2 \<Rightarrow>
            if c1 \<noteq> 58 then jerr
            else rbind (jvalue H n (skip_ws r2)) (\<lambda>(v, r3).
              case skip_ws r3 of [] \<Rightarrow> jerr | c3 # r4 \<Rightarrow>
                if c3 = 125 then Inr ([(k, v)], r4)
                else if c3 = 44 then
                  rbind (jmembers H n (skip_ws r4)) (\<lambda>(ps, r5). Inr ((k, v) # ps, r5))
                else jerr)))"

definition loads :: "jhooks \<Rightarrow> ustr \<Rightarrow> pyval res" where
  "loads H s =
     (if startswith s [0xFEFF] then jerr
      else rbind (jvalue H (2 * length s + 2) (skip_ws s)) (\<lambda>(v, r).
        if skip_ws r = [] then Inr v else jerr))"

section \<open>Reading what was written\<close>

text \<open>The values that survive the wire: strings of scalar values, dictionaries with distinct string keys.\<close>

fun key_ok :: "pykey \<Rightarrow> bool" where
  "key_ok (KStr s) = True"
| "key_ok (KOther t) = False"

fun json_ok :: "pyval \<Rightarrow> bool" where
  "json_ok (PInt i) = (\<bar>i\<bar> < 10 ^ max_int_digits)"
| "json_ok (PList xs) = list_all json_ok xs"
| "json_ok (PDict d) = (list_all (\<lambda>(k, v). key_ok k \<and> json_ok v) d \<and> distinct (map fst d))"
| "json_ok (POther t) = False"
| "json_ok v = True"

definition delim :: "ustr \<Rightarrow> bool" where
  "delim s \<longleftrightarrow> (case s of [] \<Rightarrow> True | c # _ \<Rightarrow> c = 10 \<or> c = 44 \<or> c = 93 \<or> c = 125)"

lemma delim_Cons [simp]: "delim (10 # r)" "delim (44 # r)" "delim (93 # r)" "delim (125 # r)" "delim []"
  by (simp_all add: delim_def)

lemma hex_val_digit: "n < 16 \<Longrightarrow> hex_val (hex_digit n) = Some n"
  by (auto simp: hex_val_def hex_digit_def)

lemma unescape_esc:
  "c < 32 \<Longrightarrow> unescape (117 # 48 # 48 # hex_digit (c div 16) # hex_digit (c mod 16) # r) = Some (c, r)"
  using hex_val_digit [of "c div 16"] hex_val_digit [of "c mod 16"]
  by (simp add: unescape_def hex4_def hex_val_def [of 48])

lemma jstring_opt_esc:
  "jstring_opt (esc_char c @ r) = map_option (\<lambda>(t, r'). (c # t, r')) (jstring_opt r)"
  by (auto simp: esc_char_def unescape_esc) (simp_all add: unescape_def)

lemma jstring_opt_str: "jstring_opt (concat (map esc_char s) @ 34 # r) = Some (s, r)"
  by (induction s) (simp_all add: jstring_opt_esc)

lemma jstring_str [simp]: "jstring (concat (map esc_char s) @ 34 # r) = Inr (s, r)"
  by (simp add: jstring_def jstring_opt_str)

lemma digits_val_nat_digits [simp]: "digits_val (nat_digits n) = n"
proof (induction n rule: nat_digits.induct)
  case (1 n)
  then show ?case
    by (cases "n < 10") (simp_all add: digits_val_def nat_digits.simps [of n])
qed

lemma length_nat_digits: "n < 10 ^ k \<Longrightarrow> 0 < k \<Longrightarrow> length (nat_digits n) \<le> k"
proof (induction n arbitrary: k rule: nat_digits.induct)
  case (1 n)
  show ?case
  proof (cases "n < 10")
    case True
    with "1.prems" show ?thesis by (simp add: nat_digits.simps [of n])
  next
    case False
    obtain j where k: "k = Suc j" using "1.prems"(2) by (cases k) auto
    with "1.prems" have "n div 10 < 10 ^ j" by (simp add: div_less_iff_less_mult mult.commute)
    moreover have "0 < j" using False "1.prems"(1) k by (cases j) auto
    ultimately show ?thesis using "1.IH" [OF False] False k by (simp add: nat_digits.simps [of n])
  qed
qed

lemma is_digit_nat_digits: "c \<in> set (nat_digits n) \<Longrightarrow> is_digit c"
  using nat_digits_range by (simp add: is_digit_def)

lemma takeWhile_digits:
  assumes "\<And>c. c \<in> set ds \<Longrightarrow> is_digit c" "delim r"
  shows "takeWhile is_digit (ds @ r) = ds" and "dropWhile is_digit (ds @ r) = r"
proof -
  have "takeWhile is_digit r = []" "dropWhile is_digit r = r"
    using assms(2) by (auto simp: delim_def is_digit_def split: list.splits)
  with assms(1) show "takeWhile is_digit (ds @ r) = ds" "dropWhile is_digit (ds @ r) = r"
    by (simp_all add: takeWhile_append2 dropWhile_append2)
qed

lemma scan_delim: "delim r \<Longrightarrow> scan_frac r = ([], r) \<and> scan_exp r = ([], r)"
  by (auto simp: scan_frac_def scan_exp_def delim_def split: list.splits)

lemma junsigned_nat:
  assumes "delim r" "n < 10 ^ max_int_digits"
  shows "junsigned H neg (nat_digits n @ r) = Inr (PInt (if neg then - int n else int n), r)"
proof -
  obtain c ds where c: "nat_digits n = c # ds" by (cases "nat_digits n") auto
  have dig: "is_digit c" "\<And>d. d \<in> set ds \<Longrightarrow> is_digit d"
    using is_digit_nat_digits [of _ n] c by auto
  have zero: "ds = [] \<and> n = 0" if "c = 48"
    using that c hd_nat_digits_pos [of n] by (cases "n = 0") (simp_all add: nat_digits.simps [of 0])
  have len: "\<not> max_int_digits < length (c # ds)"
    using length_nat_digits [OF assms(2)] c by (simp add: max_int_digits_def)
  have val: "digits_val (c # ds) = n" using digits_val_nat_digits [of n] c by simp
  note tw = takeWhile_digits [OF dig(2) assms(1)] and sc = scan_delim [OF assms(1)]
  show ?thesis
    using zero dig(1) len val tw sc unfolding junsigned_def c by (auto simp: Let_def)
qed

lemma jnumber_nat:
  assumes "delim r" "n < 10 ^ max_int_digits"
  shows "jnumber H (nat_digits n @ r) = Inr (PInt (int n), r)"
    and "jnumber H (45 # nat_digits n @ r) = Inr (PInt (- int n), r)"
proof -
  obtain c ds where c: "nat_digits n = c # ds" by (cases "nat_digits n") auto
  have "is_digit c" using is_digit_nat_digits [of c n] c by simp
  then have "\<not> startswith (nat_digits n @ r) [45]" by (auto simp: c is_digit_def)
  then show "jnumber H (nat_digits n @ r) = Inr (PInt (int n), r)"
    and "jnumber H (45 # nat_digits n @ r) = Inr (PInt (- int n), r)"
    by (simp_all add: jnumber_def junsigned_nat [OF assms])
qed

lemma jnumber_int_str:
  "delim r \<Longrightarrow> \<bar>i\<bar> < 10 ^ max_int_digits \<Longrightarrow> jnumber H (int_str i @ r) = Inr (PInt i, r)"
  using jnumber_nat [of r "nat (- i)" H] jnumber_nat [of r "nat i" H]
  by (cases "i < 0") (simp_all add: int_str_def nat_less_iff)

text \<open>How a written value starts: never with white space or a closing bracket.\<close>

lemma int_str_Cons: "\<exists>c r. int_str i = c # r \<and> (is_digit c \<or> c = 45 \<and> (\<exists>d t. r = d # t \<and> is_digit d))"
proof -
  have dig: "\<exists>c r. nat_digits n = c # r \<and> is_digit c" for n
    using is_digit_nat_digits [of _ n] by (cases "nat_digits n") auto
  from dig [of "nat i"] dig [of "nat (- i)"] show ?thesis by (auto simp: int_str_def)
qed

lemma dumps_Cons:
  assumes "json_ok v"
  obtains c r where "dumps v = c # r" "\<not> is_ws c" "c \<noteq> 93" "c \<noteq> 125"
proof -
  have "\<exists>c r. dumps v = c # r \<and> \<not> is_ws c \<and> c \<noteq> 93 \<and> c \<noteq> 125"
  proof (cases v)
    case (PInt i)
    then show ?thesis using int_str_Cons [of i] by (auto simp: is_ws_def is_digit_def)
  qed (use assms in \<open>auto simp: U_def is_ws_def json_str_def\<close>)
  with that show thesis by blast
qed

lemma skip_ws_dumps: "json_ok v \<Longrightarrow> skip_ws (dumps v @ r) = dumps v @ r"
  by (erule dumps_Cons) (simp add: skip_ws_def)

lemma skip_ws_punct [simp]:
  "skip_ws (44 # r) = 44 # r" "skip_ws (93 # r) = 93 # r" "skip_ws (125 # r) = 125 # r"
  "skip_ws (58 # r) = 58 # r" "skip_ws (34 # r) = 34 # r" "skip_ws [] = []"
  by (simp_all add: skip_ws_def is_ws_def)

lemma skip_ws_json_str: "skip_ws (json_str k @ r) = json_str k @ r"
  by (simp add: json_str_def)

lemma jvalue_jnumber:
  assumes "is_digit c \<or> c = 45 \<and> (\<exists>d t. r = d # t \<and> is_digit d)"
  shows "jvalue H (Suc n) (c # r) = jnumber H (c # r)"
  using assms by (auto simp: U_def is_digit_def)

lemma dumps_fuel:
  assumes "json_ok v" "2 * length (dumps v) \<le> n"
  obtains m where "n = Suc m"
proof -
  obtain c r where "dumps v = c # r" using assms(1) by (rule dumps_Cons)
  with assms(2) have "0 < n" by simp
  with that show thesis using gr0_implies_Suc by blast
qed

lemma jvalue_literals:
  "jvalue H (Suc n) (U ''null'' @ r) = Inr (PNone, r)"
  "jvalue H (Suc n) (U ''true'' @ r) = Inr (PBool True, r)"
  "jvalue H (Suc n) (U ''false'' @ r) = Inr (PBool False, r)"
  by (simp_all add: U_def)

definition hooks_ok :: "jhooks \<Rightarrow> bool" where
  "hooks_ok H \<longleftrightarrow> (\<forall>ps. distinct (map fst ps) \<longrightarrow>
     on_pairs H ps = Inr (PDict (map (\<lambda>(k, v). (KStr k, v)) ps)))"

definition str_items :: "pydict \<Rightarrow> (ustr \<times> pyval) list" where
  "str_items d = map (\<lambda>(k, v). (key_str k, v)) d"

lemma str_items_simps [simp]:
  "str_items [] = []" "str_items ((k, v) # d) = (key_str k, v) # str_items d"
  by (simp_all add: str_items_def)

lemma str_items_inv:
  "list_all (\<lambda>(k, v). key_ok k \<and> P v) d \<Longrightarrow> map (\<lambda>(k, v). (KStr k, v)) (str_items d) = d"
  by (induction d) (auto elim: key_ok.elims)

lemma distinct_str_items:
  "list_all (\<lambda>(k, v). key_ok k \<and> P v) d \<Longrightarrow> distinct (map fst d) \<Longrightarrow> distinct (map fst (str_items d))"
proof (induction d)
  case Nil
  show ?case by simp
next
  case (Cons kv d)
  obtain s v where kv: "kv = (KStr s, v)" using Cons.prems(1) by (cases kv) (auto elim: key_ok.elims)
  have "s \<notin> fst ` set (str_items d)"
  proof
    assume "s \<in> fst ` set (str_items d)"
    then obtain k' v' where "(k', v') \<in> set d" "key_str k' = s" by (auto simp: str_items_def)
    moreover have "key_ok k'" using Cons.prems(1) calculation(1) by (auto simp: list_all_iff)
    ultimately have "(KStr s, v') \<in> set d" by (cases k') auto
    with Cons.prems(2) kv show False by force
  qed
  with Cons kv show ?case by simp
qed

lemma jvalue_dumps_all:
  assumes H: "hooks_ok H"
  shows "json_ok v \<Longrightarrow> delim r \<Longrightarrow> 2 * length (dumps v) \<le> n \<Longrightarrow> jvalue H n (dumps v @ r) = Inr (v, r)"
    and "list_all json_ok xs \<Longrightarrow> xs \<noteq> [] \<Longrightarrow> 2 * length (dumps_elems xs) + 1 \<le> n \<Longrightarrow>
      jelems H n (dumps_elems xs @ 93 # r) = Inr (xs, r)"
    and "list_all (\<lambda>(k, v). key_ok k \<and> json_ok v) d \<Longrightarrow> d \<noteq> [] \<Longrightarrow>
      2 * length (dumps_members d) + 1 \<le> n \<Longrightarrow>
      jmembers H n (dumps_members d @ 125 # r) = Inr (str_items d, r)"
proof (induction v and xs and d arbitrary: n r and n r and n r
    rule: dumps_dumps_elems_dumps_members.induct)
  case 1
  obtain m where "n = Suc m" using "1.prems"(1,3) by (rule dumps_fuel)
  then show ?case by (simp only: dumps.simps jvalue_literals)
next
  case (2 b)
  obtain m where "n = Suc m" using "2.prems"(1,3) by (rule dumps_fuel)
  then show ?case by (cases b) (simp_all only: dumps.simps jvalue_literals if_True if_False)
next
  case (3 i)
  obtain c t where c: "int_str i = c # t" "is_digit c \<or> c = 45 \<and> (\<exists>d u. t = d # u \<and> is_digit d)"
    using int_str_Cons [of i] by blast
  obtain m where m: "n = Suc m" using "3.prems"(1,3) by (rule dumps_fuel)
  have "jvalue H n (int_str i @ r) = jnumber H (int_str i @ r)"
    unfolding m c(1) append_Cons by (rule jvalue_jnumber) (use c(2) in fastforce)
  moreover have "jnumber H (int_str i @ r) = Inr (PInt i, r)"
    using "3.prems"(1,2) by (intro jnumber_int_str) simp_all
  ultimately show ?case by (simp only: dumps.simps)
next
  case (4 s)
  obtain m where "n = Suc m" using "4.prems"(1,3) by (rule dumps_fuel)
  then show ?case by (simp add: json_str_def)
next
  case (5 xs)
  obtain m where m: "n = Suc m" using "5.prems"(1,3) by (rule dumps_fuel)
  show ?case
  proof (cases "xs = []")
    case True
    with m show ?thesis by simp
  next
    case False
    then obtain x ys where xs: "xs = x # ys" by (cases xs) auto
    with "5.prems" have "json_ok x" by simp
    then obtain c t where c: "dumps x = c # t" "\<not> is_ws c" "c \<noteq> 93" by (rule dumps_Cons)
    have "jelems H m (dumps_elems xs @ 93 # r) = Inr (xs, r)"
      using "5.prems" False m by (intro "5.IH") auto
    with c xs m show ?thesis by (simp add: skip_ws_def)
  qed
next
  case (6 d)
  obtain m where m: "n = Suc m" using "6.prems"(1,3) by (rule dumps_fuel)
  show ?case
  proof (cases "d = []")
    case True
    with m H show ?thesis by (simp add: hooks_ok_def)
  next
    case False
    then obtain k x ys where d: "d = (k, x) # ys" by (cases d) auto
    have ok: "list_all (\<lambda>(k, v). key_ok k \<and> json_ok v) d" "distinct (map fst d)"
      using "6.prems"(1) by auto
    have "jmembers H m (dumps_members d @ 125 # r) = Inr (str_items d, r)"
      using "6.prems" False m by (intro "6.IH") auto
    moreover have "on_pairs H (str_items d) = Inr (PDict d)"
      using H distinct_str_items [OF ok] str_items_inv [OF ok(1)] by (simp add: hooks_ok_def)
    ultimately show ?thesis using d m by (simp add: json_str_def)
  qed
next
  case (7 t)
  then show ?case by simp
next
  case 8
  then show ?case by simp
next
  case (9 x xs)
  then obtain m where m: "n = Suc m" by (cases n) auto
  show ?case
  proof (cases "xs = []")
    case True
    have "jvalue H m (dumps x @ 93 # r) = Inr (x, 93 # r)"
      using 9 m True by (intro "9.IH"(1)) auto
    with True m show ?thesis by simp
  next
    case False
    then obtain y ys where xs: "xs = y # ys" by (cases xs) auto
    have 1: "jvalue H m (dumps x @ 44 # dumps_elems xs @ 93 # r) = Inr (x, 44 # dumps_elems xs @ 93 # r)"
      using 9 m False by (intro "9.IH"(1)) auto
    have 2: "jelems H m (dumps_elems xs @ 93 # r) = Inr (xs, r)"
      using 9 m False by (intro "9.IH"(2)) auto
    have 3: "skip_ws (dumps_elems xs @ 93 # r) = dumps_elems xs @ 93 # r"
      using skip_ws_dumps [of y] "9.prems"(1) xs by simp
    show ?thesis using 1 2 3 False m by simp
  qed
next
  case 10
  then show ?case by simp
next
  case (11 k x d)
  then obtain m where m: "n = Suc m" by (cases n) auto
  have x: "json_ok x" using "11.prems"(1) by simp
  show ?case
  proof (cases "d = []")
    case True
    have "jvalue H m (dumps x @ 125 # r) = Inr (x, 125 # r)"
      using 11 m True by (intro "11.IH"(1)) auto
    with True m x show ?thesis by (simp add: json_str_def skip_ws_dumps)
  next
    case False
    then obtain k' y ys where d: "d = (k', y) # ys" by (cases d) auto
    have 1: "jvalue H m (dumps x @ 44 # dumps_members d @ 125 # r) = Inr (x, 44 # dumps_members d @ 125 # r)"
      using 11 m False by (intro "11.IH"(1)) auto
    have 2: "jmembers H m (dumps_members d @ 125 # r) = Inr (str_items d, r)"
      using 11 m False by (intro "11.IH"(2)) auto
    have 3: "skip_ws (dumps_members d @ 125 # r) = dumps_members d @ 125 # r"
      using d by (simp add: skip_ws_json_str)
    show ?thesis using 1 2 3 False m x by (simp add: json_str_def skip_ws_dumps)
  qed
qed

lemmas jvalue_dumps = jvalue_dumps_all(1)

text \<open>Reading what was written gives the value back.\<close>

lemma loads_dumps:
  assumes "hooks_ok H" "json_ok v"
  shows "loads H (dumps v) = Inr v"
proof -
  obtain c r where c: "dumps v = c # r" using assms(2) by (rule dumps_Cons)
  have "c \<noteq> 0xFEFF"
  proof (cases v)
    case (PInt i)
    then show ?thesis using int_str_Cons [of i] c by (auto simp: is_digit_def)
  qed (use c assms(2) in \<open>auto simp: U_def json_str_def split: if_splits\<close>)
  moreover have "jvalue H (2 * length (dumps v) + 2) (dumps v) = Inr (v, [])"
    using jvalue_dumps [OF assms, of "[]" "2 * length (dumps v) + 2"] by simp
  moreover have "skip_ws (dumps v) = dumps v" using skip_ws_dumps [OF assms(2), of "[]"] by simp
  ultimately show ?thesis by (simp add: loads_def c)
qed

section \<open>The fuel is enough\<close>

lemma length_dropWhile: "length (dropWhile P s) \<le> length s"
  by (induction s) auto

lemma skip_ws_length: "skip_ws s = c # r \<Longrightarrow> Suc (length r) \<le> length s"
  using length_dropWhile [of is_ws s] by (simp add: skip_ws_def)

lemma length_skip_ws: "length (skip_ws s) \<le> length s"
  by (simp add: skip_ws_def length_dropWhile)

lemma jstring_opt_shorter: "jstring_opt s = Some (t, r) \<Longrightarrow> length r < length s"
proof (induction s arbitrary: t rule: jstring_opt.induct)
  case 1
  then show ?case by simp
next
  case (2 c q)
  show ?case
  proof (cases "c \<noteq> 34 \<and> c = 92")
    case True
    with "2.prems" obtain u q' t' where q': "unescape q = Some (u, q')" "jstring_opt q' = Some (t', r)"
      by (auto split: option.splits)
    with "2.IH"(1) [of "(u, q')" u q' t'] True unescape_shorter [OF q'(1)] show ?thesis by auto
  next
    case False
    with "2.prems" "2.IH"(2) show ?thesis by (auto split: if_splits)
  qed
qed

lemma jstring_shorter: "jstring s = Inr (t, r) \<Longrightarrow> length r < length s"
  by (auto simp: jstring_def jerr_def split: option.splits intro: jstring_opt_shorter)

lemma scan_frac_length: "length (snd (scan_frac s)) \<le> length s"
  by (auto simp: scan_frac_def split: list.splits intro: le_SucI order_trans [OF length_dropWhile])

lemma scan_exp_length: "length (snd (scan_exp s)) \<le> length s"
  by (auto simp: scan_exp_def Let_def split: list.splits
      intro!: le_SucI order_trans [OF length_dropWhile])

lemma junsigned_shorter:
  assumes "junsigned H neg t = Inr (v, r)"
  shows "length r < length t"
proof -
  obtain c q where t: "t = c # q"
    using assms by (cases t) (auto simp: junsigned_def jerr_def)
  define rest where "rest = (if c = 48 then q else dropWhile is_digit q)"
  have rl: "length rest < length t" using length_dropWhile [of is_digit q] by (simp add: rest_def t)
  obtain frac r1 where f: "scan_frac rest = (frac, r1)" by fastforce
  obtain expo r2 where x: "scan_exp r1 = (expo, r2)" by fastforce
  have "r = rest \<or> r = r2"
    using assms f x unfolding junsigned_def t list.case rest_def [symmetric]
    by (auto simp: Let_def jerr_def res_simps split: if_splits)
  moreover have "length r2 \<le> length rest"
    using scan_frac_length [of rest] scan_exp_length [of r1] f x by simp
  ultimately show ?thesis using rl by auto
qed

lemma jnumber_shorter: "jnumber H s = Inr (v, r) \<Longrightarrow> length r < length s"
  by (auto simp: jnumber_def split: if_splits dest!: junsigned_shorter)

lemma startswith_length: "startswith s p \<Longrightarrow> length p \<le> length s"
  by (auto simp: startswith_iff)

lemma jparse_shorter:
  "(\<forall>s v r. jvalue H n s = Inr (v, r) \<longrightarrow> length r < length s)
   \<and> (\<forall>s vs r. jelems H n s = Inr (vs, r) \<longrightarrow> length r < length s)
   \<and> (\<forall>s ps r. jmembers H n s = Inr (ps, r) \<longrightarrow> length r < length s)"
proof (induction n)
  case 0
  show ?case by simp
next
  case (Suc n)
  then have V: "\<And>s v r. jvalue H n s = Inr (v, r) \<Longrightarrow> length r < length s"
    and E: "\<And>s vs r. jelems H n s = Inr (vs, r) \<Longrightarrow> length r < length s"
    and M: "\<And>s ps r. jmembers H n s = Inr (ps, r) \<Longrightarrow> length r < length s" by blast+
  have v: "length r < length s" if step: "jvalue H (Suc n) s = Inr (v, r)" for s v r
  proof -
    obtain c q where s: "s = c # q" using step by (cases s) (auto simp: jerr_def)
    have br: "skip_ws q = c1 # q1 \<Longrightarrow> length q1 < length s" for c1 q1
      using skip_ws_length [of q] s by fastforce
    show ?thesis using step br
      by (auto simp: s res_simps jerr_def split: if_splits list.splits
          dest!: jstring_shorter E M jnumber_shorter startswith_length)
  qed
  have e: "length r < length s" if step: "jelems H (Suc n) s = Inr (vs, r)" for s vs r
  proof -
    obtain v r1 where v1: "jvalue H n s = Inr (v, r1)" using step by (auto simp: res_simps)
    with step obtain c r2 where r2: "skip_ws r1 = c # r2"
      by (cases "skip_ws r1") (auto simp: jerr_def)
    have "length r \<le> length r2"
      using step v1 r2 length_skip_ws [of r2]
      by (auto simp: jerr_def res_simps split: if_splits dest!: E)
    with V [OF v1] skip_ws_length [OF r2] show ?thesis by simp
  qed
  have m: "length r < length s" if step: "jmembers H (Suc n) s = Inr (ps, r)" for s ps r
  proof -
    obtain q where s: "s = 34 # q" using step by (cases s) (auto simp: jerr_def split: if_splits)
    obtain k r1 where k: "jstring q = Inr (k, r1)" using step by (auto simp: s res_simps)
    obtain r2 where r2: "skip_ws r1 = 58 # r2"
      using step k by (cases "skip_ws r1") (auto simp: s jerr_def split: if_splits)
    obtain v r3 where v3: "jvalue H n (skip_ws r2) = Inr (v, r3)"
      using step k r2 by (auto simp: s res_simps)
    obtain c r4 where r4: "skip_ws r3 = c # r4"
      using step k r2 v3 by (cases "skip_ws r3") (auto simp: s jerr_def)
    have "length r \<le> length r4"
      using step k r2 v3 r4 length_skip_ws [of r4]
      by (auto simp: s jerr_def res_simps split: if_splits dest!: M)
    with jstring_shorter [OF k] skip_ws_length [OF r2] V [OF v3] length_skip_ws [of r2]
      skip_ws_length [OF r4] s show ?thesis by simp
  qed
  from v e m show ?case by blast
qed

definition hooks_errs :: "exn_kind set \<Rightarrow> jhooks \<Rightarrow> bool" where
  "hooks_errs K H \<longleftrightarrow> (\<forall>s. errs_in K (on_float H s)) \<and> (\<forall>s. errs_in K (on_const H s))
     \<and> (\<forall>ps. errs_in K (on_pairs H ps)) \<and> {JSONDecodeError, ValueError} \<subseteq> K"

lemma hooks_errsD:
  assumes "hooks_errs K H"
  shows "errs_in K (on_float H s)" "errs_in K (on_const H s)" "errs_in K (on_pairs H ps)"
    and "JSONDecodeError \<in> K" "ValueError \<in> K"
  using assms by (simp_all add: hooks_errs_def)

lemma errs_jerr: "errs_in K jerr \<longleftrightarrow> JSONDecodeError \<in> K"
  by (simp add: jerr_def)

lemma errs_jstring: "JSONDecodeError \<in> K \<Longrightarrow> errs_in K (jstring s)"
  by (auto simp: jstring_def errs_jerr split: option.split)

lemma errs_junsigned: "hooks_errs K H \<Longrightarrow> errs_in K (junsigned H neg s)"
  unfolding junsigned_def Let_def
  by (auto simp: errs_jerr split: list.split prod.split intro!: errs_in_rbind hooks_errsD(1)
      intro: hooks_errsD(4,5))

lemma errs_jnumber: "hooks_errs K H \<Longrightarrow> errs_in K (jnumber H s)"
  by (simp add: jnumber_def errs_junsigned)

text \<open>
  With enough fuel the parser fails only as the library does (or as a hook does); in particular it
  never runs out of fuel.
\<close>

lemma jvalue_fuel:
  assumes H: "hooks_errs K H"
  shows "(\<forall>s. 2 * length s + 1 \<le> n \<longrightarrow> errs_in K (jvalue H n s))
   \<and> (\<forall>s. 2 * length s + 2 \<le> n \<longrightarrow> errs_in K (jelems H n s))
   \<and> (\<forall>s. 2 * length s + 2 \<le> n \<longrightarrow> errs_in K (jmembers H n s))"
proof (induction n)
  case 0
  show ?case by simp
next
  case (Suc n)
  then have V: "\<And>s. 2 * length s + 1 \<le> n \<Longrightarrow> errs_in K (jvalue H n s)"
    and E: "\<And>s. 2 * length s + 2 \<le> n \<Longrightarrow> errs_in K (jelems H n s)"
    and M: "\<And>s. 2 * length s + 2 \<le> n \<Longrightarrow> errs_in K (jmembers H n s)" by blast+
  note shorter = jparse_shorter [of H n]
  note hk = hooks_errsD [OF H]
  have v: "errs_in K (jvalue H (Suc n) s)" if b: "2 * length s + 1 \<le> Suc n" for s
  proof (cases s)
    case (Cons c q)
    have br: "2 * length (c1 # q1) + 2 \<le> n" if "skip_ws q = c1 # q1" for c1 q1
      using skip_ws_length [OF that] b Cons by simp
    show ?thesis using Cons
      by (auto simp: errs_jerr simp del: startswith.simps split: list.split
          intro!: errs_in_rbind errs_jstring hk E M br errs_jnumber [OF H])
  qed (simp add: errs_jerr hk)
  have e: "errs_in K (jelems H (Suc n) s)" if b: "2 * length s + 2 \<le> Suc n" for s
  proof -
    have nx: "2 * length (skip_ws r2) + 2 \<le> n"
      if "jvalue H n s = Inr (v, r1)" "skip_ws r1 = c # r2" for v r1 c r2
    proof -
      from shorter that(1) have "length r1 < length s" by blast
      with skip_ws_length [OF that(2)] length_skip_ws [of r2] b show ?thesis by simp
    qed
    show ?thesis using b
      by (auto simp: errs_jerr split: list.split intro!: errs_in_rbind V E nx hk)
  qed
  have m: "errs_in K (jmembers H (Suc n) s)" if b: "2 * length s + 2 \<le> Suc n" for s
  proof (cases s)
    case (Cons c q)
    have nv: "2 * length (skip_ws r2) + 2 \<le> n"
      if "jstring q = Inr (k, r1)" "skip_ws r1 = c1 # r2" for k r1 c1 r2
      using jstring_shorter [OF that(1)] skip_ws_length [OF that(2)] length_skip_ws [of r2] b Cons by simp
    have nx: "2 * length (skip_ws r4) + 2 \<le> n"
      if "jstring q = Inr (k, r1)" "skip_ws r1 = c1 # r2" "jvalue H n (skip_ws r2) = Inr (v, r3)"
        "skip_ws r3 = c3 # r4" for k r1 c1 r2 v r3 c3 r4
    proof -
      from shorter that(3) have "length r3 < length (skip_ws r2)" by blast
      with nv [OF that(1,2)] skip_ws_length [OF that(4)] length_skip_ws [of r4] show ?thesis by simp
    qed
    show ?thesis using Cons nv nx
      by (auto simp: errs_jerr split: list.split intro!: errs_in_rbind errs_jstring V M hk) (fastforce intro: nv nx)+
  qed (simp add: errs_jerr hk)
  from v e m show ?case by blast
qed

lemma loads_errs:
  assumes "hooks_errs K H"
  shows "errs_in K (loads H s)"
proof -
  have "errs_in K (jvalue H (2 * length s + 2) (skip_ws s))"
    using jvalue_fuel [OF assms, of "2 * length s + 2"] length_skip_ws [of s] by auto
  then show ?thesis unfolding loads_def by (auto simp: errs_jerr simp del: jvalue.simps intro!: errs_in_rbind hooks_errsD [OF assms])
qed

end
