(* ===== verification/Canonical.thy ===== *)
theory Canonical
  imports Platform Json "HOL-Library.Multiset"
begin

text \<open>
  \<^verbatim>\<open>src/mgk/canonical.py\<close>: MGK Canonical JSON v1. \<open>canonicalize\<close> normalizes, validates, writes
  and measures; \<open>parse_canonical\<close> accepts exactly the byte strings that \<open>canonicalize\<close> emits. The
  structural predicates \<open>nok\<close>, \<open>vok\<close> and \<open>nodes\<close> characterise when the two passes succeed, and
  \<open>canon\<close> is the value that survives a round trip. The locale \<open>codec\<close> is the interface the
  ledgers, the security state and the capability code use.
\<close>

section \<open>Limits\<close>

definition MAX_CANONICAL_BYTES :: nat where "MAX_CANONICAL_BYTES = 256 * 1024"
definition MAX_DEPTH :: nat where "MAX_DEPTH = 32"
definition MAX_ITEMS :: int where "MAX_ITEMS = 4096"
definition MIN_INTEGER :: int where "MIN_INTEGER = - (2 ^ 53) + 1"
definition MAX_INTEGER :: int where "MAX_INTEGER = 2 ^ 53 - 1"

definition canon_err :: "string \<Rightarrow> 'a res" where
  "canon_err t = Inl (Exn CanonicalizationError t)"

section \<open>Parser hooks\<close>

definition reject_float :: "ustr \<Rightarrow> pyval res" where
  "reject_float v = canon_err ''floating point values are forbidden''"

definition reject_constant :: "ustr \<Rightarrow> pyval res" where
  "reject_constant v = canon_err ''non-finite values are forbidden''"

fun pairs_loop :: "pydict \<Rightarrow> (ustr \<times> pyval) list \<Rightarrow> pyval res" where
  "pairs_loop result [] = Inr (PDict result)"
| "pairs_loop result ((key, v) # pairs) =
     (if map_of result (KStr key) \<noteq> None then canon_err ''duplicate object key''
      else pairs_loop (result @ [(KStr key, v)]) pairs)"

definition pairs_hook :: "(ustr \<times> pyval) list \<Rightarrow> pyval res" where
  "pairs_hook pairs = pairs_loop [] pairs"

definition canonical_hooks :: jhooks where
  "canonical_hooks = \<lparr>on_float = reject_float, on_const = reject_constant, on_pairs = pairs_hook\<rparr>"

section \<open>Validation and normalization\<close>

text \<open>The budget is threaded through the document: the result is what is left of it.\<close>

definition str_valid :: "ustr \<Rightarrow> bool" where
  "str_valid s \<longleftrightarrow> list_all (\<lambda>c. \<not> is_surrogate c) s"

fun validate :: "pyval \<Rightarrow> nat \<Rightarrow> int \<Rightarrow> int res"
and validate_list :: "pyval list \<Rightarrow> nat \<Rightarrow> int \<Rightarrow> int res"
and validate_items :: "pydict \<Rightarrow> nat \<Rightarrow> int \<Rightarrow> int res" where
  "validate v depth budget =
     (if budget - 1 < 0 then canon_err ''document item limit exceeded''
      else if MAX_DEPTH < depth then canon_err ''document nesting limit exceeded''
      else case v of
        PNone \<Rightarrow> Inr (budget - 1)
      | PBool b \<Rightarrow> Inr (budget - 1)
      | PInt i \<Rightarrow>
          if MIN_INTEGER \<le> i \<and> i \<le> MAX_INTEGER then Inr (budget - 1)
          else canon_err ''integer outside interoperable range''
      | PStr s \<Rightarrow>
          if str_valid s then Inr (budget - 1)
          else canon_err ''surrogate code points are forbidden''
      | PList xs \<Rightarrow> validate_list xs (depth + 1) (budget - 1)
      | PDict d \<Rightarrow> validate_items d (depth + 1) (budget - 1)
      | POther t \<Rightarrow> canon_err (''unsupported value type: '' @ t))"
| "validate_list [] depth budget = Inr budget"
| "validate_list (x # xs) depth budget =
     rbind (validate x depth budget) (\<lambda>budget. validate_list xs depth budget)"
| "validate_items [] depth budget = Inr budget"
| "validate_items ((key, item) # d) depth budget =
     (case key of
        KOther t \<Rightarrow> canon_err ''object keys must be strings''
      | KStr s \<Rightarrow>
          rbind (if budget - 1 < 0 then canon_err ''document item limit exceeded''
                 else if MAX_DEPTH < depth then canon_err ''document nesting limit exceeded''
                 else if str_valid s then Inr (budget - 1)
                 else canon_err ''surrogate code points are forbidden'') (\<lambda>budget.
          rbind (validate item depth budget) (\<lambda>budget. validate_items d depth budget)))"

declare validate.simps [simp del]

fun nfc_key :: "platform \<Rightarrow> pykey \<Rightarrow> pykey" where
  "nfc_key E (KStr s) = KStr (nfc E s)"
| "nfc_key E (KOther t) = KOther t"

fun normalize_json :: "platform \<Rightarrow> pyval \<Rightarrow> pyval res"
and normalize_list :: "platform \<Rightarrow> pyval list \<Rightarrow> pyval list res"
and normalize_items :: "platform \<Rightarrow> pydict \<Rightarrow> pydict \<Rightarrow> pydict res" where
  "normalize_json E v = (case v of
        PStr s \<Rightarrow> Inr (PStr (nfc E s))
      | PList xs \<Rightarrow> rmap PList (normalize_list E xs)
      | PDict d \<Rightarrow> rmap PDict (normalize_items E d [])
      | _ \<Rightarrow> Inr v)"
| "normalize_list E [] = Inr []"
| "normalize_list E (x # xs) =
     rbind (normalize_json E x) (\<lambda>y. rbind (normalize_list E xs) (\<lambda>ys. Inr (y # ys)))"
| "normalize_items E [] result = Inr result"
| "normalize_items E ((key, item) # d) result =
     (if map_of result (nfc_key E key) \<noteq> None
      then canon_err ''object keys collide after NFC normalization''
      else rbind (normalize_json E item) (\<lambda>item'. normalize_items E d (result @ [(nfc_key E key, item')])))"

declare normalize_json.simps [simp del]

section \<open>The two directions\<close>

definition canonicalize :: "platform \<Rightarrow> pyval \<Rightarrow> bytes res" where
  "canonicalize E v =
     rbind (normalize_json E v) (\<lambda>normalized.
     rbind (validate normalized 0 MAX_ITEMS) (\<lambda>_.
     rbind (rcatch (\<lambda>e. is_value_error e \<or> exn_kind_of e = TypeError)
              (\<lambda>e. canon_err (exn_msg e)) (utf8_encode (dumps (sort_keys normalized)))) (\<lambda>encoded.
     if MAX_CANONICAL_BYTES < length encoded
     then canon_err ''canonical document exceeds size limit''
     else Inr encoded)))"

definition parse_canonical :: "platform \<Rightarrow> bytes \<Rightarrow> pyval res" where
  "parse_canonical E data =
     (if data = [] \<or> MAX_CANONICAL_BYTES < length data
      then canon_err ''invalid canonical byte document''
      else
        rbind (rcatch (\<lambda>e. exn_kind_of e = UnicodeError \<or> exn_kind_of e = JSONDecodeError)
                 (\<lambda>e. canon_err (exn_msg e))
                 (rbind (utf8_decode data) (loads canonical_hooks))) (\<lambda>v.
        rbind (validate v 0 MAX_ITEMS) (\<lambda>_.
        rbind (canonicalize E v) (\<lambda>c.
        if c \<noteq> data then canon_err ''wire document is not canonical'' else Inr v))))"

definition digest :: "platform \<Rightarrow> pyval \<Rightarrow> ustr res" where
  "digest E v = rmap (sha256_hex E) (canonicalize E v)"

section \<open>When the passes succeed\<close>

fun nodes :: "pyval \<Rightarrow> nat" where
  "nodes (PList xs) = Suc (sum_list (map nodes xs))"
| "nodes (PDict d) = Suc (sum_list (map (\<lambda>(k, v). Suc (nodes v)) d))"
| "nodes v = 1"

fun vok :: "nat \<Rightarrow> pyval \<Rightarrow> bool" where
  "vok d (PInt i) = (d \<le> MAX_DEPTH \<and> MIN_INTEGER \<le> i \<and> i \<le> MAX_INTEGER)"
| "vok d (PStr s) = (d \<le> MAX_DEPTH \<and> str_valid s)"
| "vok d (PList xs) = (d \<le> MAX_DEPTH \<and> list_all (vok (Suc d)) xs)"
| "vok d (PDict xs) = (d \<le> MAX_DEPTH \<and>
     list_all (\<lambda>(k, v). Suc d \<le> MAX_DEPTH \<and> key_ok k \<and> str_valid (key_str k) \<and> vok (Suc d) v) xs)"
| "vok d (POther t) = False"
| "vok d v = (d \<le> MAX_DEPTH)"

lemma validate_iff_all:
  shows "0 \<le> b \<Longrightarrow> validate v d b = Inr b' \<longleftrightarrow> vok d v \<and> int (nodes v) \<le> b \<and> b' = b - int (nodes v)"
    and "0 \<le> b \<Longrightarrow> validate_list xs d b = Inr b' \<longleftrightarrow> list_all (vok d) xs
      \<and> int (sum_list (map nodes xs)) \<le> b \<and> b' = b - int (sum_list (map nodes xs))"
    and "0 \<le> b \<Longrightarrow> validate_items ys d b = Inr b' \<longleftrightarrow>
      list_all (\<lambda>(k, v). d \<le> MAX_DEPTH \<and> key_ok k \<and> str_valid (key_str k) \<and> vok d v) ys
      \<and> int (sum_list (map (\<lambda>(k, v). Suc (nodes v)) ys)) \<le> b
      \<and> b' = b - int (sum_list (map (\<lambda>(k, v). Suc (nodes v)) ys))"
proof (induction v d b and xs d b and ys d b arbitrary: b' and b' and b'
    rule: validate_validate_list_validate_items.induct)
  case (1 v depth budget)
  then show ?case
    by (cases v) (auto simp: validate.simps canon_err_def)
next
  case (3 x xs depth budget)
  then show ?case by (fastforce simp: res_simps)
next
  case (5 key item d depth budget)
  then show ?case by (cases key) (auto simp: res_simps canon_err_def)
qed auto

lemmas validate_iff = validate_iff_all(1)

fun nmap :: "platform \<Rightarrow> pyval \<Rightarrow> pyval" where
  "nmap E (PStr s) = PStr (nfc E s)"
| "nmap E (PList xs) = PList (map (nmap E) xs)"
| "nmap E (PDict d) = PDict (map (\<lambda>(k, v). (nfc_key E k, nmap E v)) d)"
| "nmap E v = v"

fun nok :: "platform \<Rightarrow> pyval \<Rightarrow> bool" where
  "nok E (PList xs) = list_all (nok E) xs"
| "nok E (PDict d) = (list_all (\<lambda>(k, v). nok E v) d \<and> distinct (map (\<lambda>(k, v). nfc_key E k) d))"
| "nok E v = True"

lemma normalize_iff_all:
  shows "normalize_json E v = Inr n \<longleftrightarrow> nok E v \<and> n = nmap E v"
    and "normalize_list E xs = Inr ns \<longleftrightarrow> list_all (nok E) xs \<and> ns = map (nmap E) xs"
    and "distinct (map fst acc) \<Longrightarrow> normalize_items E ys acc = Inr r \<longleftrightarrow>
      list_all (\<lambda>(k, v). nok E v) ys
      \<and> distinct (map fst acc @ map (\<lambda>(k, v). nfc_key E k) ys)
      \<and> r = acc @ map (\<lambda>(k, v). (nfc_key E k, nmap E v)) ys"
proof (induction E v and E xs and E ys acc arbitrary: n and ns and r
    rule: normalize_json_normalize_list_normalize_items.induct)
  case (1 E v)
  then show ?case
    by (cases v) (auto simp: normalize_json.simps res_simps)
next
  case (3 E x xs)
  then show ?case by (auto simp: res_simps)
next
  case (5 E key item d result)
  show ?case
  proof (cases "map_of result (nfc_key E key) = None")
    case True
    then have new: "nfc_key E key \<notin> fst ` set result" by (simp add: map_of_eq_None_iff)
    with "5.prems" have d: "distinct (map fst (result @ [(nfc_key E key, v)]))" for v by auto
    have eq: "normalize_items E ((key, item) # d) result = Inr r \<longleftrightarrow>
      nok E item \<and> normalize_items E d (result @ [(nfc_key E key, nmap E item)]) = Inr r"
      using True "5.IH"(1) by (auto simp: res_simps)
    show ?thesis
    proof (cases "nok E item")
      case nok: True
      then have item: "normalize_json E item = Inr (nmap E item)" using "5.IH"(1) True by blast
      note ih = "5.IH"(2) [of "nmap E item" r, OF _ item d]
      show ?thesis unfolding eq using ih True new nok by (simp add: conj_ac)
    next
      case False
      then show ?thesis unfolding eq by simp
    qed
  next
    case False
    then have "nfc_key E key \<in> fst ` set result" by (metis map_of_eq_None_iff)
    with False show ?thesis by (auto simp: canon_err_def)
  qed
qed auto

lemmas normalize_iff = normalize_iff_all(1)

section \<open>Canonical values\<close>

lemma pyval_induct [case_names PNone PBool PInt PStr PList PDict POther]:
  assumes "P PNone" and "\<And>b. P (PBool b)" and "\<And>i. P (PInt i)" and "\<And>s. P (PStr s)"
    and "\<And>xs. (\<And>x. x \<in> set xs \<Longrightarrow> P x) \<Longrightarrow> P (PList xs)"
    and "\<And>d. (\<And>k v. (k, v) \<in> set d \<Longrightarrow> P v) \<Longrightarrow> P (PDict d)"
    and "\<And>t. P (POther t)"
  shows "P v"
proof (induction v)
  case (PDict d)
  then show ?case by (intro assms(6)) fastforce
qed (use assms in blast)+

definition canon :: "platform \<Rightarrow> pyval \<Rightarrow> pyval" where
  "canon E v = sort_keys (nmap E v)"

fun wf_keys :: "pyval \<Rightarrow> bool" where
  "wf_keys (PList xs) = list_all wf_keys xs"
| "wf_keys (PDict d) = (list_all (\<lambda>(k, v). wf_keys v) d \<and> distinct (map fst d))"
| "wf_keys v = True"

abbreviation sort_items :: "pydict \<Rightarrow> pydict" where
  "sort_items d \<equiv> sort_key (\<lambda>kv. key_str (fst kv)) d"

abbreviation sort_vals :: "pydict \<Rightarrow> pydict" where
  "sort_vals d \<equiv> map (\<lambda>(k, v). (k, sort_keys v)) d"

lemma sum_list_sort_key: "sum_list (map f (sort_key g d)) = (sum_list (map f d) :: nat)"
  by (metis mset_map mset_sort sum_mset_sum_list)

lemma distinct_map_sort_key: "distinct (map f (sort_key g d)) \<longleftrightarrow> distinct (map f d)"
  by (metis mset_map mset_sort mset_eq_imp_distinct_iff)

lemma list_all_sort_key: "list_all P (sort_key g d) \<longleftrightarrow> list_all P d"
  by (simp add: list_all_iff)

lemma sort_key_idem: "sort_key f (sort_key f d) = sort_key f d"
  by (simp add: sort_key_id_if_sorted)

lemma map_sort_key_fst:
  assumes "\<And>k v. (k, v) \<in> set d \<Longrightarrow> key_str (fst (g (k, v))) = key_str k"
  shows "map g (sort_items d) = sort_items (map g d)"
proof -
  have ins: "map g (insort_key (\<lambda>kv. key_str (fst kv)) x e) =
      insort_key (\<lambda>kv. key_str (fst kv)) (g x) (map g e)"
    if "\<And>k v. (k, v) \<in> set (x # e) \<Longrightarrow> key_str (fst (g (k, v))) = key_str k" for x e
    using that
  proof (induction e)
    case (Cons y e)
    obtain k v where y: "y = (k, v)" by fastforce
    obtain k' v' where x: "x = (k', v')" by fastforce
    from Cons.prems x y have "key_str (fst (g y)) = key_str (fst y)" "key_str (fst (g x)) = key_str (fst x)"
      by auto
    moreover have "map g (insort_key (\<lambda>kv. key_str (fst kv)) x e) =
        insort_key (\<lambda>kv. key_str (fst kv)) (g x) (map g e)"
      by (rule Cons.IH) (use Cons.prems in auto)
    ultimately show ?case by simp
  qed simp
  show ?thesis using assms
  proof (induction d)
    case (Cons x d)
    have "set (sort_items d) = set d" by simp
    then have "map g (insort_key (\<lambda>kv. key_str (fst kv)) x (sort_items d)) =
        insort_key (\<lambda>kv. key_str (fst kv)) (g x) (map g (sort_items d))"
      by (intro ins) (use Cons.prems in auto)
    moreover have "map g (sort_items d) = sort_items (map g d)"
      by (rule Cons.IH) (use Cons.prems in auto)
    ultimately show ?case by simp
  qed simp
qed

lemma sort_keys_PDict: "sort_keys (PDict d) = PDict (sort_items (sort_vals d))"
  by simp

lemma sort_keys_idem [simp]: "sort_keys (sort_keys v) = sort_keys v"
proof (induction v rule: pyval_induct)
  case (PDict d)
  have "sort_vals (sort_items (sort_vals d)) = sort_items (sort_vals (sort_vals d))"
    by (rule map_sort_key_fst) auto
  also have "sort_vals (sort_vals d) = sort_vals d" using PDict by auto
  finally show ?case by (simp add: sort_key_idem del: map_map)
qed auto

lemma nodes_sort_keys [simp]: "nodes (sort_keys v) = nodes v"
proof (induction v rule: pyval_induct)
  case (PList xs)
  then have "map (nodes \<circ> sort_keys) xs = map nodes xs" by simp
  then show ?case by (simp del: map_eq_conv)
next
  case (PDict d)
  then have "map ((\<lambda>(k, v). Suc (nodes v)) \<circ> (\<lambda>(k, v). (k, sort_keys v))) d = map (\<lambda>(k, v). Suc (nodes v)) d"
    by auto
  then show ?case by (simp add: sum_list_sort_key del: map_eq_conv)
qed auto

lemma vok_sort_keys [simp]: "vok n (sort_keys v) = vok n v"
proof (induction v arbitrary: n rule: pyval_induct)
  case (PDict d)
  then show ?case by (fastforce simp: list_all_sort_key list_all_iff)
qed (auto simp: list_all_iff)

lemma wf_keys_sort_keys [simp]: "wf_keys (sort_keys v) = wf_keys v"
proof (induction v rule: pyval_induct)
  case (PDict d)
  have "map fst (sort_vals d) = map fst d" by auto
  with PDict show ?case by (fastforce simp: list_all_sort_key distinct_map_sort_key list_all_iff simp del: map_map)
qed (auto simp: list_all_iff)

lemma map_fixD: "map f xs = xs \<Longrightarrow> x \<in> set xs \<Longrightarrow> f x = x"
  by (induction xs) auto

lemma map_items_fixD:
  "map (\<lambda>(k, v). (f k, g v)) d = d \<Longrightarrow> (k, v) \<in> set d \<Longrightarrow> f k = k \<and> g v = v"
  by (induction d) auto

lemma nmap_idem:
  assumes "platform_ok E"
  shows "nmap E (nmap E v) = nmap E v"
proof -
  have key: "nfc_key E (nfc_key E k) = nfc_key E k" for k
    using platform_okD(2) [OF assms] by (cases k) auto
  show ?thesis
    by (induction v rule: pyval_induct) (auto simp: key platform_okD(2) [OF assms])
qed

lemma nmap_sort_keys:
  "nmap E n = n \<Longrightarrow> nmap E (sort_keys n) = sort_keys n"
proof (induction n rule: pyval_induct)
  case (PList xs)
  have eq: "map (nmap E) xs = xs" using PList.prems by simp
  have "nmap E (sort_keys x) = sort_keys x" if "x \<in> set xs" for x
    by (rule PList.IH [OF that map_fixD [OF eq that]])
  then show ?case by simp
next
  case (PDict d)
  have eq: "map (\<lambda>(k, v). (nfc_key E k, nmap E v)) d = d" using PDict.prems by simp
  have fx: "\<And>k v. (k, v) \<in> set d \<Longrightarrow> nfc_key E k = k \<and> nmap E v = v"
    by (rule map_items_fixD [OF eq])
  let ?g = "\<lambda>(k, v). (nfc_key E k, nmap E v)"
  have "map ?g (sort_items (sort_vals d)) = sort_items (map ?g (sort_vals d))"
    by (rule map_sort_key_fst) (use fx in auto)
  also have "map ?g (sort_vals d) = sort_vals d"
    using fx PDict.IH by auto
  finally show ?case by (simp del: map_map)
qed auto

lemma wf_keys_nmap: "nok E v \<Longrightarrow> wf_keys (nmap E v)"
proof (induction v rule: pyval_induct)
  case (PDict d)
  have "map fst (map (\<lambda>(k, v). (nfc_key E k, nmap E v)) d) = map (\<lambda>(k, v). nfc_key E k) d" by auto
  with PDict show ?case by (auto simp: list_all_iff simp del: map_map)
qed (auto simp: list_all_iff)

lemma nok_iff_wf_keys: "nmap E n = n \<Longrightarrow> nok E n = wf_keys n"
proof (induction n rule: pyval_induct)
  case (PList xs)
  have eq: "map (nmap E) xs = xs" using PList.prems by simp
  have "nok E x = wf_keys x" if "x \<in> set xs" for x
    by (rule PList.IH [OF that map_fixD [OF eq that]])
  then show ?case by (simp add: list_all_iff)
next
  case (PDict d)
  have eq: "map (\<lambda>(k, v). (nfc_key E k, nmap E v)) d = d" using PDict.prems by simp
  have fx: "nfc_key E k = k \<and> nmap E v = v" if "(k, v) \<in> set d" for k v
    by (rule map_items_fixD [OF eq that])
  have "nok E v = wf_keys v" if "(k, v) \<in> set d" for k v
    by (rule PDict.IH [OF that]) (use fx [OF that] in blast)
  then have "list_all (\<lambda>(k, v). nok E v) d = list_all (\<lambda>(k, v). wf_keys v) d"
    by (auto simp: list_all_iff)
  moreover have "map (\<lambda>(k, v). nfc_key E k) d = map fst d" using fx by auto
  ultimately show ?case by (simp only: nok.simps wf_keys.simps)
qed auto

lemma json_ok_validated: "vok n v \<Longrightarrow> wf_keys v \<Longrightarrow> json_ok v"
proof (induction v arbitrary: n rule: pyval_induct)
  case (PInt i)
  have "(2 :: int) ^ 53 < 10 ^ 16" by simp
  also have "\<dots> \<le> 10 ^ max_int_digits" by (rule power_increasing) (simp_all add: max_int_digits_def)
  finally have "(2 :: int) ^ 53 < 10 ^ max_int_digits" .
  moreover have "\<bar>i\<bar> < 2 ^ 53" using PInt by (auto simp: MIN_INTEGER_def MAX_INTEGER_def)
  ultimately show ?case by (simp only: json_ok.simps)
next
  case (PDict d)
  then show ?case by (fastforce simp: list_all_iff)
qed (fastforce simp: list_all_iff)+

section \<open>The canonical form\<close>

text \<open>Exactly when a value has a canonical encoding, and which.\<close>

lemma canonicalize_iff:
  "canonicalize E v = Inr b \<longleftrightarrow>
     nok E v \<and> vok 0 (nmap E v) \<and> int (nodes (nmap E v)) \<le> MAX_ITEMS
   \<and> utf8_encode (dumps (canon E v)) = Inr b \<and> length b \<le> MAX_CANONICAL_BYTES"
proof -
  have "0 \<le> MAX_ITEMS" by (simp add: MAX_ITEMS_def)
  note v = validate_iff [OF this]
  have c: "rcatch p (\<lambda>e. canon_err (exn_msg e)) m = Inr x \<longleftrightarrow> m = Inr x" for p and m :: "bytes res" and x
    by (cases m) (auto simp: canon_err_def)
  show ?thesis
    unfolding canonicalize_def rbind_eq_Inr_iff normalize_iff v c canon_def
    by (auto simp: canon_err_def not_less)
qed

text \<open>Every failure of \<open>canonicalize\<close> is a \<open>CanonicalizationError\<close>.\<close>

lemma errs_canon_err [simp]: "errs_in K (canon_err t) \<longleftrightarrow> CanonicalizationError \<in> K"
  by (simp add: canon_err_def)

lemma validate_errs:
  shows "errs_in {CanonicalizationError} (validate v d b)"
    and "errs_in {CanonicalizationError} (validate_list xs d b)"
    and "errs_in {CanonicalizationError} (validate_items ys d b)"
proof (induction v d b and xs d b and ys d b rule: validate_validate_list_validate_items.induct)
  case (1 v depth budget)
  then show ?case by (cases v) (auto simp: validate.simps)
qed (auto intro!: errs_in_rbind split: pykey.split)

lemma normalize_errs:
  shows "errs_in {CanonicalizationError} (normalize_json E v)"
    and "errs_in {CanonicalizationError} (normalize_list E xs)"
    and "errs_in {CanonicalizationError} (normalize_items E ys acc)"
proof (induction E v and E xs and E ys acc rule: normalize_json_normalize_list_normalize_items.induct)
  case (1 E v)
  then show ?case by (cases v) (auto simp: normalize_json.simps intro!: errs_in_rmap)
qed (auto intro!: errs_in_rbind)

lemma canonicalize_errs: "errs_in {CanonicalizationError} (canonicalize E v)"
  unfolding canonicalize_def
  by (intro errs_in_rbind normalize_errs validate_errs)
    (auto simp: utf8_encode_def is_value_error_def)

lemma canonicalize_canon:
  assumes "platform_ok E" "canonicalize E v = Inr b"
  shows "canonicalize E (canon E v) = Inr b" and "canon E (canon E v) = canon E v"
proof -
  have fx: "nmap E (canon E v) = canon E v"
    unfolding canon_def using nmap_idem [OF assms(1)] by (rule nmap_sort_keys)
  then show same: "canon E (canon E v) = canon E v" by (simp add: canon_def)
  have "nok E v" using assms(2) by (simp add: canonicalize_iff)
  then have "nok E (canon E v)" using nok_iff_wf_keys [OF fx] by (simp add: canon_def wf_keys_nmap)
  with assms(2) fx same show "canonicalize E (canon E v) = Inr b"
    by (simp add: canonicalize_iff) (simp add: canon_def)
qed

lemma pairs_loop_ok:
  "distinct (map fst acc @ map (\<lambda>(k, v). KStr k) ps) \<Longrightarrow>
     pairs_loop acc ps = Inr (PDict (acc @ map (\<lambda>(k, v). (KStr k, v)) ps))"
proof (induction acc ps rule: pairs_loop.induct)
  case (2 acc key v ps)
  then have "map_of acc (KStr key) = None" by (auto simp: map_of_eq_None_iff)
  with 2 show ?case by auto
qed simp

lemma hooks_ok_canonical: "hooks_ok canonical_hooks"
proof -
  have "distinct (map (\<lambda>(k, v). KStr k) ps)" if "distinct (map fst ps)" for ps :: "(ustr \<times> pyval) list"
    using that by (induction ps) force+
  then show ?thesis using pairs_loop_ok [of "[]"]
    by (simp add: hooks_ok_def canonical_hooks_def pairs_hook_def)
qed

lemma pairs_loop_dup:
  "\<not> distinct (map fst acc @ map (\<lambda>(k, v). KStr k) ps) \<Longrightarrow> distinct (map fst acc) \<Longrightarrow>
     pairs_loop acc ps = canon_err ''duplicate object key''"
proof (induction acc ps rule: pairs_loop.induct)
  case (2 acc key v ps)
  show ?case
  proof (cases "map_of acc (KStr key) = None")
    case True
    then have "KStr key \<notin> fst ` set acc" by (simp add: map_of_eq_None_iff)
    with 2 True show ?thesis by auto
  qed simp
qed simp

lemma hooks_errs_canonical:
  "hooks_errs {CanonicalizationError, JSONDecodeError, ValueError} canonical_hooks"
proof -
  have "errs_in {CanonicalizationError, JSONDecodeError, ValueError} (pairs_loop acc ps)" for acc ps
    by (induction acc ps rule: pairs_loop.induct) auto
  then show ?thesis
    by (simp add: hooks_errs_def canonical_hooks_def reject_float_def reject_constant_def pairs_hook_def)
qed

text \<open>
  Every failure of \<open>parse_canonical\<close> is a \<open>CanonicalizationError\<close>, but for one: the integer
  literal that the interpreter refuses to convert.
\<close>

lemma parse_canonical_errs: "errs_in {CanonicalizationError, ValueError} (parse_canonical E b)"
proof -
  have l: "errs_in {CanonicalizationError, JSONDecodeError, ValueError} (loads canonical_hooks s)" for s
    by (rule loads_errs [OF hooks_errs_canonical])
  have u: "errs_in {UnicodeError} (utf8_decode b)"
    by (auto simp: utf8_decode_def split: option.split)
  have "errs_in {UnicodeError, CanonicalizationError, JSONDecodeError, ValueError}
      (rbind (utf8_decode b) (loads canonical_hooks))"
    by (intro errs_in_rbind errs_in_mono [OF u] errs_in_mono [OF l]) auto
  then show ?thesis
    unfolding parse_canonical_def
    by (intro errs_in_if errs_in_rbind errs_in_rcatch errs_in_mono [OF validate_errs(1)]
        errs_in_mono [OF canonicalize_errs]) (auto dest: errs_inD)
qed

text \<open>Round trip: what was encoded parses, to the canonical value.\<close>

lemma parse_canonicalize:
  assumes ok: "platform_ok E" and c: "canonicalize E v = Inr b"
  shows "parse_canonical E b = Inr (canon E v)"
proof -
  have n: "nok E v" "vok 0 (nmap E v)" "int (nodes (nmap E v)) \<le> MAX_ITEMS"
    and enc: "utf8_encode (dumps (canon E v)) = Inr b" and len: "length b \<le> MAX_CANONICAL_BYTES"
    using c by (simp_all add: canonicalize_iff)
  have "json_ok (canon E v)"
    using n wf_keys_nmap by (intro json_ok_validated [of 0]) (simp_all add: canon_def)
  then obtain d r where "dumps (canon E v) = d # r" by (rule dumps_Cons)
  with enc have "b \<noteq> []" by (auto simp: utf8_encode_def split: if_splits)
  moreover have "rbind (utf8_decode b) (loads canonical_hooks) = Inr (canon E v)"
    using utf8_decode_encode [OF enc] loads_dumps [OF hooks_ok_canonical \<open>json_ok _\<close>] by simp
  moreover have "validate (canon E v) 0 MAX_ITEMS = Inr (MAX_ITEMS - int (nodes (canon E v)))"
    using n by (subst validate_iff) (simp_all add: canon_def MAX_ITEMS_def)
  moreover have "canonicalize E (canon E v) = Inr b" using canonicalize_canon(1) [OF ok c] .
  ultimately show ?thesis using len by (simp add: parse_canonical_def)
qed

lemma parse_canonicalD:
  "parse_canonical E b = Inr v \<Longrightarrow> canonicalize E v = Inr b \<and> vok 0 v \<and> b \<noteq> []"
  using validate_iff [of MAX_ITEMS v 0]
  by (auto simp: parse_canonical_def res_simps canon_err_def MAX_ITEMS_def split: if_splits)

section \<open>The codec\<close>

interpretation utf8: codec "\<lambda>_ :: unit. True" "\<lambda>_. utf8_encode" "\<lambda>_. utf8_decode" "\<lambda>_ s. s"
  by unfold_locales (auto dest: utf8_decode_encode utf8_encode_decode)

interpretation canonical: codec platform_ok canonicalize parse_canonical canon
  by unfold_locales (auto dest: parse_canonicalize parse_canonicalD)

text \<open>A dictionary is canonicalized by content: the order of its items is immaterial.\<close>

lemma key_str_inj: "key_ok k \<Longrightarrow> key_ok k' \<Longrightarrow> key_str k = key_str k' \<Longrightarrow> k = k'"
  by (cases k; cases k') auto

lemma sort_items_perm:
  assumes "mset d = mset d'" "distinct (map fst d)" "list_all (\<lambda>(k, v). key_ok k) d"
  shows "sort_items d = sort_items d'"
proof (rule sort_key_inj_key_eq)
  show "mset d = mset (sort_items d')" using assms(1) by simp
  show "inj_on (\<lambda>kv. key_str (fst kv)) (set d)"
    using assms(2,3) by (auto simp: inj_on_def list_all_iff distinct_map dest!: key_str_inj)
      (metis Pair_inject case_prodD fst_conv key_str_inj)+
qed simp

lemma mset_nmap_items:
  "mset d = mset d' \<Longrightarrow>
     mset (map (\<lambda>(k, v). (nfc_key E k, nmap E v)) d) = mset (map (\<lambda>(k, v). (nfc_key E k, nmap E v)) d')"
  by simp

lemma canonicalize_perm:
  assumes c: "canonicalize E (PDict d) = Inr b" and perm: "mset d = mset d'"
  shows "canonicalize E (PDict d') = Inr b"
proof -
  let ?n = "map (\<lambda>(k, v). (nfc_key E k, nmap E v))"
  have set: "set d' = set d" using perm by (metis set_mset_mset)
  have ok: "nok E (PDict d)" "vok 0 (nmap E (PDict d))"
    using c by (simp_all add: canonicalize_iff)
  have dist: "distinct (map fst (?n d))"
    using ok(1) by (simp add: case_prod_unfold comp_def)
  have "sort_items (sort_vals (?n d)) = sort_items (sort_vals (?n d'))"
  proof (rule sort_items_perm)
    show "mset (sort_vals (?n d)) = mset (sort_vals (?n d'))" using perm by simp
    show "distinct (map fst (sort_vals (?n d)))" using dist by (simp add: case_prod_unfold comp_def)
    show "list_all (\<lambda>(k, v). key_ok k) (sort_vals (?n d))"
      using ok(2) by (auto simp: list_all_iff)
  qed
  then have canon: "canon E (PDict d') = canon E (PDict d)" by (simp add: canon_def)
  have "nodes (nmap E (PDict d')) = nodes (nmap E (PDict d))"
    using perm by (metis canon canon_def nodes_sort_keys)
  moreover have "vok 0 (nmap E (PDict d'))" using ok(2) by (metis canon canon_def vok_sort_keys)
  moreover have "distinct (map (\<lambda>(k, v). nfc_key E k) d')"
    using ok(1) perm by (metis mset_eq_imp_distinct_iff mset_map nok.simps(2))
  then have "nok E (PDict d')" using ok(1) set by (simp add: list_all_iff)
  ultimately show ?thesis using c canon by (simp add: canonicalize_iff)
qed

section \<open>Looking into a canonical document\<close>

definition ascii :: "string \<Rightarrow> bool" where
  "ascii s \<longleftrightarrow> list_all (\<lambda>c. (of_char c :: nat) < 128) s"

lemma nfc_key_kw: "platform_ok E \<Longrightarrow> ascii k \<Longrightarrow> nfc_key E (kw k) = kw k"
  by (auto simp: kw_def ascii_def U_def list_all_iff intro!: platform_okD(3))

lemma nfc_U: "platform_ok E \<Longrightarrow> ascii s \<Longrightarrow> nfc E (U s) = U s"
  by (auto simp: ascii_def U_def list_all_iff intro!: platform_okD(3))

lemma canon_simps [simp]:
  "canon E PNone = PNone" "canon E (PBool b) = PBool b" "canon E (PInt i) = PInt i"
  "canon E (PStr s) = PStr (nfc E s)" "canon E (PList xs) = PList (map (canon E) xs)"
  by (simp_all add: canon_def)

lemma canon_pstr: "platform_ok E \<Longrightarrow> ascii s \<Longrightarrow> canon E (pstr s) = pstr s"
  by (simp add: pstr_def nfc_U)

lemma pstr_ok [simp]:
  "nok E (pstr s)" "sort_keys (pstr s) = pstr s" "nodes (pstr s) = 1" "nmap E (pstr s) = PStr (nfc E (U s))"
  by (simp_all add: pstr_def)

lemma canon_hex: "platform_ok E \<Longrightarrow> list_all is_hex s \<Longrightarrow> nfc E s = s"
  by (rule platform_okD(3)) (auto simp: list_all_iff is_hex_def)

lemma map_of_distinct_set:
  "distinct (map fst d) \<Longrightarrow> map_of d k = Some v \<longleftrightarrow> (k, v) \<in> set d"
  by (rule map_of_eq_Some_iff)

text \<open>
  A dictionary the code builds with literal keys, after canonicalization: the same keys, the
  canonical values, in some order.
\<close>

lemma canon_dict:
  assumes ok: "platform_ok E" and keys: "list_all (\<lambda>(k, v). ascii k) xs"
    and nok: "nok E (PDict (mk_dict xs))"
  obtains d where "canon E (PDict (mk_dict xs)) = PDict d"
    and "mset d = mset (mk_dict (map (\<lambda>(k, v). (k, canon E v)) xs))"
    and "distinct (map fst d)" and "distinct (map fst xs)"
    and "\<forall>k. dget d k = map_option (canon E) (map_of xs k)"
    and "\<forall>ks. has_keys d ks \<longleftrightarrow> fst ` set xs = set ks"
proof -
  let ?xs = "map (\<lambda>(k, v). (k, canon E v)) xs"
  have nf: "map (\<lambda>(k, v). (nfc_key E k, nmap E v)) (mk_dict xs) = mk_dict (map (\<lambda>(k, v). (k, nmap E v)) xs)"
    using keys by (auto simp: mk_dict_def list_all_iff nfc_key_kw [OF ok])
  have sv: "sort_vals (mk_dict (map (\<lambda>(k, v). (k, nmap E v)) xs)) = mk_dict ?xs"
    by (auto simp: mk_dict_def canon_def)
  define d where "d = sort_items (mk_dict ?xs)"
  have canon: "canon E (PDict (mk_dict xs)) = PDict d"
    unfolding canon_def nmap.simps nf sort_keys_PDict sv d_def ..
  have ms: "mset d = mset (mk_dict ?xs)" by (simp add: d_def)
  have "map (\<lambda>(k, v). nfc_key E k) (mk_dict xs) = map kw (map fst xs)"
    using keys by (auto simp: mk_dict_def list_all_iff nfc_key_kw [OF ok])
  with nok have dk: "distinct (map kw (map fst xs))" by (simp del: map_map)
  have mf: "map fst (mk_dict ?xs) = map kw (map fst xs)" by (auto simp: mk_dict_def)
  have dd: "distinct (map fst d)"
    using dk mf unfolding d_def distinct_map_sort_key by simp
  have set: "set d = set (mk_dict ?xs)" by (simp add: d_def)
  have "map_of d = map_of (mk_dict ?xs)"
    using map_of_inject_set [OF dd, of "mk_dict ?xs"] set mf dk by simp
  then have "dget d k = dget (mk_dict ?xs) k" for k by (simp add: dget_def)
  moreover have "dget (mk_dict ?xs) k = map_option (canon E) (map_of xs k)" for k
    by (induction xs) auto
  moreover have "has_keys d ks \<longleftrightarrow> fst ` set xs = set ks" for ks
  proof -
    have "fst ` set d = kw ` fst ` set xs" using set mf by (metis list.set_map)
    then show ?thesis by (simp add: has_keys_iff inj_image_eq_iff inj_def)
  qed
  moreover have "distinct (map fst xs)" using dk by (simp add: distinct_map [of kw] del: map_map)
  ultimately show ?thesis using that canon ms dd by simp
qed

lemma canon_sorted_dict:
  assumes ok: "platform_ok E" and keys: "list_all (\<lambda>(k, v). ascii k) xs"
    and sorted: "sorted (map (\<lambda>(k, v). U k) xs)"
  shows "canon E (PDict (mk_dict xs)) = PDict (mk_dict (map (\<lambda>(k, v). (k, canon E v)) xs))"
proof -
  have "map (\<lambda>(k, v). (nfc_key E k, nmap E v)) (mk_dict xs) = mk_dict (map (\<lambda>(k, v). (k, nmap E v)) xs)"
    using keys by (auto simp: mk_dict_def list_all_iff nfc_key_kw [OF ok])
  moreover have "sort_vals (mk_dict (map (\<lambda>(k, v). (k, nmap E v)) xs)) = mk_dict (map (\<lambda>(k, v). (k, canon E v)) xs)"
    by (auto simp: mk_dict_def canon_def)
  moreover have "sorted (map (\<lambda>kv. key_str (fst kv)) (mk_dict (map (\<lambda>(k, v). (k, canon E v)) xs)))"
  proof -
    have "map (\<lambda>kv. key_str (fst kv)) (mk_dict (map (\<lambda>(k, v). (k, canon E v)) xs)) = map (\<lambda>(k, v). U k) xs"
      by (auto simp: mk_dict_def kw_def)
    with sorted show ?thesis by simp
  qed
  ultimately show ?thesis
    unfolding canon_def nmap.simps sort_keys_PDict by (simp only: sort_key_id_if_sorted)
qed

lemma canonicalize_nmap:
  assumes "platform_ok E" "canonicalize E v = Inr b"
  shows "canonicalize E (nmap E v) = Inr b"
proof -
  have fx: "nmap E (nmap E v) = nmap E v" by (rule nmap_idem [OF assms(1)])
  have "nok E (nmap E v)" using assms(2) nok_iff_wf_keys [OF fx] by (simp add: canonicalize_iff wf_keys_nmap)
  with assms(2) fx show ?thesis by (simp add: canonicalize_iff canon_def)
qed

lemma canonicalize_items_canon:
  assumes "platform_ok E" "canonicalize E (PDict d) = Inr b"
    and "mset d' = mset (map (\<lambda>(k, v). (nfc_key E k, canon E v)) d)"
  shows "canonicalize E (PDict d') = Inr b"
proof -
  have "canonicalize E (canon E (PDict d)) = Inr b" using assms canonicalize_canon(1) by blast
  then have "canonicalize E (PDict (sort_items (sort_vals (map (\<lambda>(k, v). (nfc_key E k, nmap E v)) d)))) = Inr b"
    by (simp add: canon_def)
  moreover have "sort_vals (map (\<lambda>(k, v). (nfc_key E k, nmap E v)) d) = map (\<lambda>(k, v). (nfc_key E k, canon E v)) d"
    by (auto simp: canon_def)
  ultimately have "canonicalize E (PDict (sort_items (map (\<lambda>(k, v). (nfc_key E k, canon E v)) d))) = Inr b"
    by (simp only:)
  then show ?thesis by (rule canonicalize_perm) (simp add: assms(3))
qed

section \<open>Properties\<close>

lemmas canonical_eval = canonicalize_def normalize_json.simps validate.simps MAX_ITEMS_def
  MAX_DEPTH_def MAX_CANONICAL_BYTES_def MIN_INTEGER_def MAX_INTEGER_def kw_def pstr_def
  str_valid_def is_surrogate_def utf8_encode_def utf8_char_def is_scalar_def esc_char_def
  json_str_def

declare canonical_eval [eval_simps]

definition sample_doc :: pyval where
  "sample_doc = PDict (mk_dict [(''b'', PInt 1), (''a'', pstr ''x'')])"

definition sample_wire :: bytes where
  "sample_wire = ''{\"a\":\"x\",\"b\":1}''"

lemma canonicalize_sample: "canonicalize demo_platform sample_doc = Inr sample_wire"
  by (simp add: sample_doc_def sample_wire_def demo_platform_def eval_simps)

text \<open>
  C32: Round trip. A document that canonicalizes to the bytes \<open>b\<close> is read back from \<open>b\<close> as its
  canonical form (strings in NFC, keys sorted), and that form canonicalizes to \<open>b\<close> again.
\<close>

theorem canonical_round_trip:
  assumes "platform_ok E" and "canonicalize E v = Inr b"
  shows "parse_canonical E b = Inr (canon E v) \<and> canonicalize E (canon E v) = Inr b"
  using canonical.dec_enc canonical.enc_norm assms by blast

theorem canonical_round_trip_witness:
  "parse_canonical demo_platform sample_wire = Inr (canon demo_platform sample_doc)"
  using canonical_round_trip [OF platform_ok_demo canonicalize_sample] by blast

text \<open>
  C27: One wire form per value. The parser accepts \<open>b\<close> as \<open>v\<close> exactly when \<open>v\<close> is in canonical
  form and \<open>b\<close> is its encoding; so no two byte strings are read as the same value, and what is
  accepted lies inside every limit of the format: nesting, items, integers, size.
\<close>

theorem parse_canonical_exact:
  assumes "platform_ok E"
  shows "(parse_canonical E b = Inr v \<longleftrightarrow> canonicalize E v = Inr b \<and> canon E v = v)
    \<and> (parse_canonical E b = Inr v \<and> parse_canonical E b' = Inr v \<longrightarrow> b = b')
    \<and> (parse_canonical E b = Inr v \<longrightarrow>
        vok 0 v \<and> int (nodes v) \<le> MAX_ITEMS \<and> 0 < length b \<and> length b \<le> MAX_CANONICAL_BYTES)"
proof -
  have "int (nodes v) \<le> MAX_ITEMS \<and> length b \<le> MAX_CANONICAL_BYTES" if p: "parse_canonical E b = Inr v"
  proof -
    have c: "canonicalize E v = Inr b" "canon E v = v"
      using p canonical.dec_iff [OF assms] by auto
    have "nodes (nmap E v) = nodes v" using c(2) by (metis canon_def nodes_sort_keys)
    with c(1) show ?thesis by (simp add: canonicalize_iff)
  qed
  then show ?thesis
    using canonical.dec_iff [OF assms] canonical.dec_inject parse_canonicalD by blast
qed

theorem parse_canonical_exact_witness:
  "canonicalize demo_platform (canon demo_platform sample_doc) = Inr sample_wire
   \<and> length sample_wire \<le> MAX_CANONICAL_BYTES"
  using parse_canonical_exact [OF platform_ok_demo, of sample_wire "canon demo_platform sample_doc"]
    parse_canonicalize [OF platform_ok_demo canonicalize_sample] by blast

text \<open>
  C26: The validator's budget. Threading the item budget through a document, as the recursive
  validator does, accepts it exactly when every node and key is admissible at its depth and the
  number of nodes and keys is within the budget; what is left is the difference.
\<close>

theorem validate_budget:
  "0 \<le> budget \<Longrightarrow> validate v depth budget = Inr left \<longleftrightarrow>
     vok depth v \<and> int (nodes v) \<le> budget \<and> left = budget - int (nodes v)"
  by (rule validate_iff)

theorem validate_budget_witness:
  "\<not> validate (PList [PNone, PNone]) 0 2 = Inr 0 \<and> validate (PList [PNone, PNone]) 0 3 = Inr 0"
  using validate_budget [of 2 "PList [PNone, PNone]" 0 0] validate_budget [of 3 "PList [PNone, PNone]" 0 0]
  by (simp add: MAX_DEPTH_def)

text \<open>
  The digest names the content. Reordering the items of a dictionary does not change its
  digest, and two documents with one digest have one canonical form unless their two encodings
  are a collision of SHA-256.
\<close>

lemma digest_content:
  assumes "platform_ok E" and "digest E (PDict d) = Inr h"
  shows "(mset d = mset d' \<longrightarrow> digest E (PDict d') = Inr h)
    \<and> (digest E v = Inr h \<longrightarrow> (\<exists>b b'. canonicalize E v = Inr b \<and> canonicalize E (PDict d) = Inr b'
          \<and> (canon E v = canon E (PDict d) \<or> collides E b b')))"
proof (intro conjI impI)
  show "digest E (PDict d') = Inr h" if "mset d = mset d'"
    using assms(2) canonicalize_perm [OF _ that] by (auto simp: digest_def rmap_eq_Inr_iff)
  show "\<exists>b b'. canonicalize E v = Inr b \<and> canonicalize E (PDict d) = Inr b'
      \<and> (canon E v = canon E (PDict d) \<or> collides E b b')" if dv: "digest E v = Inr h"
  proof -
    obtain b b' where b: "canonicalize E v = Inr b" "canonicalize E (PDict d) = Inr b'"
      and h: "h = sha256_hex E b" "h = sha256_hex E b'"
      using dv assms(2) unfolding digest_def rmap_eq_Inr_iff by blast
    from h have "b = b' \<or> collides E b b'" by (simp flip: same_digest)
    with b canonical.enc_inject [OF assms(1)] show ?thesis by blast
  qed
qed

text \<open>
  The parser is total. On every byte string it returns a value or raises; it never runs out
  of fuel, and each failure is a \<open>CanonicalizationError\<close>, except that an integer literal of more
  than 4300 digits escapes as the interpreter's \<open>ValueError\<close>.
\<close>

lemma parse_canonical_total:
  "(\<exists>v. parse_canonical E b = Inr v)
   \<or> (\<exists>e. parse_canonical E b = Inl e \<and> exn_kind_of e \<in> {CanonicalizationError, ValueError})"
  using parse_canonical_errs [of E b] by (cases "parse_canonical E b") (auto simp: errs_in_def)

end
