(* ===== verification/Base64.thy ===== *)
theory Base64
  imports Prelude
begin

text \<open>
  The unpadded base64url codec of \<^verbatim>\<open>src/mgk/crypto.py\<close> (\<open>b64u_encode\<close>,
  \<open>b64u_decode\<close>) over the standard library's base64, and the proof that the accepted strings
  are exactly the ones the encoder writes.
\<close>

section \<open>Six-bit digits\<close>

definition b64_char :: "nat \<Rightarrow> nat" where
  "b64_char n =
     (if n < 26 then 65 + n else if n < 52 then 71 + n else if n < 62 then n - 4
      else if n = 62 then 45 else 95)"

text \<open>
  \<^verbatim>\<open>b64decode(\<dots>, altchars=b"-_", validate=True)\<close> translates \<^verbatim>\<open>-_\<close> to \<^verbatim>\<open>+/\<close>
  before decoding, so the standard characters \<^verbatim>\<open>+/\<close> are digits as well.
\<close>

definition b64_val :: "nat \<Rightarrow> nat option" where
  "b64_val c =
     (if 65 \<le> c \<and> c \<le> 90 then Some (c - 65)
      else if 97 \<le> c \<and> c \<le> 122 then Some (c - 71)
      else if 48 \<le> c \<and> c \<le> 57 then Some (c + 4)
      else if c = 45 \<or> c = 43 then Some 62
      else if c = 95 \<or> c = 47 then Some 63
      else None)"

lemma b64_val_char: "n < 64 \<Longrightarrow> b64_val (b64_char n) = Some n"
  by (auto simp: b64_val_def b64_char_def)

lemma b64_val_bound: "b64_val c = Some n \<Longrightarrow> n < 64"
  by (auto simp: b64_val_def split: if_splits)

section \<open>Groups of three bytes and four digits\<close>

fun b64u_encode :: "bytes \<Rightarrow> ustr" where
  "b64u_encode [] = []"
| "b64u_encode [a] =
     (let x = of_char a :: nat in map b64_char [x div 4, x mod 4 * 16])"
| "b64u_encode [a, b] =
     (let x = of_char a; y = of_char b :: nat
      in map b64_char [x div 4, x mod 4 * 16 + y div 16, y mod 16 * 4])"
| "b64u_encode (a # b # c # r) =
     (let x = of_char a; y = of_char b; z = of_char c :: nat
      in map b64_char [x div 4, x mod 4 * 16 + y div 16, y mod 16 * 4 + z div 64, z mod 64]
         @ b64u_encode r)"

fun b64_groups :: "nat list \<Rightarrow> bytes option" where
  "b64_groups [] = Some []"
| "b64_groups [p] = None"
| "b64_groups [p, q] = Some [char_of (p * 4 + q div 16)]"
| "b64_groups [p, q, r] = Some [char_of (p * 4 + q div 16), char_of (q mod 16 * 16 + r div 4)]"
| "b64_groups (p # q # r # s # t) =
     map_option (append [char_of (p * 4 + q div 16), char_of (q mod 16 * 16 + r div 4),
                         char_of (r mod 4 * 64 + s)]) (b64_groups t)"

text \<open>
  The library's decoder, on a string that holds no padding: every character must be a digit and
  a single digit left over cannot be padded.
\<close>

definition b64_decode :: "ustr \<Rightarrow> bytes option" where
  "b64_decode s =
     (if \<forall>c \<in> set s. b64_val c \<noteq> None then b64_groups (map (\<lambda>c. the (b64_val c)) s) else None)"

section \<open>The decoder of the kernel\<close>

text \<open>\<^verbatim>\<open>str.isspace\<close>\<close>

definition is_space :: "nat \<Rightarrow> bool" where
  "is_space c \<longleftrightarrow> (9 \<le> c \<and> c \<le> 13) \<or> (28 \<le> c \<and> c \<le> 32) \<or> c = 0x85 \<or> c = 0xA0 \<or> c = 0x1680
     \<or> (0x2000 \<le> c \<and> c \<le> 0x200A) \<or> c = 0x2028 \<or> c = 0x2029 \<or> c = 0x202F \<or> c = 0x205F \<or> c = 0x3000"

definition b64u_decode :: "ustr \<Rightarrow> nat option \<Rightarrow> bytes res" where
  "b64u_decode value expected_size =
     (if value = [] \<or> (\<exists>c \<in> set value. is_space c)
      then Inl (Exn SignatureError ''invalid base64url value'')
      else if 61 \<in> set value
      then Inl (Exn SignatureError ''padded base64url is not canonical'')
      else case b64_decode value of
        None \<Rightarrow> Inl (Exn SignatureError ''invalid base64url encoding'')
      | Some raw \<Rightarrow>
          if b64u_encode raw \<noteq> value
          then Inl (Exn SignatureError ''non-canonical base64url encoding'')
          else if expected_size \<noteq> None \<and> expected_size \<noteq> Some (length raw)
          then Inl (Exn SignatureError ''unexpected decoded size'')
          else Inr raw)"

section \<open>Round trip\<close>

lemma of_char_less [simp]: "(of_char c :: nat) < 256"
  by simp

lemma b64_split:
  fixes x y z :: nat
  assumes "x < 256" "y < 256" "z < 256"
  shows "x div 4 < 64" "x mod 4 * 16 + y div 16 < 64" "y mod 16 * 4 + z div 64 < 64"
    and "(x mod 4 * 16 + y div 16) div 16 = x mod 4" "(x mod 4 * 16 + y div 16) mod 16 = y div 16"
    and "(y mod 16 * 4 + z div 64) div 4 = y mod 16" "(y mod 16 * 4 + z div 64) mod 4 = z div 64"
proof -
  have "x mod 4 < 4" "y mod 16 < 16" by simp_all
  moreover have 1: "y div 16 < 16" "z div 64 < 4" and "x div 4 < 64"
    using assms by (simp_all add: less_mult_imp_div_less)
  ultimately show "x div 4 < 64" "x mod 4 * 16 + y div 16 < 64" "y mod 16 * 4 + z div 64 < 64"
    by linarith+
  show "(x mod 4 * 16 + y div 16) div 16 = x mod 4" "(x mod 4 * 16 + y div 16) mod 16 = y div 16"
    "(y mod 16 * 4 + z div 64) div 4 = y mod 16" "(y mod 16 * 4 + z div 64) mod 4 = z div 64"
    using 1 by simp_all
qed

lemma b64u_encode_digits:
  "\<exists>ds. b64u_encode bs = map b64_char ds \<and> (\<forall>d \<in> set ds. d < 64) \<and> b64_groups ds = Some bs"
proof (induction bs rule: b64u_encode.induct)
  case 1
  show ?case by (rule exI [of _ "[]"]) simp
next
  case (2 a)
  let ?x = "of_char a :: nat"
  note x = b64_split [of ?x 0 0, simplified]
  show ?case
    by (intro exI [of _ "[?x div 4, ?x mod 4 * 16]"]) (simp add: Let_def x)
next
  case (3 a b)
  let ?x = "of_char a :: nat" and ?y = "of_char b :: nat"
  note x = b64_split [of ?x ?y 0, simplified]
  show ?case
    by (intro exI [of _ "[?x div 4, ?x mod 4 * 16 + ?y div 16, ?y mod 16 * 4]"]) (simp add: Let_def x)
next
  case (4 a b c r)
  let ?x = "of_char a :: nat" and ?y = "of_char b :: nat" and ?z = "of_char c :: nat"
  from "4.IH" [OF refl refl refl] obtain ds where ds: "b64u_encode r = map b64_char ds" "\<forall>d \<in> set ds. d < 64"
    "b64_groups ds = Some r" by blast
  note x = b64_split [of ?x ?y ?z, simplified]
  show ?case
    by (intro exI [of _ "[?x div 4, ?x mod 4 * 16 + ?y div 16, ?y mod 16 * 4 + ?z div 64, ?z mod 64] @ ds"])
      (simp add: Let_def x ds)
qed

lemma b64_char_range: "d < 64 \<Longrightarrow> \<not> is_space (b64_char d) \<and> b64_char d \<noteq> 61"
  by (auto simp: b64_char_def is_space_def)

lemma b64u_encode_Nil_iff [simp]: "b64u_encode bs = [] \<longleftrightarrow> bs = []"
  by (cases bs rule: b64u_encode.cases) (auto simp: Let_def)

lemma b64_decode_encode: "b64_decode (b64u_encode bs) = Some bs"
proof -
  obtain ds where ds: "b64u_encode bs = map b64_char ds" "\<forall>d \<in> set ds. d < 64" "b64_groups ds = Some bs"
    using b64u_encode_digits by blast
  have "map (\<lambda>c. the (b64_val c)) (map b64_char ds) = ds"
    using ds(2) by (induction ds) (auto simp: b64_val_char)
  with ds show ?thesis by (auto simp: b64_decode_def b64_val_char)
qed

lemma b64u_encode_inject: "b64u_encode a = b64u_encode b \<longleftrightarrow> a = b"
  by (metis b64_decode_encode option.inject)

lemma b64u_decode_encode:
  assumes "bs \<noteq> []" "n = None \<or> n = Some (length bs)"
  shows "b64u_decode (b64u_encode bs) n = Inr bs"
proof -
  obtain ds where ds: "b64u_encode bs = map b64_char ds" "\<forall>d \<in> set ds. d < 64"
    using b64u_encode_digits by blast
  then have "\<not> (\<exists>c \<in> set (b64u_encode bs). is_space c)" "61 \<notin> set (b64u_encode bs)"
    using b64_char_range by fastforce+
  with assms show ?thesis by (auto simp: b64u_decode_def b64_decode_encode)
qed

lemma b64u_decode_InrD:
  "b64u_decode s n = Inr bs \<Longrightarrow> b64u_encode bs = s \<and> bs \<noteq> [] \<and> (n = None \<or> n = Some (length bs))"
  by (auto simp: b64u_decode_def split: if_splits option.splits)

lemma length_b64u_encode: "length (b64u_encode bs) \<le> 2 * length bs"
proof (induction bs rule: b64u_encode.induct)
  case (4 a b c r)
  show ?case using "4.IH" [OF refl refl refl] by (simp add: Let_def)
qed (simp_all add: Let_def)

lemma b64u_encode_range: "c \<in> set (b64u_encode bs) \<Longrightarrow> c < 128"
proof -
  obtain ds where "b64u_encode bs = map b64_char ds" "\<forall>d \<in> set ds. d < 64"
    using b64u_encode_digits by blast
  then show "c \<in> set (b64u_encode bs) \<Longrightarrow> c < 128" by (auto simp: b64_char_def)
qed

lemma b64u_decode_iff:
  "b64u_decode s n = Inr bs \<longleftrightarrow> bs \<noteq> [] \<and> s = b64u_encode bs \<and> (n = None \<or> n = Some (length bs))"
  using b64u_decode_InrD [of s n bs] b64u_decode_encode [of bs n] by blast

lemma b64u_decode_InlD: "b64u_decode s n = Inl e \<Longrightarrow> exn_kind_of e = SignatureError"
  by (auto simp: b64u_decode_def split: if_splits option.splits)

end
