(* ===== verification/Crypto.thy ===== *)
theory Crypto
  imports Base64 Canonical
begin

text \<open>
  \<^verbatim>\<open>src/mgk/crypto.py\<close>: Ed25519 keys held as their raw 32 bytes, key identifiers and
  domain-separated signatures in base64url. The locale \<open>signing\<close> is the interface through which
  the ledger, the security state and the capability code sign and verify.
\<close>

section \<open>Domains and keys\<close>

definition CAPABILITY_DOMAIN :: bytes where "CAPABILITY_DOMAIN = ''MGK-CAPABILITY-V1'' @ [CHR 0x00]"
definition AUDIT_DOMAIN :: bytes where "AUDIT_DOMAIN = ''MGK-AUDIT-CHECKPOINT-V1'' @ [CHR 0x00]"
definition EPOCH_DOMAIN :: bytes where "EPOCH_DOMAIN = ''MGK-EPOCH-V1'' @ [CHR 0x00]"
definition HUMAN_GATE_DOMAIN :: bytes where "HUMAN_GATE_DOMAIN = ''MGK-HUMAN-GATE-V1'' @ [CHR 0x00]"

definition domains :: "bytes set" where
  "domains = {CAPABILITY_DOMAIN, AUDIT_DOMAIN, EPOCH_DOMAIN, HUMAN_GATE_DOMAIN}"

definition sig_err :: "string \<Rightarrow> 'a res" where
  "sig_err t = Inl (Exn SignatureError t)"

lemma errs_sig_err [simp]: "errs_in K (sig_err t) \<longleftrightarrow> SignatureError \<in> K"
  by (simp add: sig_err_def)

lemma sig_err_neq [simp]: "sig_err t \<noteq> Inr x" "Inr x \<noteq> sig_err t"
  by (simp_all add: sig_err_def)

definition load_private_key :: "bytes \<Rightarrow> bytes res" where
  "load_private_key raw =
     (if length raw \<noteq> 32 then sig_err ''invalid Ed25519 private key'' else Inr raw)"

definition load_public_key :: "bytes \<Rightarrow> bytes res" where
  "load_public_key raw =
     (if length raw \<noteq> 32 then sig_err ''invalid Ed25519 public key'' else Inr raw)"

definition key_id :: "platform \<Rightarrow> bytes \<Rightarrow> ustr" where
  "key_id E key = U ''ed25519:'' @ sha256_hex E key"

section \<open>Signatures\<close>

text \<open>The decoder on a value of any type: only a string can be a signature.\<close>

definition b64u_decode_value :: "pyval \<Rightarrow> nat option \<Rightarrow> bytes res" where
  "b64u_decode_value value expected_size =
     (case value of
        PStr s \<Rightarrow> b64u_decode s expected_size
      | _ \<Rightarrow> sig_err ''invalid base64url value'')"

definition sign :: "platform \<Rightarrow> bytes \<Rightarrow> bytes \<Rightarrow> bytes \<Rightarrow> ustr" where
  "sign E key domain message = b64u_encode (ed_sign E key (domain @ message))"

definition verify :: "platform \<Rightarrow> bytes \<Rightarrow> bytes \<Rightarrow> bytes \<Rightarrow> pyval \<Rightarrow> unit res" where
  "verify E key domain message signature =
     rbind (b64u_decode_value signature (Some 64)) (\<lambda>raw.
     if ed_verify E key (domain @ message) raw then Inr ()
     else sig_err ''Ed25519 signature verification failed'')"

lemma verify_errs: "errs_in {SignatureError} (verify E key d m s)"
proof -
  have "errs_in {SignatureError} (b64u_decode v n)" for v n
    by (auto simp: errs_in_def dest: b64u_decode_InlD)
  then show ?thesis
    by (auto simp: verify_def b64u_decode_value_def intro!: errs_in_rbind split: pyval.split)
qed

lemma verify_iff:
  "verify E key d m s = Inr u \<longleftrightarrow>
     (\<exists>raw. length raw = 64 \<and> s = PStr (b64u_encode raw) \<and> ed_verify E key (d @ m) raw)"
proof
  assume "verify E key d m s = Inr u"
  then obtain raw where "b64u_decode_value s (Some 64) = Inr raw" "ed_verify E key (d @ m) raw"
    by (auto simp: verify_def rbind_eq_Inr_iff split: if_splits)
  then show "\<exists>raw. length raw = 64 \<and> s = PStr (b64u_encode raw) \<and> ed_verify E key (d @ m) raw"
    by (cases s; intro exI [of _ raw]) (auto simp: b64u_decode_value_def dest: b64u_decode_InrD)
next
  assume "\<exists>raw. length raw = 64 \<and> s = PStr (b64u_encode raw) \<and> ed_verify E key (d @ m) raw"
  then obtain raw where raw: "length raw = 64" "s = PStr (b64u_encode raw)" "ed_verify E key (d @ m) raw"
    by blast
  then have "b64u_decode (b64u_encode raw) (Some 64) = Inr raw" by (auto simp: b64u_decode_iff)
  with raw show "verify E key d m s = Inr u"
    by (simp add: verify_def b64u_decode_value_def)
qed

section \<open>Interface: a signer\<close>

locale signing =
  fixes ok :: "'e \<Rightarrow> bool"
    and pub :: "'e \<Rightarrow> 'k \<Rightarrow> 'p"
    and sgn :: "'e \<Rightarrow> 'k \<Rightarrow> 'd \<Rightarrow> 'm \<Rightarrow> 's"
    and chk :: "'e \<Rightarrow> 'p \<Rightarrow> 'd \<Rightarrow> 'm \<Rightarrow> 's \<Rightarrow> unit res"
  assumes chk_sgn: "ok E \<Longrightarrow> chk E (pub E k) d m (sgn E k d m) = Inr ()"

text \<open>A signer over the wire form of a codec: what is sealed opens to its canonical form.\<close>

locale sealing = codec ok enc dec norm + signing ok pub sgn chk
  for ok :: "'e \<Rightarrow> bool" and enc :: "'e \<Rightarrow> 'a \<Rightarrow> 'b res" and dec and norm
    and pub :: "'e \<Rightarrow> 'k \<Rightarrow> 'p" and sgn :: "'e \<Rightarrow> 'k \<Rightarrow> 'd \<Rightarrow> 'b \<Rightarrow> 's" and chk
begin

lemma seal_open:
  "ok E \<Longrightarrow> enc E x = Inr y \<Longrightarrow>
     chk E (pub E k) d y (sgn E k d y) = Inr () \<and> dec E y = Inr (norm E x)"
  using chk_sgn dec_enc by blast

lemma seal_open_norm:
  "ok E \<Longrightarrow> enc E x = Inr y \<Longrightarrow> norm E x = x \<Longrightarrow>
     chk E (pub E k) d y (sgn E k d y) = Inr () \<and> dec E y = Inr x"
  using seal_open by metis

end

interpretation ed25519: signing platform_ok ed_public "\<lambda>E k d m. PStr (sign E k d m)" verify
proof unfold_locales
  fix E k d m
  assume "platform_ok E"
  then have "length (ed_sign E k (d @ m)) = 64" "ed_verify E (ed_public E k) (d @ m) (ed_sign E k (d @ m))"
    by (simp_all add: platform_okD)
  then show "verify E (ed_public E k) d m (PStr (sign E k d m)) = Inr ()"
    by (auto simp: verify_iff sign_def)
qed

interpretation sealed: sealing platform_ok canonicalize parse_canonical canon ed_public
    "\<lambda>E k d m. PStr (sign E k d m)" verify
  by unfold_locales

section \<open>Properties\<close>

lemma domain_prefix_free:
  "d \<in> domains \<Longrightarrow> d' \<in> domains \<Longrightarrow> d @ m = d' @ m' \<Longrightarrow> d = d' \<and> m = m'"
  by (auto simp: domains_def CAPABILITY_DOMAIN_def AUDIT_DOMAIN_def EPOCH_DOMAIN_def HUMAN_GATE_DOMAIN_def)

text \<open>
  C33: Domain separation. What is signed verifies under the same domain, and a signature that
  verifies under one of the four domains is the unique base64url spelling of 64 bytes that the
  Ed25519 primitive accepts for one byte string, which determines both the domain and the
  message: no string is a valid signing input for two domains.
\<close>

theorem signature_domain_separated:
  assumes "platform_ok E" and "d \<in> domains"
  shows "verify E (ed_public E k) d m (PStr (sign E k d m)) = Inr ()
    \<and> (verify E p d m s = Inr () \<longrightarrow>
        (\<exists>raw. length raw = 64 \<and> s = PStr (b64u_encode raw) \<and> ed_verify E p (d @ m) raw)
        \<and> (\<forall>d' m'. d' \<in> domains \<and> d' @ m' = d @ m \<longrightarrow> d' = d \<and> m' = m))"
  using ed25519.chk_sgn [OF assms(1)] domain_prefix_free [OF _ assms(2)] by (auto simp: verify_iff)

theorem signature_domain_separated_witness:
  "verify demo_platform (ed_public demo_platform ''k'') AUDIT_DOMAIN ''m''
     (PStr (sign demo_platform ''k'' AUDIT_DOMAIN ''m'')) = Inr ()"
proof -
  have "AUDIT_DOMAIN \<in> domains" by (simp add: domains_def)
  from signature_domain_separated [OF platform_ok_demo this] show ?thesis by blast
qed

end
