(* ===== verification/Models.thy ===== *)
theory Models
  imports Canonical
begin

text \<open>
  \<^verbatim>\<open>src/mgk/models.py\<close> and \<^verbatim>\<open>src/mgk/clock.py\<close>: the immutable data that crosses the
  authority boundary. A dataclass does not check its fields, so a field holds any value; what
  a payload contains is what the digest covers.
\<close>

section \<open>Requests\<close>

record action_request =
  request_id :: pyval
  principal :: pyval
  audience :: pyval
  action :: pyval
  resource :: pyval
  parameters :: pyval

definition copy_mapping :: "pyval \<Rightarrow> pydict res" where
  "copy_mapping v =
     (case v of PDict d \<Rightarrow> Inr d | _ \<Rightarrow> Inl (Exn TypeError ''parameters must be a mapping''))"

definition request_payload :: "action_request \<Rightarrow> pyval res" where
  "request_payload r =
     rbind (copy_mapping (parameters r)) (\<lambda>ps.
     Inr (PDict (mk_dict
       [(''action'', action r), (''audience'', audience r), (''parameters'', PDict ps),
        (''principal'', principal r), (''request_id'', request_id r), (''resource'', resource r)])))"

definition request_digest :: "platform \<Rightarrow> action_request \<Rightarrow> ustr res" where
  "request_digest E r = rbind (request_payload r) (digest E)"

section \<open>SAXP contexts and decisions\<close>

record saxp_context =
  coherence_delta :: pyval
  systemic_pressure :: pyval
  threshold_k :: pyval
  sentidino :: pyval
  information_complete :: pyval
  critical_uncertainty :: pyval
  control_risk :: pyval
  ethical_constraints_satisfied :: pyval

definition context_payload :: "saxp_context \<Rightarrow> pyval" where
  "context_payload c = PDict (mk_dict
     [(''coherence_delta'', coherence_delta c), (''control_risk'', control_risk c),
      (''critical_uncertainty'', critical_uncertainty c),
      (''ethical_constraints_satisfied'', ethical_constraints_satisfied c),
      (''information_complete'', information_complete c), (''sentidino'', sentidino c),
      (''systemic_pressure'', systemic_pressure c), (''threshold_k'', threshold_k c)])"

record saxp_decision =
  result :: string
  reason_codes :: "string list"
  d_request_digest :: ustr
  d_context_digest :: ustr
  d_policy_id :: ustr

definition decision_payload :: "saxp_decision \<Rightarrow> pyval" where
  "decision_payload d = PDict (mk_dict
     [(''context_digest'', PStr (d_context_digest d)), (''policy_id'', PStr (d_policy_id d)),
      (''reason_codes'', PList (map pstr (reason_codes d))),
      (''request_digest'', PStr (d_request_digest d)), (''result'', pstr (result d))])"

section \<open>Results\<close>

record issue_result =
  envelope :: "bytes option"
  decision :: saxp_decision
  i_capability_id :: "ustr option"

record execution_result =
  success :: bool
  status :: string
  reason_code :: string
  execution_authority :: int
  x_capability_id :: pyval
  output_digest :: pyval
  outp :: "bytes option"

section \<open>Clocks\<close>

record fixed_clock = clock_value :: int

definition fixed_now :: "fixed_clock \<Rightarrow> int" where
  "fixed_now c = clock_value c"

definition fixed_advance :: "pyval \<Rightarrow> (fixed_clock, unit) op" where
  "fixed_advance seconds =
     (case seconds of
        PInt n \<Rightarrow> smodify (\<lambda>c. c\<lparr>clock_value := clock_value c + n\<rparr>)
      | _ \<Rightarrow> sraise (Exn TypeError ''seconds must be an integer''))"

section \<open>What a digest covers\<close>

lemma digest_errs: "errs_in {CanonicalizationError} (digest E v)"
  using canonicalize_errs by (simp add: digest_def errs_in_rmap)

lemma request_digest_errs: "errs_in {CanonicalizationError, TypeError} (request_digest E r)"
  unfolding request_digest_def request_payload_def copy_mapping_def
  by (intro errs_in_rbind errs_in_mono [OF digest_errs]) (auto split: pyval.split)

end
