(* ===== verification/Saxp.thy ===== *)
theory Saxp
  imports Models
begin

text \<open>
  \<^verbatim>\<open>src/mgk/saxp.py\<close>: the SAXP Level 1 evaluator. Its verdict decides whether the authority
  may mint a capability at all.
\<close>

datatype saxp_result = TEN_XEITO | REQUIRE_XEITO | NON_TEN_XEITO

fun result_value :: "saxp_result \<Rightarrow> string" where
  "result_value TEN_XEITO = ''TEN_XEITO''"
| "result_value REQUIRE_XEITO = ''REQUIRE_XEITO''"
| "result_value NON_TEN_XEITO = ''NON_TEN_XEITO''"

record saxp_evaluator =
  policy_id :: ustr
  minimum_sentidino :: int

definition saxp_init :: "ustr \<Rightarrow> pyval \<Rightarrow> saxp_evaluator res" where
  "saxp_init pid minimum =
     (case minimum of
        PInt n \<Rightarrow>
          if pid = [] then Inl (Exn ValueError ''invalid SAXP policy'')
          else if \<not> (0 \<le> n \<and> n \<le> 10000)
          then Inl (Exn ValueError ''minimum_sentidino outside 0..10000'')
          else Inr \<lparr>policy_id = pid, minimum_sentidino = n\<rparr>
      | _ \<Rightarrow> Inl (Exn ValueError ''invalid SAXP policy''))"

fun is_int :: "pyval \<Rightarrow> bool" where
  "is_int (PInt i) = True" | "is_int _ = False"

fun is_bool :: "pyval \<Rightarrow> bool" where
  "is_bool (PBool b) = True" | "is_bool _ = False"

fun as_int :: "pyval \<Rightarrow> int" where
  "as_int (PInt i) = i" | "as_int _ = 0"

fun as_bool :: "pyval \<Rightarrow> bool" where
  "as_bool (PBool b) = b" | "as_bool _ = False"

lemma is_int_iff: "is_int v \<longleftrightarrow> (\<exists>i. v = PInt i)"
  by (cases v) auto

lemma is_bool_iff: "is_bool v \<longleftrightarrow> (\<exists>b. v = PBool b)"
  by (cases v) auto

definition validate_context :: "saxp_context \<Rightarrow> unit res" where
  "validate_context c =
     (if \<not> list_all is_int [coherence_delta c, systemic_pressure c, threshold_k c, sentidino c]
      then Inl (Exn SchemaError ''SAXP numeric inputs must be integers'')
      else if as_int (threshold_k c) < 0 \<or> as_int (systemic_pressure c) < 0
      then Inl (Exn SchemaError ''SAXP pressure inputs must be non-negative'')
      else if \<not> (0 \<le> as_int (sentidino c) \<and> as_int (sentidino c) \<le> 10000)
      then Inl (Exn SchemaError ''sentidino outside 0..10000'')
      else if \<not> list_all is_bool [information_complete c, critical_uncertainty c, control_risk c,
                                   ethical_constraints_satisfied c]
      then Inl (Exn SchemaError ''SAXP flags must be booleans'')
      else Inr ())"

text \<open>The verdict and the reasons in the order the code appends them.\<close>

definition verdict :: "int \<Rightarrow> saxp_context \<Rightarrow> saxp_result \<times> string list" where
  "verdict minimum c =
     (let reasons =
        (if as_bool (control_risk c) then [''CONTROL_RISK''] else [])
        @ (if \<not> as_bool (ethical_constraints_satisfied c) then [''ETHICAL_CONSTRAINT_FAILED''] else [])
        @ (if as_int (coherence_delta c) < 0 then [''COHERENCE_DECREASE''] else [])
        @ (if as_int (threshold_k c) < as_int (systemic_pressure c) then [''THRESHOLD_K_EXCEEDED''] else [])
      in if reasons \<noteq> [] then (NON_TEN_XEITO, reasons)
         else
           let reasons =
             (if as_bool (critical_uncertainty c) then [''CRITICAL_UNCERTAINTY''] else [])
             @ (if \<not> as_bool (information_complete c) then [''INFORMATION_INCOMPLETE''] else [])
             @ (if as_int (sentidino c) < minimum then [''SENTIDINO_RECALIBRATION_REQUIRED''] else [])
           in if reasons \<noteq> [] then (REQUIRE_XEITO, reasons)
              else (TEN_XEITO, [''COHERENCE_GATE_SATISFIED'']))"

definition evaluate :: "platform \<Rightarrow> saxp_evaluator \<Rightarrow> action_request \<Rightarrow> saxp_context \<Rightarrow> saxp_decision res" where
  "evaluate E ev request c =
     rbind (validate_context c) (\<lambda>_.
     let (res, reasons) = verdict (minimum_sentidino ev) c in
     rbind (request_digest E request) (\<lambda>rd.
     rbind (digest E (context_payload c)) (\<lambda>cd.
     Inr \<lparr>result = result_value res, reason_codes = sort_key U reasons,
          d_request_digest = rd, d_context_digest = cd, d_policy_id = policy_id ev\<rparr>)))"

section \<open>Specification\<close>

text \<open>The gates of the policy, each stated on its own.\<close>

definition context_typed :: "saxp_context \<Rightarrow> bool" where
  "context_typed c \<longleftrightarrow> (\<exists>cd sp tk se ic cu cr ec.
     c = \<lparr>coherence_delta = PInt cd, systemic_pressure = PInt sp, threshold_k = PInt tk,
          sentidino = PInt se, information_complete = PBool ic, critical_uncertainty = PBool cu,
          control_risk = PBool cr, ethical_constraints_satisfied = PBool ec\<rparr>
     \<and> 0 \<le> tk \<and> 0 \<le> sp \<and> 0 \<le> se \<and> se \<le> 10000)"

definition refused :: "saxp_context \<Rightarrow> bool" where
  "refused c \<longleftrightarrow> control_risk c = PBool True \<or> ethical_constraints_satisfied c \<noteq> PBool True
     \<or> as_int (coherence_delta c) < 0 \<or> as_int (threshold_k c) < as_int (systemic_pressure c)"

definition incomplete :: "int \<Rightarrow> saxp_context \<Rightarrow> bool" where
  "incomplete minimum c \<longleftrightarrow> critical_uncertainty c = PBool True
     \<or> information_complete c \<noteq> PBool True \<or> as_int (sentidino c) < minimum"

lemma as_bool_iff: "as_bool v \<longleftrightarrow> v = PBool True"
  by (cases v) auto

lemma validate_context_iff: "validate_context c = Inr u \<longleftrightarrow> context_typed c"
  by (cases c) (auto simp: validate_context_def context_typed_def is_int_iff is_bool_iff)

lemma validate_context_errs: "errs_in {SchemaError} (validate_context c)"
  by (simp add: validate_context_def)

lemma verdict_spec:
  "fst (verdict n c) = (if refused c then NON_TEN_XEITO else if incomplete n c then REQUIRE_XEITO else TEN_XEITO)"
  by (auto simp: verdict_def refused_def incomplete_def as_bool_iff Let_def)

lemma evaluate_ok:
  "evaluate E ev r c = Inr d \<longleftrightarrow>
     context_typed c
   \<and> (\<exists>rd cd. request_digest E r = Inr rd \<and> digest E (context_payload c) = Inr cd
      \<and> d = \<lparr>result = result_value (fst (verdict (minimum_sentidino ev) c)),
             reason_codes = sort_key U (snd (verdict (minimum_sentidino ev) c)),
             d_request_digest = rd, d_context_digest = cd, d_policy_id = policy_id ev\<rparr>)"
  by (auto simp: evaluate_def rbind_eq_Inr_iff validate_context_iff case_prod_unfold Let_def)

lemma evaluate_errs:
  "errs_in {SchemaError, CanonicalizationError, TypeError} (evaluate E ev r c)"
  unfolding evaluate_def case_prod_unfold Let_def
  by (intro errs_in_rbind errs_in_mono [OF validate_context_errs] errs_in_mono [OF request_digest_errs]
      errs_in_mono [OF digest_errs]) auto

lemma result_value_eq_iff [simp]: "result_value a = result_value b \<longleftrightarrow> a = b"
  by (cases a; cases b) simp_all

lemma verdict_TEN: "fst (verdict n c) = TEN_XEITO \<longleftrightarrow> snd (verdict n c) = [''COHERENCE_GATE_SATISFIED'']"
  by (auto simp: verdict_def Let_def)

lemma evaluate_schema:
  "(\<exists>e. evaluate E ev r c = Inl e \<and> exn_kind_of e = SchemaError) \<longleftrightarrow> \<not> context_typed c"
proof -
  let ?rest = "rbind (request_digest E r) (\<lambda>rd. rbind (digest E (context_payload c)) (\<lambda>cd.
      Inr \<lparr>result = result_value (fst (verdict (minimum_sentidino ev) c)),
           reason_codes = sort_key U (snd (verdict (minimum_sentidino ev) c)),
           d_request_digest = rd, d_context_digest = cd, d_policy_id = policy_id ev\<rparr>))"
  have "errs_in {CanonicalizationError, TypeError} ?rest"
    by (intro errs_in_rbind errs_in_mono [OF request_digest_errs] errs_in_mono [OF digest_errs]) auto
  then have rest: "?rest = Inl e \<Longrightarrow> exn_kind_of e \<noteq> SchemaError" for e
    by (auto dest: errs_inD)
  have "evaluate E ev r c = rbind (validate_context c) (\<lambda>_. ?rest)"
    by (simp add: evaluate_def case_prod_unfold Let_def)
  then show ?thesis
    using validate_context_iff [of c "()"] errs_inD [OF validate_context_errs, of c] rest
    by (cases "validate_context c") auto
qed

definition sample_context :: saxp_context where
  "sample_context = \<lparr>coherence_delta = PInt 1, systemic_pressure = PInt 2, threshold_k = PInt 3,
     sentidino = PInt 9000, information_complete = PBool True, critical_uncertainty = PBool False,
     control_risk = PBool False, ethical_constraints_satisfied = PBool True\<rparr>"

definition sample_request :: action_request where
  "sample_request = \<lparr>request_id = pstr ''r1'', principal = pstr ''p'', audience = pstr ''a'',
     action = pstr ''x'', resource = pstr ''y'', parameters = PDict []\<rparr>"

lemma canonicalize_sample_context:
  "\<exists>b. canonicalize demo_platform (context_payload sample_context) = Inr b"
  by (simp add: context_payload_def sample_context_def demo_platform_def eval_simps)

lemma canonicalize_sample_request:
  "\<exists>b. rbind (request_payload sample_request) (canonicalize demo_platform) = Inr b"
  by (simp add: request_payload_def copy_mapping_def sample_request_def demo_platform_def eval_simps)

lemma evaluate_sample:
  "\<exists>d. evaluate demo_platform \<lparr>policy_id = U ''p'', minimum_sentidino = 5000\<rparr> sample_request sample_context = Inr d"
proof -
  have "context_typed sample_context" by (simp add: context_typed_def sample_context_def) blast
  moreover obtain b where "digest demo_platform (context_payload sample_context) = Inr b"
    using canonicalize_sample_context by (auto simp: digest_def)
  moreover obtain h where "request_digest demo_platform sample_request = Inr h"
    using canonicalize_sample_request by (auto simp: request_digest_def digest_def rbind_eq_Inr_iff)
  ultimately show ?thesis unfolding evaluate_ok by blast
qed

section \<open>Property\<close>

text \<open>
  C28: The SAXP gate. An evaluation that returns says TEN_XEITO exactly when no refusal condition
  holds and nothing is incomplete, NON_TEN_XEITO exactly when a refusal condition holds and
  REQUIRE_XEITO in the remaining case; the reason COHERENCE_GATE_SATISFIED stands alone exactly
  with TEN_XEITO; and it names the digests of the request and of the context it judged. It raises a
  \<open>SchemaError\<close> exactly on a context with a mistyped or out-of-range field.
\<close>

theorem saxp_gate:
  "(evaluate E ev r c = Inr d \<longrightarrow>
      (result d = ''TEN_XEITO'' \<longleftrightarrow> \<not> refused c \<and> \<not> incomplete (minimum_sentidino ev) c)
    \<and> (result d = ''NON_TEN_XEITO'' \<longleftrightarrow> refused c)
    \<and> (result d = ''REQUIRE_XEITO'' \<longleftrightarrow> \<not> refused c \<and> incomplete (minimum_sentidino ev) c)
    \<and> (result d = ''TEN_XEITO'' \<longleftrightarrow> reason_codes d = [''COHERENCE_GATE_SATISFIED''])
    \<and> request_digest E r = Inr (d_request_digest d)
    \<and> digest E (context_payload c) = Inr (d_context_digest d))
   \<and> ((\<exists>e. evaluate E ev r c = Inl e \<and> exn_kind_of e = SchemaError) \<longleftrightarrow> \<not> context_typed c)"
proof (intro conjI impI)
  assume ev: "evaluate E ev r c = Inr d"
  let ?v = "verdict (minimum_sentidino ev) c"
  from ev have d: "result d = result_value (fst ?v)" "reason_codes d = sort_key U (snd ?v)"
    and g: "request_digest E r = Inr (d_request_digest d)"
      "digest E (context_payload c) = Inr (d_context_digest d)"
    by (auto simp: evaluate_ok)
  note rv = result_value_eq_iff [of "fst ?v" TEN_XEITO, simplified]
    result_value_eq_iff [of "fst ?v" REQUIRE_XEITO, simplified]
    result_value_eq_iff [of "fst ?v" NON_TEN_XEITO, simplified]
  show "result d = ''TEN_XEITO'' \<longleftrightarrow> \<not> refused c \<and> \<not> incomplete (minimum_sentidino ev) c"
    "result d = ''NON_TEN_XEITO'' \<longleftrightarrow> refused c"
    "result d = ''REQUIRE_XEITO'' \<longleftrightarrow> \<not> refused c \<and> incomplete (minimum_sentidino ev) c"
    by (simp_all only: d rv verdict_spec) auto
  have "sort_key U (snd ?v) = [x] \<longleftrightarrow> snd ?v = [x]" for x
    by (metis length_sort mset_sort mset_single_iff sort_key_simps(1) insort_key.simps(1) sort_key_simps(2))
  then show "result d = ''TEN_XEITO'' \<longleftrightarrow> reason_codes d = [''COHERENCE_GATE_SATISFIED'']"
    by (simp only: d rv verdict_TEN)
  show "request_digest E r = Inr (d_request_digest d)"
    "digest E (context_payload c) = Inr (d_context_digest d)" by (rule g)+
qed (rule evaluate_schema)

theorem saxp_gate_witness:
  "\<exists>d. evaluate demo_platform \<lparr>policy_id = U ''p'', minimum_sentidino = 5000\<rparr> sample_request sample_context = Inr d
     \<and> result d = ''TEN_XEITO''"
proof -
  obtain d where d: "evaluate demo_platform \<lparr>policy_id = U ''p'', minimum_sentidino = 5000\<rparr>
      sample_request sample_context = Inr d" using evaluate_sample by blast
  moreover have "\<not> refused sample_context" "\<not> incomplete 5000 sample_context"
    by (simp_all add: refused_def incomplete_def sample_context_def)
  ultimately have "result d = ''TEN_XEITO''" using saxp_gate [of demo_platform _ _ _ d] by fastforce
  with d show ?thesis by blast
qed

end
