(* ===== verification/Arrow.thy ===== *)
theory Arrow
  imports Saxp "HOL-Library.Product_Lexorder"
begin

text \<open>\<^verbatim>\<open>src/mgk/arrow.py\<close>: the Level 1 router picks the eligible route of least resistance.\<close>

record arrow_route =
  route_id :: ustr
  r_coherence_delta :: pyval
  r_entropic_resistance :: pyval
  r_systemic_pressure :: pyval
  r_threshold_k :: pyval

definition route_check :: "arrow_route \<Rightarrow> unit res" where
  "route_check r =
     (if route_id r = [] \<or> \<not> list_all is_int [r_coherence_delta r, r_entropic_resistance r,
           r_systemic_pressure r, r_threshold_k r]
      then Inl (Exn ValueError ''invalid Arrow route'')
      else if as_int (r_entropic_resistance r) < 0 \<or> as_int (r_systemic_pressure r) < 0
              \<or> as_int (r_threshold_k r) < 0
      then Inl (Exn ValueError ''Arrow pressure values must be non-negative'')
      else Inr ())"

definition route_eligible :: "arrow_route \<Rightarrow> bool" where
  "route_eligible r \<longleftrightarrow> 0 \<le> as_int (r_coherence_delta r)
     \<and> as_int (r_systemic_pressure r) \<le> as_int (r_threshold_k r)"

fun eligible_routes :: "arrow_route list \<Rightarrow> arrow_route list res" where
  "eligible_routes [] = Inr []"
| "eligible_routes (r # rs) =
     rbind (route_check r) (\<lambda>_.
     rbind (eligible_routes rs) (\<lambda>es. Inr (if route_eligible r then r # es else es)))"

text \<open>\<^verbatim>\<open>min(xs, key=key)\<close> keeps the first of the least elements.\<close>

fun min_by :: "('a \<Rightarrow> 'b::linorder) \<Rightarrow> 'a \<Rightarrow> 'a list \<Rightarrow> 'a" where
  "min_by key best [] = best"
| "min_by key best (x # xs) = min_by key (if key x < key best then x else best) xs"

definition route_key :: "arrow_route \<Rightarrow> int \<times> int \<times> int \<times> ustr" where
  "route_key r = (as_int (r_entropic_resistance r), - as_int (r_coherence_delta r),
     as_int (r_systemic_pressure r), route_id r)"

definition select :: "arrow_route list \<Rightarrow> arrow_route option res" where
  "select routes =
     rbind (eligible_routes routes) (\<lambda>eligible.
     case eligible of [] \<Rightarrow> Inr None | r # rs \<Rightarrow> Inr (Some (min_by route_key r rs)))"

lemma min_by_least:
  "min_by key best xs \<in> insert best (set xs) \<and> (\<forall>y \<in> insert best (set xs). key (min_by key best xs) \<le> key y)"
proof (induction xs arbitrary: best)
  case (Cons x xs)
  let ?b = "if key x < key best then x else best"
  have "key ?b \<le> key x" "key ?b \<le> key best" by auto
  with Cons.IH [of ?b] show ?case by (auto intro: order_trans split: if_splits)
qed simp

lemma eligible_routes_ok:
  "eligible_routes rs = Inr es \<longleftrightarrow> (\<forall>r \<in> set rs. route_check r = Inr ()) \<and> es = filter route_eligible rs"
  by (induction rs arbitrary: es) (auto simp: rbind_eq_Inr_iff)

text \<open>
  Route selection. A selection that returns has checked every route; it returns no route
  exactly when none is eligible, and otherwise an eligible route that no eligible route beats on
  resistance, coherence, pressure and identifier. The winner's key does not depend on the order
  in which the routes are listed.
\<close>

lemma arrow_select:
  assumes "select routes = Inr choice"
  shows "(\<forall>r \<in> set routes. route_check r = Inr ())
    \<and> (choice = None \<longleftrightarrow> \<not> (\<exists>r \<in> set routes. route_eligible r))
    \<and> (\<forall>r. choice = Some r \<longrightarrow> r \<in> set routes \<and> route_eligible r
         \<and> (\<forall>q \<in> set routes. route_eligible q \<longrightarrow> route_key r \<le> route_key q))
    \<and> (\<forall>routes' choice'. set routes' = set routes \<and> select routes' = Inr choice' \<longrightarrow>
         map_option route_key choice' = map_option route_key choice)"
proof -
  have sel: "(\<forall>r \<in> set rs. route_check r = Inr ())
    \<and> (c = None \<longleftrightarrow> filter route_eligible rs = [])
    \<and> (\<forall>r. c = Some r \<longrightarrow> r \<in> set (filter route_eligible rs)
         \<and> (\<forall>q \<in> set (filter route_eligible rs). route_key r \<le> route_key q))"
    if "select rs = Inr c" for rs c
  proof (cases "filter route_eligible rs")
    case Nil
    with that show ?thesis by (auto simp: select_def rbind_eq_Inr_iff eligible_routes_ok)
  next
    case (Cons e es)
    with that have "c = Some (min_by route_key e es)" "\<forall>r \<in> set rs. route_check r = Inr ()"
      by (auto simp: select_def rbind_eq_Inr_iff eligible_routes_ok)
    with Cons min_by_least [of route_key e es] show ?thesis by simp
  qed
  note this_sel = sel [OF assms]
  have "map_option route_key choice' = map_option route_key choice"
    if eq: "set routes' = set routes" and "select routes' = Inr choice'" for routes' choice'
  proof -
    note other = sel [OF \<open>select routes' = Inr choice'\<close>]
    have "set (filter route_eligible routes') = set (filter route_eligible routes)" using eq by simp
    with this_sel other show ?thesis
      by (cases choice; cases choice') (auto intro: order_antisym simp flip: set_empty)
  qed
  with this_sel show ?thesis by (auto simp: filter_empty_conv)
qed

end
