(* ===== verification/Cha.thy ===== *)
theory Cha
  imports Saxp
begin

text \<open>\<^verbatim>\<open>src/mgk/cha.py\<close>: the CHA adapter scores a proposal; it holds no authority.\<close>

record cha_input =
  reptile_integrity :: pyval
  limbic_resonance :: pyval
  cognitive_coherence :: pyval
  dissonance :: pyval
  experience :: pyval

record cha_proposal =
  p_request :: action_request
  score :: int
  intelligence_only :: bool
  components :: "(string \<times> int) list"

fun cha_init :: "pyval list \<Rightarrow> (int \<times> int \<times> int) res" where
  "cha_init [a, b, c] =
     (if \<exists>w \<in> set [a, b, c]. \<not> is_int w \<or> as_int w < 0 then Inl (Exn ValueError ''invalid CHA weights'')
      else if as_int a + as_int b + as_int c \<noteq> 10000
      then Inl (Exn ValueError ''CHA weights must total 10000'')
      else Inr (as_int a, as_int b, as_int c))"
| "cha_init _ = Inl (Exn ValueError ''invalid CHA weights'')"

definition cha_values :: "cha_input \<Rightarrow> pyval list" where
  "cha_values i = [reptile_integrity i, limbic_resonance i, cognitive_coherence i, dissonance i, experience i]"

definition propose :: "int \<times> int \<times> int \<Rightarrow> action_request \<Rightarrow> cha_input \<Rightarrow> cha_proposal res" where
  "propose weights request i =
     (if \<exists>v \<in> set (cha_values i). \<not> is_int v \<or> \<not> (0 \<le> as_int v \<and> as_int v \<le> 10000)
      then Inl (Exn ValueError ''CHA inputs must be integer basis points'')
      else
        let (w0, w1, w2) = weights;
            r = as_int (reptile_integrity i); l = as_int (limbic_resonance i);
            c = as_int (cognitive_coherence i); d = as_int (dissonance i); x = as_int (experience i);
            integrated = (r + l + c) div 3;
            score = (w0 * integrated - w1 * d + w2 * x) div 10000;
            score = max (- 10000) (min 10000 score)
        in Inr \<lparr>p_request = request, score = score, intelligence_only = True,
             components = [(''cognitive_coherence'', c), (''dissonance'', d), (''experience'', x),
               (''integrated'', integrated), (''limbic_resonance'', l), (''reptile_integrity'', r)]\<rparr>)"

definition basis_point :: "pyval \<Rightarrow> bool" where
  "basis_point v \<longleftrightarrow> (\<exists>i. v = PInt i \<and> 0 \<le> i \<and> i \<le> 10000)"

lemma basis_point_iff: "basis_point v \<longleftrightarrow> is_int v \<and> 0 \<le> as_int v \<and> as_int v \<le> 10000"
  by (cases v) (auto simp: basis_point_def)

text \<open>With accepted weights the score needs no clamping: it lies between the two extreme weights.\<close>

lemma score_range:
  fixes w0 w1 w2 n d x :: int
  assumes "0 \<le> w0" "0 \<le> w1" "0 \<le> w2" "0 \<le> n" "n \<le> 10000" "0 \<le> d" "d \<le> 10000" "0 \<le> x" "x \<le> 10000"
  shows "- w1 \<le> (w0 * n - w1 * d + w2 * x) div 10000" "(w0 * n - w1 * d + w2 * x) div 10000 \<le> w0 + w2"
proof -
  have b: "0 \<le> w0 * n" "w0 * n \<le> w0 * 10000" "0 \<le> w1 * d" "w1 * d \<le> w1 * 10000" "0 \<le> w2 * x" "w2 * x \<le> w2 * 10000"
    using assms by (simp_all add: mult_left_mono)
  from b have "(- w1) * 10000 \<le> w0 * n - w1 * d + w2 * x" "w0 * n - w1 * d + w2 * x \<le> (w0 + w2) * 10000"
    by (simp_all add: algebra_simps)
  from this [THEN zdiv_mono1, of 10000]
  show "- w1 \<le> (w0 * n - w1 * d + w2 * x) div 10000" "(w0 * n - w1 * d + w2 * x) div 10000 \<le> w0 + w2"
    by simp_all
qed

definition sample_cha :: "int \<Rightarrow> cha_input" where
  "sample_cha n = \<lparr>reptile_integrity = PInt n, limbic_resonance = PInt 6000, cognitive_coherence = PInt 3000,
     dissonance = PInt 1000, experience = PInt 2000\<rparr>"

text \<open>
  C34: CHA scoring. With weights the constructor accepts, a proposal is made exactly for inputs
  that are integer basis points; it carries the request unchanged, is marked as intelligence
  only, and its score stays within the bounds set by the weights, so that the final clamp never
  changes it. Raising the integrity input never lowers the score.
\<close>

theorem cha_propose:
  assumes w: "cha_init ws = Inr (w0, w1, w2)"
  shows "((\<exists>p. propose (w0, w1, w2) r i = Inr p) \<longleftrightarrow> (\<forall>v \<in> set (cha_values i). basis_point v))
    \<and> (propose (w0, w1, w2) r i = Inr p \<longrightarrow>
        p_request p = r \<and> intelligence_only p \<and> - w1 \<le> score p \<and> score p \<le> w0 + w2
      \<and> score p = (w0 * ((as_int (reptile_integrity i) + as_int (limbic_resonance i)
                          + as_int (cognitive_coherence i)) div 3)
                   - w1 * as_int (dissonance i) + w2 * as_int (experience i)) div 10000)
    \<and> (propose (w0, w1, w2) r i = Inr p \<and> propose (w0, w1, w2) r (i\<lparr>reptile_integrity := PInt n\<rparr>) = Inr q
        \<and> as_int (reptile_integrity i) \<le> n \<longrightarrow> score p \<le> score q)"
proof -
  from w have w0: "0 \<le> w0" and w1: "0 \<le> w1" and w2: "0 \<le> w2" and sum: "w0 + w1 + w2 = 10000"
    by (cases ws rule: cha_init.cases; auto split: if_splits)+
  let ?n = "\<lambda>i. (as_int (reptile_integrity i) + as_int (limbic_resonance i) + as_int (cognitive_coherence i)) div 3"
  let ?raw = "\<lambda>i. (w0 * ?n i - w1 * as_int (dissonance i) + w2 * as_int (experience i)) div 10000"
  have ok: "(\<forall>v \<in> set (cha_values i). basis_point v) \<and> p_request p = r \<and> intelligence_only p
      \<and> - w1 \<le> score p \<and> score p \<le> w0 + w2 \<and> score p = ?raw i"
    if p: "propose (w0, w1, w2) r i = Inr p" for i p
  proof -
    have c: "\<not> (\<exists>v \<in> set (cha_values i). \<not> is_int v \<or> \<not> (0 \<le> as_int v \<and> as_int v \<le> 10000))"
    proof
      assume bad: "\<exists>v \<in> set (cha_values i). \<not> is_int v \<or> \<not> (0 \<le> as_int v \<and> as_int v \<le> 10000)"
      from p show False unfolding propose_def if_P [OF bad] by simp
    qed
    then have v: "\<forall>v \<in> set (cha_values i). basis_point v" by (simp add: basis_point_iff)
    note p' = p [unfolded propose_def if_not_P [OF c] Let_def prod.case sum.inject, symmetric]
    have s: "score p = max (- 10000) (min 10000 (?raw i))" "p_request p = r" "intelligence_only p"
      by (simp_all only: p' cha_proposal.select_convs)
    have "- w1 \<le> ?raw i" "?raw i \<le> w0 + w2"
      by (rule score_range; use v w0 w1 w2 in \<open>auto simp: cha_values_def basis_point_iff\<close>)+
    with v s w0 w1 w2 sum show ?thesis by simp
  qed
  have mono: "score p \<le> score q"
    if p: "propose (w0, w1, w2) r i = Inr p" and q: "propose (w0, w1, w2) r (i\<lparr>reptile_integrity := PInt n\<rparr>) = Inr q"
      and le: "as_int (reptile_integrity i) \<le> n"
  proof -
    from le have "?n i \<le> ?n (i\<lparr>reptile_integrity := PInt n\<rparr>)" by (simp add: zdiv_mono1)
    then have "w0 * ?n i \<le> w0 * ?n (i\<lparr>reptile_integrity := PInt n\<rparr>)" using w0 by (rule mult_left_mono)
    with ok [OF p] ok [OF q] show ?thesis by (simp add: zdiv_mono1)
  qed
  have "\<exists>p. propose (w0, w1, w2) r i = Inr p" if "\<forall>v \<in> set (cha_values i). basis_point v"
    using that by (auto simp: propose_def basis_point_iff Let_def)
  with ok mono show ?thesis by blast
qed

theorem cha_propose_witness:
  "\<exists>p. propose (4000, 3000, 3000) sample_request (sample_cha 3000) = Inr p \<and> score p = 1900"
proof -
  have "cha_init [PInt 4000, PInt 3000, PInt 3000] = Inr (4000, 3000, 3000)" by simp
  note c = cha_propose [OF this, of sample_request "sample_cha 3000"]
  have "\<forall>v \<in> set (cha_values (sample_cha 3000)). basis_point v"
    by (simp add: cha_values_def sample_cha_def basis_point_def)
  with c obtain p where "propose (4000, 3000, 3000) sample_request (sample_cha 3000) = Inr p" by blast
  with c [of p] show ?thesis by (simp add: sample_cha_def)
qed

end
