(* ===== verification/Feedback.thy ===== *)
theory Feedback
  imports Saxp
begin

text \<open>
  \<^verbatim>\<open>src/mgk/feedback.py\<close>: the bounded feedback engine as a state machine. A dictionary of the
  history is a record of its five entries.
\<close>

record feedback_event =
  authority_effect :: int
  f_reason_code :: string
  f_result :: string
  f_successful :: bool
  f_weights :: "int list"

record feedback_engine =
  weights :: "int list"
  history :: "feedback_event list"

definition feedback_init :: "pyval list \<Rightarrow> feedback_engine res" where
  "feedback_init ws =
     (if length ws \<noteq> 3 \<or> (\<exists>v \<in> set ws. \<not> is_int v \<or> as_int v < 1000)
      then Inl (Exn ValueError ''invalid feedback weights'')
      else if sum_list (map as_int ws) \<noteq> 10000
      then Inl (Exn ValueError ''feedback weights must total 10000'')
      else Inr \<lparr>weights = map as_int ws, history = []\<rparr>)"

definition reweigh :: "string \<Rightarrow> bool \<Rightarrow> int list \<Rightarrow> int list" where
  "reweigh res successful w =
     (let delta = 50;
          proposed =
            (if res = ''TEN_XEITO'' \<and> successful then w[2 := w ! 2 + delta, 1 := w ! 1 - delta]
             else if res = ''NON_TEN_XEITO'' \<or> \<not> successful then w[0 := w ! 0 + delta, 2 := w ! 2 - delta]
             else w[1 := w ! 1 + delta, 2 := w ! 2 - delta])
      in if Min (set proposed) < 1000 then w else proposed)"

definition feedback_record :: "string \<Rightarrow> pyval \<Rightarrow> string \<Rightarrow> (feedback_engine, int list) op" where
  "feedback_record res successful reason =
     (if res \<notin> {''TEN_XEITO'', ''REQUIRE_XEITO'', ''NON_TEN_XEITO''}
      then sraise (Exn ValueError ''invalid SAXP result'')
      else if \<not> is_bool successful \<or> reason = []
      then sraise (Exn ValueError ''invalid feedback event'')
      else (\<lambda>s.
        let w = reweigh res (as_bool successful) (weights s)
        in (Inr w, s\<lparr>weights := w,
              history := history s @ [\<lparr>authority_effect = 0, f_reason_code = reason, f_result = res,
                                       f_successful = as_bool successful, f_weights = w\<rparr>]\<rparr>)))"

text \<open>The invariant: three weights of at least 1000 basis points that total 10000.\<close>

definition balanced :: "int list \<Rightarrow> bool" where
  "balanced w \<longleftrightarrow> length w = 3 \<and> (\<forall>x \<in> set w. 1000 \<le> x) \<and> sum_list w = 10000"

inductive feedback_reachable :: "feedback_engine \<Rightarrow> bool" where
  start: "feedback_init ws = Inr s \<Longrightarrow> feedback_reachable s"
| step: "feedback_reachable s \<Longrightarrow> feedback_record res ok reason s = (r, s') \<Longrightarrow> feedback_reachable s'"

lemma balanced_cases:
  assumes "balanced w"
  obtains a b c where "w = [a, b, c]" "1000 \<le> a" "1000 \<le> b" "1000 \<le> c" "a + b + c = 10000"
proof -
  from assms obtain a b c where "w = [a, b, c]"
    by (auto simp: balanced_def numeral_3_eq_3 length_Suc_conv)
  with assms that show ?thesis by (auto simp: balanced_def)
qed

lemma feedback_init_balanced: "feedback_init ws = Inr s \<Longrightarrow> balanced (weights s) \<and> history s = []"
  by (auto simp: feedback_init_def balanced_def not_less split: if_splits)

lemma reweigh_balanced:
  assumes "balanced w"
  shows "balanced (reweigh res ok w)" and "i < 3 \<Longrightarrow> \<bar>reweigh res ok w ! i - w ! i\<bar> \<le> 50"
proof -
  obtain a b c where w: "w = [a, b, c]" and abc: "1000 \<le> a" "1000 \<le> b" "1000 \<le> c" "a + b + c = 10000"
    using assms by (rule balanced_cases)
  have step: "reweigh res ok w \<in> {w, [a, b - 50, c + 50], [a + 50, b, c - 50], [a, b + 50, c - 50]}"
    by (simp add: reweigh_def w Let_def numeral_2_eq_2)
  have min: "\<forall>x \<in> set (reweigh res ok w). 1000 \<le> x"
  proof -
    obtain p where p: "reweigh res ok w = (if Min (set p) < 1000 then w else p)"
      by (simp add: reweigh_def Let_def)
    show ?thesis
    proof (cases "Min (set p) < 1000")
      case False
      with p show ?thesis by (auto simp: not_less intro: order_trans [OF _ Min_le])
    qed (use p assms in \<open>simp add: balanced_def\<close>)
  qed
  show "balanced (reweigh res ok w)"
    using step min w abc by (auto simp: balanced_def)
  show "\<bar>reweigh res ok w ! i - w ! i\<bar> \<le> 50" if "i < 3"
  proof -
    from that consider "i = 0" | "i = 1" | "i = 2" by linarith
    then show ?thesis using step w by cases auto
  qed
qed

lemma feedback_record_balanced:
  assumes "feedback_record res ok reason s = (r, s')" "balanced (weights s)"
  shows "balanced (weights s')
    \<and> (s' = s \<and> (\<exists>t. r = Inl (Exn ValueError t))
       \<or> (\<exists>e. r = Inr (weights s') \<and> history s' = history s @ [e] \<and> authority_effect e = 0
            \<and> f_weights e = weights s'
            \<and> (\<forall>i < 3. \<bar>weights s' ! i - weights s ! i\<bar> \<le> 50)))"
  using assms reweigh_balanced(1) [OF assms(2), of res "as_bool ok"]
    reweigh_balanced(2) [OF assms(2), of _ res "as_bool ok"]
  by (auto simp: feedback_record_def Let_def split: if_splits)

lemma feedback_reachable_inv:
  "feedback_reachable s \<Longrightarrow> balanced (weights s) \<and> (\<forall>e \<in> set (history s). authority_effect e = 0 \<and> balanced (f_weights e))"
proof (induction rule: feedback_reachable.induct)
  case (start ws s)
  then show ?case using feedback_init_balanced [of ws s] by simp
next
  case (step s res ok reason r s')
  then show ?case using feedback_record_balanced [of res ok reason s r s'] by auto
qed

text \<open>
  C35: Bounded feedback. In every reachable state of the engine the three weights are at least
  1000 and total 10000, and no event of the history has an effect on authority; one more event
  either raises a \<open>ValueError\<close> and changes nothing, or appends one event and moves each weight by
  at most 50.
\<close>

theorem feedback_bounded:
  assumes "feedback_reachable s"
  shows "balanced (weights s)
    \<and> (\<forall>e \<in> set (history s). authority_effect e = 0 \<and> balanced (f_weights e))
    \<and> (\<forall>res ok reason r s'. feedback_record res ok reason s = (r, s') \<longrightarrow>
         s' = s \<and> (\<exists>t. r = Inl (Exn ValueError t))
       \<or> (\<exists>e. r = Inr (weights s') \<and> history s' = history s @ [e] \<and> authority_effect e = 0
            \<and> (\<forall>i < 3. \<bar>weights s' ! i - weights s ! i\<bar> \<le> 50)))"
  using feedback_reachable_inv [OF assms] feedback_record_balanced by blast

theorem feedback_bounded_witness:
  "\<exists>s. feedback_reachable s \<and> weights s = [4000, 2950, 3050] \<and> balanced (weights s)"
proof -
  let ?s = "\<lparr>weights = [4000, 3000, 3000], history = []\<rparr>"
  let ?e = "\<lparr>authority_effect = 0, f_reason_code = ''ok'', f_result = ''TEN_XEITO'', f_successful = True,
     f_weights = [4000, 2950, 3050]\<rparr>"
  have "feedback_init [PInt 4000, PInt 3000, PInt 3000] = Inr ?s" by (simp add: feedback_init_def)
  then have "feedback_reachable ?s" by (rule feedback_reachable.start)
  moreover have "feedback_record ''TEN_XEITO'' (PBool True) ''ok'' ?s =
      (Inr [4000, 2950, 3050], \<lparr>weights = [4000, 2950, 3050], history = [?e]\<rparr>)"
    by (simp add: feedback_record_def reweigh_def Let_def)
  ultimately have "feedback_reachable \<lparr>weights = [4000, 2950, 3050], history = [?e]\<rparr>"
    by (rule feedback_reachable.step)
  with feedback_bounded [OF this] show ?thesis by fastforce
qed

end
