(* ===== verification/Bounds.thy ===== *)
theory Bounds
  imports Canonical
begin

text \<open>
  Static bounds on canonical documents: every document of the kernel that is built from bounded
  parts can be canonicalized (the size limit is never met), and a canonical document holds no
  control character, in particular no newline, which is what lets the ledgers keep one record per
  line.
\<close>

section \<open>No control characters\<close>

lemma esc_char_printable: "c \<in> set (esc_char x) \<Longrightarrow> 32 \<le> c"
  by (auto simp: esc_char_def hex_digit_def split: if_splits)

lemma json_str_printable: "c \<in> set (json_str s) \<Longrightarrow> 32 \<le> c"
  using esc_char_printable by (auto simp: json_str_def)

lemma dumps_printable:
  shows "c \<in> set (dumps v) \<Longrightarrow> 32 \<le> c"
    and "c \<in> set (dumps_elems xs) \<Longrightarrow> 32 \<le> c"
    and "c \<in> set (dumps_members d) \<Longrightarrow> 32 \<le> c"
proof (induction v and xs and d rule: dumps_dumps_elems_dumps_members.induct)
  case (3 i)
  then show ?case using nat_digits_range by (fastforce simp: int_str_def split: if_splits)
next
  case (4 s)
  then show ?case by (auto dest: json_str_printable)
next
  case (11 k x d)
  then show ?case by (auto dest: json_str_printable split: if_splits)
qed (auto simp: U_def split: if_splits)

lemma utf8_char_no_newline: "32 \<le> c \<Longrightarrow> c \<le> 0x10FFFF \<Longrightarrow> b \<in> set (utf8_char c) \<Longrightarrow> (of_char b :: nat) \<noteq> 10"
proof -
  assume c: "32 \<le> c" "c \<le> 0x10FFFF" and b: "b \<in> set (utf8_char c)"
  have d: "c div 64 < 32" if "c < 0x800" using that by auto
  have e: "c div 4096 < 16" if "c < 0x10000" using that by auto
  have f: "c div 262144 < 5" using c by auto
  have m: "x mod 64 < 64" for x :: nat by simp
  show ?thesis
    using b c d e f m [of c] m [of "c div 64"] m [of "c div 4096"]
    by (auto simp: utf8_char_def split: if_splits)
qed

lemma canonical_no_newline:
  assumes "canonicalize E v = Inr b"
  shows "CHR 0x0A \<notin> set b"
proof
  assume nl: "CHR 0x0A \<in> set b"
  have enc: "utf8_encode (dumps (canon E v)) = Inr b" using assms by (simp add: canonicalize_iff)
  then have sc: "list_all is_scalar (dumps (canon E v))" and b: "b = concat (map utf8_char (dumps (canon E v)))"
    by (auto simp: utf8_encode_def split: if_splits)
  from nl b obtain c where c: "c \<in> set (dumps (canon E v))" "CHR 0x0A \<in> set (utf8_char c)" by auto
  moreover have "c \<le> 0x10FFFF" using sc c(1) by (auto simp: list_all_iff is_scalar_def)
  ultimately have "(of_char CHR 0x0A :: nat) \<noteq> 10" using utf8_char_no_newline dumps_printable(1) by blast
  then show False by simp
qed

lemma canonical_not_Nil:
  assumes "platform_ok E" "canonicalize E v = Inr b"
  shows "b \<noteq> []"
  using parse_canonicalD [OF parse_canonicalize [OF assms]] by simp

section \<open>Size\<close>

fun jbound :: "pyval \<Rightarrow> nat" where
  "jbound (PInt i) = 17"
| "jbound (PStr s) = 6 * length s + 2"
| "jbound (PList xs) = 2 + sum_list (map (\<lambda>x. Suc (jbound x)) xs)"
| "jbound (PDict d) = 2 + sum_list (map (\<lambda>(k, v). 6 * length (key_str k) + 4 + jbound v) d)"
| "jbound v = 5"

fun scalars :: "pyval \<Rightarrow> bool" where
  "scalars (PStr s) = list_all is_scalar s"
| "scalars (PList xs) = list_all scalars xs"
| "scalars (PDict d) = list_all (\<lambda>(k, v). list_all is_scalar (key_str k) \<and> scalars v) d"
| "scalars v = True"

lemma length_esc_char: "length (esc_char c) \<le> 6"
  by (simp add: esc_char_def)

lemma length_json_str: "length (json_str s) \<le> 6 * length s + 2"
proof -
  have "length (concat (map esc_char s)) \<le> 6 * length s"
  proof (induction s)
    case (Cons c s)
    then show ?case using length_esc_char [of c] by simp
  qed simp
  then show ?thesis by (simp add: json_str_def)
qed

lemma length_int_str:
  assumes "- (2 ^ 53) < i" "i < 2 ^ 53"
  shows "length (int_str i) \<le> 17"
proof -
  have "nat i < 10 ^ 16" "nat (- i) < 10 ^ 16" using assms by simp_all
  then have "length (nat_digits (nat i)) \<le> 16" "length (nat_digits (nat (- i))) \<le> 16"
    by (auto intro!: length_nat_digits)
  then show ?thesis by (simp add: int_str_def)
qed

lemma length_dumps:
  shows "vok n v \<Longrightarrow> length (dumps v) \<le> jbound v"
    and "list_all (vok n) xs \<Longrightarrow> length (dumps_elems xs) \<le> sum_list (map (\<lambda>x. Suc (jbound x)) xs)"
    and "list_all (\<lambda>(k, v). vok n v) d \<Longrightarrow>
      length (dumps_members d) \<le> sum_list (map (\<lambda>(k, v). 6 * length (key_str k) + 4 + jbound v) d)"
proof (induction v and xs and d arbitrary: n and n and n rule: dumps_dumps_elems_dumps_members.induct)
  case (3 i)
  then show ?case using length_int_str [of i] by (simp add: MIN_INTEGER_def MAX_INTEGER_def)
next
  case (4 s)
  then show ?case using length_json_str by simp
next
  case (5 xs)
  then have "list_all (vok (Suc n)) xs" by simp
  from "5.IH" [OF this] show ?case by simp
next
  case (6 d)
  then have "list_all (\<lambda>(k, v). vok (Suc n) v) d" by (auto simp: list_all_iff)
  from "6.IH" [OF this] show ?case by simp
next
  case (9 x xs)
  then have "vok n x" "list_all (vok n) xs" by simp_all
  then show ?case using "9.IH"(1) [of n] "9.IH"(2) [of n] by (cases "xs = []") auto
next
  case (11 k x d)
  then have "vok n x" "list_all (\<lambda>(k, v). vok n v) d" by simp_all
  then show ?case using "11.IH"(1) [of n] "11.IH"(2) [of n] length_json_str [of "key_str k"]
    by (cases "d = []") auto
qed simp_all

lemma scalars_U [simp]: "list_all is_scalar (U s)"
proof -
  have "is_scalar c" if "c \<in> set (U s)" for c
    using set_U_bound [OF that] by (simp add: is_scalar_def is_surrogate_def)
  then show ?thesis by (simp add: list_all_iff)
qed

lemma scalar_small: "c < 256 \<Longrightarrow> is_scalar c"
  by (simp add: is_scalar_def is_surrogate_def)

lemma json_str_scalar: "list_all is_scalar s \<Longrightarrow> list_all is_scalar (json_str s)"
proof -
  assume s: "list_all is_scalar s"
  have "is_scalar c" if "x \<in> set s" "c \<in> set (esc_char x)" for x c
  proof (cases "x < 32")
    case True
    then have "x div 16 < 16" "x mod 16 < 16" by simp_all
    then have "c < 256" using that(2) True by (auto simp: esc_char_def hex_digit_def split: if_splits)
    then show ?thesis by (rule scalar_small)
  next
    case False
    then show ?thesis using that s by (auto simp: esc_char_def list_all_iff scalar_small split: if_splits)
  qed
  then show ?thesis by (auto simp: json_str_def list_all_iff scalar_small)
qed

lemma dumps_scalar:
  shows "scalars v \<Longrightarrow> list_all is_scalar (dumps v)"
    and "list_all scalars xs \<Longrightarrow> list_all is_scalar (dumps_elems xs)"
    and "list_all (\<lambda>(k, v). list_all is_scalar (key_str k) \<and> scalars v) d \<Longrightarrow> list_all is_scalar (dumps_members d)"
proof (induction v and xs and d rule: dumps_dumps_elems_dumps_members.induct)
  case (3 i)
  have "c < 256" if "c \<in> set (int_str i)" for c
    using that nat_digits_range by (fastforce simp: int_str_def split: if_splits)
  then show ?case by (simp add: list_all_iff scalar_small)
qed (simp_all add: json_str_scalar scalar_small)

lemma jbound_sort_keys [simp]: "jbound (sort_keys v) = jbound v"
proof (induction v rule: pyval_induct)
  case (PList xs)
  then have "map ((\<lambda>x. Suc (jbound x)) \<circ> sort_keys) xs = map (\<lambda>x. Suc (jbound x)) xs" by simp
  then show ?case by (simp del: map_eq_conv)
next
  case (PDict d)
  then have "map ((\<lambda>(k, v). 6 * length (key_str k) + 4 + jbound v) \<circ> (\<lambda>(k, v). (k, sort_keys v))) d =
      map (\<lambda>(k, v). 6 * length (key_str k) + 4 + jbound v) d" by auto
  then show ?case by (simp add: sum_list_sort_key del: map_eq_conv)
qed auto

lemma scalars_sort_keys [simp]: "scalars (sort_keys v) = scalars v"
proof (induction v rule: pyval_induct)
  case (PDict d)
  then show ?case by (fastforce simp: list_all_sort_key list_all_iff)
qed (auto simp: list_all_iff)

lemma length_utf8_char: "length (utf8_char c) \<le> 4"
  by (simp add: utf8_char_def)

lemma length_utf8_concat: "length (concat (map utf8_char s)) \<le> 4 * length s"
proof (induction s)
  case (Cons c s)
  then show ?case using length_utf8_char [of c] by simp
qed simp

text \<open>A well-formed document whose static bound is small has a canonical encoding.\<close>

lemma canonicalize_total:
  assumes "nok E v" "vok 0 (nmap E v)" "int (nodes (nmap E v)) \<le> MAX_ITEMS" "scalars (nmap E v)"
    and "4 * jbound (nmap E v) \<le> MAX_CANONICAL_BYTES"
  shows "\<exists>b. canonicalize E v = Inr b"
proof -
  let ?s = "dumps (canon E v)"
  have sc: "list_all is_scalar ?s" using assms(4) by (intro dumps_scalar) (simp add: canon_def)
  have "vok 0 (canon E v)" using assms(2) by (simp add: canon_def)
  then have "length ?s \<le> jbound (canon E v)" by (rule length_dumps)
  also have "\<dots> = jbound (nmap E v)" by (simp add: canon_def)
  finally have "length (concat (map utf8_char ?s)) \<le> MAX_CANONICAL_BYTES"
    using length_utf8_concat [of ?s] assms(5) by linarith
  with assms sc show ?thesis by (simp add: canonicalize_iff utf8_encode_def)
qed

lemma canonicalize_total_canon:
  assumes "nok E v" "vok 0 (canon E v)" "int (nodes (canon E v)) \<le> MAX_ITEMS" "scalars (canon E v)"
    and "4 * jbound (canon E v) \<le> MAX_CANONICAL_BYTES"
  shows "\<exists>b. canonicalize E v = Inr b"
  using assms by (intro canonicalize_total) (simp_all add: canon_def)

lemma nfc_id_nmap: "nfc E = id \<Longrightarrow> nmap E v = v"
proof (induction v rule: pyval_induct)
  case (PDict d)
  have "nfc_key E k = k" for k using PDict by (cases k) simp_all
  with PDict show ?case by (auto intro!: map_idI)
qed (auto intro!: map_idI)

lemma nfc_id_nok: "nfc E = id \<Longrightarrow> nok E v = wf_keys v"
  by (intro nok_iff_wf_keys nfc_id_nmap)

lemma demo_nfc [simp]: "nfc demo_platform = id"
  by (simp add: demo_platform_def)

text \<open>On the demonstration platform the bound is read off the document.\<close>

lemma canonicalize_demo:
  "wf_keys v \<Longrightarrow> vok 0 v \<Longrightarrow> int (nodes v) \<le> MAX_ITEMS \<Longrightarrow> scalars v \<Longrightarrow> 4 * jbound v \<le> MAX_CANONICAL_BYTES \<Longrightarrow>
     \<exists>b. canonicalize demo_platform v = Inr b"
  by (rule canonicalize_total) (simp_all add: nfc_id_nmap nfc_id_nok)

lemmas demo_doc_simps = MAX_DEPTH_def MAX_ITEMS_def MAX_CANONICAL_BYTES_def MIN_INTEGER_def MAX_INTEGER_def
  kw_def pstr_def

lemma is_hex_scalars: "list_all is_hex s \<Longrightarrow> list_all is_scalar s \<and> str_valid s"
  by (auto simp: list_all_iff is_hex_def is_scalar_def is_surrogate_def str_valid_def)

lemma str_valid_U [simp]: "str_valid (U s)"
proof -
  have "\<not> is_surrogate c" if "c \<in> set (U s)" for c
    using set_U_bound [OF that] by (simp add: is_surrogate_def)
  then show ?thesis by (simp add: str_valid_def list_all_iff)
qed

section \<open>ASCII documents\<close>

text \<open>Normalization form C leaves ASCII alone, so on every conforming platform the bound of such a document is read off it.\<close>

fun plain :: "pyval \<Rightarrow> bool" where
  "plain (PStr s) = list_all (\<lambda>c. c < 128) s"
| "plain (PList xs) = list_all plain xs"
| "plain (PDict d) = list_all (\<lambda>(k, v). list_all (\<lambda>c. c < 128) (key_str k) \<and> plain v) d"
| "plain v = True"

lemma plain_nmap: "platform_ok E \<Longrightarrow> plain v \<Longrightarrow> nmap E v = v"
proof (induction v rule: pyval_induct)
  case (PDict d)
  have "nfc_key E k = k" if "(k, v) \<in> set d" for k v
    using PDict.prems that by (cases k) (auto simp: list_all_iff intro!: platform_okD(3))
  with PDict show ?case by (fastforce simp: list_all_iff intro!: map_idI)
qed (auto simp: list_all_iff intro!: map_idI platform_okD(3))

lemma canonicalize_plain:
  assumes ok: "platform_ok E" and p: "plain v" and w: "wf_keys v" "vok 0 v" "int (nodes v) \<le> MAX_ITEMS" "scalars v"
    "4 * jbound v \<le> MAX_CANONICAL_BYTES"
  shows "\<exists>b. canonicalize E v = Inr b"
proof -
  have n: "nmap E v = v" by (rule plain_nmap [OF ok p])
  then have "nok E v = wf_keys v" by (rule nok_iff_wf_keys)
  with n w show ?thesis by (intro canonicalize_total) simp_all
qed

lemma small_U [simp]: "list_all (\<lambda>c. c < 128) (U s) \<longleftrightarrow> ascii s"
  by (auto simp: ascii_def U_def list_all_iff)

lemma hex_small: "list_all is_hex s \<Longrightarrow> list_all (\<lambda>c. c < 128) s"
  by (auto simp: list_all_iff is_hex_def)

lemma small_scalars: "list_all (\<lambda>c. c < 128) s \<Longrightarrow> list_all is_scalar s \<and> str_valid s"
  by (auto simp: list_all_iff is_scalar_def is_surrogate_def str_valid_def)


lemma hex_facts: "hex_match n s \<Longrightarrow> list_all (\<lambda>c. c < 128) s \<and> list_all is_scalar s \<and> str_valid s \<and> length s = n"
  using hex_small small_scalars by (simp add: hex_match_def)

end
