(* ===== verification/State.thy ===== *)
theory State
  imports Models Crypto Bounds
begin

text \<open>
  \<^verbatim>\<open>src/mgk/state.py\<close>: the authorization epoch and the consumed nonces. The SQLite file
  is modelled by what the code reads of it: the 16 header bytes, whether the library can read the
  pages, the verdict of \<^verbatim>\<open>quick_check\<close> and the rows of the two tables. A transaction is
  atomic; \<open>db_faults\<close> lists, one entry per transaction, whether the library raises a
  \<^verbatim>\<open>DatabaseError\<close> (lock timeout, full disk) instead of committing.
\<close>

section \<open>The database\<close>

definition SQLITE_MAGIC :: bytes where "SQLITE_MAGIC = ''SQLite format 3'' @ [CHR 0x00]"
definition SCHEMA_VERSION :: bytes where "SCHEMA_VERSION = ''1''"

record security_state =
  db_header :: "bytes option"
  db_ok :: bool
  db_quick :: bool
  db_tables :: bool
  metadata :: "string \<Rightarrow> bytes option"
  consumed_nonces :: "(ustr \<times> ustr \<times> int) list"
  db_faults :: "bool list"
  expected_minimum_epoch :: int

type_synonym 'a sec = "(security_state, 'a) op"

definition db_error :: "'a sec" where
  "db_error = sraise (Exn SqliteDatabaseError ''database error'')"

definition state_err :: "string \<Rightarrow> 'a sec" where
  "state_err t = sraise (Exn StateIntegrityError t)"

definition epoch_err :: "string \<Rightarrow> 'a res" where
  "epoch_err t = Inl (Exn EpochError t)"

text \<open>
  \<^verbatim>\<open>with self._connect() as connection: \<dots>\<close>: connecting creates a missing file; when the body
  raises, its statements are rolled back.
\<close>

definition with_connect :: "'a sec \<Rightarrow> 'a sec" where
  "with_connect body = (\<lambda>s.
     let s = (if db_header s = None
              then s\<lparr>db_header := Some SQLITE_MAGIC, db_ok := True, db_quick := True, db_tables := False,
                     metadata := (\<lambda>_. None), consumed_nonces := []\<rparr> else s)
     in if \<not> db_ok s then db_error s
        else if db_faults s \<noteq> [] \<and> hd (db_faults s) then db_error (s\<lparr>db_faults := tl (db_faults s)\<rparr>)
        else let s = s\<lparr>db_faults := tl (db_faults s)\<rparr>
             in case body s of (Inl e, _) \<Rightarrow> (Inl e, s) | (Inr x, s') \<Rightarrow> (Inr x, s'))"

definition select_metadata :: "string \<Rightarrow> bytes option sec" where
  "select_metadata key = (\<lambda>s. if db_tables s then (Inr (metadata s key), s) else db_error s)"

definition insert_metadata :: "string \<Rightarrow> bytes \<Rightarrow> unit sec" where
  "insert_metadata key v = (\<lambda>s.
     if \<not> db_tables s then db_error s
     else if metadata s key \<noteq> None then sraise (Exn SqliteIntegrityError ''UNIQUE constraint failed'') s
     else (Inr (), s\<lparr>metadata := (metadata s)(key \<mapsto> v)\<rparr>))"

definition update_metadata :: "string \<Rightarrow> bytes \<Rightarrow> unit sec" where
  "update_metadata key v = (\<lambda>s.
     if \<not> db_tables s then db_error s
     else (Inr (), s\<lparr>metadata := (metadata s)(key := map_option (\<lambda>_. v) (metadata s key))\<rparr>))"

definition seen_nonce :: "security_state \<Rightarrow> ustr \<Rightarrow> bool" where
  "seen_nonce s nonce \<longleftrightarrow> list_ex (\<lambda>(n, c, t). n = nonce) (consumed_nonces s)"

definition insert_nonce :: "ustr \<Rightarrow> ustr \<Rightarrow> int \<Rightarrow> unit sec" where
  "insert_nonce nonce cap t = (\<lambda>s.
     if \<not> str_valid nonce \<or> \<not> str_valid cap then sraise (Exn UnicodeError ''surrogates not allowed'') s
     else if \<not> (- (2 ^ 63) \<le> t \<and> t < 2 ^ 63) then sraise (Exn OverflowError ''int too large'') s
     else if \<not> db_tables s then db_error s
     else if seen_nonce s nonce then sraise (Exn SqliteIntegrityError ''UNIQUE constraint failed'') s
     else (Inr (), s\<lparr>consumed_nonces := consumed_nonces s @ [(nonce, cap, t)]\<rparr>))"

definition translate_db :: "string \<Rightarrow> 'a sec \<Rightarrow> 'a sec" where
  "translate_db t = scatch is_db_error (\<lambda>_. state_err t)"

section \<open>Opening and checking\<close>

definition ensure_schema :: "unit sec" where
  "ensure_schema = translate_db ''security state initialization failed'' (with_connect (
     sbind (smodify (\<lambda>s. if db_tables s then s
                         else s\<lparr>db_tables := True, metadata := (\<lambda>_. None), consumed_nonces := []\<rparr>)) (\<lambda>_.
     sbind (select_metadata ''schema_version'') (\<lambda>row.
     case row of
       None \<Rightarrow> insert_metadata ''schema_version'' SCHEMA_VERSION
     | Some v \<Rightarrow> if v \<noteq> SCHEMA_VERSION then state_err ''security state schema mismatch'' else sret ()))))"

definition state_init :: "pyval \<Rightarrow> unit sec" where
  "state_init minimum =
     (case minimum of
        PInt n \<Rightarrow>
          if n < 1 then sraise (Exn ValueError ''expected_minimum_epoch must be a positive integer'')
          else sbind (smodify (\<lambda>s. s\<lparr>expected_minimum_epoch := n\<rparr>)) (\<lambda>_. ensure_schema)
      | _ \<Rightarrow> sraise (Exn ValueError ''expected_minimum_epoch must be a positive integer''))"

definition integrity_check :: "unit sec" where
  "integrity_check =
     sbind (sget db_header) (\<lambda>header.
     case header of
       None \<Rightarrow> state_err ''security state file is unreadable''
     | Some h \<Rightarrow>
         if h \<noteq> SQLITE_MAGIC then state_err ''security state file header is invalid''
         else translate_db ''security state is unreadable'' (with_connect (
           sbind (sget db_quick) (\<lambda>ok.
           if \<not> ok then state_err ''SQLite integrity check failed''
           else sbind (select_metadata ''schema_version'') (\<lambda>schema.
             if schema \<noteq> Some SCHEMA_VERSION then state_err ''security state schema missing or invalid''
             else sret ())))))"

section \<open>The epoch\<close>

definition epoch_document :: "platform \<Rightarrow> bytes \<Rightarrow> int \<Rightarrow> pyval" where
  "epoch_document E signer epoch = PDict (mk_dict
     [(''epoch'', PInt epoch), (''key_id'', PStr (key_id E (ed_public E signer))),
      (''schema'', pstr ''mgk-epoch/v1'')])"

definition epoch_envelope :: "platform \<Rightarrow> bytes \<Rightarrow> int \<Rightarrow> bytes res" where
  "epoch_envelope E signer epoch =
     rbind (canonicalize E (epoch_document E signer epoch)) (\<lambda>encoded.
     canonicalize E (PDict (mk_dict
       [(''document'', epoch_document E signer epoch),
        (''signature'', PStr (sign E signer EPOCH_DOMAIN encoded))])))"

definition initialize_epoch :: "platform \<Rightarrow> pyval \<Rightarrow> bytes \<Rightarrow> unit sec" where
  "initialize_epoch E epoch signer =
     (case epoch of
        PInt n \<Rightarrow>
          if n < 1 then sraise (Exn ValueError ''epoch must be a positive integer'')
          else
            sbind (slift (epoch_envelope E signer n)) (\<lambda>envelope.
            scatch (\<lambda>e. is_db_error e \<or> exn_kind_of e = StateIntegrityError)
              (\<lambda>_. state_err ''cannot initialize epoch'') (with_connect (
                sbind (select_metadata ''epoch_envelope'') (\<lambda>existing.
                if existing \<noteq> None then slift (epoch_err ''authorization epoch is already initialized'')
                else insert_metadata ''epoch_envelope'' envelope))))
      | _ \<Rightarrow> sraise (Exn ValueError ''epoch must be a positive integer''))"

definition decode_epoch :: "platform \<Rightarrow> bytes \<Rightarrow> int \<Rightarrow> bytes \<Rightarrow> int res" where
  "decode_epoch E public minimum stored =
     rbind (parse_canonical E stored) (\<lambda>v.
     case v of
       PDict value \<Rightarrow>
         if \<not> has_keys value [''document'', ''signature''] then epoch_err ''invalid epoch envelope''
         else (case dval value ''document'' of
           PDict document \<Rightarrow>
             if \<not> has_keys document [''epoch'', ''key_id'', ''schema''] then epoch_err ''invalid epoch document''
             else if \<not> py_is_str (dval document ''schema'') ''mgk-epoch/v1'' then epoch_err ''unsupported epoch schema''
             else if \<not> py_eq_str (dval document ''key_id'') (key_id E public) then epoch_err ''epoch signer mismatch''
             else
               rbind (canonicalize E (PDict document)) (\<lambda>encoded.
               rbind (verify E public EPOCH_DOMAIN encoded (dval value ''signature'')) (\<lambda>_.
               case dval document ''epoch'' of
                 PInt epoch \<Rightarrow>
                   if epoch < minimum then epoch_err ''authorization epoch rollback or invalid epoch'' else Inr epoch
               | _ \<Rightarrow> epoch_err ''authorization epoch rollback or invalid epoch''))
         | _ \<Rightarrow> epoch_err ''invalid epoch document'')
     | _ \<Rightarrow> epoch_err ''invalid epoch envelope'')"

definition current_epoch :: "platform \<Rightarrow> bytes \<Rightarrow> int sec" where
  "current_epoch E public =
     sbind integrity_check (\<lambda>_.
     sbind (translate_db ''cannot read epoch'' (with_connect (select_metadata ''epoch_envelope''))) (\<lambda>row.
     case row of
       None \<Rightarrow> slift (epoch_err ''authorization epoch is not initialized'')
     | Some stored \<Rightarrow>
         sbind (sget expected_minimum_epoch) (\<lambda>minimum. slift (decode_epoch E public minimum stored))))"

text \<open>
  \<^verbatim>\<open>bump_epoch\<close> reads the epoch before it opens the transaction that writes the next one.
  The two halves are separate operations here, so that others can run in between.
\<close>

definition bump_prepare :: "platform \<Rightarrow> bytes \<Rightarrow> bytes \<Rightarrow> (int \<times> bytes) sec" where
  "bump_prepare E public signer =
     sbind (current_epoch E public) (\<lambda>current.
     sbind (slift (epoch_envelope E signer (current + 1))) (\<lambda>envelope. sret (current, envelope)))"

definition bump_commit :: "platform \<Rightarrow> bytes \<Rightarrow> int \<times> bytes \<Rightarrow> int sec" where
  "bump_commit E public prepared =
     (case prepared of (current, raw) \<Rightarrow>
       sbind (translate_db ''cannot bump epoch'' (with_connect (
         sbind (select_metadata ''epoch_envelope'') (\<lambda>row.
         case row of
           None \<Rightarrow> slift (epoch_err ''epoch changed concurrently'')
         | Some old \<Rightarrow>
             sbind (sget expected_minimum_epoch) (\<lambda>minimum.
             sbind (slift (decode_epoch E public minimum old)) (\<lambda>epoch.
             if epoch \<noteq> current then slift (epoch_err ''epoch changed concurrently'')
             else update_metadata ''epoch_envelope'' raw)))))) (\<lambda>_.
       sbind (smodify (\<lambda>s. s\<lparr>expected_minimum_epoch := current + 1\<rparr>)) (\<lambda>_. sret (current + 1))))"

definition bump_epoch :: "platform \<Rightarrow> bytes \<Rightarrow> bytes \<Rightarrow> int sec" where
  "bump_epoch E public signer = sbind (bump_prepare E public signer) (bump_commit E public)"

section \<open>Nonces\<close>

definition consume_nonce :: "pyval \<Rightarrow> pyval \<Rightarrow> pyval \<Rightarrow> unit sec" where
  "consume_nonce nonce cap consumed_at =
     (case (nonce, cap, consumed_at) of
        (PStr n, PStr c, PInt t) \<Rightarrow>
          sbind integrity_check (\<lambda>_.
          scatch is_db_error
            (\<lambda>e. if exn_kind_of e = SqliteIntegrityError then sraise (Exn ReplayError ''nonce was already consumed'')
                 else state_err ''cannot consume nonce'')
            (with_connect (insert_nonce n c t)))
      | _ \<Rightarrow> sraise (Exn ReplayError ''invalid nonce consumption request''))"

definition nonce_count :: "nat sec" where
  "nonce_count =
     sbind integrity_check (\<lambda>_.
     translate_db ''cannot count nonces'' (with_connect (\<lambda>s.
       if db_tables s then (Inr (length (consumed_nonces s)), s) else db_error s)))"

section \<open>Transactions\<close>

definition sound :: "security_state \<Rightarrow> bool" where
  "sound s \<longleftrightarrow> db_header s = Some SQLITE_MAGIC \<and> db_ok s \<and> db_quick s \<and> db_tables s
     \<and> metadata s ''schema_version'' = Some SCHEMA_VERSION"

definition next_tx :: "security_state \<Rightarrow> security_state" where
  "next_tx s = s\<lparr>db_faults := tl (db_faults s)\<rparr>"

lemma next_tx_simps [simp]:
  "db_header (next_tx s) = db_header s" "db_ok (next_tx s) = db_ok s" "db_quick (next_tx s) = db_quick s"
  "db_tables (next_tx s) = db_tables s" "metadata (next_tx s) = metadata s"
  "consumed_nonces (next_tx s) = consumed_nonces s" "db_faults (next_tx s) = tl (db_faults s)"
  "expected_minimum_epoch (next_tx s) = expected_minimum_epoch s" "sound (next_tx s) = sound s"
  "seen_nonce (next_tx s) n = seen_nonce s n"
  by (simp_all add: next_tx_def sound_def seen_nonce_def)

lemma seen_nonce_faults [simp]: "seen_nonce (s\<lparr>db_faults := f\<rparr>) n = seen_nonce s n"
  by (simp add: seen_nonce_def)

lemma with_connect_ok:
  "db_header s \<noteq> None \<Longrightarrow> with_connect m s = (Inr x, s') \<longleftrightarrow>
     db_ok s \<and> \<not> (db_faults s \<noteq> [] \<and> hd (db_faults s)) \<and> m (next_tx s) = (Inr x, s')"
  by (auto simp: with_connect_def Let_def db_error_def next_tx_def split: prod.splits sum.splits)

text \<open>A transaction that raises leaves the database as it was.\<close>

lemma with_connect_err:
  "db_header s \<noteq> None \<Longrightarrow> with_connect m s = (Inl e, s') \<Longrightarrow> s' = s \<or> s' = next_tx s"
  by (auto simp: with_connect_def Let_def db_error_def next_tx_def split: prod.splits sum.splits if_splits)

lemma with_connect_err_exn:
  "with_connect m s = (Inl e, s') \<Longrightarrow> is_db_error e \<or> (\<exists>v v'. m v = (Inl e, v'))"
  by (auto simp: with_connect_def Let_def db_error_def is_db_error_def split: prod.splits sum.splits if_splits)

lemma translate_ok [simp]: "translate_db t m s = (Inr x, s') \<longleftrightarrow> m s = (Inr x, s')"
  by (simp add: translate_db_def scatch_ok state_err_def sraise_def)

lemma select_metadata_ok [simp]:
  "select_metadata k s = (Inr r, s') \<longleftrightarrow> db_tables s \<and> r = metadata s k \<and> s' = s"
  by (auto simp: select_metadata_def db_error_def)

lemma state_err_neq [simp]: "state_err t s \<noteq> (Inr x, s')"
  by (simp add: state_err_def sraise_def)

lemma epoch_err_neq [simp]: "epoch_err t \<noteq> Inr x" "Inr x \<noteq> epoch_err t"
  by (simp_all add: epoch_err_def)

lemma integrity_check_ok:
  "integrity_check s = (Inr u, s') \<longleftrightarrow>
     sound s \<and> \<not> (db_faults s \<noteq> [] \<and> hd (db_faults s)) \<and> s' = next_tx s"
  by (auto simp: integrity_check_def sbind_ok with_connect_ok sound_def split: option.splits if_splits)

section \<open>Consumed nonces are never forgotten\<close>

definition spent :: "security_state \<Rightarrow> ustr \<Rightarrow> bool" where
  "spent s n \<longleftrightarrow> db_header s \<noteq> None \<and> db_tables s \<and> seen_nonce s n"

definition retains :: "security_state \<Rightarrow> security_state \<Rightarrow> bool" where
  "retains s s' \<longleftrightarrow> (\<forall>n. spent s n \<longrightarrow> spent s' n)"

lemma preorder_retains [simp]: "preorder_rel retains"
  by (auto simp: preorder_rel_def reflp_def transp_def retains_def)

lemma retains_with_connect [keeps_intro]:
  assumes "keeps retains m"
  shows "keeps retains (with_connect m)"
proof (rule keepsI)
  fix s r s'
  assume run: "with_connect m s = (r, s')"
  show "retains s s'"
  proof (cases "db_header s = None")
    case True
    then show ?thesis by (simp add: retains_def spent_def)
  next
    case False
    have same: "retains s (next_tx s)" "retains s s" by (simp_all add: retains_def spent_def)
    show ?thesis
    proof (cases r)
      case (Inl e)
      with with_connect_err [OF False] run same show ?thesis by blast
    next
      case (Inr x)
      with run have "m (next_tx s) = (Inr x, s')" by (simp add: with_connect_ok [OF False])
      from keepsD [OF assms this] show ?thesis
        by (simp only: retains_def spent_def next_tx_simps)
    qed
  qed
qed

lemma retains_basic [keeps_intro]:
  "keeps retains (select_metadata k)" "keeps retains (insert_metadata k v)"
  "keeps retains (update_metadata k v)" "keeps retains (insert_nonce n c t)"
  "keeps retains (state_err msg)" "keeps retains db_error"
  by (auto simp: keeps_def retains_def spent_def seen_nonce_def select_metadata_def insert_metadata_def
      update_metadata_def insert_nonce_def state_err_def db_error_def op_defs split: prod.splits)

lemma retains_translate [keeps_intro]: "keeps retains m \<Longrightarrow> keeps retains (translate_db t m)"
  unfolding translate_db_def by (intro keeps_intro preorder_retains) simp

lemma retains_integrity_check [keeps_intro]: "keeps retains integrity_check"
  unfolding integrity_check_def by (intro keeps_intro preorder_retains)

lemma retains_current_epoch [keeps_intro]: "keeps retains (current_epoch E p)"
  unfolding current_epoch_def by (intro keeps_intro preorder_retains)

lemma retains_consume [keeps_intro]: "keeps retains (consume_nonce n c t)"
  unfolding consume_nonce_def prod.case by (intro keeps_intro preorder_retains)

lemma retains_bump_prepare [keeps_intro]: "keeps retains (bump_prepare E p k)"
  unfolding bump_prepare_def by (intro keeps_intro preorder_retains)

lemma retains_bump_commit [keeps_intro]: "keeps retains (bump_commit E p x)"
  unfolding bump_commit_def
  by (intro keeps_intro preorder_retains keeps_smodify) (simp add: retains_def spent_def seen_nonce_def)

lemma retains_bump_epoch [keeps_intro]: "keeps retains (bump_epoch E p k)"
  unfolding bump_epoch_def by (intro keeps_intro preorder_retains)

lemma retains_initialize_epoch [keeps_intro]: "keeps retains (initialize_epoch E n k)"
  unfolding initialize_epoch_def by (intro keeps_intro preorder_retains)

lemma retains_ensure_schema [keeps_intro]: "keeps retains ensure_schema"
  unfolding ensure_schema_def
  by (intro keeps_intro preorder_retains keeps_smodify) (simp add: retains_def spent_def seen_nonce_def)

lemma retains_state_init [keeps_intro]: "keeps retains (state_init n)"
  unfolding state_init_def
  by (intro keeps_intro preorder_retains keeps_smodify) (simp add: retains_def spent_def seen_nonce_def)

lemma retains_nonce_count [keeps_intro]: "keeps retains nonce_count"
proof -
  have "keeps retains (\<lambda>s. if db_tables s then (Inr (length (consumed_nonces s)), s) else db_error s)"
    by (simp add: keeps_def retains_def db_error_def op_defs)
  then show ?thesis unfolding nonce_count_def by (intro keeps_intro preorder_retains)
qed

lemma insert_nonce_ok:
  "insert_nonce n c t s = (Inr u, s') \<longleftrightarrow>
     str_valid n \<and> str_valid c \<and> - (2 ^ 63) \<le> t \<and> t < 2 ^ 63 \<and> db_tables s \<and> \<not> seen_nonce s n
   \<and> s' = s\<lparr>consumed_nonces := consumed_nonces s @ [(n, c, t)]\<rparr>"
  by (auto simp: insert_nonce_def db_error_def)

lemma consume_ok:
  "consume_nonce (PStr n) (PStr c) (PInt t) s = (Inr u, s') \<longleftrightarrow>
     sound s \<and> \<not> (db_faults s \<noteq> [] \<and> hd (db_faults s))
   \<and> \<not> (tl (db_faults s) \<noteq> [] \<and> hd (tl (db_faults s)))
   \<and> str_valid n \<and> str_valid c \<and> - (2 ^ 63) \<le> t \<and> t < 2 ^ 63 \<and> \<not> seen_nonce s n
   \<and> s' = (next_tx (next_tx s))\<lparr>consumed_nonces := consumed_nonces s @ [(n, c, t)]\<rparr>"
proof -
  have h: "scatch is_db_error (\<lambda>e. if exn_kind_of e = SqliteIntegrityError
        then sraise (Exn ReplayError ''nonce was already consumed'') else state_err ''cannot consume nonce'') m v
      = (Inr u, s') \<longleftrightarrow> m v = (Inr u, s')" for m v
    by (rule scatch_ok) (simp add: sraise_def)
  show ?thesis
    unfolding consume_nonce_def prod.case pyval.case sbind_ok integrity_check_ok h
    by (auto simp: with_connect_ok sound_def insert_nonce_ok)
qed

lemma consume_spends:
  "consume_nonce (PStr n) (PStr c) (PInt t) s = (Inr u, s') \<Longrightarrow> \<not> spent s n \<and> spent s' n"
  by (auto simp: consume_ok spent_def sound_def seen_nonce_def)

section \<open>Interface: a replay store\<close>

text \<open>
  What the verifier relies on: a token that was consumed is spent, an operation of the store
  never forgets a spent token, and a spent token cannot be consumed.
\<close>

locale replay_store =
  fixes spent :: "'s \<Rightarrow> 'n \<Rightarrow> bool"
    and consume :: "'n \<Rightarrow> 'c \<Rightarrow> ('s, unit) op"
  assumes consume_fresh: "consume n c s = (Inr u, s') \<Longrightarrow> \<not> spent s n \<and> spent s' n"
    and consume_keeps: "consume n c s = (r, s') \<Longrightarrow> spent s m \<Longrightarrow> spent s' m"
begin

text \<open>Whatever happens to the store in between, as long as it forgets nothing.\<close>

lemma at_most_once:
  assumes "consume n c s = (Inr u, s1)" and "\<And>m. spent s1 m \<Longrightarrow> spent s2 m"
    and "consume n c' s2 = (r, s3)"
  shows "(\<exists>e. r = Inl e) \<and> spent s3 n"
proof -
  have "spent s2 n" using consume_fresh [OF assms(1)] assms(2) by blast
  then show ?thesis using consume_fresh consume_keeps assms(3) by (cases r) blast+
qed

end

interpretation nonces: replay_store spent "\<lambda>n (c, t). consume_nonce (PStr n) (PStr c) (PInt t)"
proof unfold_locales
  fix n c s u s'
  assume "(case c of (c, t) \<Rightarrow> consume_nonce (PStr n) (PStr c) (PInt t)) s = (Inr u, s')"
  then show "\<not> spent s n \<and> spent s' n" using consume_spends by (cases c) simp
next
  fix n c s r s' m
  assume "(case c of (c, t) \<Rightarrow> consume_nonce (PStr n) (PStr c) (PInt t)) s = (r, s')" "spent s m"
  then show "spent s' m" using keepsD [OF retains_consume] by (cases c) (fastforce simp: retains_def)
qed

section \<open>Epoch envelopes\<close>

lemma nfc_key_id: "platform_ok E \<Longrightarrow> nfc E (key_id E p) = key_id E p"
proof -
  assume ok: "platform_ok E"
  have "list_all is_hex (sha256_hex E p)" using sha256_hex_match [OF ok] by (simp add: hex_match_def)
  then show ?thesis
    by (intro platform_okD(3) [OF ok]) (auto simp: key_id_def list_all_iff is_hex_def U_def)
qed

lemma nfc_b64: "platform_ok E \<Longrightarrow> nfc E (b64u_encode bs) = b64u_encode bs"
  using b64u_encode_range by (intro platform_okD(3))

lemma key_id_scalar: "platform_ok E \<Longrightarrow> list_all is_scalar (key_id E p) \<and> str_valid (key_id E p) \<and> length (key_id E p) = 72"
proof -
  assume ok: "platform_ok E"
  have "hex_match 64 (sha256_hex E p)" by (rule sha256_hex_match [OF ok])
  then show ?thesis using is_hex_scalars [of "sha256_hex E p"] str_valid_U [of "''ed25519:''"]
    by (simp add: key_id_def hex_match_def str_valid_def del: str_valid_U)
qed

lemma b64_scalar: "list_all is_scalar (b64u_encode bs) \<and> str_valid (b64u_encode bs)"
proof -
  have "is_scalar c \<and> \<not> is_surrogate c" if "c \<in> set (b64u_encode bs)" for c
    using b64u_encode_range [OF that] by (simp add: is_scalar_def is_surrogate_def)
  then show ?thesis by (simp add: list_all_iff str_valid_def)
qed

lemma sign_facts: "platform_ok E \<Longrightarrow> list_all (\<lambda>c. c < 128) (sign E k d m) \<and> list_all is_scalar (sign E k d m) \<and> str_valid (sign E k d m)
    \<and> length (sign E k d m) \<le> 128"
  using length_b64u_encode [of "ed_sign E k (d @ m)"] platform_okD(5) [of E] b64_scalar b64u_encode_range
  by (force simp: sign_def list_all_iff)

lemma key_id_facts: "platform_ok E \<Longrightarrow> list_all (\<lambda>c. c < 128) (key_id E p) \<and> list_all is_scalar (key_id E p) \<and> str_valid (key_id E p)
    \<and> length (key_id E p) = 72"
  using key_id_scalar [of E p] hex_facts [OF sha256_hex_match, of E p] by (simp add: key_id_def U_def list_all_iff)

lemma canon_epoch_document:
  assumes "platform_ok E"
  shows "canon E (epoch_document E k n) = epoch_document E k n"
  unfolding epoch_document_def
  by (subst canon_sorted_dict [OF assms])
    (simp_all add: ascii_def U_def canon_pstr [OF assms] nfc_key_id [OF assms])

lemma decode_envelope:
  assumes ok: "platform_ok E" and env: "epoch_envelope E k n = Inr raw"
  shows "decode_epoch E (ed_public E k) minimum raw =
    (if n < minimum then epoch_err ''authorization epoch rollback or invalid epoch'' else Inr n)"
proof -
  let ?doc = "epoch_document E k n"
  obtain encoded where enc: "canonicalize E ?doc = Inr encoded"
    and raw: "canonicalize E (PDict (mk_dict [(''document'', ?doc),
        (''signature'', PStr (sign E k EPOCH_DOMAIN encoded))])) = Inr raw"
    using env by (auto simp: epoch_envelope_def rbind_eq_Inr_iff)
  let ?env = "PDict (mk_dict [(''document'', ?doc), (''signature'', PStr (sign E k EPOCH_DOMAIN encoded))])"
  have "canon E ?env = PDict (mk_dict [(''document'', canon E ?doc), (''signature'', PStr (sign E k EPOCH_DOMAIN encoded))])"
    by (subst canon_sorted_dict [OF ok]) (simp_all add: ascii_def U_def sign_def nfc_b64 [OF ok])
  then have p: "parse_canonical E raw = Inr ?env"
    using canonical.dec_enc [OF ok raw] canon_epoch_document [OF ok] by simp
  obtain d where d: "?doc = PDict d" "has_keys d [''epoch'', ''key_id'', ''schema'']"
    "dval d ''schema'' = pstr ''mgk-epoch/v1''" "dval d ''key_id'' = PStr (key_id E (ed_public E k))"
    "dval d ''epoch'' = PInt n"
    by (simp add: epoch_document_def has_keys_def)
  have v: "verify E (ed_public E k) EPOCH_DOMAIN encoded (PStr (sign E k EPOCH_DOMAIN encoded)) = Inr ()"
    by (rule ed25519.chk_sgn [OF ok])
  have k: "has_keys (mk_dict [(''document'', x), (''signature'', y)]) [''document'', ''signature'']" for x y
    by (simp add: has_keys_def)
  show ?thesis
    unfolding decode_epoch_def p using enc k d v
    by (simp del: mk_dict_simps add: py_is_str_def py_eq_str_def)
      (simp add: d py_is_str_def py_eq_str_def)
qed

lemma decode_epoch_ok:
  assumes "decode_epoch E public minimum raw = Inr n"
  shows "minimum \<le> n \<and> (\<exists>document encoded signature.
      canonicalize E (PDict document) = Inr encoded \<and> dval document ''epoch'' = PInt n
    \<and> verify E public EPOCH_DOMAIN encoded signature = Inr ())"
  using assms unfolding decode_epoch_def rbind_eq_Inr_iff
  by (elim exE conjE) (clarsimp simp: rbind_eq_Inr_iff not_less split: pyval.split_asm if_split_asm, metis)

lemma current_epoch_ok:
  "current_epoch E p s = (Inr n, s') \<longleftrightarrow>
     sound s \<and> \<not> (db_faults s \<noteq> [] \<and> hd (db_faults s))
   \<and> \<not> (tl (db_faults s) \<noteq> [] \<and> hd (tl (db_faults s))) \<and> s' = next_tx (next_tx s)
   \<and> (\<exists>raw. metadata s ''epoch_envelope'' = Some raw
        \<and> decode_epoch E p (expected_minimum_epoch s) raw = Inr n)"
  by (cases "metadata s ''epoch_envelope''")
    (auto simp: current_epoch_def sbind_ok integrity_check_ok with_connect_ok sound_def)

lemma bump_commit_ok:
  assumes "db_header s \<noteq> None"
  shows "bump_commit E p (cur, raw) s = (Inr m, s') \<longleftrightarrow>
     db_ok s \<and> db_tables s \<and> \<not> (db_faults s \<noteq> [] \<and> hd (db_faults s)) \<and> m = cur + 1
   \<and> (\<exists>old. metadata s ''epoch_envelope'' = Some old
        \<and> decode_epoch E p (expected_minimum_epoch s) old = Inr cur)
   \<and> s' = (next_tx s)\<lparr>metadata := (metadata s)(''epoch_envelope'' \<mapsto> raw), expected_minimum_epoch := cur + 1\<rparr>"
  by (cases "metadata s ''epoch_envelope''")
    (auto simp: bump_commit_def sbind_ok with_connect_ok [OF assms] update_metadata_def db_error_def
      split: if_splits)

lemma bump_prepare_ok:
  "bump_prepare E p k s = (Inr (n, raw), s') \<longleftrightarrow>
     current_epoch E p s = (Inr n, s') \<and> epoch_envelope E k (n + 1) = Inr raw"
  by (auto simp: bump_prepare_def sbind_ok)

text \<open>A writer that prepared from an epoch that is no longer current is refused.\<close>

lemma stale_bump:
  assumes ok: "platform_ok E" and hdr: "db_header s \<noteq> None"
    and cur: "metadata s ''epoch_envelope'' = Some raw" "epoch_envelope E k (n + 1) = Inr raw"
  shows "\<exists>e. fst (bump_commit E (ed_public E k) (n, other) s) = Inl e"
proof (cases "bump_commit E (ed_public E k) (n, other) s")
  case (Pair r s')
  show ?thesis
  proof (cases r)
    case (Inr m)
    with Pair cur(1) have "decode_epoch E (ed_public E k) (expected_minimum_epoch s) raw = Inr n"
      by (simp add: bump_commit_ok [OF hdr])
    then show ?thesis using decode_envelope [OF ok cur(2)] by (simp split: if_splits)
  qed (use Pair in simp)
qed

lemma epoch_envelope_total:
  assumes ok: "platform_ok E" and n: "0 \<le> n" "n \<le> MAX_INTEGER"
  shows "\<exists>raw. epoch_envelope E k n = Inr raw"
proof -
  let ?doc = "epoch_document E k n"
  have len: "length (sign E k EPOCH_DOMAIN m) \<le> 128" for m using sign_facts [OF ok] by blast
  note facts = key_id_scalar [OF ok] n b64_scalar
  have nok: "nok E ?doc"
    by (simp add: epoch_document_def nfc_key_kw [OF ok] ascii_def pstr_def)
  have "\<exists>encoded. canonicalize E ?doc = Inr encoded"
  proof (rule canonicalize_total_canon)
    show "vok 0 (canon E ?doc)" "int (nodes (canon E ?doc)) \<le> MAX_ITEMS" "scalars (canon E ?doc)"
      "4 * jbound (canon E ?doc) \<le> MAX_CANONICAL_BYTES"
      unfolding canon_epoch_document [OF ok]
      using facts by (simp_all add: epoch_document_def demo_doc_simps)
  qed (rule nok)
  then obtain encoded where enc: "canonicalize E ?doc = Inr encoded" by blast
  let ?env = "PDict (mk_dict [(''document'', ?doc), (''signature'', PStr (sign E k EPOCH_DOMAIN encoded))])"
  have c: "canon E ?env = ?env"
    by (subst canon_sorted_dict [OF ok])
      (simp_all add: ascii_def U_def sign_def nfc_b64 [OF ok] canon_epoch_document [OF ok])
  have "\<exists>raw. canonicalize E ?env = Inr raw"
  proof (rule canonicalize_total_canon)
    show "nok E ?env" using nok by (simp add: nfc_key_kw [OF ok] ascii_def)
    show "vok 0 (canon E ?env)" "int (nodes (canon E ?env)) \<le> MAX_ITEMS" "scalars (canon E ?env)"
      unfolding c using facts by (simp_all add: epoch_document_def demo_doc_simps sign_def)
    show "4 * jbound (canon E ?env) \<le> MAX_CANONICAL_BYTES"
      unfolding c using facts len [of encoded] by (simp add: epoch_document_def demo_doc_simps)
  qed
  with enc show ?thesis by (simp add: epoch_envelope_def)
qed

section \<open>Properties\<close>

text \<open>Any operation of any process on the database, in any order.\<close>

inductive sec_step :: "platform \<Rightarrow> security_state \<Rightarrow> security_state \<Rightarrow> bool" for E where
  "state_init n s = (r, s') \<Longrightarrow> sec_step E s s'"
| "integrity_check s = (r, s') \<Longrightarrow> sec_step E s s'"
| "initialize_epoch E n k s = (r, s') \<Longrightarrow> sec_step E s s'"
| "current_epoch E p s = (r2, s') \<Longrightarrow> sec_step E s s'"
| "bump_prepare E p k s = (r3, s') \<Longrightarrow> sec_step E s s'"
| "bump_commit E p x s = (r2, s') \<Longrightarrow> sec_step E s s'"
| "consume_nonce a b c s = (r, s') \<Longrightarrow> sec_step E s s'"
| "nonce_count s = (r4, s') \<Longrightarrow> sec_step E s s'"

lemma sec_step_retains: "sec_step E s s' \<Longrightarrow> retains s s'"
  by (induction rule: sec_step.induct)
    (blast intro: keepsD [OF retains_state_init] keepsD [OF retains_integrity_check]
      keepsD [OF retains_initialize_epoch] keepsD [OF retains_current_epoch] keepsD [OF retains_bump_prepare]
      keepsD [OF retains_bump_commit] keepsD [OF retains_consume] keepsD [OF retains_nonce_count])+

lemma sec_steps_retain: "(sec_step E)\<^sup>*\<^sup>* s s' \<Longrightarrow> retains s s'"
  by (induction rule: rtranclp_induct)
    (use preorder_retains sec_step_retains in \<open>auto simp: preorder_rel_def reflp_def transp_def\<close>)

definition demo_state :: security_state where
  "demo_state = \<lparr>db_header = Some SQLITE_MAGIC, db_ok = True, db_quick = True, db_tables = True,
     metadata = [''schema_version'' \<mapsto> SCHEMA_VERSION], consumed_nonces = [], db_faults = [],
     expected_minimum_epoch = 1\<rparr>"

lemma sound_demo: "sound demo_state"
  by (simp add: sound_def demo_state_def)

text \<open>
  C16: A nonce is consumed at most once. After one successful consumption, whatever operations any
  process runs on the database and whichever of their transactions fail, every later attempt to
  consume the same nonce raises and the nonce stays consumed; on a sound database with no
  transaction failure a well-typed attempt raises exactly \<open>ReplayError\<close>.
\<close>

theorem nonce_single_use:
  assumes first: "consume_nonce (PStr n) (PStr c) (PInt t) s = (Inr u, s1)" and later: "(sec_step E)\<^sup>*\<^sup>* s1 s2"
  shows "consume_nonce (PStr n) (PStr c') (PInt t') s2 = (r, s3) \<longrightarrow>
      (\<exists>e. r = Inl e) \<and> spent s3 n
    \<and> (sound s2 \<and> db_faults s2 = [] \<and> str_valid c' \<and> - (2 ^ 63) \<le> t' \<and> t' < 2 ^ 63 \<longrightarrow>
        (\<exists>e. r = Inl e \<and> exn_kind_of e = ReplayError) \<and> consumed_nonces s3 = consumed_nonces s2)"
proof
  assume again: "consume_nonce (PStr n) (PStr c') (PInt t') s2 = (r, s3)"
  have keep: "spent s1 m \<Longrightarrow> spent s2 m" for m
    using sec_steps_retain [OF later] by (simp add: retains_def)
  have once: "(\<exists>e. r = Inl e) \<and> spent s3 n"
    using nonces.at_most_once [of n "(c, t)" s u s1 s2 "(c', t')" r s3] first again keep by simp
  have "(\<exists>e. r = Inl e \<and> exn_kind_of e = ReplayError) \<and> consumed_nonces s3 = consumed_nonces s2"
    if s2: "sound s2" "db_faults s2 = []" "str_valid c'" "- (2 ^ 63) \<le> t'" "t' < 2 ^ 63"
  proof -
    have "str_valid n" using first by (simp add: consume_ok)
    moreover have "seen_nonce s2 n" using consume_spends [OF first] keep by (simp add: spent_def)
    moreover have "integrity_check s2 = (Inr (), s2)" using s2 by (simp add: integrity_check_ok next_tx_def)
    ultimately show ?thesis
      using again s2 by (auto simp: consume_nonce_def sbind_def scatch_def with_connect_def insert_nonce_def sound_def
          is_db_error_def sraise_def Let_def)
  qed
  with once show "(\<exists>e. r = Inl e) \<and> spent s3 n
    \<and> (sound s2 \<and> db_faults s2 = [] \<and> str_valid c' \<and> - (2 ^ 63) \<le> t' \<and> t' < 2 ^ 63 \<longrightarrow>
        (\<exists>e. r = Inl e \<and> exn_kind_of e = ReplayError) \<and> consumed_nonces s3 = consumed_nonces s2)"
    by blast
qed

theorem nonce_single_use_witness:
  "\<exists>s1. consume_nonce (pstr ''n'') (pstr ''c'') (PInt 5) demo_state = (Inr (), s1)
     \<and> (\<exists>e s3. consume_nonce (pstr ''n'') (pstr ''d'') (PInt 6) s1 = (Inl e, s3))"
proof -
  let ?s1 = "demo_state\<lparr>consumed_nonces := [(U ''n'', U ''c'', 5)]\<rparr>"
  have s1: "consume_nonce (pstr ''n'') (pstr ''c'') (PInt 5) demo_state = (Inr (), ?s1)"
    using sound_demo unfolding pstr_def consume_ok
    by (simp add: demo_state_def next_tx_def seen_nonce_def)
  obtain r s3 where r: "consume_nonce (pstr ''n'') (pstr ''d'') (PInt 6) ?s1 = (r, s3)" by fastforce
  then have "\<exists>e. r = Inl e"
    using nonce_single_use [OF s1 [unfolded pstr_def] rtranclp.rtrancl_refl] by (fastforce simp: pstr_def)
  with s1 r show ?thesis by blast
qed

lemma bump_epoch_ok:
  assumes ok: "platform_ok E" and b: "bump_epoch E (ed_public E k) k s = (Inr m, s')"
  shows "\<exists>s1 raw. current_epoch E (ed_public E k) s = (Inr (m - 1), s1) \<and> sound s'
    \<and> epoch_envelope E k m = Inr raw \<and> metadata s' ''epoch_envelope'' = Some raw
    \<and> expected_minimum_epoch s' = m"
proof -
  from b obtain n raw s1 where p: "bump_prepare E (ed_public E k) k s = (Inr (n, raw), s1)"
    and c: "bump_commit E (ed_public E k) (n, raw) s1 = (Inr m, s')"
    by (auto simp: bump_epoch_def sbind_ok)
  from p have cur: "current_epoch E (ed_public E k) s = (Inr n, s1)" and env: "epoch_envelope E k (n + 1) = Inr raw"
    by (simp_all add: bump_prepare_ok)
  from cur have s1: "sound s1" by (auto simp: current_epoch_ok)
  then have "db_header s1 \<noteq> None" by (simp add: sound_def)
  from c s1 cur env show ?thesis unfolding bump_commit_ok [OF \<open>db_header s1 \<noteq> None\<close>]
    by (auto simp: sound_def)
qed

text \<open>
  C30: Advancing the epoch. A bump that returns \<open>m\<close> read the epoch \<open>m - 1\<close>, and the database then
  reads as \<open>m\<close>. From then on the object accepts no database, whatever its content and however it
  was replaced, whose epoch is below \<open>m\<close>; and every epoch it does accept comes with an Ed25519
  signature, under the epoch domain and its public key, on a document that names this epoch.
\<close>

theorem epoch_bump:
  assumes ok: "platform_ok E" and bump: "bump_epoch E (ed_public E k) k s = (Inr m, s')"
  shows "(\<exists>s1. current_epoch E (ed_public E k) s = (Inr (m - 1), s1))
    \<and> current_epoch E (ed_public E k) (s'\<lparr>db_faults := []\<rparr>) = (Inr m, s'\<lparr>db_faults := []\<rparr>)
    \<and> expected_minimum_epoch s' = m
    \<and> (\<forall>t q t'. expected_minimum_epoch t = expected_minimum_epoch s' \<and> current_epoch E (ed_public E k) t = (Inr q, t') \<longrightarrow>
         m \<le> q \<and> (\<exists>document encoded raw. canonicalize E (PDict document) = Inr encoded
           \<and> dval document ''epoch'' = PInt q \<and> ed_verify E (ed_public E k) (EPOCH_DOMAIN @ encoded) raw))"
proof -
  from bump_epoch_ok [OF ok bump] obtain s1 raw where b: "current_epoch E (ed_public E k) s = (Inr (m - 1), s1)"
    "sound s'" "epoch_envelope E k m = Inr raw" "metadata s' ''epoch_envelope'' = Some raw"
    and min: "expected_minimum_epoch s' = m" by blast
  have "decode_epoch E (ed_public E k) m raw = Inr m" using decode_envelope [OF ok b(3), of m] by simp
  then have "current_epoch E (ed_public E k) (s'\<lparr>db_faults := []\<rparr>) = (Inr m, s'\<lparr>db_faults := []\<rparr>)"
    unfolding current_epoch_ok using b min by (simp add: sound_def next_tx_def)
  moreover have "m \<le> q \<and> (\<exists>document encoded raw. canonicalize E (PDict document) = Inr encoded
      \<and> dval document ''epoch'' = PInt q \<and> ed_verify E (ed_public E k) (EPOCH_DOMAIN @ encoded) raw)"
    if t: "expected_minimum_epoch t = m" "current_epoch E (ed_public E k) t = (Inr q, t')" for t q t'
  proof -
    from t obtain raw where "decode_epoch E (ed_public E k) m raw = Inr q" by (auto simp: current_epoch_ok)
    from decode_epoch_ok [OF this] show ?thesis by (auto simp: verify_iff)
  qed
  ultimately show ?thesis using b(1) min by blast
qed

lemma demo_epoch:
  obtains raw where "epoch_envelope demo_platform k 1 = Inr raw"
    and "current_epoch demo_platform (ed_public demo_platform k)
      (demo_state\<lparr>metadata := [''schema_version'' \<mapsto> SCHEMA_VERSION, ''epoch_envelope'' \<mapsto> raw]\<rparr>)
      = (Inr 1, demo_state\<lparr>metadata := [''schema_version'' \<mapsto> SCHEMA_VERSION, ''epoch_envelope'' \<mapsto> raw]\<rparr>)"
proof -
  obtain raw where raw: "epoch_envelope demo_platform k 1 = Inr raw"
    using epoch_envelope_total [OF platform_ok_demo, of 1 k] by (auto simp: MAX_INTEGER_def)
  have "decode_epoch demo_platform (ed_public demo_platform k) 1 raw = Inr 1"
    using decode_envelope [OF platform_ok_demo raw, of 1] by simp
  then show ?thesis using that [OF raw] unfolding current_epoch_ok
    by (simp add: sound_def demo_state_def next_tx_def)
qed

lemma demo_bump: "\<exists>s s'. bump_epoch demo_platform (ed_public demo_platform k) k s = (Inr 2, s')"
proof -
  obtain raw where raw: "epoch_envelope demo_platform k 1 = Inr raw"
    and cur: "current_epoch demo_platform (ed_public demo_platform k)
      (demo_state\<lparr>metadata := [''schema_version'' \<mapsto> SCHEMA_VERSION, ''epoch_envelope'' \<mapsto> raw]\<rparr>)
      = (Inr 1, demo_state\<lparr>metadata := [''schema_version'' \<mapsto> SCHEMA_VERSION, ''epoch_envelope'' \<mapsto> raw]\<rparr>)"
    by (rule demo_epoch)
  let ?s = "demo_state\<lparr>metadata := [''schema_version'' \<mapsto> SCHEMA_VERSION, ''epoch_envelope'' \<mapsto> raw]\<rparr>"
  obtain raw2 where raw2: "epoch_envelope demo_platform k 2 = Inr raw2"
    using epoch_envelope_total [OF platform_ok_demo, of 2 k] by (auto simp: MAX_INTEGER_def)
  have p: "bump_prepare demo_platform (ed_public demo_platform k) k ?s = (Inr (1, raw2), ?s)"
    using cur raw2 by (simp add: bump_prepare_ok)
  have "decode_epoch demo_platform (ed_public demo_platform k) 1 raw = Inr 1"
    using decode_envelope [OF platform_ok_demo raw, of 1] by simp
  moreover have "db_header ?s \<noteq> None" by (simp add: demo_state_def)
  ultimately have "\<exists>s'. bump_commit demo_platform (ed_public demo_platform k) (1, raw2) ?s = (Inr 2, s')"
    by (simp add: bump_commit_ok) (simp add: demo_state_def)
  then have "\<exists>s'. bump_epoch demo_platform (ed_public demo_platform k) k ?s = (Inr 2, s')"
    unfolding bump_epoch_def sbind_ok using p by blast
  then show ?thesis by blast
qed

theorem epoch_bump_witness:
  "\<exists>s s' s1. bump_epoch demo_platform (ed_public demo_platform ''k'') ''k'' s = (Inr 2, s')
     \<and> current_epoch demo_platform (ed_public demo_platform ''k'') s = (Inr 1, s1)
     \<and> expected_minimum_epoch s' = 2"
proof -
  obtain s s' where b: "bump_epoch demo_platform (ed_public demo_platform ''k'') ''k'' s = (Inr 2, s')"
    using demo_bump by blast
  from epoch_bump [OF platform_ok_demo b] b show ?thesis by fastforce
qed

text \<open>
  C31: Concurrent bumps. Of two writers that prepared a bump from the same epoch at most one
  commits: once the first has committed, the other's commit raises on every database that holds
  the envelope the first one wrote, whichever object runs it, and writes no metadata.
\<close>

theorem epoch_stale_writer:
  assumes ok: "platform_ok E" and prep: "bump_prepare E (ed_public E k) k s = (Inr (n, raw), s1)"
    and first: "bump_commit E (ed_public E k) (n, raw) s1 = (Inr m, s2)"
    and db: "db_header t \<noteq> None" "metadata t = metadata s2"
  shows "\<exists>e t'. bump_commit E (ed_public E k) (n, other) t = (Inl e, t') \<and> metadata t' = metadata t"
proof -
  have env: "epoch_envelope E k (n + 1) = Inr raw" and "sound s1"
    using prep by (auto simp: bump_prepare_ok current_epoch_ok)
  then have hdr: "db_header s1 \<noteq> None" by (simp add: sound_def)
  have "metadata s2 ''epoch_envelope'' = Some raw" using first by (simp add: bump_commit_ok [OF hdr])
  with stale_bump [OF ok db(1) _ env] db(2)
  obtain e t' where run: "bump_commit E (ed_public E k) (n, other) t = (Inl e, t')"
    by (metis prod.collapse)
  then have "\<exists>e. with_connect (sbind (select_metadata ''epoch_envelope'') (\<lambda>row. case row of
      None \<Rightarrow> slift (epoch_err ''epoch changed concurrently'')
    | Some old \<Rightarrow> sbind (sget expected_minimum_epoch) (\<lambda>minimum.
        sbind (slift (decode_epoch E (ed_public E k) minimum old)) (\<lambda>epoch.
        if epoch \<noteq> n then slift (epoch_err ''epoch changed concurrently'')
        else update_metadata ''epoch_envelope'' other)))) t = (Inl e, t')"
    by (auto simp: bump_commit_def translate_db_def sbind_err scatch_def state_err_def sraise_def
        smodify_def sret_def split: prod.splits sum.splits if_splits)
  then have "t' = t \<or> t' = next_tx t" using with_connect_err [OF db(1)] by blast
  with run show ?thesis by auto
qed

theorem epoch_stale_writer_witness:
  "\<exists>t e t'. bump_commit demo_platform (ed_public demo_platform ''k'') (1, ''other'') t = (Inl e, t')"
proof -
  obtain s s' where b: "bump_epoch demo_platform (ed_public demo_platform ''k'') ''k'' s = (Inr 2, s')"
    using demo_bump by blast
  then obtain n raw s1 where p: "bump_prepare demo_platform (ed_public demo_platform ''k'') ''k'' s = (Inr (n, raw), s1)"
    and c: "bump_commit demo_platform (ed_public demo_platform ''k'') (n, raw) s1 = (Inr 2, s')"
    by (auto simp: bump_epoch_def sbind_ok)
  have hdr: "db_header s1 \<noteq> None" "db_header s' \<noteq> None"
    using p bump_epoch_ok [OF platform_ok_demo b] by (auto simp: bump_prepare_ok current_epoch_ok sound_def)
  with c have "n = 1" by (simp add: bump_commit_ok)
  with epoch_stale_writer [OF platform_ok_demo p c hdr(2) refl] show ?thesis by blast
qed

end
