(* ===== verification/Ledger.thy ===== *)
theory Ledger
  imports Models Crypto Bounds "HOL-Library.Sublist"
begin

text \<open>
  \<^verbatim>\<open>src/mgk/ledger.py\<close>: the hash-chained audit and failure ledgers. The state is the two
  files as bytes; \<open>lg_faults\<close> lists, one entry per append, where the operating system interrupts
  it. The lock serializes appends, so an append is one operation.
\<close>

section \<open>State\<close>

datatype append_fault = NoFault | OpenFails | LogFails nat | CheckpointFails | CheckpointLate

record ledger =
  log_file :: "bytes option"
  checkpoint_file :: "bytes option"
  lg_faults :: "append_fault list"

definition GENESIS_HASH :: ustr where
  "GENESIS_HASH = replicate 64 48"

definition NL :: char where "NL = CHR 0x0A"

definition audit_err :: "string \<Rightarrow> 'a res" where
  "audit_err t = Inl (Exn AuditIntegrityError t)"

lemma audit_err_neq [simp]: "audit_err t \<noteq> Inr x" "Inr x \<noteq> audit_err t"
  by (simp_all add: audit_err_def)

text \<open>\<^verbatim>\<open>except AuditIntegrityError: raise\<close> then \<^verbatim>\<open>except Exception\<close>\<close>

definition audit_wrap :: "string \<Rightarrow> 'a res \<Rightarrow> 'a res" where
  "audit_wrap t m = rcatch (\<lambda>e. exn_kind_of e \<noteq> AuditIntegrityError) (\<lambda>_. audit_err t) m"

lemma audit_wrap_ok [simp]: "audit_wrap t m = Inr x \<longleftrightarrow> m = Inr x"
  by (cases m) (auto simp: audit_wrap_def audit_err_def)

lemma audit_wrap_errs: "errs_in {AuditIntegrityError} (audit_wrap t m)"
  by (cases m) (auto simp: audit_wrap_def audit_err_def)

section \<open>Checkpoints\<close>

definition checkpoint_document :: "platform \<Rightarrow> bytes \<Rightarrow> int \<Rightarrow> ustr \<Rightarrow> int \<Rightarrow> pyval" where
  "checkpoint_document E public cnt head_hash updated_at = PDict (mk_dict
     [(''count'', PInt cnt), (''head_hash'', PStr head_hash), (''key_id'', PStr (key_id E public)),
      (''schema'', pstr ''mgk-ledger-checkpoint/v1''), (''updated_at'', PInt updated_at)])"

definition checkpoint_envelope :: "platform \<Rightarrow> bytes \<Rightarrow> bytes \<Rightarrow> int \<Rightarrow> ustr \<Rightarrow> int \<Rightarrow> bytes res" where
  "checkpoint_envelope E public private cnt head_hash updated_at =
     (let document = checkpoint_document E public cnt head_hash updated_at in
      rbind (canonicalize E document) (\<lambda>encoded.
      canonicalize E (PDict (mk_dict
        [(''document'', document), (''signature'', PStr (sign E private AUDIT_DOMAIN encoded))]))))"

definition write_checkpoint ::
    "platform \<Rightarrow> bytes \<Rightarrow> bytes option \<Rightarrow> append_fault \<Rightarrow> int \<Rightarrow> ustr \<Rightarrow> int \<Rightarrow> (ledger, unit) op" where
  "write_checkpoint E public private fault cnt head_hash updated_at =
     (case private of
        None \<Rightarrow> slift (audit_err ''ledger is verify-only'')
      | Some key \<Rightarrow>
          sbind (slift (checkpoint_envelope E public key cnt head_hash updated_at)) (\<lambda>env.
          if fault = CheckpointFails then sraise (Exn OSError ''checkpoint'')
          else sbind (smodify (\<lambda>L. L\<lparr>checkpoint_file := Some (env @ [NL])\<rparr>)) (\<lambda>_.
               if fault = CheckpointLate then sraise (Exn OSError ''directory fsync'') else sret ())))"

definition load_checkpoint :: "platform \<Rightarrow> bytes \<Rightarrow> bytes option \<Rightarrow> pydict res" where
  "load_checkpoint E public stored =
     rbind (audit_wrap ''cannot parse ledger checkpoint''
       (case stored of
          None \<Rightarrow> Inl (Exn FileNotFoundError ''checkpoint'')
        | Some raw \<Rightarrow>
            if \<not> endswith raw [NL] then audit_err ''checkpoint newline missing''
            else parse_canonical E (butlast raw))) (\<lambda>v.
     case v of
       PDict env \<Rightarrow>
         if \<not> has_keys env [''document'', ''signature''] then audit_err ''invalid checkpoint envelope''
         else (case dval env ''document'' of
           PDict document \<Rightarrow>
             if \<not> has_keys document [''count'', ''head_hash'', ''key_id'', ''schema'', ''updated_at'']
             then audit_err ''invalid checkpoint schema''
             else if \<not> py_is_str (dval document ''schema'') ''mgk-ledger-checkpoint/v1''
             then audit_err ''unsupported checkpoint schema''
             else if \<not> py_eq_str (dval document ''key_id'') (key_id E public)
             then audit_err ''checkpoint signer mismatch''
             else (case dval document ''count'' of
               PInt cnt \<Rightarrow>
                 if cnt < 0 then audit_err ''invalid checkpoint count''
                 else (case dval document ''updated_at'' of
                   PInt updated \<Rightarrow>
                     if updated < 0 then audit_err ''invalid checkpoint time''
                     else (case dval document ''head_hash'' of
                       PStr head \<Rightarrow>
                         if length head \<noteq> 64 then audit_err ''invalid checkpoint head''
                         else
                           rbind (rcatch any_exn (\<lambda>_. audit_err ''checkpoint signature failed'')
                             (rbind (canonicalize E (PDict document)) (\<lambda>encoded.
                              verify E public AUDIT_DOMAIN encoded (dval env ''signature'')))) (\<lambda>_.
                           Inr document)
                     | _ \<Rightarrow> audit_err ''invalid checkpoint head'')
                 | _ \<Rightarrow> audit_err ''invalid checkpoint time'')
             | _ \<Rightarrow> audit_err ''invalid checkpoint count'')
         | _ \<Rightarrow> audit_err ''invalid checkpoint schema'')
     | _ \<Rightarrow> audit_err ''invalid checkpoint envelope'')"

section \<open>The log\<close>

text \<open>Iterating over a binary file yields its lines with their terminators.\<close>

fun lines_of :: "bytes \<Rightarrow> bytes list" where
  "lines_of [] = []"
| "lines_of (c # s) =
     (if c = NL then [c] # lines_of s
      else case lines_of s of [] \<Rightarrow> [[c]] | l # ls \<Rightarrow> (c # l) # ls)"

definition scan_line :: "platform \<Rightarrow> int \<times> ustr \<Rightarrow> bytes \<Rightarrow> (int \<times> ustr) res" where
  "scan_line E acc line =
     (case acc of (cnt, previous) \<Rightarrow>
       if \<not> endswith line [NL] then audit_err ''unterminated ledger record''
       else
         rbind (parse_canonical E (butlast line)) (\<lambda>v.
         case v of
           PDict record \<Rightarrow>
             if \<not> has_keys record [''data'', ''event_hash'', ''event_type'', ''prev_hash'', ''seq'', ''timestamp'']
             then audit_err ''invalid ledger record schema''
             else
               let event_hash = dval record ''event_hash''; body = dpop record ''event_hash'' in
               rbind (canonicalize E (PDict body)) (\<lambda>encoded.
               let expected = sha256_hex E encoded in
               if \<not> py_eq_str event_hash expected then audit_err ''ledger event hash mismatch''
               else if \<not> py_eq_int (dval body ''seq'') (cnt + 1) \<or> \<not> py_eq_str (dval body ''prev_hash'') previous
               then audit_err ''ledger chain discontinuity''
               else (case dval body ''timestamp'' of
                 PInt t \<Rightarrow>
                   if t < 0 then audit_err ''invalid ledger timestamp''
                   else (case dval body ''event_type'' of
                     PStr s \<Rightarrow>
                       if s = [] then audit_err ''invalid ledger event type'' else Inr (cnt + 1, expected)
                   | _ \<Rightarrow> audit_err ''invalid ledger event type'')
               | _ \<Rightarrow> audit_err ''invalid ledger timestamp''))
         | _ \<Rightarrow> audit_err ''invalid ledger record schema''))"

fun scan_lines :: "platform \<Rightarrow> int \<times> ustr \<Rightarrow> bytes list \<Rightarrow> (int \<times> ustr) res" where
  "scan_lines E acc [] = Inr acc"
| "scan_lines E acc (l # ls) = rbind (scan_line E acc l) (\<lambda>acc. scan_lines E acc ls)"

definition scan :: "platform \<Rightarrow> bytes option \<Rightarrow> (int \<times> ustr) res" where
  "scan E stored = audit_wrap ''cannot scan ledger''
     (case stored of
        None \<Rightarrow> Inl (Exn FileNotFoundError ''ledger'')
      | Some content \<Rightarrow> scan_lines E (0, GENESIS_HASH) (lines_of content))"

definition verify_ledger :: "platform \<Rightarrow> bytes \<Rightarrow> ledger \<Rightarrow> (int \<times> ustr) res" where
  "verify_ledger E public L =
     rbind (load_checkpoint E public (checkpoint_file L)) (\<lambda>checkpoint.
     rbind (scan E (log_file L)) (\<lambda>(cnt, head).
     if dval checkpoint ''count'' \<noteq> PInt cnt \<or> dval checkpoint ''head_hash'' \<noteq> PStr head
     then audit_err ''ledger does not match signed checkpoint'' else Inr (cnt, head)))"

definition verify_integrity :: "platform \<Rightarrow> bytes \<Rightarrow> (ledger, int \<times> ustr) op" where
  "verify_integrity E public = (\<lambda>L. (verify_ledger E public L, L))"

definition record_body :: "pyval \<Rightarrow> ustr \<Rightarrow> ustr \<Rightarrow> int \<Rightarrow> int \<Rightarrow> (string \<times> pyval) list" where
  "record_body data event_type head seq timestamp =
     [(''data'', data), (''event_type'', PStr event_type), (''prev_hash'', PStr head),
      (''seq'', PInt seq), (''timestamp'', PInt timestamp)]"

definition take_fault :: "(ledger, append_fault) op" where
  "take_fault = (\<lambda>L. (Inr (case lg_faults L of [] \<Rightarrow> NoFault | f # fs \<Rightarrow> f), L\<lparr>lg_faults := tl (lg_faults L)\<rparr>))"

text \<open>\<^verbatim>\<open>open("ab+")\<close> creates a missing file; a failing write leaves a prefix behind.\<close>

definition open_log :: "append_fault \<Rightarrow> (ledger, unit) op" where
  "open_log fault =
     (if fault = OpenFails then sraise (Exn OSError ''open'')
      else smodify (\<lambda>L. L\<lparr>log_file := Some (case log_file L of None \<Rightarrow> [] | Some b \<Rightarrow> b)\<rparr>))"

definition write_log :: "append_fault \<Rightarrow> bytes \<Rightarrow> (ledger, unit) op" where
  "write_log fault bs =
     (case fault of
        LogFails n \<Rightarrow> sbind (smodify (\<lambda>L. L\<lparr>log_file := map_option (\<lambda>b. b @ take n bs) (log_file L)\<rparr>)) (\<lambda>_.
                      sraise (Exn OSError ''write''))
      | _ \<Rightarrow> smodify (\<lambda>L. L\<lparr>log_file := map_option (\<lambda>b. b @ bs) (log_file L)\<rparr>))"

definition append_event ::
    "platform \<Rightarrow> bytes \<Rightarrow> bytes option \<Rightarrow> ustr \<Rightarrow> pyval \<Rightarrow> int \<Rightarrow> (ledger, ustr) op" where
  "append_event E public private event_type data timestamp =
     sbind take_fault (\<lambda>fault.
     sbind (open_log fault) (\<lambda>_.
     sbind (verify_integrity E public) (\<lambda>(cnt, head).
     let body = record_body data event_type head (cnt + 1) timestamp in
     sbind (slift (canonicalize E (PDict (mk_dict body)))) (\<lambda>encoded.
     let event_hash = sha256_hex E encoded in
     sbind (slift (canonicalize E (PDict (mk_dict (body @ [(''event_hash'', PStr event_hash)]))))) (\<lambda>line.
     sbind (write_log fault (line @ [NL])) (\<lambda>_.
     sbind (write_checkpoint E public private fault (cnt + 1) event_hash timestamp) (\<lambda>_.
     sret event_hash)))))))"

definition append_ledger ::
    "platform \<Rightarrow> bytes \<Rightarrow> bytes option \<Rightarrow> pyval \<Rightarrow> pyval \<Rightarrow> pyval \<Rightarrow> (ledger, ustr) op" where
  "append_ledger E public private event_type data timestamp =
     (if private = None then slift (audit_err ''ledger is verify-only'')
      else case (event_type, data) of
        (PStr ty, PDict d) \<Rightarrow>
          if ty = [] then slift (audit_err ''invalid ledger append request'')
          else (case timestamp of
            PInt t \<Rightarrow>
              if t < 0 then slift (audit_err ''invalid ledger append timestamp'')
              else append_event E public private ty (PDict d) t
          | _ \<Rightarrow> slift (audit_err ''invalid ledger append timestamp''))
      | _ \<Rightarrow> slift (audit_err ''invalid ledger append request''))"

definition record_failure :: "platform \<Rightarrow> bytes \<Rightarrow> bytes option \<Rightarrow> pyval \<Rightarrow> pyval \<Rightarrow> (ledger, ustr) op" where
  "record_failure E public private data timestamp =
     append_ledger E public private (pstr ''FAILURE'') data timestamp"

definition ledger_init :: "platform \<Rightarrow> bytes \<Rightarrow> bytes option \<Rightarrow> (ledger, int \<times> ustr) op" where
  "ledger_init E public private =
     sbind (sget (\<lambda>L. (log_file L = None, checkpoint_file L = None))) (\<lambda>(no_log, no_checkpoint).
     sbind (if no_log \<and> no_checkpoint then
              (if private = None then slift (audit_err ''cannot initialize a verify-only ledger'')
               else sbind take_fault (\<lambda>fault.
                    sbind (smodify (\<lambda>L. L\<lparr>log_file := Some []\<rparr>)) (\<lambda>_.
                    write_checkpoint E public private fault 0 GENESIS_HASH 0)))
            else if no_log \<or> no_checkpoint then slift (audit_err ''partial audit ledger state'')
            else sret ()) (\<lambda>_.
     verify_integrity E public))"

end
