(* ===== verification/Ledger_Facts.thy ===== *)
theory Ledger_Facts
  imports Ledger State
begin

text \<open>
  What the ledgers guarantee: an append extends the verified history by one record, an interrupted
  append leaves a history that is the old one, the extended one, or refused, and a history is
  determined by its length and head hash unless SHA-256 collides. The locale \<open>append_only\<close> is
  the contract the executor and the runtime rely on.
\<close>

section \<open>Lines\<close>

lemma concat_lines_of [simp]: "concat (lines_of s) = s"
  by (induction s) (auto split: list.split)

lemma lines_of_not_Nil: "l \<in> set (lines_of s) \<Longrightarrow> l \<noteq> []"
  by (induction s arbitrary: l) (auto split: if_splits list.splits)

lemma lines_of_append:
  "s = [] \<or> last s = NL \<Longrightarrow> lines_of (s @ t) = lines_of s @ lines_of t"
proof (induction s)
  case (Cons c s)
  show ?case
  proof (cases "s = []")
    case True
    with Cons.prems show ?thesis by simp
  next
    case False
    with Cons.prems have "lines_of (s @ t) = lines_of s @ lines_of t" by (intro Cons.IH) simp
    moreover have "lines_of s \<noteq> []" using False by (metis concat.simps(1) concat_lines_of)
    ultimately show ?thesis by (cases "lines_of s") auto
  qed
qed simp

lemma lines_of_single: "NL \<notin> set r \<Longrightarrow> lines_of (r @ [NL]) = [r @ [NL]]"
  by (induction r) auto

lemma lines_of_unterminated: "NL \<notin> set r \<Longrightarrow> r \<noteq> [] \<Longrightarrow> lines_of r = [r]"
proof (induction r)
  case (Cons c r)
  then show ?case by (cases "r = []") auto
qed simp

lemma endswith_NL: "endswith l [NL] \<longleftrightarrow> l \<noteq> [] \<and> last l = NL"
  by (auto simp: endswith_iff) (metis append_butlast_last_id)

section \<open>Scanning\<close>

text \<open>What an accepted line holds.\<close>

lemma scan_line_ok:
  assumes "scan_line E (n, previous) line = Inr (m, h)"
  obtains d body_bytes where "line = butlast line @ [NL]"
    and "parse_canonical E (butlast line) = Inr (PDict d)"
    and "canonicalize E (PDict (dpop d ''event_hash'')) = Inr body_bytes" and "h = sha256_hex E body_bytes"
    and "dval d ''event_hash'' = PStr h" and "dget d ''event_hash'' = Some (PStr h)"
    and "dval (dpop d ''event_hash'') ''prev_hash'' = PStr previous" and "m = n + 1"
proof -
  from assms have nl: "endswith line [NL]" by (auto simp: scan_line_def split: if_splits)
  with assms obtain v where v: "parse_canonical E (butlast line) = Inr v"
    by (auto simp: scan_line_def rbind_eq_Inr_iff)
  with assms nl obtain d where d: "v = PDict d" by (cases v) (auto simp: scan_line_def)
  with assms nl v have keys: "has_keys d [''data'', ''event_hash'', ''event_type'', ''prev_hash'', ''seq'', ''timestamp'']"
    by (auto simp: scan_line_def split: if_splits)
  let ?body = "dpop d ''event_hash''"
  have "rbind (canonicalize E (PDict ?body)) (\<lambda>encoded.
      let expected = sha256_hex E encoded in
      if \<not> py_eq_str (dval d ''event_hash'') expected then audit_err ''ledger event hash mismatch''
      else if \<not> py_eq_int (dval ?body ''seq'') (n + 1) \<or> \<not> py_eq_str (dval ?body ''prev_hash'') previous
      then audit_err ''ledger chain discontinuity''
      else (case dval ?body ''timestamp'' of
        PInt t \<Rightarrow>
          if t < 0 then audit_err ''invalid ledger timestamp''
          else (case dval ?body ''event_type'' of
            PStr s \<Rightarrow> if s = [] then audit_err ''invalid ledger event type'' else Inr (n + 1, expected)
          | _ \<Rightarrow> audit_err ''invalid ledger event type'')
      | _ \<Rightarrow> audit_err ''invalid ledger timestamp'')) = Inr (m, h)"
    using assms nl v d keys by (simp add: scan_line_def Let_def)
  then obtain bb where bb: "canonicalize E (PDict ?body) = Inr bb"
    and h: "py_eq_str (dval d ''event_hash'') (sha256_hex E bb)" "h = sha256_hex E bb" "m = n + 1"
      "py_eq_str (dval ?body ''prev_hash'') previous"
    by (auto simp: rbind_eq_Inr_iff Let_def split: if_splits pyval.splits)
  have "dget d ''event_hash'' \<noteq> None" using has_keys_dget [OF keys, of "''event_hash''"] by auto
  with h have "dget d ''event_hash'' = Some (PStr h)" by (auto simp: dval_def py_eq_str_def)
  moreover have "line = butlast line @ [NL]" using nl by (metis endswith_NL append_butlast_last_id)
  ultimately show ?thesis
    by (intro that [of d bb]) (use v d bb h in \<open>simp_all add: py_eq_str_def\<close>)
qed

lemma scan_line_terminated: "scan_line E acc line = Inr r \<Longrightarrow> endswith line [NL]"
  by (auto simp: scan_line_def split: if_splits prod.splits)

lemma scan_line_hex:
  assumes "platform_ok E" "scan_line E (n, p) line = Inr (m, h)"
  shows "hex_match 64 h"
  using assms(2) by (rule scan_line_ok) (simp add: sha256_hex_match [OF assms(1)])

lemma scan_lines_append:
  "scan_lines E acc (xs @ ys) = rbind (scan_lines E acc xs) (\<lambda>acc. scan_lines E acc ys)"
  by (induction xs arbitrary: acc) (simp_all add: rbind_assoc)

lemma scan_lines_count:
  "scan_lines E (n, p) ls = Inr (m, h) \<Longrightarrow> m = n + int (length ls)"
proof (induction ls arbitrary: n p)
  case (Cons l ls)
  then obtain n' p' where "scan_line E (n, p) l = Inr (n', p')" "scan_lines E (n', p') ls = Inr (m, h)"
    by (auto simp: rbind_eq_Inr_iff)
  moreover from this(1) have "n' = n + 1" by (rule scan_line_ok)
  ultimately show ?case using Cons.IH by fastforce
qed simp

lemma scan_lines_hex:
  assumes "platform_ok E"
  shows "scan_lines E (n, p) ls = Inr (m, h) \<Longrightarrow> hex_match 64 p \<Longrightarrow> hex_match 64 h"
proof (induction ls arbitrary: n p)
  case (Cons l ls)
  then obtain n' p' where "scan_line E (n, p) l = Inr (n', p')" "scan_lines E (n', p') ls = Inr (m, h)"
    by (auto simp: rbind_eq_Inr_iff)
  with Cons.IH scan_line_hex [OF assms] show ?case by blast
qed simp

lemma scan_terminated:
  assumes "scan_lines E acc (lines_of s) = Inr r"
  shows "s = [] \<or> last s = NL"
proof (cases "lines_of s" rule: rev_cases)
  case Nil
  then show ?thesis by (metis concat.simps(1) concat_lines_of)
next
  case (snoc ls l)
  with assms have "endswith l [NL]"
    by (auto simp: scan_lines_append rbind_eq_Inr_iff dest: scan_line_terminated)
  moreover have "s = concat ls @ l" using snoc by (metis concat.simps concat_append concat_lines_of append_Nil2)
  ultimately show ?thesis by (auto simp: endswith_NL)
qed

lemma genesis_hex: "hex_match 64 GENESIS_HASH"
  by (simp add: hex_match_def GENESIS_HASH_def is_hex_def list_all_iff)

lemma scan_ok:
  "scan E stored = Inr r \<longleftrightarrow> (\<exists>s. stored = Some s \<and> scan_lines E (0, GENESIS_HASH) (lines_of s) = Inr r)"
  by (cases stored) (simp_all add: scan_def)

section \<open>Canonical records\<close>

lemma hex_match_nfc: "platform_ok E \<Longrightarrow> hex_match n h \<Longrightarrow> nfc E h = h"
  by (rule canon_hex) (simp_all add: hex_match_def)

lemma mset_dpop: "mset (dpop d k) = filter_mset (\<lambda>kv. fst kv \<noteq> kw k) (mset d)"
  by (simp add: dpop_def)

lemma dpop_kw:
  "dpop [] k = []" "dpop ((kw a, v) # d) k = (if a = k then dpop d k else (kw a, v) # dpop d k)"
  by (simp_all add: dpop_def)

text \<open>The record that an append writes is one that the scanner accepts next.\<close>

lemma scan_line_appended:
  assumes ok: "platform_ok E" and head: "hex_match 64 head" and ty: "ty \<noteq> []" and t: "0 \<le> t"
    and body: "canonicalize E (PDict (mk_dict (record_body data ty head (n + 1) t))) = Inr encoded"
    and line: "canonicalize E (PDict (mk_dict (record_body data ty head (n + 1) t
                 @ [(''event_hash'', PStr (sha256_hex E encoded))]))) = Inr line"
  shows "scan_line E (n, head) (line @ [NL]) = Inr (n + 1, sha256_hex E encoded)"
proof -
  let ?h = "sha256_hex E encoded"
  let ?body = "record_body data ty head (n + 1) t"
  let ?rec = "?body @ [(''event_hash'', PStr ?h)]"
  have hex: "nfc E ?h = ?h" "nfc E head = head"
    using hex_match_nfc [OF ok] head sha256_hex_match [OF ok] by blast+
  have keys: "list_all (\<lambda>(k, v). ascii k) ?rec" by (simp add: record_body_def ascii_def)
  have nok: "nok E (PDict (mk_dict ?rec))" using line by (simp add: canonicalize_iff)
  from ok keys nok obtain d where
    canon: "canon E (PDict (mk_dict ?rec)) = PDict d"
    and ms: "mset d = mset (mk_dict (map (\<lambda>(k, v). (k, canon E v)) ?rec))"
    and "distinct (map fst d)" and "distinct (map fst ?rec)"
    and get: "\<forall>k. dget d k = map_option (canon E) (map_of ?rec k)"
    and hk: "\<forall>ks. has_keys d ks \<longleftrightarrow> fst ` set ?rec = set ks" by (rule canon_dict)
  have p: "parse_canonical E line = Inr (PDict d)"
    using canonical.dec_enc [OF ok line] canon by simp
  have hk': "has_keys d [''data'', ''event_hash'', ''event_type'', ''prev_hash'', ''seq'', ''timestamp'']"
    using hk by (auto simp: record_body_def)
  have "mset (dpop d ''event_hash'') = mset (dpop (mk_dict (map (\<lambda>(k, v). (k, canon E v)) ?rec)) ''event_hash'')"
    unfolding mset_dpop ms ..
  also have "dpop (mk_dict (map (\<lambda>(k, v). (k, canon E v)) ?rec)) ''event_hash'' = mk_dict (map (\<lambda>(k, v). (k, canon E v)) ?body)"
    by (simp add: record_body_def dpop_kw)
  also have "mk_dict (map (\<lambda>(k, v). (k, canon E v)) ?body) = map (\<lambda>(k, v). (nfc_key E k, canon E v)) (mk_dict ?body)"
    by (simp add: record_body_def nfc_key_kw [OF ok] ascii_def)
  finally have c: "canonicalize E (PDict (dpop d ''event_hash'')) = Inr encoded"
    by (rule canonicalize_items_canon [OF ok body])
  have f: "dval d ''event_hash'' = PStr ?h"
    "dval (dpop d ''event_hash'') ''seq'' = PInt (n + 1)"
    "dval (dpop d ''event_hash'') ''prev_hash'' = PStr head"
    "dval (dpop d ''event_hash'') ''timestamp'' = PInt t"
    "dval (dpop d ''event_hash'') ''event_type'' = PStr (nfc E ty)"
    by (simp_all add: dval_def get record_body_def hex)
  have "nfc E ty \<noteq> []" using ty platform_okD(7) [OF ok] by simp
  moreover have "endswith (line @ [NL]) [NL]" by (simp add: endswith_NL)
  ultimately show ?thesis
    using p hk' c f t by (simp add: scan_line_def py_eq_str_def)
qed

text \<open>Removing items from a canonical dictionary leaves it canonical.\<close>

lemma canon_filter:
  assumes ok: "platform_ok E" and fix': "canon E (PDict d) = PDict d" and dist: "distinct (map fst d)"
  shows "canon E (PDict (filter P d)) = PDict (filter P d)"
proof -
  have n: "nmap E (PDict d) = PDict d"
    using nmap_sort_keys [OF nmap_idem [OF ok], of "PDict d"] fix' by (simp only: canon_def)
  then have items: "nfc_key E k = k \<and> nmap E v = v" if "(k, v) \<in> set d" for k v
    using map_items_fixD that by (metis nmap.simps(3) pyval.inject(5))
  from fix' n have s: "sort_keys (PDict d) = PDict d" by (simp only: canon_def)
  then have sd: "sort_items (sort_vals d) = d" by simp
  have "sorted (map (\<lambda>kv. key_str (fst kv)) d)" by (metis sd sorted_sort_key)
  then have sorted: "sorted (map (\<lambda>kv. key_str (fst kv)) (filter P d))" by (rule sorted_filter)
  have vals: "sort_keys v = v" if "(k, v) \<in> set d" for k v
  proof -
    have "(k, sort_keys v) \<in> set (sort_vals d)" using that by force
    then have "(k, sort_keys v) \<in> set d" by (metis sd set_sort)
    with that dist show ?thesis by (metis eq_key_imp_eq_value)
  qed
  have "map (\<lambda>(k, v). (nfc_key E k, nmap E v)) (filter P d) = filter P d"
    by (rule map_idI) (use items in auto)
  moreover have "sort_vals (filter P d) = filter P d"
    by (rule map_idI) (use vals in auto)
  ultimately show ?thesis
    unfolding canon_def nmap.simps sort_keys_PDict by (simp add: sort_key_id_if_sorted sorted)
qed

lemma parsed_dict:
  assumes "platform_ok E" "parse_canonical E b = Inr (PDict d)"
  shows "canonicalize E (PDict d) = Inr b" "canon E (PDict d) = PDict d" "distinct (map fst d)"
proof -
  show c: "canonicalize E (PDict d) = Inr b" "canon E (PDict d) = PDict d"
    using canonical.dec_iff [OF assms(1)] assms(2) by auto
  have n: "nmap E (PDict d) = PDict d"
    using nmap_sort_keys [OF nmap_idem [OF assms(1)], of "PDict d"] c(2) by (simp only: canon_def)
  from c(1) have "nok E (PDict d)" by (simp add: canonicalize_iff)
  with nok_iff_wf_keys [OF n] show "distinct (map fst d)" by simp
qed

text \<open>The bytes whose digest the scanner compares with the hash that the record of a line carries.\<close>

definition hashed_bytes :: "platform \<Rightarrow> bytes \<Rightarrow> bytes option" where
  "hashed_bytes E line = (case parse_canonical E (butlast line) of
     Inr (PDict d) \<Rightarrow> (case canonicalize E (PDict (dpop d ''event_hash'')) of Inr x \<Rightarrow> Some x | Inl _ \<Rightarrow> None)
   | _ \<Rightarrow> None)"

definition lines_collide :: "platform \<Rightarrow> bytes \<Rightarrow> bytes \<Rightarrow> bool" where
  "lines_collide E l k \<longleftrightarrow> (\<exists>x y. hashed_bytes E l = Some x \<and> hashed_bytes E k = Some y \<and> collides E x y)"

text \<open>The head hash determines the line and the hash before it, unless the two hashed records collide.\<close>

lemma scan_line_inject:
  assumes ok: "platform_ok E" and nc: "\<not> lines_collide E l k"
    and a: "scan_line E (n, p) l = Inr (m, h)" and b: "scan_line E (n, q) k = Inr (m, h)"
  shows "l = k \<and> p = q"
proof -
  from a obtain d x where d: "l = butlast l @ [NL]" "parse_canonical E (butlast l) = Inr (PDict d)"
    "canonicalize E (PDict (dpop d ''event_hash'')) = Inr x" "h = sha256_hex E x"
    "dget d ''event_hash'' = Some (PStr h)" "dval (dpop d ''event_hash'') ''prev_hash'' = PStr p"
    by (rule scan_line_ok)
  from b obtain e y where e: "k = butlast k @ [NL]" "parse_canonical E (butlast k) = Inr (PDict e)"
    "canonicalize E (PDict (dpop e ''event_hash'')) = Inr y" "h = sha256_hex E y"
    "dget e ''event_hash'' = Some (PStr h)" "dval (dpop e ''event_hash'') ''prev_hash'' = PStr q"
    by (rule scan_line_ok)
  note pd = parsed_dict [OF ok d(2)] and pe = parsed_dict [OF ok e(2)]
  have "hashed_bytes E l = Some x" "hashed_bytes E k = Some y"
    using d(2,3) e(2,3) by (simp_all add: hashed_bytes_def)
  then have "x = y" using nc d(4) e(4) same_digest [of E x y] by (auto simp: lines_collide_def)
  then have "canon E (PDict (dpop d ''event_hash'')) = canon E (PDict (dpop e ''event_hash''))"
    using canonical.enc_inject [OF ok d(3)] e(3) by simp
  then have pop: "dpop d ''event_hash'' = dpop e ''event_hash''"
    using canon_filter [OF ok pd(2,3)] canon_filter [OF ok pe(2,3)] by (simp add: dpop_def)
  have split: "mset c = add_mset (kw ''event_hash'', PStr h) (mset (dpop c ''event_hash''))"
    if "dget c ''event_hash'' = Some (PStr h)" "distinct (map fst c)" for c
    using that
  proof (induction c)
    case (Cons kv c)
    obtain k' v' where kv: "kv = (k', v')" by fastforce
    show ?case
    proof (cases "k' = kw ''event_hash''")
      case True
      with Cons.prems kv have "v' = PStr h" "k' \<notin> fst ` set c" by (auto simp: dget_def)
      moreover have "dpop c ''event_hash'' = c"
        unfolding dpop_def by (rule filter_True) (use True \<open>k' \<notin> fst ` set c\<close> in \<open>auto intro: rev_image_eqI\<close>)
      ultimately show ?thesis using True kv by (simp add: dpop_def)
    next
      case False
      with Cons.prems kv have "dget c ''event_hash'' = Some (PStr h)" "distinct (map fst c)"
        by (auto simp: dget_def)
      then have "mset c = add_mset (kw ''event_hash'', PStr h) (mset (dpop c ''event_hash''))" by (rule Cons.IH)
      with False kv show ?thesis by (simp add: dpop_def)
    qed
  qed (simp add: dget_def)
  have "mset d = mset e" using split [OF d(5) pd(3)] split [OF e(5) pe(3)] pop by simp
  then have "canonicalize E (PDict e) = Inr (butlast l)" using canonicalize_perm pd(1) by blast
  then have "butlast l = butlast k" using pe(1) by simp
  with d(1) e(1) have "l = k" by metis
  moreover have "p = q" using d(6) e(6) pop by simp
  ultimately show ?thesis by simp
qed

lemma scan_lines_inject:
  assumes ok: "platform_ok E"
  shows "scan_lines E (0, g) ls = Inr (n, h) \<Longrightarrow> scan_lines E (0, g) ks = Inr (n, h) \<Longrightarrow>
    length ks = length ls \<and> (ls = ks \<or> (\<exists>i < length ls. lines_collide E (ls ! i) (ks ! i) \<and> drop (Suc i) ls = drop (Suc i) ks))"
proof (induction ls arbitrary: ks n h rule: rev_induct)
  case Nil
  then have "int (length ks) = 0" using scan_lines_count [of E 0 g ks n h] by simp
  then show ?case by simp
next
  case (snoc l ls)
  then have "length ks = Suc (length ls)"
    using scan_lines_count [of E 0 g ks n h] scan_lines_count [of E 0 g "ls @ [l]" n h] by simp
  then obtain ks' k where ks: "ks = ks' @ [k]" "length ks' = length ls" by (cases ks rule: rev_cases) auto
  from snoc.prems(1) obtain a p where a: "scan_lines E (0, g) ls = Inr (a, p)" "scan_line E (a, p) l = Inr (n, h)"
    by (auto simp: scan_lines_append rbind_eq_Inr_iff)
  from snoc.prems(2) ks obtain b q where b: "scan_lines E (0, g) ks' = Inr (b, q)" "scan_line E (b, q) k = Inr (n, h)"
    by (auto simp: scan_lines_append rbind_eq_Inr_iff)
  have "a = b" using scan_lines_count [OF a(1)] scan_lines_count [OF b(1)] ks(2) by simp
  show ?case
  proof (cases "lines_collide E l k")
    case True
    with ks show ?thesis by (auto intro!: exI [of _ "length ls"] simp: nth_append)
  next
    case False
    with a b \<open>a = b\<close> scan_line_inject [OF ok False a(2)] have "l = k" "p = q" by blast+
    with \<open>a = b\<close> a(1) b(1) snoc.IH [of a p ks'] consider "ls = ks'"
      | i where "i < length ls" "lines_collide E (ls ! i) (ks' ! i)" "drop (Suc i) ls = drop (Suc i) ks'"
      by blast
    then show ?thesis
    proof cases
      case 1
      with ks \<open>l = k\<close> show ?thesis by simp
    next
      case 2
      with ks \<open>l = k\<close> show ?thesis by (auto intro!: exI [of _ i] simp: nth_append)
    qed
  qed
qed

section \<open>Checkpoints\<close>

lemma verify_ledger_ok:
  "verify_ledger E p L = Inr (n, h) \<longleftrightarrow>
     (\<exists>doc. load_checkpoint E p (checkpoint_file L) = Inr doc \<and> dval doc ''count'' = PInt n
        \<and> dval doc ''head_hash'' = PStr h) \<and> scan E (log_file L) = Inr (n, h)"
  by (auto simp: verify_ledger_def rbind_eq_Inr_iff split: prod.splits if_splits)

lemma load_checkpoint_errs: "errs_in {AuditIntegrityError} (load_checkpoint E p c)"
proof -
  have "errs_in {AuditIntegrityError} (audit_err t)" for t :: string and x :: 'a
    by (simp add: audit_err_def)
  then show ?thesis
    unfolding load_checkpoint_def
    by (auto intro!: errs_in_rbind audit_wrap_errs errs_in_rcatch split: pyval.split simp: audit_err_def)
qed

lemma verify_ledger_errs: "errs_in {AuditIntegrityError} (verify_ledger E p L)"
  unfolding verify_ledger_def scan_def
  by (intro errs_in_rbind load_checkpoint_errs audit_wrap_errs) (auto simp: audit_err_def split: prod.split)

lemma canon_checkpoint_document:
  assumes "platform_ok E" "hex_match 64 h"
  shows "canon E (checkpoint_document E p n h t) = checkpoint_document E p n h t"
  unfolding checkpoint_document_def
  by (subst canon_sorted_dict [OF assms(1)])
    (simp_all add: ascii_def U_def canon_pstr [OF assms(1)] nfc_key_id [OF assms(1)] hex_match_nfc [OF assms])

text \<open>A written checkpoint loads.\<close>

lemma load_written:
  assumes ok: "platform_ok E" and h: "hex_match 64 h" and n: "0 \<le> n" and t: "0 \<le> t"
    and env: "checkpoint_envelope E (ed_public E k) k n h t = Inr env"
  shows "\<exists>doc. load_checkpoint E (ed_public E k) (Some (env @ [NL])) = Inr doc
    \<and> dval doc ''count'' = PInt n \<and> dval doc ''head_hash'' = PStr h"
proof -
  let ?doc = "checkpoint_document E (ed_public E k) n h t"
  obtain encoded where enc: "canonicalize E ?doc = Inr encoded"
    and raw: "canonicalize E (PDict (mk_dict [(''document'', ?doc), (''signature'', PStr (sign E k AUDIT_DOMAIN encoded))])) = Inr env"
    using env by (auto simp: checkpoint_envelope_def rbind_eq_Inr_iff Let_def)
  let ?env = "PDict (mk_dict [(''document'', ?doc), (''signature'', PStr (sign E k AUDIT_DOMAIN encoded))])"
  have "canon E ?env = ?env"
    by (subst canon_sorted_dict [OF ok])
      (simp_all add: ascii_def U_def sign_def nfc_b64 [OF ok] canon_checkpoint_document [OF ok h])
  then have p: "parse_canonical E env = Inr ?env" using canonical.dec_enc [OF ok raw] by simp
  obtain d where d: "?doc = PDict d" "has_keys d [''count'', ''head_hash'', ''key_id'', ''schema'', ''updated_at'']"
    "dval d ''schema'' = pstr ''mgk-ledger-checkpoint/v1''" "dval d ''key_id'' = PStr (key_id E (ed_public E k))"
    "dval d ''count'' = PInt n" "dval d ''updated_at'' = PInt t" "dval d ''head_hash'' = PStr h"
    by (simp add: checkpoint_document_def has_keys_def)
  have v: "verify E (ed_public E k) AUDIT_DOMAIN encoded (PStr (sign E k AUDIT_DOMAIN encoded)) = Inr ()"
    by (rule ed25519.chk_sgn [OF ok])
  have k: "has_keys (mk_dict [(''document'', x), (''signature'', y)]) [''document'', ''signature'']" for x y
    by (simp add: has_keys_def)
  have l: "length h = 64" using h by (simp add: hex_match_def)
  have "load_checkpoint E (ed_public E k) (Some (env @ [NL])) = Inr d"
    unfolding load_checkpoint_def option.case using p enc k d v n t l
    by (simp del: mk_dict_simps add: py_is_str_def py_eq_str_def endswith_NL audit_wrap_def)
      (simp add: d py_is_str_def py_eq_str_def)
  with d show ?thesis by blast
qed

lemma checkpoint_envelope_total:
  assumes ok: "platform_ok E" and h: "hex_match 64 h" and n: "0 \<le> n" "n \<le> MAX_INTEGER"
    and t: "0 \<le> t" "t \<le> MAX_INTEGER"
  shows "\<exists>env. checkpoint_envelope E p k n h t = Inr env"
proof -
  let ?doc = "checkpoint_document E p n h t"
  have len: "length (sign E k AUDIT_DOMAIN m) \<le> 128" for m using sign_facts [OF ok] by blast
  have hh: "list_all is_scalar h" "str_valid h" "length h = 64"
    using h is_hex_scalars by (simp_all add: hex_match_def)
  note facts = key_id_scalar [OF ok] n t b64_scalar hh
  have nok: "nok E ?doc"
    by (simp add: checkpoint_document_def nfc_key_kw [OF ok] ascii_def pstr_def)
  have "\<exists>encoded. canonicalize E ?doc = Inr encoded"
  proof (rule canonicalize_total_canon)
    show "vok 0 (canon E ?doc)" "int (nodes (canon E ?doc)) \<le> MAX_ITEMS" "scalars (canon E ?doc)"
      "4 * jbound (canon E ?doc) \<le> MAX_CANONICAL_BYTES"
      unfolding canon_checkpoint_document [OF ok h]
      using facts by (simp_all add: checkpoint_document_def demo_doc_simps)
  qed (rule nok)
  then obtain encoded where enc: "canonicalize E ?doc = Inr encoded" by blast
  let ?env = "PDict (mk_dict [(''document'', ?doc), (''signature'', PStr (sign E k AUDIT_DOMAIN encoded))])"
  have c: "canon E ?env = ?env"
    by (subst canon_sorted_dict [OF ok])
      (simp_all add: ascii_def U_def sign_def nfc_b64 [OF ok] canon_checkpoint_document [OF ok h])
  have "\<exists>raw. canonicalize E ?env = Inr raw"
  proof (rule canonicalize_total_canon)
    show "nok E ?env" using nok by (simp add: nfc_key_kw [OF ok] ascii_def)
    show "vok 0 (canon E ?env)" "int (nodes (canon E ?env)) \<le> MAX_ITEMS" "scalars (canon E ?env)"
      unfolding c using facts by (simp_all add: checkpoint_document_def demo_doc_simps sign_def)
    show "4 * jbound (canon E ?env) \<le> MAX_CANONICAL_BYTES"
      unfolding c using facts len [of encoded] by (simp add: checkpoint_document_def demo_doc_simps)
  qed
  with enc show ?thesis by (simp add: checkpoint_envelope_def Let_def)
qed

section \<open>Appending\<close>

definition log_content :: "ledger \<Rightarrow> bytes" where
  "log_content L = (case log_file L of None \<Rightarrow> [] | Some b \<Rightarrow> b)"

definition opened :: "ledger \<Rightarrow> ledger" where
  "opened L = L\<lparr>log_file := Some (log_content L), lg_faults := tl (lg_faults L)\<rparr>"

definition fault_of :: "ledger \<Rightarrow> append_fault" where
  "fault_of L = (case lg_faults L of [] \<Rightarrow> NoFault | f # fs \<Rightarrow> f)"

lemma opened_simps [simp]:
  "log_file (opened L) = Some (log_content L)" "checkpoint_file (opened L) = checkpoint_file L"
  "log_content (opened L) = log_content L"
  by (simp_all add: opened_def log_content_def)

lemma verify_faults [simp]: "verify_ledger E p (L\<lparr>lg_faults := f\<rparr>) = verify_ledger E p L"
  by (simp add: verify_ledger_def)

text \<open>The record an append is about to write, when the ledger verifies.\<close>

definition next_record :: "platform \<Rightarrow> bytes \<Rightarrow> ustr \<Rightarrow> pyval \<Rightarrow> int \<Rightarrow> ledger \<Rightarrow> (int \<times> ustr \<times> ustr \<times> bytes) res" where
  "next_record E p ty data t L =
     rbind (verify_ledger E p (opened L)) (\<lambda>(n, head).
     let body = record_body data ty head (n + 1) t in
     rbind (canonicalize E (PDict (mk_dict body))) (\<lambda>encoded.
     rbind (canonicalize E (PDict (mk_dict (body @ [(''event_hash'', PStr (sha256_hex E encoded))])))) (\<lambda>line.
     Inr (n, head, sha256_hex E encoded, line))))"

text \<open>An append, as one step on the two files.\<close>

lemma append_event_eq:
  "append_event E p (Some k) ty data t L =
     (let f = fault_of L; L1 = opened L in
      if f = OpenFails then (Inl (Exn OSError ''open''), L\<lparr>lg_faults := tl (lg_faults L)\<rparr>)
      else case next_record E p ty data t L of
        Inl e \<Rightarrow> (Inl e, L1)
      | Inr (n, head, h, line) \<Rightarrow>
          (case f of
             LogFails m \<Rightarrow>
               (Inl (Exn OSError ''write''), L1\<lparr>log_file := Some (log_content L @ take m (line @ [NL]))\<rparr>)
           | _ \<Rightarrow>
               let L2 = L1\<lparr>log_file := Some (log_content L @ line @ [NL])\<rparr> in
               case checkpoint_envelope E p k (n + 1) h t of
                 Inl e \<Rightarrow> (Inl e, L2)
               | Inr env \<Rightarrow>
                   if f = CheckpointFails then (Inl (Exn OSError ''checkpoint''), L2)
                   else let L3 = L2\<lparr>checkpoint_file := Some (env @ [NL])\<rparr> in
                     if f = CheckpointLate then (Inl (Exn OSError ''directory fsync''), L3) else (Inr h, L3)))"
proof -
  have o: "L\<lparr>lg_faults := tl (lg_faults L), log_file := Some (case log_file L of None \<Rightarrow> [] | Some b \<Rightarrow> b)\<rparr> = opened L"
    by (simp add: opened_def log_content_def)
  show ?thesis
    by (auto simp: append_event_def sbind_def take_fault_def open_log_def write_log_def write_checkpoint_def
        verify_integrity_def slift_def sraise_def smodify_def sret_def fault_of_def next_record_def o Let_def
        split: append_fault.split list.split sum.split)
qed

definition history :: "platform \<Rightarrow> bytes \<Rightarrow> ledger \<Rightarrow> bytes list option" where
  "history E p L =
     (case verify_ledger E p (opened L) of Inl e \<Rightarrow> None | Inr r \<Rightarrow> Some (lines_of (log_content L)))"

lemma history_eq: "history E p L = (case verify_ledger E p L of Inl e \<Rightarrow> None | Inr r \<Rightarrow> Some (lines_of (log_content L)))"
  if "log_file L \<noteq> None"
proof -
  from that have "verify_ledger E p (opened L) = verify_ledger E p L"
    by (auto simp: verify_ledger_def log_content_def)
  then show ?thesis by (simp add: history_def)
qed

lemma history_cong:
  "checkpoint_file L' = checkpoint_file L \<Longrightarrow> log_content L' = log_content L \<Longrightarrow> history E p L' = history E p L"
  by (simp only: history_def verify_ledger_def opened_simps)

lemma next_record_ok:
  assumes "next_record E p ty data t L = Inr (n, head, h, line)"
  obtains encoded where "verify_ledger E p (opened L) = Inr (n, head)"
    and "canonicalize E (PDict (mk_dict (record_body data ty head (n + 1) t))) = Inr encoded"
    and "h = sha256_hex E encoded"
    and "canonicalize E (PDict (mk_dict (record_body data ty head (n + 1) t @ [(''event_hash'', PStr h)]))) = Inr line"
  using assms by (auto simp: next_record_def rbind_eq_Inr_iff Let_def split: prod.splits)

text \<open>The log after the record is written scans to the new head.\<close>

lemma scan_appended:
  assumes ok: "platform_ok E" and ty: "ty \<noteq> []" and t: "0 \<le> t"
    and r: "next_record E p ty data t L = Inr (n, head, h, line)"
  shows "scan E (Some (log_content L @ line @ [NL])) = Inr (n + 1, h)"
    and "lines_of (log_content L @ line @ [NL]) = lines_of (log_content L) @ [line @ [NL]]"
    and "\<And>m. 0 < m \<Longrightarrow> m \<le> length line \<Longrightarrow> \<exists>e. scan E (Some (log_content L @ take m line)) = Inl e"
    and "hex_match 64 h" and "history E p L = Some (lines_of (log_content L))" and "0 \<le> n"
proof -
  from r obtain encoded where v: "verify_ledger E p (opened L) = Inr (n, head)"
    and body: "canonicalize E (PDict (mk_dict (record_body data ty head (n + 1) t))) = Inr encoded"
    and h: "h = sha256_hex E encoded"
    and line: "canonicalize E (PDict (mk_dict (record_body data ty head (n + 1) t @ [(''event_hash'', PStr h)]))) = Inr line"
    by (rule next_record_ok)
  from v have s: "scan_lines E (0, GENESIS_HASH) (lines_of (log_content L)) = Inr (n, head)"
    by (simp add: verify_ledger_ok scan_ok)
  have nl: "NL \<notin> set line" using canonical_no_newline [OF line] by (simp add: NL_def)
  have tm: "log_content L = [] \<or> last (log_content L) = NL" by (rule scan_terminated [OF s])
  note app = lines_of_append [OF tm]
  show lines: "lines_of (log_content L @ line @ [NL]) = lines_of (log_content L) @ [line @ [NL]]"
    by (simp add: app lines_of_single [OF nl])
  have hex: "hex_match 64 head" using scan_lines_hex [OF ok s genesis_hex] .
  have "scan_line E (n, head) (line @ [NL]) = Inr (n + 1, h)"
    using scan_line_appended [OF ok hex ty t body] line h by simp
  with s lines show "scan E (Some (log_content L @ line @ [NL])) = Inr (n + 1, h)"
    by (simp add: scan_ok scan_lines_append)
  show "hex_match 64 h" using h sha256_hex_match [OF ok] by simp
  show "history E p L = Some (lines_of (log_content L))" using v by (simp add: history_def)
  show "0 \<le> n" using scan_lines_count [OF s] by simp
  fix m assume m: "0 < m" "m \<le> length line"
  let ?x = "take m line"
  have x: "NL \<notin> set ?x" "?x \<noteq> []" using nl m by (auto dest: in_set_takeD)
  then have "\<not> endswith ?x [NL]" using last_in_set [of ?x] unfolding endswith_NL by metis
  then have "scan_line E (n, head) ?x = audit_err ''unterminated ledger record''" by (simp add: scan_line_def)
  moreover have "lines_of (log_content L @ ?x) = lines_of (log_content L) @ [?x]"
    by (simp add: app lines_of_unterminated [OF x])
  ultimately have "scan_lines E (0, GENESIS_HASH) (lines_of (log_content L @ ?x)) = audit_err ''unterminated ledger record''"
    using s by (simp add: scan_lines_append audit_err_def)
  then show "\<exists>e. scan E (Some (log_content L @ ?x)) = Inl e" by (simp add: scan_def audit_wrap_def audit_err_def)
qed

lemma history_None: "verify_ledger E p (opened L) = Inl e \<Longrightarrow> history E p L = None"
  by (simp add: history_def)

text \<open>A longer log under the old checkpoint does not verify.\<close>

lemma stale_checkpoint:
  assumes "verify_ledger E p L = Inr (n, head)" and "checkpoint_file L' = checkpoint_file L"
    and "scan E (log_file L') = Inr (n + 1, h) \<or> (\<exists>e. scan E (log_file L') = Inl e)"
  shows "\<exists>e. verify_ledger E p L' = Inl e"
proof (cases "verify_ledger E p L'")
  case (Inr r)
  then obtain m h' where "verify_ledger E p L' = Inr (m, h')" by (cases r) simp
  with assms show ?thesis by (auto simp: verify_ledger_ok)
qed simp

text \<open>Every outcome of an append, seen through the history.\<close>

lemma append_history:
  assumes ok: "platform_ok E" and ty: "ty \<noteq> []" and t: "0 \<le> t"
    and run: "append_event E (ed_public E k) (Some k) ty data t L = (r, L')"
  shows "(\<exists>h n head line. r = Inr h \<and> next_record E (ed_public E k) ty data t L = Inr (n, head, h, line)
        \<and> verify_ledger E (ed_public E k) L' = Inr (n + 1, h)
        \<and> history E (ed_public E k) L = Some (lines_of (log_content L))
        \<and> history E (ed_public E k) L' = Some (lines_of (log_content L) @ [line @ [NL]]))
    \<or> (\<exists>e. r = Inl e) \<and> (history E (ed_public E k) L' = None
        \<or> history E (ed_public E k) L' = history E (ed_public E k) L
        \<or> (\<exists>n head h line. next_record E (ed_public E k) ty data t L = Inr (n, head, h, line)
            \<and> history E (ed_public E k) L = Some (lines_of (log_content L))
            \<and> history E (ed_public E k) L' = Some (lines_of (log_content L) @ [line @ [NL]])))"
proof -
  let ?p = "ed_public E k" and ?f = "fault_of L"
  consider (opens) "?f = OpenFails" | (err) e where "?f \<noteq> OpenFails" "next_record E ?p ty data t L = Inl e"
    | (go) n head h line where "?f \<noteq> OpenFails" "next_record E ?p ty data t L = Inr (n, head, h, line)"
    by (cases "next_record E ?p ty data t L") auto
  then show ?thesis
  proof cases
    case opens
    with run have "\<exists>e. r = Inl e" "L' = L\<lparr>lg_faults := tl (lg_faults L)\<rparr>"
      by (auto simp: append_event_eq Let_def)
    then show ?thesis using history_cong [of L' L] by (simp add: log_content_def)
  next
    case err
    with run have "\<exists>e. r = Inl e" "L' = opened L" by (auto simp: append_event_eq Let_def)
    then show ?thesis using history_cong [of L' L] by simp
  next
    case go
    note sc = scan_appended [OF ok ty t go(2)]
    have v: "verify_ledger E ?p (opened L) = Inr (n, head)" using go(2) by (rule next_record_ok)
    let ?full = "(opened L)\<lparr>log_file := Some (log_content L @ line @ [NL])\<rparr>"
    have stale: "history E ?p M = None"
      if "checkpoint_file M = checkpoint_file L" "log_file M = Some c"
        "scan E (Some c) = Inr (n + 1, h) \<or> (\<exists>e. scan E (Some c) = Inl e)" for M c
      using stale_checkpoint [OF v, of M h] that by (auto simp: history_eq)
    show ?thesis
    proof (cases "\<exists>m. ?f = LogFails m")
      case True
      then obtain m where m: "?f = LogFails m" by blast
      with run go have r: "\<exists>e. r = Inl e" and L': "L' = (opened L)\<lparr>log_file := Some (log_content L @ take m (line @ [NL]))\<rparr>"
        by (auto simp: append_event_eq Let_def)
      consider "m = 0" | "0 < m" "m \<le> length line" | "length line < m" by linarith
      then have "history E ?p L' = None \<or> history E ?p L' = history E ?p L"
      proof cases
        case 1
        then show ?thesis using history_cong [of L' L] L' by (simp add: log_content_def)
      next
        case 2
        then have "take m (line @ [NL]) = take m line" by simp
        with sc(3) [OF 2] L' stale [of L' "log_content L @ take m line"] show ?thesis by simp
      next
        case 3
        then have "take m (line @ [NL]) = line @ [NL]" by simp
        with sc(1) L' stale [of L' "log_content L @ line @ [NL]"] show ?thesis by simp
      qed
      with r show ?thesis by blast
    next
      case False
      show ?thesis
      proof (cases "checkpoint_envelope E ?p k (n + 1) h t")
        case (Inl e)
        with run go False have "\<exists>e. r = Inl e" "L' = ?full"
          by (auto simp: append_event_eq Let_def split: append_fault.splits)
        with sc(1) stale [of L' "log_content L @ line @ [NL]"] show ?thesis by simp
      next
        case (Inr env)
        show ?thesis
        proof (cases "?f = CheckpointFails")
          case True
          with run go Inr have "\<exists>e. r = Inl e" "L' = ?full" by (auto simp: append_event_eq Let_def)
          with sc(1) stale [of L' "log_content L @ line @ [NL]"] show ?thesis by simp
        next
          case ok': False
          let ?done = "?full\<lparr>checkpoint_file := Some (env @ [NL])\<rparr>"
          have L': "L' = ?done" and r: "r = Inr h \<or> (\<exists>e. r = Inl e)"
            using run go Inr False ok'
            by (auto simp: append_event_eq Let_def split: append_fault.splits if_splits)
          obtain doc where "load_checkpoint E ?p (Some (env @ [NL])) = Inr doc" "dval doc ''count'' = PInt (n + 1)"
            "dval doc ''head_hash'' = PStr h"
            using load_written [OF ok sc(4) _ t Inr] sc(6) by auto
          with sc(1) L' have ver: "verify_ledger E ?p L' = Inr (n + 1, h)" by (simp add: verify_ledger_ok)
          with L' sc(2) have "history E ?p L' = Some (lines_of (log_content L) @ [line @ [NL]])"
            by (simp add: history_eq) (simp add: log_content_def)
          with ver sc(5) go(2) r show ?thesis by blast
        qed
      qed
    qed
  qed
qed

section \<open>Interface: an append-only history\<close>

locale append_only =
  fixes ok :: "'e \<Rightarrow> bool"
    and hist :: "'e \<Rightarrow> 's \<Rightarrow> 'r list option"
    and app :: "'e \<Rightarrow> 'a \<Rightarrow> ('s, 'h) op"
  assumes app_ok: "ok E \<Longrightarrow> app E a s = (Inr h, s') \<Longrightarrow> \<exists>rs r. hist E s = Some rs \<and> hist E s' = Some (rs @ [r])"
    and app_err: "ok E \<Longrightarrow> app E a s = (Inl e, s') \<Longrightarrow> hist E s' = None \<or> hist E s' = hist E s
      \<or> (\<exists>rs r. hist E s = Some rs \<and> hist E s' = Some (rs @ [r]))"
begin

lemma app_extends:
  "ok E \<Longrightarrow> app E a s = (r, s') \<Longrightarrow> hist E s' = Some rs' \<Longrightarrow>
     \<exists>rs. hist E s = Some rs \<and> prefix rs rs' \<and> length rs' \<le> Suc (length rs)"
  using app_ok [of E a s _ s'] app_err [of E a s _ s'] by (cases r) fastforce+

text \<open>However many appends ran, and however they ended, what verifies extends what verified.\<close>

lemma run_extends:
  assumes "ok E" and "(\<lambda>s s'. \<exists>a r. app E a s = (r, s'))\<^sup>*\<^sup>* s s'" and "hist E s' = Some rs'"
  shows "\<exists>rs. hist E s = Some rs \<and> prefix rs rs'"
  using assms(2,3)
proof (induction arbitrary: rs' rule: rtranclp_induct)
  case (step y z)
  then obtain a r where "app E a y = (r, z)" by blast
  from app_extends [OF assms(1) this step.prems] obtain rs where "hist E y = Some rs" "prefix rs rs'" by blast
  with step.IH show ?case by (meson prefix_order.trans)
qed simp

end

lemma append_ledger_cases:
  assumes "append_ledger E p private ty data t L = (r, L')"
  obtains (refused) e where "r = Inl e" "L' = L"
    | (run) k s d i where "private = Some k" "ty = PStr s" "data = PDict d" "t = PInt i" "s \<noteq> []" "0 \<le> i"
        "append_event E p private s data i L = (r, L')"
  using assms
  by (auto simp: append_ledger_def audit_err_def split: if_splits pyval.splits prod.splits)

interpretation audit: append_only "\<lambda>(E, k). platform_ok E" "\<lambda>(E, k). history E (ed_public E k)"
    "\<lambda>(E, k) (ty, data, t). append_ledger E (ed_public E k) (Some k) ty data t"
proof unfold_locales
  fix Ek :: "platform \<times> bytes" and a :: "pyval \<times> pyval \<times> pyval" and s h s'
  assume ok: "case Ek of (E, k) \<Rightarrow> platform_ok E"
    and run: "(case Ek of (E, k) \<Rightarrow> \<lambda>(ty, data, t). append_ledger E (ed_public E k) (Some k) ty data t) a s = (Inr h, s')"
  obtain E k ty data t where [simp]: "Ek = (E, k)" "a = (ty, data, t)" by (metis prod_cases3 surj_pair)
  from run have "append_ledger E (ed_public E k) (Some k) ty data t s = (Inr h, s')" by simp
  then show "\<exists>rs r. (case Ek of (E, k) \<Rightarrow> history E (ed_public E k)) s = Some rs
      \<and> (case Ek of (E, k) \<Rightarrow> history E (ed_public E k)) s' = Some (rs @ [r])"
  proof (cases rule: append_ledger_cases)
    case (run k' s d i)
    with append_history [OF _ run(5,6)] ok show ?thesis by fastforce
  qed simp
next
  fix Ek :: "platform \<times> bytes" and a :: "pyval \<times> pyval \<times> pyval" and s e s'
  assume ok: "case Ek of (E, k) \<Rightarrow> platform_ok E"
    and run: "(case Ek of (E, k) \<Rightarrow> \<lambda>(ty, data, t). append_ledger E (ed_public E k) (Some k) ty data t) a s = (Inl e, s')"
  obtain E k ty data t where [simp]: "Ek = (E, k)" "a = (ty, data, t)" by (metis prod_cases3 surj_pair)
  from run have "append_ledger E (ed_public E k) (Some k) ty data t s = (Inl e, s')" by simp
  then show "(case Ek of (E, k) \<Rightarrow> history E (ed_public E k)) s' = None
      \<or> (case Ek of (E, k) \<Rightarrow> history E (ed_public E k)) s' = (case Ek of (E, k) \<Rightarrow> history E (ed_public E k)) s
      \<or> (\<exists>rs r. (case Ek of (E, k) \<Rightarrow> history E (ed_public E k)) s = Some rs
          \<and> (case Ek of (E, k) \<Rightarrow> history E (ed_public E k)) s' = Some (rs @ [r]))"
  proof (cases rule: append_ledger_cases)
    case (run k' s d i)
    with append_history [OF _ run(5,6)] ok show ?thesis by fastforce
  qed simp
qed

text \<open>On a verified ledger an append of an encodable event that nothing interrupts succeeds.\<close>

lemma append_succeeds:
  assumes ok: "platform_ok E" and faults: "lg_faults L = []" and ty: "ty \<noteq> []" and t: "0 \<le> t" "t \<le> MAX_INTEGER"
    and r: "next_record E (ed_public E k) ty (PDict d) t L = Inr (n, head, h, line)" and n: "n < MAX_INTEGER"
  obtains L' where "append_ledger E (ed_public E k) (Some k) (PStr ty) (PDict d) (PInt t) L = (Inr h, L')"
    and "verify_ledger E (ed_public E k) L' = Inr (n + 1, h)" and "lg_faults L' = []"
    and "log_file L' = Some (log_content L @ line @ [NL])"
proof -
  note sc = scan_appended [OF ok ty t(1) r]
  obtain env where env: "checkpoint_envelope E (ed_public E k) k (n + 1) h t = Inr env"
    using checkpoint_envelope_total [OF ok sc(4), of "n + 1" t] sc(6) n t by auto
  let ?L = "(opened L)\<lparr>log_file := Some (log_content L @ line @ [NL]), checkpoint_file := Some (env @ [NL])\<rparr>"
  have run: "append_event E (ed_public E k) (Some k) ty (PDict d) t L = (Inr h, ?L)"
    using faults r env by (simp add: append_event_eq Let_def fault_of_def)
  then have app: "append_ledger E (ed_public E k) (Some k) (PStr ty) (PDict d) (PInt t) L = (Inr h, ?L)"
    using ty t by (simp add: append_ledger_def)
  have "verify_ledger E (ed_public E k) ?L = Inr (n + 1, h)"
    using append_history [OF ok ty t(1) run] r by auto
  with app faults show ?thesis by (intro that [of ?L]) (simp_all add: opened_def)
qed

lemma next_record_total:
  assumes "verify_ledger E p (opened L) = Inr (n, head)"
    and "canonicalize E (PDict (mk_dict (record_body data ty head (n + 1) t))) = Inr encoded"
    and "canonicalize E (PDict (mk_dict (record_body data ty head (n + 1) t
          @ [(''event_hash'', PStr (sha256_hex E encoded))]))) = Inr line"
  shows "next_record E p ty data t L = Inr (n, head, sha256_hex E encoded, line)"
  using assms by (simp add: next_record_def Let_def)

text \<open>An empty ledger, as the constructor leaves it.\<close>

lemma empty_ledger:
  assumes ok: "platform_ok E"
  obtains env where "verify_ledger E (ed_public E k)
      \<lparr>log_file = Some [], checkpoint_file = Some env, lg_faults = fs\<rparr> = Inr (0, GENESIS_HASH)"
proof -
  obtain env where "checkpoint_envelope E (ed_public E k) k 0 GENESIS_HASH 0 = Inr env"
    using checkpoint_envelope_total [OF ok genesis_hex, of 0 0] by (auto simp: MAX_INTEGER_def)
  from load_written [OF ok genesis_hex _ _ this] that [of "env @ [NL]"] show ?thesis
    by (auto simp: verify_ledger_ok scan_ok)
qed

text \<open>The next record of a small ASCII event.\<close>

lemma plain_event:
  assumes ok: "platform_ok E"
    and d: "plain (PDict d)" "wf_keys (PDict d)" "vok 1 (PDict d)" "nodes (PDict d) \<le> 1000" "scalars (PDict d)" "jbound (PDict d) \<le> 10000"
    and ty: "list_all (\<lambda>c. c < 128) ty" "length ty \<le> 100" and head: "hex_match 64 head"
    and n: "0 \<le> n" "n < MAX_INTEGER" and t: "0 \<le> t" "t \<le> MAX_INTEGER"
    and v: "verify_ledger E p (opened L) = Inr (n, head)"
  shows "\<exists>h line. next_record E p ty (PDict d) t L = Inr (n, head, h, line) \<and> hex_match 64 h"
proof -
  let ?body = "record_body (PDict d) ty head (n + 1) t"
  note facts = d ty small_scalars [OF ty(1)] hex_facts [OF head] n t
  obtain encoded where e: "canonicalize E (PDict (mk_dict ?body)) = Inr encoded"
    using canonicalize_plain [OF ok, of "PDict (mk_dict ?body)"] facts
    by (force simp: record_body_def demo_doc_simps ascii_def)
  let ?h = "sha256_hex E encoded"
  have "\<exists>line. canonicalize E (PDict (mk_dict (?body @ [(''event_hash'', PStr ?h)]))) = Inr line"
    by (rule canonicalize_plain [OF ok])
      (use facts hex_facts [OF sha256_hex_match [OF ok]] in \<open>simp_all add: record_body_def demo_doc_simps ascii_def\<close>)
  with next_record_total [OF v e] sha256_hex_match [OF ok] show ?thesis by blast
qed

section \<open>Properties\<close>

definition sample_event :: pydict where
  "sample_event = mk_dict [(''a'', PInt 1)]"

lemma demo_ledger:
  obtains L h L' where "verify_ledger demo_platform (ed_public demo_platform k) L = Inr (0, GENESIS_HASH)"
    and "log_file L = Some []" and "lg_faults L = []"
    and "append_ledger demo_platform (ed_public demo_platform k) (Some k) (pstr ''E'') (PDict sample_event) (PInt 7) L = (Inr h, L')"
    and "verify_ledger demo_platform (ed_public demo_platform k) L' = Inr (1, h)"
proof -
  obtain env where v: "verify_ledger demo_platform (ed_public demo_platform k)
      \<lparr>log_file = Some [], checkpoint_file = Some env, lg_faults = []\<rparr> = Inr (0, GENESIS_HASH)"
    using empty_ledger [OF platform_ok_demo] by metis
  let ?L = "\<lparr>log_file = Some [], checkpoint_file = Some env, lg_faults = []\<rparr>"
  have o: "opened ?L = ?L" by (simp add: opened_def log_content_def)
  have "\<exists>h line. next_record demo_platform (ed_public demo_platform k) (U ''E'') (PDict sample_event) 7 ?L = Inr (0, GENESIS_HASH, h, line)"
    using plain_event [OF platform_ok_demo, of sample_event "U ''E''" GENESIS_HASH 0 7 "ed_public demo_platform k" ?L] v o genesis_hex
    by (auto simp: sample_event_def demo_doc_simps ascii_def)
  then obtain h line where "next_record demo_platform (ed_public demo_platform k) (U ''E'') (PDict sample_event) 7 ?L = Inr (0, GENESIS_HASH, h, line)"
    by blast
  from append_succeeds [OF platform_ok_demo _ _ _ _ this] obtain L' where
    "append_ledger demo_platform (ed_public demo_platform k) (Some k) (PStr (U ''E'')) (PDict sample_event) (PInt 7) ?L = (Inr h, L')"
    "verify_ledger demo_platform (ed_public demo_platform k) L' = Inr (1, h)"
    by (auto simp: MAX_INTEGER_def)
  with that [of ?L h L'] v show ?thesis by (simp add: pstr_def)
qed

text \<open>
  Appending. A successful append found the ledger verified at \<open>n\<close> records with some head hash,
  and leaves it verified at \<open>n + 1\<close> records with the returned hash as the head; the log grew by
  exactly one line, the canonical encoding of the event with its sequence number, the old head as
  \<open>prev_hash\<close> and its own hash, and no byte before it changed.
\<close>

lemma ledger_append:
  assumes ok: "platform_ok E"
    and run: "append_ledger E (ed_public E k) (Some k) (PStr ty) (PDict d) (PInt t) L = (Inr h, L')"
  shows "\<exists>n head line. verify_ledger E (ed_public E k) (opened L) = Inr (n, head)
    \<and> verify_ledger E (ed_public E k) L' = Inr (n + 1, h)
    \<and> log_file L' = Some (log_content L @ line @ [NL])
    \<and> canonicalize E (PDict (mk_dict (record_body (PDict d) ty head (n + 1) t @ [(''event_hash'', PStr h)]))) = Inr line
    \<and> rmap (sha256_hex E) (canonicalize E (PDict (mk_dict (record_body (PDict d) ty head (n + 1) t)))) = Inr h"
  using run
proof (cases rule: append_ledger_cases)
  case (run k' s d' i)
  then have ev: "append_event E (ed_public E k) (Some k) ty (PDict d) t L = (Inr h, L')" and p: "ty \<noteq> []" "0 \<le> t"
    by simp_all
  from append_history [OF ok p ev] obtain n head line where
    r: "next_record E (ed_public E k) ty (PDict d) t L = Inr (n, head, h, line)"
    and v: "verify_ledger E (ed_public E k) L' = Inr (n + 1, h)"
    and hist: "history E (ed_public E k) L' = Some (lines_of (log_content L) @ [line @ [NL]])"
    by auto
  from v obtain c where c: "log_file L' = Some c" by (auto simp: verify_ledger_ok scan_ok)
  then have "lines_of c = lines_of (log_content L @ line @ [NL])"
    using hist scan_appended(2) [OF ok p r] v by (simp add: history_eq log_content_def)
  then have "c = log_content L @ line @ [NL]" by (metis concat_lines_of)
  moreover from r obtain encoded where "verify_ledger E (ed_public E k) (opened L) = Inr (n, head)"
    "canonicalize E (PDict (mk_dict (record_body (PDict d) ty head (n + 1) t))) = Inr encoded" "h = sha256_hex E encoded"
    "canonicalize E (PDict (mk_dict (record_body (PDict d) ty head (n + 1) t @ [(''event_hash'', PStr h)]))) = Inr line"
    by (rule next_record_ok)
  ultimately show ?thesis using v c by (intro exI [of _ n] exI [of _ head] exI [of _ line]) simp
qed simp

text \<open>
  C17: Append-only under interruption. Let any number of appends run, each interrupted anywhere (the
  open, a partial write of the record, the checkpoint before or after its rename): if the ledger
  verifies afterwards, it verified before and the old history is a prefix of the new one. A single
  append that raises leaves a ledger that is refused, or has the old history, or has the old
  history and exactly the one new record.
\<close>

theorem ledger_append_only:
  assumes ok: "platform_ok E"
    and runs: "(\<lambda>L L'. \<exists>ty d t r. append_ledger E (ed_public E k) (Some k) ty d t L = (r, L'))\<^sup>*\<^sup>* L L'"
  shows "(history E (ed_public E k) L' = Some rs' \<longrightarrow>
      (\<exists>rs. history E (ed_public E k) L = Some rs \<and> prefix rs rs'))
    \<and> (append_ledger E (ed_public E k) (Some k) ty d t L' = (Inl e, L2) \<longrightarrow>
        history E (ed_public E k) L2 = None
      \<or> history E (ed_public E k) L2 = history E (ed_public E k) L'
      \<or> (\<exists>rs r. history E (ed_public E k) L' = Some rs \<and> history E (ed_public E k) L2 = Some (rs @ [r])))"
proof -
  have "(\<lambda>s s'. \<exists>a r. (case a of (ty, data, t) \<Rightarrow> append_ledger E (ed_public E k) (Some k) ty data t) s = (r, s'))\<^sup>*\<^sup>* L L'"
    using runs by (rule rtranclp_mono [THEN predicate2D, rotated]) auto
  then show ?thesis
    using audit.run_extends [of "(E, k)" L L' rs'] audit.app_err [of "(E, k)" "(ty, d, t)" L' e L2] ok by simp
qed

theorem ledger_append_only_witness:
  "\<exists>L rs'. history demo_platform (ed_public demo_platform ''k'') L = Some rs' \<and> prefix [] rs' \<and> rs' \<noteq> []"
proof -
  obtain L h L' where v: "log_file L = Some []"
    and a: "append_ledger demo_platform (ed_public demo_platform ''k'') (Some ''k'') (pstr ''E'') (PDict sample_event) (PInt 7) L = (Inr h, L')"
    and v': "verify_ledger demo_platform (ed_public demo_platform ''k'') L' = Inr (1, h)"
    by (rule demo_ledger)
  then obtain c where c: "log_file L' = Some c" "scan_lines demo_platform (0, GENESIS_HASH) (lines_of c) = Inr (1, h)"
    by (auto simp: verify_ledger_ok scan_ok)
  with v' have hist: "history demo_platform (ed_public demo_platform ''k'') L' = Some (lines_of c)"
    by (simp add: history_eq log_content_def)
  have "lines_of c \<noteq> []" using scan_lines_count [OF c(2)] by auto
  moreover have "\<exists>rs. history demo_platform (ed_public demo_platform ''k'') L = Some rs \<and> prefix rs (lines_of c)"
    using ledger_append_only [OF platform_ok_demo, of "''k''" L L'] a hist by blast
  ultimately show ?thesis using hist by auto
qed

text \<open>
  C18: Tamper evidence. Two ledgers that verify with the same number of records and the same head
  hash have logs of equally many lines and the same bytes in them, unless the records on some line of
  the one log and on the same line of the other are a collision: the bytes that the verifier hashes
  for these two lines differ and have one SHA-256 digest, and all lines after it are the same. In
  particular no change to the log of a verified ledger passes under the same checkpoint, unless the
  changed log itself holds such a record.
\<close>

theorem ledger_tamper_evident:
  assumes "platform_ok E" and "verify_ledger E p L = Inr (n, h)"
    and "verify_ledger E p' L' = Inr (n, h) \<or> checkpoint_file L' = checkpoint_file L \<and> verify_ledger E p L' = Inr r"
  shows "\<exists>a b. log_file L = Some a \<and> log_file L' = Some b \<and> length (lines_of b) = length (lines_of a)
    \<and> (b = a \<or> (\<exists>i < length (lines_of a). lines_collide E (lines_of a ! i) (lines_of b ! i)
          \<and> drop (Suc i) (lines_of a) = drop (Suc i) (lines_of b)))"
proof -
  obtain a where a: "log_file L = Some a" "scan_lines E (0, GENESIS_HASH) (lines_of a) = Inr (n, h)"
    using assms(2) by (auto simp: verify_ledger_ok scan_ok)
  have "verify_ledger E p L' = Inr (n, h)"
    if c: "checkpoint_file L' = checkpoint_file L" "verify_ledger E p L' = Inr r"
  proof -
    obtain m g where "r = (m, g)" by fastforce
    with c assms(2) show ?thesis by (auto simp: verify_ledger_ok)
  qed
  with assms(3) obtain q where "verify_ledger E q L' = Inr (n, h)" by blast
  then obtain b where b: "log_file L' = Some b" "scan_lines E (0, GENESIS_HASH) (lines_of b) = Inr (n, h)"
    by (auto simp: verify_ledger_ok scan_ok)
  have "b = a" if "lines_of a = lines_of b" using that by (metis concat_lines_of)
  with scan_lines_inject [OF assms(1) a(2) b(2)] a(1) b(1) show ?thesis by auto
qed

theorem ledger_tamper_evident_witness:
  "\<exists>L h a. verify_ledger demo_platform (ed_public demo_platform ''k'') L = Inr (1, h) \<and> log_file L = Some a
     \<and> lines_of a \<noteq> []"
proof -
  obtain L h where v: "verify_ledger demo_platform (ed_public demo_platform ''k'') L = Inr (1, h)"
    by (rule demo_ledger)
  obtain a where a: "log_file L = Some a" using ledger_tamper_evident [OF platform_ok_demo v] v by blast
  with v scan_lines_count [of demo_platform 0 GENESIS_HASH "lines_of a" 1 h] have "lines_of a \<noteq> []"
    by (auto simp: verify_ledger_ok scan_ok)
  with v a show ?thesis by blast
qed

end
