(* ===== verification/Resource.thy ===== *)
theory Resource
  imports Platform Pyval
begin

text \<open>
  \<^verbatim>\<open>src/mgk/resource.py\<close>: resource bindings and the descriptor-based operations that use
  them. The tree below the guard's root is a value; every system call that may fail takes one
  entry of \<open>io\<close>, which says whether it fails or, for a write, how much of it is done. A
  descriptor is the path it was opened by: within one operation nothing else runs, between
  operations the tree may change in any way.
\<close>

section \<open>The file system\<close>

datatype fsnode = File bytes | Dir "ustr \<Rightarrow> fsnode option" | Link ustr | Special

datatype io_event = IoOk | IoFail | IoShort nat

record fsys =
  fs_root :: fsnode
  io :: "io_event list"

type_synonym fpath = "ustr list"
type_synonym 'a fs = "(fsys, 'a) op"

fun at :: "fsnode \<Rightarrow> fpath \<Rightarrow> fsnode option" where
  "at n [] = Some n"
| "at (Dir m) (p # ps) = (case m p of None \<Rightarrow> None | Some n \<Rightarrow> at n ps)"
| "at n (p # ps) = None"

text \<open>Replacing the entry at a path of which the parent exists.\<close>

fun put :: "fpath \<Rightarrow> fsnode option \<Rightarrow> fsnode \<Rightarrow> fsnode" where
  "put [] v n = n"
| "put [p] v (Dir m) = Dir (m(p := v))"
| "put (p # q # ps) v (Dir m) =
     (case m p of None \<Rightarrow> Dir m | Some n \<Rightarrow> Dir (m(p \<mapsto> put (q # ps) v n)))"
| "put (p # ps) v n = n"

definition set_node :: "fpath \<Rightarrow> fsnode option \<Rightarrow> fsys \<Rightarrow> fsys" where
  "set_node path v s = s\<lparr>fs_root := put path v (fs_root s)\<rparr>"

definition node_at :: "fsys \<Rightarrow> fpath \<Rightarrow> fsnode option" where
  "node_at s path = at (fs_root s) path"

section \<open>System calls\<close>

definition res_err :: "string \<Rightarrow> 'a res" where
  "res_err t = Inl (Exn ResourceError t)"

definition next_io :: "io_event fs" where
  "next_io = (\<lambda>s. (Inr (case io s of [] \<Rightarrow> IoOk | e # es \<Rightarrow> e), s\<lparr>io := tl (io s)\<rparr>))"

definition sys_check :: "unit fs" where
  "sys_check = sbind next_io (\<lambda>e. if e = IoFail then sraise (Exn OSError ''input/output error'') else sret ())"

definition sys_open_dir :: "fpath \<Rightarrow> unit fs" where
  "sys_open_dir path = sbind sys_check (\<lambda>_. sbind (sget (\<lambda>s. node_at s path)) (\<lambda>n.
     case n of
       None \<Rightarrow> sraise (Exn FileNotFoundError ''no such directory'')
     | Some (Dir m) \<Rightarrow> sret ()
     | Some _ \<Rightarrow> sraise (Exn OSError ''not a directory or a symbolic link'')))"

definition sys_open_read :: "fpath \<Rightarrow> unit fs" where
  "sys_open_read path = sbind sys_check (\<lambda>_. sbind (sget (\<lambda>s. node_at s path)) (\<lambda>n.
     case n of
       None \<Rightarrow> sraise (Exn FileNotFoundError ''no such file'')
     | Some (Link t) \<Rightarrow> sraise (Exn OSError ''symbolic link'')
     | Some _ \<Rightarrow> sret ()))"

definition sys_open_rdwr :: "fpath \<Rightarrow> unit fs" where
  "sys_open_rdwr path = sbind sys_check (\<lambda>_. sbind (sget (\<lambda>s. node_at s path)) (\<lambda>n.
     case n of
       None \<Rightarrow> sraise (Exn FileNotFoundError ''no such file'')
     | Some (Link t) \<Rightarrow> sraise (Exn OSError ''symbolic link'')
     | Some (Dir m) \<Rightarrow> sraise (Exn OSError ''is a directory'')
     | Some _ \<Rightarrow> sret ()))"

definition sys_open_excl :: "fpath \<Rightarrow> unit fs" where
  "sys_open_excl path = sbind sys_check (\<lambda>_. sbind (sget (\<lambda>s. node_at s path)) (\<lambda>n.
     if n \<noteq> None then sraise (Exn FileExistsError ''file exists'')
     else smodify (set_node path (Some (File [])))))"

definition sys_unlink :: "fpath \<Rightarrow> unit fs" where
  "sys_unlink path = sbind sys_check (\<lambda>_. sbind (sget (\<lambda>s. node_at s path)) (\<lambda>n.
     case n of
       None \<Rightarrow> sraise (Exn FileNotFoundError ''no such file'')
     | Some (Dir m) \<Rightarrow> sraise (Exn OSError ''is a directory'')
     | Some _ \<Rightarrow> smodify (set_node path None)))"

definition file_bytes :: "fsys \<Rightarrow> fpath \<Rightarrow> bytes option" where
  "file_bytes s path = (case node_at s path of Some (File b) \<Rightarrow> Some b | _ \<Rightarrow> None)"

definition add_bytes :: "fpath \<Rightarrow> bytes \<Rightarrow> fsys \<Rightarrow> fsys" where
  "add_bytes path bs s = (case file_bytes s path of None \<Rightarrow> s | Some b \<Rightarrow> set_node path (Some (File (b @ bs))) s)"

text \<open>
  \<^verbatim>\<open>while view: written = os.write(\<dots>)\<close>: every write of the code goes to the end of
  the file it just created, truncated or sought to the end of.
\<close>

function write_loop :: "string \<Rightarrow> fpath \<Rightarrow> bytes \<Rightarrow> unit fs" where
  "write_loop msg path view s =
     (if view = [] then (Inr (), s)
      else let s1 = s\<lparr>io := tl (io s)\<rparr> in
        case (case io s of [] \<Rightarrow> IoOk | e # es \<Rightarrow> e) of
          IoFail \<Rightarrow> (Inl (Exn OSError ''write''), s1)
        | IoOk \<Rightarrow> write_loop msg path [] (add_bytes path view s1)
        | IoShort n \<Rightarrow>
            let written = min n (length view) in
            if written = 0 then (res_err msg, s1)
            else write_loop msg path (drop written view) (add_bytes path (take written view) s1))"
  by pat_completeness auto
termination by (relation "measure (\<lambda>(_, _, view, _). length view)") (auto simp: Let_def split: if_splits)

declare write_loop.simps [simp del]

section \<open>Paths\<close>

definition MAX_RESOURCE_BYTES :: nat where "MAX_RESOURCE_BYTES = 8 * 1024 * 1024"

definition CHUNK :: nat where "CHUNK = 1024 * 1024"

definition guard_init :: "fsnode \<Rightarrow> unit res" where
  "guard_init root = (case root of Dir m \<Rightarrow> Inr () | _ \<Rightarrow> res_err ''resource root must be a real directory'')"

text \<open>\<^verbatim>\<open>PurePosixPath(relative).parts\<close>\<close>

definition posix_parts :: "ustr \<Rightarrow> ustr list" where
  "posix_parts s =
     (if startswith s (U ''/'') then [U ''/''] else [])
     @ filter (\<lambda>p. p \<noteq> [] \<and> p \<noteq> U ''.'') (split_on 47 s)"

definition dotty :: "ustr \<Rightarrow> bool" where
  "dotty p \<longleftrightarrow> p = [] \<or> p = U ''.'' \<or> p = U ''..''"

definition parts :: "pyval \<Rightarrow> fpath res" where
  "parts relative =
     (case relative of
        PStr s \<Rightarrow>
          if s = [] then res_err ''invalid resource path''
          else
            rbind (utf8_encode s) (\<lambda>encoded.
            if 4096 < length encoded then res_err ''invalid resource path''
            else if 92 \<in> set s \<or> 0 \<in> set s then res_err ''non-portable resource path''
            else if list_ex dotty (split_on 47 s) then res_err ''path traversal is forbidden''
            else if startswith s (U ''/'') \<or> list_ex dotty (posix_parts s) then res_err ''path traversal is forbidden''
            else if 32 < length (posix_parts s) then res_err ''resource path is too deep''
            else Inr (posix_parts s))
      | _ \<Rightarrow> res_err ''invalid resource path'')"

fun walk :: "fpath \<Rightarrow> fpath \<Rightarrow> fpath fs" where
  "walk current [] = sret current"
| "walk current (p # ps) = sbind (sys_open_dir (current @ [p])) (\<lambda>_. walk (current @ [p]) ps)"

definition open_parent :: "pyval \<Rightarrow> (fpath \<times> ustr) fs" where
  "open_parent relative =
     sbind (slift (parts relative)) (\<lambda>ps.
     sbind (sys_open_dir []) (\<lambda>_.
     sbind (walk [] (butlast ps)) (\<lambda>parent. sret (parent, last ps))))"

definition open_file :: "pyval \<Rightarrow> fpath fs" where
  "open_file relative =
     sbind (open_parent relative) (\<lambda>(parent, name).
     let path = parent @ [name] in
     sbind (scatch is_os_error (\<lambda>_. slift (res_err ''cannot open bound resource'')) (sys_open_read path)) (\<lambda>_.
     sbind (sget (\<lambda>s. file_bytes s path)) (\<lambda>content.
     case content of
       None \<Rightarrow> slift (res_err ''bound resource is not a regular file'')
     | Some b \<Rightarrow>
         if MAX_RESOURCE_BYTES < length b then slift (res_err ''bound resource exceeds size limit'')
         else sret path)))"

section \<open>Reading\<close>

function read_chunks :: "nat \<Rightarrow> bytes \<Rightarrow> bytes res" where
  "read_chunks sofar rest =
     (if rest = [] then Inr []
      else
        let chunk = take CHUNK rest; sofar = sofar + length chunk in
        if MAX_RESOURCE_BYTES < sofar then res_err ''bound resource exceeds size limit''
        else rmap (append chunk) (read_chunks sofar (drop CHUNK rest)))"
  by pat_completeness auto
termination by (relation "measure (\<lambda>(_, rest). length rest)") (auto simp: CHUNK_def)

declare read_chunks.simps [simp del]

definition read_descriptor :: "fpath \<Rightarrow> bytes fs" where
  "read_descriptor path =
     sbind sys_check (\<lambda>_. sbind (sget (\<lambda>s. file_bytes s path)) (\<lambda>content.
     slift (read_chunks 0 (case content of None \<Rightarrow> [] | Some b \<Rightarrow> b))))"

definition bind_present :: "platform \<Rightarrow> pyval \<Rightarrow> pydict fs" where
  "bind_present E relative =
     sbind (open_file relative) (\<lambda>descriptor.
     sbind (read_descriptor descriptor) (\<lambda>data.
     sret (mk_dict [(''path'', relative), (''sha256'', PStr (sha256_hex E data)),
                    (''size'', PInt (int (length data))), (''state'', pstr ''present'')])))"

definition bind_absent :: "pyval \<Rightarrow> pyval \<Rightarrow> pyval \<Rightarrow> pydict fs" where
  "bind_absent relative post_sha256 post_size =
     (case post_sha256 of
        PStr h \<Rightarrow>
          (case post_size of
             PInt n \<Rightarrow>
               if \<not> hex_match 64 h then slift (res_err ''invalid post-state binding'')
               else if \<not> (0 \<le> n \<and> n \<le> int MAX_RESOURCE_BYTES) then slift (res_err ''invalid post-state size'')
               else
                 sbind (open_parent relative) (\<lambda>(parent, name).
                 sbind sys_check (\<lambda>_.
                 sbind (sget (\<lambda>s. node_at s (parent @ [name]))) (\<lambda>n.
                 if n \<noteq> None then slift (res_err ''create target already exists'')
                 else sret (mk_dict [(''path'', relative), (''post_sha256'', post_sha256),
                                     (''post_size'', post_size), (''state'', pstr ''absent'')]))))
           | _ \<Rightarrow> slift (res_err ''invalid post-state binding''))
      | _ \<Rightarrow> sraise (Exn TypeError ''expected string''))"

definition read_bound :: "platform \<Rightarrow> pydict \<Rightarrow> bytes fs" where
  "read_bound E binding =
     (if \<not> has_keys binding [''path'', ''sha256'', ''size'', ''state''] \<or> \<not> py_is_str (dval binding ''state'') ''present''
      then slift (res_err ''invalid present-resource binding'')
      else
        sbind (open_file (dval binding ''path'')) (\<lambda>descriptor.
        sbind (read_descriptor descriptor) (\<lambda>data.
        if \<not> py_eq_int (dval binding ''size'') (int (length data))
           \<or> \<not> py_eq_str (dval binding ''sha256'') (sha256_hex E data)
        then slift (res_err ''resource changed after authorization'')
        else sret data)))"

section \<open>Creating\<close>

text \<open>\<^verbatim>\<open>except BaseException: \<dots>; raise\<close>\<close>

definition on_error :: "unit fs \<Rightarrow> 'a fs \<Rightarrow> 'a fs" where
  "on_error cleanup m = scatch any_exn (\<lambda>e. sbind cleanup (\<lambda>_. sraise e)) m"

definition unlink_quiet :: "fpath \<Rightarrow> unit fs" where
  "unlink_quiet path = scatch is_os_error (\<lambda>_. sret ()) (sbind (sys_unlink path) (\<lambda>_. sys_check))"

text \<open>Write everything, sync, check the size, sync the directory.\<close>

definition write_out :: "string \<Rightarrow> string \<Rightarrow> fpath \<Rightarrow> bytes \<Rightarrow> (int \<Rightarrow> bool) \<Rightarrow> unit fs" where
  "write_out short failed path data size_ok =
     sbind (write_loop short path data) (\<lambda>_.
     sbind sys_check (\<lambda>_.
     sbind (sget (\<lambda>s. file_bytes s path)) (\<lambda>content.
     case content of
       None \<Rightarrow> slift (res_err failed)
     | Some b \<Rightarrow> if \<not> size_ok (int (length b)) then slift (res_err failed) else sys_check)))"

text \<open>
  \<^verbatim>\<open>os.open(name, O_WRONLY | O_CREAT | O_EXCL | O_NOFOLLOW)\<close>, then the writing, with the
  handlers \<^verbatim>\<open>except FileExistsError\<close> and \<^verbatim>\<open>except BaseException\<close> of both callers.
\<close>

definition create_out :: "string \<Rightarrow> string \<Rightarrow> string \<Rightarrow> fpath \<Rightarrow> bytes \<Rightarrow> 'a \<Rightarrow> 'a fs" where
  "create_out taken short failed path data v =
     sbind (scatch (\<lambda>e. exn_kind_of e = FileExistsError) (\<lambda>_. slift (res_err taken)) (sys_open_excl path)) (\<lambda>_.
     on_error (unlink_quiet path)
       (sbind (write_out short failed path data (\<lambda>n. n = int (length data))) (\<lambda>_. sret v)))"

definition create_bound :: "platform \<Rightarrow> pydict \<Rightarrow> bytes \<Rightarrow> pyval fs" where
  "create_bound E binding data =
     (if \<not> has_keys binding [''path'', ''post_sha256'', ''post_size'', ''state'']
      then slift (res_err ''invalid absent-resource binding'')
      else if \<not> py_is_str (dval binding ''state'') ''absent'' then slift (res_err ''invalid create request'')
      else
        let digest = sha256_hex E data in
        if \<not> py_eq_int (dval binding ''post_size'') (int (length data)) \<or> \<not> py_eq_str (dval binding ''post_sha256'') digest
        then slift (res_err ''create payload does not match capability binding'')
        else if MAX_RESOURCE_BYTES < length data then slift (res_err ''create payload exceeds size limit'')
        else
          sbind (open_parent (dval binding ''path'')) (\<lambda>(parent, name).
          create_out ''create target appeared after authorization'' ''short write while creating resource''
            ''created resource verification failed'' (parent @ [name]) data (PStr digest)))"

section \<open>Writing\<close>

definition bind_write :: "platform \<Rightarrow> pyval \<Rightarrow> bytes \<Rightarrow> pydict fs" where
  "bind_write E relative data =
     (if MAX_RESOURCE_BYTES < length data then slift (res_err ''invalid write payload size'')
      else
        sbind (open_parent relative) (\<lambda>(parent, name).
        let path = parent @ [name] in
        sbind (scatch (\<lambda>e. exn_kind_of e = FileNotFoundError) (\<lambda>_. sret None)
          (sbind (sys_open_read path) (\<lambda>_.
           sbind (sget (\<lambda>s. file_bytes s path)) (\<lambda>content.
           case content of
             None \<Rightarrow> slift (res_err ''write target is not a regular file'')
           | Some b \<Rightarrow> sbind (read_descriptor path) (\<lambda>pre. sret (Some pre)))))) (\<lambda>pre.
        sret (mk_dict
          [(''path'', relative), (''post_sha256'', PStr (sha256_hex E data)), (''post_size'', PInt (int (length data))),
           (''pre_sha256'', PStr (case pre of None \<Rightarrow> [] | Some b \<Rightarrow> sha256_hex E b)),
           (''pre_size'', PInt (case pre of None \<Rightarrow> 0 | Some b \<Rightarrow> int (length b))),
           (''pre_state'', pstr (case pre of None \<Rightarrow> ''absent'' | Some b \<Rightarrow> ''present'')),
           (''state'', pstr ''write'')]))))"

definition write_keys :: "string list" where
  "write_keys = [''path'', ''post_sha256'', ''post_size'', ''pre_sha256'', ''pre_size'', ''pre_state'', ''state'']"

text \<open>The branch for a file that is there: check what it holds, then truncate it.\<close>

definition open_bound :: "platform \<Rightarrow> string \<Rightarrow> string \<Rightarrow> pydict \<Rightarrow> fpath \<Rightarrow> unit fs" where
  "open_bound E irregular changed binding path =
     sbind (sys_open_rdwr path) (\<lambda>_.
     sbind (sget (\<lambda>s. file_bytes s path)) (\<lambda>content.
     case content of
       None \<Rightarrow> slift (res_err irregular)
     | Some b \<Rightarrow>
         sbind (read_descriptor path) (\<lambda>current.
         if \<not> py_eq_int (dval binding ''pre_size'') (int (length current))
            \<or> \<not> py_eq_str (dval binding ''pre_sha256'') (sha256_hex E current)
         then slift (res_err changed) else sret ())))"

definition write_bound :: "platform \<Rightarrow> pydict \<Rightarrow> bytes \<Rightarrow> pyval fs" where
  "write_bound E binding data =
     (if \<not> has_keys binding write_keys \<or> \<not> py_is_str (dval binding ''state'') ''write''
      then slift (res_err ''invalid write-resource binding'')
      else if \<not> hashable (dval binding ''pre_state'') then sraise (Exn TypeError ''unhashable type'')
      else if \<not> py_is_str (dval binding ''pre_state'') ''present'' \<and> \<not> py_is_str (dval binding ''pre_state'') ''absent''
      then slift (res_err ''invalid write pre-state'')
      else if MAX_RESOURCE_BYTES < length data then slift (res_err ''write payload exceeds size limit'')
      else
        let post = sha256_hex E data in
        if \<not> py_eq_int (dval binding ''post_size'') (int (length data)) \<or> \<not> py_eq_str (dval binding ''post_sha256'') post
        then slift (res_err ''write payload does not match capability binding'')
        else
          sbind (open_parent (dval binding ''path'')) (\<lambda>(parent, name).
          let path = parent @ [name] in
          if py_is_str (dval binding ''pre_state'') ''absent'' then
            sbind sys_check (\<lambda>_.
            sbind (sget (\<lambda>s. node_at s path)) (\<lambda>n.
            if n \<noteq> None then slift (res_err ''write target appeared after authorization'')
            else create_out ''write target appeared after authorization'' ''short write while writing resource''
                   ''written resource verification failed'' path data (PStr post)))
          else
            sbind (open_bound E ''write target is not a regular file'' ''write target changed after authorization''
                     binding path) (\<lambda>_.
            sbind sys_check (\<lambda>_.
            sbind (smodify (set_node path (Some (File [])))) (\<lambda>_.
            sbind (write_out ''short write while writing resource'' ''written resource verification failed''
                     path data (\<lambda>n. n = int (length data))) (\<lambda>_. sret (PStr post)))))))"

section \<open>Appending\<close>

definition bind_append :: "platform \<Rightarrow> pyval \<Rightarrow> bytes \<Rightarrow> pydict fs" where
  "bind_append E relative data =
     (if MAX_RESOURCE_BYTES < length data then slift (res_err ''invalid append payload size'')
      else
        sbind (open_file relative) (\<lambda>descriptor.
        sbind (read_descriptor descriptor) (\<lambda>pre.
        if MAX_RESOURCE_BYTES < length pre + length data then slift (res_err ''append result exceeds size limit'')
        else sret (mk_dict
          [(''path'', relative), (''post_sha256'', PStr (sha256_hex E (pre @ data))),
           (''post_size'', PInt (int (length pre + length data))), (''pre_sha256'', PStr (sha256_hex E pre)),
           (''pre_size'', PInt (int (length pre))), (''state'', pstr ''append'')]))))"

definition append_keys :: "string list" where
  "append_keys = [''path'', ''post_sha256'', ''post_size'', ''pre_sha256'', ''pre_size'', ''state'']"

definition append_bound :: "platform \<Rightarrow> pydict \<Rightarrow> bytes \<Rightarrow> pyval fs" where
  "append_bound E binding data =
     (if \<not> has_keys binding append_keys \<or> \<not> py_is_str (dval binding ''state'') ''append''
      then slift (res_err ''invalid append-resource binding'')
      else if MAX_RESOURCE_BYTES < length data then slift (res_err ''append payload exceeds size limit'')
      else
        sbind (open_parent (dval binding ''path'')) (\<lambda>(parent, name).
        let path = parent @ [name] in
        scatch (\<lambda>e. exn_kind_of e = FileNotFoundError) (\<lambda>_. slift (res_err ''append target is missing''))
          (sbind (open_bound E ''append target is not a regular file'' ''append target changed after authorization''
                    binding path) (\<lambda>_.
           sbind (write_out ''short write while appending resource'' ''appended resource verification failed''
                    path data (py_eq_int (dval binding ''post_size''))) (\<lambda>_.
           sret (dval binding ''post_sha256''))))))"

section \<open>Rolling back\<close>

definition remove_created :: "platform \<Rightarrow> pydict \<Rightarrow> pyval \<Rightarrow> bool fs" where
  "remove_created E binding digest =
     (if dget binding ''state'' \<noteq> Some (pstr ''absent'') \<or> dget binding ''post_sha256'' \<noteq> Some digest then sret False
      else
        sbind (open_parent (dval binding ''path'')) (\<lambda>(parent, name).
        let path = parent @ [name] in
        scatch is_os_error (\<lambda>_. sret False)
          (sbind (sys_open_read path) (\<lambda>_.
           sbind (sget (\<lambda>s. file_bytes s path)) (\<lambda>content.
           if content = None then sret False
           else
             sbind (read_descriptor path) (\<lambda>data.
             if \<not> py_eq_int (dval binding ''post_size'') (int (length data)) \<or> digest \<noteq> PStr (sha256_hex E data)
             then sret False
             else sbind (sys_unlink path) (\<lambda>_. sbind sys_check (\<lambda>_. sret True))))))))"

end
