(* ===== verification/World.thy ===== *)
theory World
  imports State Ledger Resource
begin

text \<open>
  What the authority, the verifier and the executor share while the kernel runs: the security
  state, the two ledgers, the resource tree, the clock and the entropy source. The clock and the
  entropy source are arbitrary streams: a reading advances a counter.
\<close>

section \<open>The world\<close>

record world =
  sec :: security_state
  audit_ledger :: ledger
  failure_ledger :: ledger
  files :: fsys
  clk :: "nat \<Rightarrow> int"
  ticks :: nat
  entropy :: "nat \<Rightarrow> bytes"
  draws :: nat

type_synonym 'a kernel = "(world, 'a) op"

definition on_sec :: "'a sec \<Rightarrow> 'a kernel" where
  "on_sec = szoom sec (\<lambda>s w. w\<lparr>sec := s\<rparr>)"

definition on_audit :: "(ledger, 'a) op \<Rightarrow> 'a kernel" where
  "on_audit = szoom audit_ledger (\<lambda>L w. w\<lparr>audit_ledger := L\<rparr>)"

definition on_failures :: "(ledger, 'a) op \<Rightarrow> 'a kernel" where
  "on_failures = szoom failure_ledger (\<lambda>L w. w\<lparr>failure_ledger := L\<rparr>)"

definition on_files :: "'a fs \<Rightarrow> 'a kernel" where
  "on_files = szoom files (\<lambda>f w. w\<lparr>files := f\<rparr>)"

text \<open>\<^verbatim>\<open>self.clock.now()\<close> and \<^verbatim>\<open>secrets.token_hex(16)\<close>\<close>

definition clock_now :: "int kernel" where
  "clock_now = (\<lambda>w. (Inr (clk w (ticks w)), w\<lparr>ticks := ticks w + 1\<rparr>))"

definition token_hex :: "ustr kernel" where
  "token_hex = (\<lambda>w. (Inr (hex_of_bytes (entropy w (draws w))), w\<lparr>draws := draws w + 1\<rparr>))"

lemma on_ok [res_simps]:
  "on_sec a w = (r, w') \<longleftrightarrow> (\<exists>s. a (sec w) = (r, s) \<and> w' = w\<lparr>sec := s\<rparr>)"
  "on_audit b w = (r, w') \<longleftrightarrow> (\<exists>s. b (audit_ledger w) = (r, s) \<and> w' = w\<lparr>audit_ledger := s\<rparr>)"
  "on_failures b w = (r, w') \<longleftrightarrow> (\<exists>s. b (failure_ledger w) = (r, s) \<and> w' = w\<lparr>failure_ledger := s\<rparr>)"
  "on_files c w = (r, w') \<longleftrightarrow> (\<exists>s. c (files w) = (r, s) \<and> w' = w\<lparr>files := s\<rparr>)"
  by (auto simp: on_sec_def on_audit_def on_failures_def on_files_def szoom_eq)

lemma clock_now_ok [res_simps]:
  "clock_now w = (r, w') \<longleftrightarrow> r = Inr (clk w (ticks w)) \<and> w' = w\<lparr>ticks := ticks w + 1\<rparr>"
  by (auto simp: clock_now_def)

lemma token_hex_ok [res_simps]:
  "token_hex w = (r, w') \<longleftrightarrow> r = Inr (hex_of_bytes (entropy w (draws w))) \<and> w' = w\<lparr>draws := draws w + 1\<rparr>"
  by (auto simp: token_hex_def)

section \<open>Equality of values\<close>

text \<open>
  \<^verbatim>\<open>a == b\<close>: booleans are the integers 0 and 1, dictionaries are compared as maps. A value of
  a type outside the model equals none here.
\<close>

lemma size_elem: "(x :: pyval) \<in> set xs \<Longrightarrow> size x < Suc (size_list size xs)"
  by (induction xs) auto

lemma size_item: "kv \<in> set d \<Longrightarrow> size (snd kv :: pyval) < Suc (size_list (size_prod (\<lambda>_. 0) size) (d :: pydict))"
  by (induction d) auto

function py_eq :: "pyval \<Rightarrow> pyval \<Rightarrow> bool" where
  "py_eq v w =
     (case v of
        PNone \<Rightarrow> w = PNone
      | PBool b \<Rightarrow> py_eq_int w (of_bool b)
      | PInt i \<Rightarrow> py_eq_int w i
      | PStr s \<Rightarrow> py_eq_str w s
      | PList xs \<Rightarrow> (case w of
            PList ys \<Rightarrow> length xs = length ys \<and> list_all (\<lambda>(x, y). py_eq x y) (zip xs ys)
          | _ \<Rightarrow> False)
      | PDict d \<Rightarrow> (case w of
            PDict e \<Rightarrow> length d = length e
              \<and> list_all (\<lambda>kv. case map_of e (fst kv) of None \<Rightarrow> False | Some y \<Rightarrow> py_eq (snd kv) y) d
          | _ \<Rightarrow> False)
      | POther t \<Rightarrow> False)"
  by pat_completeness auto
termination
  by (relation "measure (size \<circ> fst)") (auto dest!: set_zip_leftD size_elem size_item)

declare py_eq.simps [simp del]

lemma py_eq_PStr [simp]: "py_eq (PStr s) v \<longleftrightarrow> v = PStr s" "py_eq v (PStr s) \<longleftrightarrow> v = PStr s"
  by (simp_all add: py_eq.simps py_eq_str_def)
    (auto simp: py_eq.simps [of v] py_eq_int_def py_eq_str_def split: pyval.split)

end
