(* ===== verification/Verifier.thy ===== *)
theory Verifier
  imports World Saxp
begin

text \<open>
  \<^verbatim>\<open>src/mgk/verifier.py\<close>: fail-closed capability verification. The checks that read only the
  envelope and the request are results; the clock, the epoch and the nonce come from the world.
\<close>

record capability_verifier =
  public_key :: bytes
  epoch_public_key :: bytes
  maximum_ttl_seconds :: int
  clock_skew_seconds :: int

definition PAYLOAD_KEYS :: "string list" where
  "PAYLOAD_KEYS = [''audience'', ''authorization_epoch'', ''capability_id'', ''expires_at'', ''issued_at'',
     ''issuer'', ''nonce'', ''request_digest'', ''resource_binding'', ''saxp'', ''schema'', ''scope'', ''subject'']"

definition schema_err :: "string \<Rightarrow> 'a res" where
  "schema_err t = Inl (Exn SchemaError t)"

definition scope_err :: "string \<Rightarrow> 'a res" where
  "scope_err t = Inl (Exn ScopeError t)"

definition window_err :: "string \<Rightarrow> 'a res" where
  "window_err t = Inl (Exn TimeWindowError t)"

lemma verifier_errs [simp]:
  "schema_err t \<noteq> Inr x" "Inr x \<noteq> schema_err t" "scope_err t \<noteq> Inr x" "Inr x \<noteq> scope_err t"
  "window_err t \<noteq> Inr x" "Inr x \<noteq> window_err t"
  by (simp_all add: schema_err_def scope_err_def window_err_def)

section \<open>The payload\<close>

definition require_string :: "pyval \<Rightarrow> string \<Rightarrow> unit res" where
  "require_string v name =
     (case v of
        PStr s \<Rightarrow>
          if s = [] then schema_err (''invalid '' @ name)
          else rbind (utf8_encode s) (\<lambda>b. if 4096 < length b then schema_err (''invalid '' @ name) else Inr ())
      | _ \<Rightarrow> schema_err (''invalid '' @ name))"

fun require_strings :: "pydict \<Rightarrow> string list \<Rightarrow> unit res" where
  "require_strings payload [] = Inr ()"
| "require_strings payload (k # ks) = rbind (require_string (dval payload k) k) (\<lambda>_. require_strings payload ks)"

text \<open>\<^verbatim>\<open>_HEX32.fullmatch\<close>, \<^verbatim>\<open>_HEX64.fullmatch\<close>\<close>

definition hex_field :: "nat \<Rightarrow> pyval \<Rightarrow> bool" where
  "hex_field n v = (case v of PStr s \<Rightarrow> hex_match n s | _ \<Rightarrow> False)"

definition check_head :: "platform \<Rightarrow> pydict \<Rightarrow> unit res" where
  "check_head E payload =
     (if \<not> has_keys payload PAYLOAD_KEYS then schema_err ''invalid capability payload schema''
      else if \<not> py_is_str (dval payload ''schema'') ''mgk-capability/v1'' then schema_err ''unsupported capability schema''
      else
        rbind (require_strings payload [''issuer'', ''subject'', ''audience'', ''capability_id'', ''request_digest'', ''nonce'']) (\<lambda>_.
        if \<not> hex_field 32 (dval payload ''nonce'') then schema_err ''invalid nonce''
        else if \<not> hex_field 64 (dval payload ''capability_id'') \<or> \<not> hex_field 64 (dval payload ''request_digest'')
        then schema_err ''invalid capability digest''
        else
          rbind (digest E (PDict (dpop payload ''capability_id''))) (\<lambda>d.
          if \<not> py_eq_str (dval payload ''capability_id'') d then schema_err ''capability identifier mismatch''
          else Inr ())))"

definition check_scope :: "platform \<Rightarrow> pydict \<Rightarrow> action_request \<Rightarrow> unit res" where
  "check_scope E payload request =
     (case dval payload ''scope'' of
        PDict scope \<Rightarrow>
          if \<not> has_keys scope [''action'', ''resource''] then scope_err ''invalid capability scope''
          else if \<not> py_eq (dval scope ''action'') (action request) \<or> \<not> py_eq (dval scope ''resource'') (resource request)
          then scope_err ''capability scope does not match execution request''
          else if \<not> py_eq (dval payload ''subject'') (principal request)
                  \<or> \<not> py_eq (dval payload ''audience'') (audience request)
          then scope_err ''subject or audience mismatch''
          else
            rbind (request_digest E request) (\<lambda>d.
            if \<not> py_eq_str (dval payload ''request_digest'') d then scope_err ''request payload mutation detected''
            else Inr ())
      | _ \<Rightarrow> scope_err ''invalid capability scope'')"

definition check_saxp :: "platform \<Rightarrow> pydict \<Rightarrow> action_request \<Rightarrow> unit res" where
  "check_saxp E payload request =
     (case dval payload ''saxp'' of
        PDict saxp \<Rightarrow>
          if \<not> has_keys saxp [''context_digest'', ''policy_id'', ''reason_codes'', ''request_digest'', ''result'']
          then schema_err ''invalid SAXP evidence''
          else if \<not> py_is_str (dval saxp ''result'') (result_value TEN_XEITO) then scope_err ''capability lacks TEN_XEITO''
          else
            rbind (request_digest E request) (\<lambda>d.
            if \<not> py_eq_str (dval saxp ''request_digest'') d then scope_err ''SAXP evidence is not bound to the request''
            else (case dval saxp ''reason_codes'' of
                PList reasons \<Rightarrow> if reasons = [] then schema_err ''invalid SAXP reason evidence'' else Inr ()
              | _ \<Rightarrow> schema_err ''invalid SAXP reason evidence''))
      | _ \<Rightarrow> schema_err ''invalid SAXP evidence'')"

definition action_in :: "pyval \<Rightarrow> string list \<Rightarrow> bool" where
  "action_in v names \<longleftrightarrow> list_ex (py_is_str v) names"

definition check_binding :: "pyval \<Rightarrow> pydict \<Rightarrow> unit res" where
  "check_binding act binding =
     (if \<not> hashable act then Inl (Exn TypeError ''unhashable type'')
      else if action_in act [''resource.read'', ''sandbox.read_file'', ''sandbox.read_record''] then
        (if \<not> has_keys binding [''path'', ''sha256'', ''size'', ''state''] \<or> \<not> py_is_str (dval binding ''state'') ''present''
         then scope_err ''invalid read resource binding'' else Inr ())
      else if action_in act [''resource.create'', ''sandbox.create_record''] then
        (if \<not> has_keys binding [''path'', ''post_sha256'', ''post_size'', ''state''] \<or> \<not> py_is_str (dval binding ''state'') ''absent''
         then scope_err ''invalid create resource binding'' else Inr ())
      else if py_is_str act ''sandbox.write_file'' then
        (if \<not> has_keys binding write_keys \<or> \<not> py_is_str (dval binding ''state'') ''write''
         then scope_err ''invalid write resource binding''
         else if \<not> hashable (dval binding ''pre_state'') then Inl (Exn TypeError ''unhashable type'')
         else if \<not> action_in (dval binding ''pre_state'') [''present'', ''absent''] then scope_err ''invalid write pre-state''
         else Inr ())
      else if py_is_str act ''sandbox.append_file'' then
        (if \<not> has_keys binding append_keys \<or> \<not> py_is_str (dval binding ''state'') ''append''
         then scope_err ''invalid append resource binding'' else Inr ())
      else scope_err ''unsupported capability action'')"

definition validate_payload :: "platform \<Rightarrow> pyval \<Rightarrow> action_request \<Rightarrow> pydict res" where
  "validate_payload E v request =
     (case v of
        PDict payload \<Rightarrow>
          rbind (check_head E payload) (\<lambda>_.
          rbind (check_scope E payload request) (\<lambda>_.
          rbind (check_saxp E payload request) (\<lambda>_.
          case dval payload ''resource_binding'' of
            PDict binding \<Rightarrow>
              if \<not> py_eq (dval binding ''path'') (resource request) then scope_err ''resource binding mismatch''
              else rbind (check_binding (action request) binding) (\<lambda>_. Inr payload)
          | _ \<Rightarrow> scope_err ''resource binding mismatch'')))
      | _ \<Rightarrow> schema_err ''invalid capability payload schema'')"

section \<open>The envelope\<close>

definition open_envelope :: "platform \<Rightarrow> capability_verifier \<Rightarrow> bytes \<Rightarrow> action_request \<Rightarrow> pydict res" where
  "open_envelope E V envelope_bytes request =
     rbind (parse_canonical E envelope_bytes) (\<lambda>v.
     case v of
       PDict env \<Rightarrow>
         if \<not> has_keys env [''algorithm'', ''key_id'', ''payload'', ''signature''] then schema_err ''invalid capability envelope''
         else if \<not> py_is_str (dval env ''algorithm'') ''Ed25519'' \<or> \<not> py_eq_str (dval env ''key_id'') (key_id E (public_key V))
         then schema_err ''unexpected capability signer''
         else
           rbind (validate_payload E (dval env ''payload'') request) (\<lambda>payload.
           rbind (canonicalize E (PDict payload)) (\<lambda>encoded.
           rbind (verify E (public_key V) CAPABILITY_DOMAIN encoded (dval env ''signature'')) (\<lambda>_.
           Inr payload)))
     | _ \<Rightarrow> schema_err ''invalid capability envelope'')"

definition check_window :: "capability_verifier \<Rightarrow> pydict \<Rightarrow> (int \<times> int) res" where
  "check_window V payload =
     (case dval payload ''issued_at'' of
        PInt issued_at \<Rightarrow>
          (case dval payload ''expires_at'' of
             PInt expires_at \<Rightarrow>
               if expires_at \<le> issued_at \<or> maximum_ttl_seconds V < expires_at - issued_at
               then window_err ''invalid capability validity window''
               else Inr (issued_at, expires_at)
           | _ \<Rightarrow> window_err ''capability timestamps must be integers'')
      | _ \<Rightarrow> window_err ''capability timestamps must be integers'')"

definition check_epoch :: "platform \<Rightarrow> capability_verifier \<Rightarrow> pyval \<Rightarrow> unit kernel" where
  "check_epoch E V v =
     (case v of
        PInt epoch \<Rightarrow>
          sbind (on_sec (current_epoch E (epoch_public_key V))) (\<lambda>current.
          if epoch \<noteq> current then slift (epoch_err ''stale or invalid authorization epoch'') else sret ())
      | _ \<Rightarrow> slift (epoch_err ''stale or invalid authorization epoch''))"

definition verify_capability ::
    "platform \<Rightarrow> capability_verifier \<Rightarrow> bytes \<Rightarrow> action_request \<Rightarrow> bool \<Rightarrow> pydict kernel" where
  "verify_capability E V envelope_bytes request consume =
     sbind (slift (open_envelope E V envelope_bytes request)) (\<lambda>payload.
     sbind (slift (check_window V payload)) (\<lambda>(issued_at, expires_at).
     sbind clock_now (\<lambda>now.
     if now + clock_skew_seconds V < issued_at \<or> expires_at \<le> now
     then slift (window_err ''capability is not currently valid'')
     else
       sbind (check_epoch E V (dval payload ''authorization_epoch'')) (\<lambda>_.
       sbind (if consume
              then on_sec (consume_nonce (dval payload ''nonce'') (dval payload ''capability_id'') (PInt now))
              else sret ()) (\<lambda>_.
       sret payload)))))"

end
