(* ===== verification/Authority.thy ===== *)
theory Authority
  imports Verifier
begin

text \<open>
  \<^verbatim>\<open>src/mgk/authority.py\<close>: the policy and the issuance of capabilities. The private key
  never leaves this component; what it returns is an envelope, or a decision without one.
\<close>

section \<open>Identifiers and policy\<close>

definition is_alnum :: "nat \<Rightarrow> bool" where
  "is_alnum c \<longleftrightarrow> (48 \<le> c \<and> c \<le> 57) \<or> (65 \<le> c \<and> c \<le> 90) \<or> (97 \<le> c \<and> c \<le> 122)"

definition ident_char :: "nat \<Rightarrow> bool" where
  "ident_char c \<longleftrightarrow> is_alnum c \<or> c \<in> set (U ''._:@/-'')"

text \<open>\<^verbatim>\<open>_IDENTIFIER.fullmatch\<close>\<close>

definition ident_match :: "ustr \<Rightarrow> bool" where
  "ident_match s \<longleftrightarrow> (case s of [] \<Rightarrow> False | c # cs \<Rightarrow> is_alnum c \<and> list_all ident_char cs \<and> length cs \<le> 127)"

definition SANDBOX_ACTIONS :: "ustr list" where
  "SANDBOX_ACTIONS = map U [''sandbox.read_file'', ''sandbox.write_file'', ''sandbox.append_file'',
     ''sandbox.create_record'', ''sandbox.read_record'']"

record authority_policy =
  ap_policy_id :: ustr
  allowed_actions :: "ustr list"
  allowed_principals :: "ustr list"
  allowed_audiences :: "ustr list"
  allowed_resource_prefixes :: "ustr list"
  default_ttl_seconds :: int
  policy_maximum_ttl :: int

definition default_policy :: authority_policy where
  "default_policy = \<lparr>ap_policy_id = U ''mgk-authority-v1'',
     allowed_actions = [U ''resource.read'', U ''resource.create''], allowed_principals = [U ''planner''],
     allowed_audiences = [U ''executor''], allowed_resource_prefixes = [U ''workspace/''],
     default_ttl_seconds = 60, policy_maximum_ttl = 300\<rparr>"

definition validate_policy :: "authority_policy \<Rightarrow> unit res" where
  "validate_policy p =
     (if ap_policy_id p = [] \<or> allowed_actions p = [] then Inl (Exn ValueError ''invalid authority policy'')
      else if allowed_principals p = [] \<or> allowed_audiences p = []
      then Inl (Exn ValueError ''authority policy needs principals and audiences'')
      else if allowed_resource_prefixes p = [] then Inl (Exn ValueError ''authority policy needs resource prefixes'')
      else if \<not> (1 \<le> default_ttl_seconds p \<and> default_ttl_seconds p \<le> policy_maximum_ttl p \<and> policy_maximum_ttl p \<le> 3600)
      then Inl (Exn ValueError ''invalid capability TTL policy'')
      else Inr ())"

text \<open>What the caller or the context provider hands over may not be a context at all.\<close>

datatype context_arg = NoContext | Context saxp_context | NotContext

record capability_authority =
  issuer :: ustr
  private_key :: bytes
  state_public_key :: bytes
  context_provider :: "action_request \<Rightarrow> context_arg res"
  evaluator :: saxp_evaluator
  policy :: authority_policy

definition authority_init :: "capability_authority \<Rightarrow> capability_authority res" where
  "authority_init A =
     (if \<not> ident_match (issuer A) then Inl (Exn ValueError ''invalid issuer'')
      else rbind (validate_policy (policy A)) (\<lambda>_. Inr A))"

section \<open>Requests\<close>

definition denied :: "string \<Rightarrow> 'a res" where
  "denied t = Inl (Exn AuthorizationDenied t)"

lemma denied_neq [simp]: "denied t \<noteq> Inr x" "Inr x \<noteq> denied t"
  by (simp_all add: denied_def)

definition check_identifier :: "pyval \<Rightarrow> ustr res" where
  "check_identifier v =
     (case v of
        PStr s \<Rightarrow> if ident_match s then Inr s else schema_err ''invalid request identifier''
      | _ \<Rightarrow> Inl (Exn TypeError ''expected string''))"

definition validate_request :: "platform \<Rightarrow> authority_policy \<Rightarrow> action_request \<Rightarrow> unit res" where
  "validate_request E p request =
     rbind (check_identifier (request_id request)) (\<lambda>_.
     rbind (check_identifier (principal request)) (\<lambda>prin.
     rbind (check_identifier (audience request)) (\<lambda>aud.
     rbind (check_identifier (action request)) (\<lambda>act.
     rbind (request_digest E request) (\<lambda>_.
     if act \<notin> set (allowed_actions p) then denied ''action is outside authority policy''
     else if prin \<notin> set (allowed_principals p) then denied ''principal is outside authority policy''
     else if aud \<notin> set (allowed_audiences p) then denied ''audience is outside authority policy''
     else case resource request of
       PStr res \<Rightarrow>
         if \<not> list_ex (startswith res) (allowed_resource_prefixes p) then denied ''resource is outside authority policy''
         else Inr ()
     | _ \<Rightarrow> if allowed_resource_prefixes p = [] then denied ''resource is outside authority policy''
            else Inl (Exn AttributeError ''startswith''))))))"

section \<open>Binding the resource\<close>

text \<open>\<^verbatim>\<open>b64u_decode(parameters["content_b64"])\<close> after the check of the parameters.\<close>

definition content_parameter :: "string \<Rightarrow> pydict \<Rightarrow> bytes res" where
  "content_parameter t ps =
     (if \<not> has_keys ps [''content_b64''] then schema_err t
      else case dval ps ''content_b64'' of PStr s \<Rightarrow> b64u_decode s None | _ \<Rightarrow> schema_err t)"

definition bind_new :: "platform \<Rightarrow> pyval \<Rightarrow> bytes \<Rightarrow> pydict fs" where
  "bind_new E relative data = bind_absent relative (PStr (sha256_hex E data)) (PInt (int (length data)))"

definition bind_resource_dispatch :: "platform \<Rightarrow> action_request \<Rightarrow> pydict fs" where
  "bind_resource_dispatch E request =
     sbind (slift (copy_mapping (parameters request))) (\<lambda>ps.
     let act = action request; relative = resource request in
     if py_is_str act ''resource.read'' then
       (if ps \<noteq> [] then slift (schema_err ''resource.read takes no parameters'') else bind_present E relative)
     else if py_is_str act ''resource.create'' then
       sbind (slift (content_parameter ''resource.create requires canonical content_b64'' ps)) (\<lambda>data.
       if MAX_RESOURCE_BYTES < length data then slift (schema_err ''create payload exceeds size limit'')
       else bind_new E relative data)
     else if py_is_str act ''sandbox.read_file'' \<or> py_is_str act ''sandbox.read_record'' then
       (if ps \<noteq> [] then slift (schema_err (if py_is_str act ''sandbox.read_file''
             then ''sandbox.read_file takes no parameters'' else ''sandbox.read_record takes no parameters''))
        else bind_present E relative)
     else if py_is_str act ''sandbox.write_file'' then
       sbind (slift (content_parameter ''sandbox.write_file requires canonical content_b64'' ps)) (bind_write E relative)
     else if py_is_str act ''sandbox.append_file'' then
       sbind (slift (content_parameter ''sandbox.append_file requires canonical content_b64'' ps)) (bind_append E relative)
     else if py_is_str act ''sandbox.create_record'' then
       sbind (slift (content_parameter ''sandbox.create_record requires canonical content_b64'' ps)) (bind_new E relative)
     else slift (denied ''unsupported action''))"

definition bind_resource :: "platform \<Rightarrow> action_request \<Rightarrow> pydict fs" where
  "bind_resource E request =
     scatch is_os_error (\<lambda>_. slift (res_err ''resource unavailable'')) (bind_resource_dispatch E request)"

section \<open>Issuing\<close>

definition base_payload ::
    "action_request \<Rightarrow> int \<Rightarrow> int \<Rightarrow> int \<Rightarrow> ustr \<Rightarrow> ustr \<Rightarrow> ustr \<Rightarrow> pydict \<Rightarrow> saxp_decision \<Rightarrow> pydict" where
  "base_payload request epoch now ttl iss nonce rd binding dec = mk_dict
     [(''audience'', audience request), (''authorization_epoch'', PInt epoch), (''expires_at'', PInt (now + ttl)),
      (''issued_at'', PInt now), (''issuer'', PStr iss), (''nonce'', PStr nonce), (''request_digest'', PStr rd),
      (''resource_binding'', PDict binding), (''saxp'', decision_payload dec), (''schema'', pstr ''mgk-capability/v1''),
      (''scope'', PDict (mk_dict [(''action'', action request), (''resource'', resource request)])),
      (''subject'', principal request)]"

text \<open>The capability identifier, the signature and the envelope around a base payload.\<close>

definition seal_capability :: "platform \<Rightarrow> bytes \<Rightarrow> pydict \<Rightarrow> (bytes \<times> ustr) res" where
  "seal_capability E key base =
     rbind (digest E (PDict base)) (\<lambda>cap.
     let payload = dset base ''capability_id'' (PStr cap) in
     rbind (canonicalize E (PDict payload)) (\<lambda>payload_bytes.
     rbind (canonicalize E (PDict (mk_dict
       [(''algorithm'', pstr ''Ed25519''), (''key_id'', PStr (key_id E (ed_public E key))), (''payload'', PDict payload),
        (''signature'', PStr (sign E key CAPABILITY_DOMAIN payload_bytes))]))) (\<lambda>env. Inr (env, cap))))"

definition choose_ttl :: "authority_policy \<Rightarrow> pyval \<Rightarrow> int res" where
  "choose_ttl p ttl_seconds =
     (case (if ttl_seconds = PNone then PInt (default_ttl_seconds p) else ttl_seconds) of
        PInt ttl \<Rightarrow>
          if \<not> (1 \<le> ttl \<and> ttl \<le> policy_maximum_ttl p) then denied ''capability TTL exceeds authority policy'' else Inr ttl
      | _ \<Rightarrow> denied ''capability TTL exceeds authority policy'')"

definition issue_capability ::
    "platform \<Rightarrow> capability_authority \<Rightarrow> action_request \<Rightarrow> pyval \<Rightarrow> context_arg \<Rightarrow> issue_result kernel" where
  "issue_capability E A request ttl_seconds context =
     sbind (slift (validate_request E (policy A) request)) (\<lambda>_.
     sbind (slift (if context = NoContext then context_provider A request else Inr context)) (\<lambda>context.
     case context of
       Context c \<Rightarrow>
         sbind (slift (evaluate E (evaluator A) request c)) (\<lambda>dec.
         if result dec \<noteq> result_value TEN_XEITO
         then sret \<lparr>envelope = None, decision = dec, i_capability_id = None\<rparr>
         else
           sbind (slift (choose_ttl (policy A) ttl_seconds)) (\<lambda>ttl.
           sbind (on_files (bind_resource E request)) (\<lambda>binding.
           sbind clock_now (\<lambda>now.
           sbind (on_sec (current_epoch E (state_public_key A))) (\<lambda>epoch.
           sbind token_hex (\<lambda>nonce.
           sbind (slift (request_digest E request)) (\<lambda>rd.
           sbind (slift (seal_capability E (private_key A)
                    (base_payload request epoch now ttl (issuer A) nonce rd binding dec))) (\<lambda>(env, cap).
           sret \<lparr>envelope = Some env, decision = dec, i_capability_id = Some cap\<rparr>))))))))
     | _ \<Rightarrow> slift (schema_err ''trusted context provider returned an invalid context'')))"

end
