(* ===== verification/Executor.thy ===== *)
theory Executor
  imports Authority
begin

text \<open>
  \<^verbatim>\<open>src/mgk/executor.py\<close>: the only component that touches a resource, and only under a
  capability that the verifier accepts. Every exception becomes a recorded denial.
\<close>

record capability_executor =
  executor_id :: ustr
  verifier :: capability_verifier
  audit_key :: bytes
  audit_signer :: "bytes option"
  failure_key :: bytes
  failure_signer :: "bytes option"

definition exn_code :: "exn \<Rightarrow> string" where
  "exn_code e = (if is_mgk_error e then error_code (exn_kind_of e) else ''UNEXPECTED_EXCEPTION'')"

section \<open>Denials\<close>

definition denial_data :: "action_request \<Rightarrow> string \<Rightarrow> pyval \<Rightarrow> int \<Rightarrow> pydict" where
  "denial_data request code cap timestamp = mk_dict
     [(''agent'', pstr ''capability-executor''), (''action'', action request), (''attempt'', PInt 1),
      (''base_sha'', PNone), (''capability_id'', cap), (''code'', pstr code),
      (''command'', pstr ''CapabilityExecutor.execute''),
      (''diagnosis'', pstr ''authority boundary rejected or could not safely complete the request''),
      (''evidence'', pstr code), (''exit_code'', PInt 1), (''failing_gate'', pstr ''EXECUTION_AUTHORITY''),
      (''failure_class'', pstr (if code \<noteq> ''UNEXPECTED_EXCEPTION'' then ''SECURITY_VIOLATION'' else ''UNKNOWN'')),
      (''model_provider'', PNone), (''patch_sha256'', PNone), (''phase'', pstr ''RUNTIME_EXECUTION''),
      (''reason_code'', pstr code), (''remediation'', pstr ''preserve evidence and require a fresh valid capability''),
      (''request_id'', request_id request), (''resource'', resource request), (''result'', pstr ''DENIED''),
      (''run_id'', request_id request), (''timestamp'', PInt timestamp)]"

definition quietly :: "('w, 'a) op \<Rightarrow> ('w, unit) op" where
  "quietly m = scatch any_exn (\<lambda>_. sret ()) (sbind m (\<lambda>_. sret ()))"

definition audit_append :: "platform \<Rightarrow> capability_executor \<Rightarrow> string \<Rightarrow> pydict \<Rightarrow> int \<Rightarrow> ustr kernel" where
  "audit_append E X event data t =
     on_audit (append_ledger E (audit_key X) (audit_signer X) (pstr event) (PDict data) (PInt t))"

definition record_denial :: "platform \<Rightarrow> capability_executor \<Rightarrow> action_request \<Rightarrow> string \<Rightarrow> pyval \<Rightarrow> unit kernel" where
  "record_denial E X request code cap =
     sbind clock_now (\<lambda>timestamp.
     let data = denial_data request code cap timestamp in
     sbind clock_now (\<lambda>now.
     sbind (quietly (on_failures (record_failure E (failure_key X) (failure_signer X) (PDict data) (PInt now)))) (\<lambda>_.
     quietly (audit_append E X ''EXECUTION_DENIED'' data now))))"

definition deny :: "platform \<Rightarrow> capability_executor \<Rightarrow> action_request \<Rightarrow> pyval \<Rightarrow> exn \<Rightarrow> execution_result kernel" where
  "deny E X request cap e =
     sbind (record_denial E X request (exn_code e) cap) (\<lambda>_.
     sret \<lparr>success = False, status = ''DENIED'', reason_code = exn_code e, execution_authority = 0,
            x_capability_id = cap, output_digest = PNone, outp = None\<rparr>)"

section \<open>Execution\<close>

definition authorize :: "platform \<Rightarrow> capability_executor \<Rightarrow> bytes \<Rightarrow> action_request \<Rightarrow> pydict kernel" where
  "authorize E X envelope_bytes request =
     (if \<not> py_eq (audience request) (PStr (executor_id X))
      then sraise (Exn ValueError ''executor audience mismatch'')
      else
        sbind (on_audit (verify_integrity E (audit_key X))) (\<lambda>_.
        sbind (on_failures (verify_integrity E (failure_key X))) (\<lambda>_.
        sbind (on_sec integrity_check) (\<lambda>_.
        verify_capability E (verifier X) envelope_bytes request True))))"

definition payload_content :: "action_request \<Rightarrow> bytes res" where
  "payload_content request =
     rbind (copy_mapping (parameters request)) (\<lambda>ps.
     case dget ps ''content_b64'' of
       None \<Rightarrow> Inl (Exn KeyError ''content_b64'')
     | Some v \<Rightarrow> b64u_decode_value v None)"

text \<open>The dispatch on the action: the digest that is reported and what was read.\<close>

definition perform :: "platform \<Rightarrow> action_request \<Rightarrow> pydict \<Rightarrow> (pyval \<times> bytes option) fs" where
  "perform E request binding =
     (let act = action request;
          reading = sbind (read_bound E binding) (\<lambda>data. sret (PStr (sha256_hex E data), Some data));
          writing = (\<lambda>m. sbind (slift (payload_content request)) (\<lambda>data. sbind (m data) (\<lambda>d. sret (d, None))))
      in if py_is_str act ''resource.read'' then reading
         else if py_is_str act ''resource.create'' then writing (create_bound E binding)
         else if \<not> hashable act then sraise (Exn TypeError ''unhashable type'')
         else if action_in act [''sandbox.read_file'', ''sandbox.read_record''] then reading
         else if py_is_str act ''sandbox.write_file'' then writing (write_bound E binding)
         else if py_is_str act ''sandbox.append_file'' then writing (append_bound E binding)
         else if py_is_str act ''sandbox.create_record'' then writing (create_bound E binding)
         else sraise (Exn ValueError ''unsupported executor action''))"

definition intent_data :: "action_request \<Rightarrow> pyval \<Rightarrow> pydict" where
  "intent_data request cap = mk_dict
     [(''action'', action request), (''capability_id'', cap), (''request_id'', request_id request),
      (''resource'', resource request)]"

text \<open>What happens once the nonce is consumed: record the intent, act, record the completion.\<close>

definition commit :: "platform \<Rightarrow> capability_executor \<Rightarrow> action_request \<Rightarrow> pydict \<Rightarrow> execution_result kernel" where
  "commit E X request payload =
     (let cap = dval payload ''capability_id''; intent = intent_data request cap;
          binding = (case dval payload ''resource_binding'' of PDict b \<Rightarrow> b | _ \<Rightarrow> [])
      in
        sbind clock_now (\<lambda>t.
        sbind (audit_append E X ''EXECUTION_AUTHORIZED'' intent t) (\<lambda>_.
        sbind (on_sec (current_epoch E (epoch_public_key (verifier X)))) (\<lambda>current.
        if \<not> py_eq_int (dval payload ''authorization_epoch'') current
        then slift (epoch_err ''authorization epoch changed before commit'')
        else
          sbind (on_files (perform E request binding)) (\<lambda>(digest, data).
          sbind (scatch any_exn
                  (\<lambda>e. sbind (if action_in (action request) [''resource.create'', ''sandbox.create_record'']
                              then sbind (on_files (remove_created E binding digest)) (\<lambda>_. sret ())
                              else sret ()) (\<lambda>_. sraise e))
                  (sbind clock_now (\<lambda>t.
                   audit_append E X ''EXECUTION_COMPLETED'' (dset intent ''output_digest'' digest) t))) (\<lambda>_.
          sret \<lparr>success = True, status = ''EXECUTED'', reason_code = ''TEN_XEITO_AUTHORIZED'',
                 execution_authority = 1, x_capability_id = cap, output_digest = digest, outp = data\<rparr>))))))"

definition execute :: "platform \<Rightarrow> capability_executor \<Rightarrow> bytes \<Rightarrow> action_request \<Rightarrow> execution_result kernel" where
  "execute E X envelope_bytes request =
     scatch any_exn (deny E X request PNone)
       (sbind (authorize E X envelope_bytes request) (\<lambda>payload.
        scatch any_exn (deny E X request (dval payload ''capability_id'')) (commit E X request payload)))"

end
