(* ===== verification/Verifier_Facts.thy ===== *)
theory Verifier_Facts
  imports Verifier
begin

text \<open>
  What the verifier guarantees: everything it checked, in one statement; that a capability is
  accepted once; and that a refusal changes neither the epoch nor the consumed nonces.
\<close>

section \<open>Reading off the checks\<close>

lemma require_string_ok: "require_string v t = Inr u \<Longrightarrow> \<exists>s. v = PStr s \<and> s \<noteq> []"
  by (cases v) (auto simp: require_string_def split: if_splits)

lemma hex_field_iff: "hex_field n v \<longleftrightarrow> (\<exists>s. v = PStr s \<and> hex_match n s)"
  by (cases v) (auto simp: hex_field_def)

lemma check_head_ok:
  assumes "check_head E payload = Inr u"
  shows "has_keys payload PAYLOAD_KEYS \<and> dval payload ''schema'' = pstr ''mgk-capability/v1''
    \<and> (\<exists>n. dval payload ''nonce'' = PStr n \<and> hex_match 32 n)
    \<and> (\<exists>c. dval payload ''capability_id'' = PStr c \<and> hex_match 64 c
         \<and> digest E (PDict (dpop payload ''capability_id'')) = Inr c)"
  using assms by (auto simp: check_head_def rbind_eq_Inr_iff hex_field_iff py_is_str_def py_eq_str_def split: if_splits)

lemma check_scope_ok:
  assumes "check_scope E payload request = Inr u"
  shows "\<exists>scope d. dval payload ''scope'' = PDict scope \<and> has_keys scope [''action'', ''resource'']
    \<and> py_eq (dval scope ''action'') (action request) \<and> py_eq (dval scope ''resource'') (resource request)
    \<and> py_eq (dval payload ''subject'') (principal request) \<and> py_eq (dval payload ''audience'') (audience request)
    \<and> request_digest E request = Inr d \<and> dval payload ''request_digest'' = PStr d"
  using assms by (cases "dval payload ''scope''")
    (auto simp: check_scope_def rbind_eq_Inr_iff py_eq_str_def split: if_splits)

lemma check_saxp_ok:
  assumes "check_saxp E payload request = Inr u"
  shows "\<exists>saxp d r rs. dval payload ''saxp'' = PDict saxp \<and> dval saxp ''result'' = pstr ''TEN_XEITO''
    \<and> request_digest E request = Inr d \<and> dval saxp ''request_digest'' = PStr d
    \<and> dval saxp ''reason_codes'' = PList (r # rs)"
proof -
  obtain saxp where s: "dval payload ''saxp'' = PDict saxp"
    using assms by (cases "dval payload ''saxp''") (simp_all add: check_saxp_def)
  from assms [unfolded check_saxp_def s] obtain d
    where d: "dval saxp ''result'' = pstr ''TEN_XEITO''" "request_digest E request = Inr d"
      "dval saxp ''request_digest'' = PStr d"
      and l: "(case dval saxp ''reason_codes'' of
                PList reasons \<Rightarrow> if reasons = [] then schema_err ''invalid SAXP reason evidence'' else Inr ()
              | _ \<Rightarrow> schema_err ''invalid SAXP reason evidence'') = Inr u"
    by (auto simp: rbind_eq_Inr_iff py_is_str_def py_eq_str_def split: if_splits)
  from l obtain rs where "dval saxp ''reason_codes'' = PList rs" "rs \<noteq> []"
    by (cases "dval saxp ''reason_codes''") (auto split: if_splits)
  with s d show ?thesis by (cases rs) auto
qed

text \<open>The shape a binding must have for an action.\<close>

definition binding_for :: "pyval \<Rightarrow> pydict \<Rightarrow> bool" where
  "binding_for act b \<longleftrightarrow>
     (act \<in> {pstr ''resource.read'', pstr ''sandbox.read_file'', pstr ''sandbox.read_record''}
        \<and> dval b ''state'' = pstr ''present'')
   \<or> (act \<in> {pstr ''resource.create'', pstr ''sandbox.create_record''} \<and> dval b ''state'' = pstr ''absent'')
   \<or> (act = pstr ''sandbox.write_file'' \<and> dval b ''state'' = pstr ''write'')
   \<or> (act = pstr ''sandbox.append_file'' \<and> dval b ''state'' = pstr ''append'')"

lemma check_binding_ok: "check_binding act b = Inr u \<Longrightarrow> binding_for act b"
  by (auto simp: check_binding_def binding_for_def action_in_def py_is_str_def split: if_splits)

lemma validate_payload_ok:
  assumes "validate_payload E v request = Inr payload"
  shows "v = PDict payload \<and> check_head E payload = Inr () \<and> check_scope E payload request = Inr ()
    \<and> check_saxp E payload request = Inr ()
    \<and> (\<exists>b. dval payload ''resource_binding'' = PDict b \<and> py_eq (dval b ''path'') (resource request)
         \<and> check_binding (action request) b = Inr ())"
proof -
  obtain p where v: "v = PDict p"
    using assms by (cases v) (simp_all add: validate_payload_def)
  from assms [unfolded validate_payload_def v]
  have c: "check_head E p = Inr ()" "check_scope E p request = Inr ()" "check_saxp E p request = Inr ()"
    and b: "(case dval p ''resource_binding'' of
            PDict binding \<Rightarrow>
              if \<not> py_eq (dval binding ''path'') (resource request) then scope_err ''resource binding mismatch''
              else rbind (check_binding (action request) binding) (\<lambda>_. Inr p)
          | _ \<Rightarrow> scope_err ''resource binding mismatch'') = Inr payload"
    by (auto simp: rbind_eq_Inr_iff)
  from b obtain bd where "dval p ''resource_binding'' = PDict bd"
    by (cases "dval p ''resource_binding''") auto
  with b v c show ?thesis by (auto simp: rbind_eq_Inr_iff split: if_splits)
qed

text \<open>What an envelope that opens contains: everything the checks looked at.\<close>

definition authentic :: "platform \<Rightarrow> capability_verifier \<Rightarrow> bytes \<Rightarrow> action_request \<Rightarrow> pydict \<Rightarrow> bool" where
  "authentic E V raw request payload \<longleftrightarrow>
     (\<exists>encoded sig. canonicalize E (PDict payload) = Inr encoded \<and> length sig = 64
        \<and> ed_verify E (public_key V) (CAPABILITY_DOMAIN @ encoded) sig
        \<and> (\<exists>env. canonicalize E (PDict env) = Inr raw \<and> dval env ''payload'' = PDict payload
             \<and> dval env ''signature'' = PStr (b64u_encode sig)))
   \<and> (\<exists>d scope saxp. request_digest E request = Inr d \<and> dval payload ''request_digest'' = PStr d
        \<and> dval payload ''scope'' = PDict scope \<and> py_eq (dval scope ''action'') (action request)
        \<and> py_eq (dval scope ''resource'') (resource request)
        \<and> dval payload ''saxp'' = PDict saxp \<and> dval saxp ''result'' = pstr ''TEN_XEITO''
        \<and> dval saxp ''request_digest'' = PStr d)
   \<and> py_eq (dval payload ''subject'') (principal request) \<and> py_eq (dval payload ''audience'') (audience request)
   \<and> (\<exists>b. dval payload ''resource_binding'' = PDict b \<and> py_eq (dval b ''path'') (resource request)
        \<and> binding_for (action request) b)"

lemma open_envelope_parts:
  assumes "open_envelope E V raw request = Inr payload"
  obtains env encoded where "parse_canonical E raw = Inr (PDict env)" "validate_payload E (dval env ''payload'') request = Inr payload"
    "canonicalize E (PDict payload) = Inr encoded"
    "verify E (public_key V) CAPABILITY_DOMAIN encoded (dval env ''signature'') = Inr ()"
proof -
  from assms obtain v where v: "parse_canonical E raw = Inr v"
    by (auto simp: open_envelope_def rbind_eq_Inr_iff)
  then obtain env where env: "v = PDict env"
    using assms by (cases v) (simp_all add: open_envelope_def)
  from assms [unfolded open_envelope_def v env] that v env show ?thesis
    by (auto simp: rbind_eq_Inr_iff split: if_splits)
qed

lemma open_envelope_ok:
  assumes "open_envelope E V raw request = Inr payload"
  shows "authentic E V raw request payload" and "check_head E payload = Inr ()"
proof -
  from open_envelope_parts [OF assms] obtain env encoded where p: "parse_canonical E raw = Inr (PDict env)"
    and vp: "validate_payload E (dval env ''payload'') request = Inr payload"
    and enc: "canonicalize E (PDict payload) = Inr encoded"
    and ver: "verify E (public_key V) CAPABILITY_DOMAIN encoded (dval env ''signature'') = Inr ()" .
  note v = validate_payload_ok [OF vp]
  then show "check_head E payload = Inr ()" by simp
  from v have sc: "check_scope E payload request = Inr ()" and sx: "check_saxp E payload request = Inr ()" by simp_all
  from v obtain b where b: "dval payload ''resource_binding'' = PDict b" "py_eq (dval b ''path'') (resource request)"
    "binding_for (action request) b" using check_binding_ok by blast
  have raw: "canonicalize E (PDict env) = Inr raw" using canonical.enc_dec [OF p] .
  from ver [unfolded verify_iff] obtain sig where sig: "length sig = 64" "dval env ''signature'' = PStr (b64u_encode sig)"
    "ed_verify E (public_key V) (CAPABILITY_DOMAIN @ encoded) sig" by blast
  show "authentic E V raw request payload"
    unfolding authentic_def using v enc raw sig b check_scope_ok [OF sc] check_saxp_ok [OF sx] by fastforce
qed

section \<open>A successful verification\<close>

lemma check_window_ok:
  "check_window V payload = Inr (i, x) \<longleftrightarrow>
     dval payload ''issued_at'' = PInt i \<and> dval payload ''expires_at'' = PInt x
   \<and> i < x \<and> x - i \<le> maximum_ttl_seconds V"
proof (cases "dval payload ''issued_at''")
  case (PInt a)
  then show ?thesis
    by (cases "dval payload ''expires_at''") (auto simp: check_window_def not_le not_less)
qed (simp_all add: check_window_def)

lemma check_epoch_ok:
  "check_epoch E V v w = (Inr u, w') \<longleftrightarrow>
     (\<exists>n s. v = PInt n \<and> current_epoch E (epoch_public_key V) (sec w) = (Inr n, s) \<and> w' = w\<lparr>sec := s\<rparr>)"
  by (cases v) (auto simp: check_epoch_def res_simps split: if_splits)

text \<open>The part after the clock was read, on its own.\<close>

definition admit :: "platform \<Rightarrow> capability_verifier \<Rightarrow> bool \<Rightarrow> pydict \<Rightarrow> int \<Rightarrow> pydict kernel" where
  "admit E V consume payload now =
     sbind (check_epoch E V (dval payload ''authorization_epoch'')) (\<lambda>_.
     sbind (if consume
            then on_sec (consume_nonce (dval payload ''nonce'') (dval payload ''capability_id'') (PInt now))
            else sret ()) (\<lambda>_.
     sret payload))"

lemma admit_ok:
  "admit E V consume payload now w = (Inr p, w') \<longleftrightarrow> p = payload
   \<and> (\<exists>n s1 s2. dval payload ''authorization_epoch'' = PInt n
        \<and> current_epoch E (epoch_public_key V) (sec w) = (Inr n, s1)
        \<and> (if consume then consume_nonce (dval payload ''nonce'') (dval payload ''capability_id'') (PInt now) s1 = (Inr (), s2)
           else s2 = s1)
        \<and> w' = w\<lparr>sec := s2\<rparr>)"
  unfolding admit_def sbind_ok check_epoch_ok by (cases consume) (auto simp: on_ok)

lemma verify_capability_eq:
  "verify_capability E V raw request consume w =
     (case open_envelope E V raw request of Inl e \<Rightarrow> (Inl e, w)
      | Inr payload \<Rightarrow> (case check_window V payload of Inl e \<Rightarrow> (Inl e, w)
        | Inr (i, x) \<Rightarrow>
            let now = clk w (ticks w); w1 = w\<lparr>ticks := ticks w + 1\<rparr> in
            if now + clock_skew_seconds V < i \<or> x \<le> now then (window_err ''capability is not currently valid'', w1)
            else admit E V consume payload now w1))"
  by (simp add: verify_capability_def sbind_def slift_def clock_now_def admit_def split: sum.split)

lemma verify_capability_ok:
  "verify_capability E V raw request consume w = (Inr payload, w') \<longleftrightarrow>
     open_envelope E V raw request = Inr payload
   \<and> (\<exists>i x. check_window V payload = Inr (i, x)
        \<and> i \<le> clk w (ticks w) + clock_skew_seconds V \<and> clk w (ticks w) < x)
   \<and> (\<exists>n s1 s2. dval payload ''authorization_epoch'' = PInt n
        \<and> current_epoch E (epoch_public_key V) (sec w) = (Inr n, s1)
        \<and> (if consume then consume_nonce (dval payload ''nonce'') (dval payload ''capability_id'') (PInt (clk w (ticks w))) s1 = (Inr (), s2)
           else s2 = s1)
        \<and> w' = w\<lparr>sec := s2, ticks := ticks w + 1\<rparr>)"
proof (cases "open_envelope E V raw request")
  case (Inr p)
  have comm: "w\<lparr>ticks := t, sec := s\<rparr> = w\<lparr>sec := s, ticks := t\<rparr>" for t s by simp
  show ?thesis
  proof (cases "check_window V p")
    case window: (Inr ix)
    obtain i x where ix: "ix = (i, x)" by fastforce
    have "verify_capability E V raw request consume w = (Inr payload, w') \<longleftrightarrow>
       i \<le> clk w (ticks w) + clock_skew_seconds V \<and> clk w (ticks w) < x
       \<and> admit E V consume p (clk w (ticks w)) (w\<lparr>ticks := ticks w + 1\<rparr>) = (Inr payload, w')"
      using Inr window ix by (auto simp: verify_capability_eq Let_def)
    then show ?thesis using Inr window ix by (auto simp: admit_ok comm)
  qed (use Inr in \<open>auto simp: verify_capability_eq\<close>)
qed (simp add: verify_capability_eq)

section \<open>What a verification changes\<close>

text \<open>The same database; only transactions went by.\<close>

definition same_db :: "security_state \<Rightarrow> security_state \<Rightarrow> bool" where
  "same_db s s' \<longleftrightarrow> s'\<lparr>db_faults := db_faults s\<rparr> = s"

lemma same_db_refl [simp]: "same_db s s"
  by (simp add: same_db_def)

lemma same_db_next [simp]: "same_db s (next_tx s)"
  by (cases s) (simp add: same_db_def next_tx_def)

lemma same_db_trans: "same_db s t \<Longrightarrow> same_db t u \<Longrightarrow> same_db s u"
  by (cases s; cases t; cases u) (auto simp: same_db_def)

lemma preorder_same_db [simp]: "preorder_rel same_db"
  by (auto simp: preorder_rel_def reflp_def transp_def intro: same_db_trans)

lemma same_dbD:
  assumes "same_db s s'"
  shows "metadata s' = metadata s" "consumed_nonces s' = consumed_nonces s" "sound s' = sound s" "spent s' n = spent s n"
    "expected_minimum_epoch s' = expected_minimum_epoch s" "seen_nonce s' n = seen_nonce s n"
  using assms by (cases s; cases s'; simp add: same_db_def sound_def spent_def seen_nonce_def)+

lemma with_connect_same:
  assumes "keeps same_db m" and "db_header s \<noteq> None" and "with_connect m s = (r, s')"
  shows "same_db s s'"
proof (cases r)
  case (Inl e)
  with assms(3) have "s' = s \<or> s' = next_tx s" by (intro with_connect_err [OF assms(2)]) simp
  then show ?thesis by auto
next
  case (Inr x)
  with assms have "m (next_tx s) = (Inr x, s')" by (simp add: with_connect_ok)
  from keepsD [OF assms(1) this] show ?thesis by (rule same_db_trans [OF same_db_next])
qed

lemma same_select [keeps_intro]: "keeps same_db (select_metadata k)"
  by (auto simp: keeps_def select_metadata_def db_error_def op_defs)

lemma same_state_err [keeps_intro]: "keeps same_db (state_err t)"
  by (auto simp: keeps_def state_err_def op_defs)

lemma translate_state: "translate_db t m s = (r, s') \<Longrightarrow> \<exists>r. m s = (r, s')"
  by (auto simp: translate_db_def scatch_def state_err_def sraise_def split: prod.splits sum.splits if_splits)

lemma same_integrity_check [keeps_intro]: "keeps same_db integrity_check"
proof (rule keepsI)
  fix s :: security_state and r :: "unit res" and s'
  assume run: "integrity_check s = (r, s')"
  let ?body = "sbind (sget db_quick) (\<lambda>ok.
           if \<not> ok then state_err ''SQLite integrity check failed''
           else sbind (select_metadata ''schema_version'') (\<lambda>schema.
             if schema \<noteq> Some SCHEMA_VERSION then state_err ''security state schema missing or invalid''
             else sret ()))"
  have body: "keeps same_db ?body" by (intro keeps_intro preorder_same_db)
  show "same_db s s'"
  proof (cases "db_header s")
    case None
    with run show ?thesis by (simp add: integrity_check_def sbind_def sget_def state_err_def)
  next
    case (Some h)
    show ?thesis
    proof (cases "h = SQLITE_MAGIC")
      case True
      with run Some have "translate_db ''security state is unreadable'' (with_connect ?body) s = (r, s')"
        by (simp add: integrity_check_def sbind_def [of "sget db_header"] sget_def [of db_header])
      from translate_state [OF this] with_connect_same [OF body] Some show ?thesis by auto
    qed (use run Some in \<open>simp add: integrity_check_def sbind_def sget_def state_err_def\<close>)
  qed
qed

lemma current_epoch_same: "keeps same_db (current_epoch E p)"
proof (rule keepsI)
  fix s :: security_state and r :: "int res" and s'
  assume "current_epoch E p s = (r, s')"
  then show "same_db s s'"
    unfolding current_epoch_def
  proof (cases rule: sbind_cases)
    case (err e)
    then show ?thesis using keepsD [OF same_integrity_check] by blast
  next
    case (ok u s1)
    then have s1: "same_db s s1" "sound s1" using keepsD [OF same_integrity_check ok(1)]
      by (auto simp: integrity_check_ok)
    have sel: "same_db s1 t" if "translate_db m (with_connect (select_metadata ''epoch_envelope'')) s1 = (q, t)" for m q t
      using translate_state [OF that] with_connect_same [OF same_select] s1(2) by (auto simp: sound_def)
    from ok(2) show ?thesis
    proof (cases rule: sbind_cases)
      case (err e)
      with sel s1(1) same_db_trans show ?thesis by blast
    next
      case (ok row s2)
      from sel [OF ok(1)] s1(1) have s2: "same_db s s2" by (blast intro: same_db_trans)
      have "keeps same_db (case row of None \<Rightarrow> slift (epoch_err ''authorization epoch is not initialized'')
        | Some stored \<Rightarrow> sbind (sget expected_minimum_epoch) (\<lambda>minimum. slift (decode_epoch E p minimum stored)))"
        by (intro keeps_intro preorder_same_db)
      from keepsD [OF this ok(2)] s2 show ?thesis by (blast intro: same_db_trans)
    qed
  qed
qed

declare current_epoch_same [keeps_intro]

lemma consume_err_same: "consume_nonce n c t s = (Inl e, s') \<Longrightarrow> same_db s s'"
proof -
  assume run: "consume_nonce n c t s = (Inl e, s')"
  show ?thesis
  proof (cases "\<exists>a b i. n = PStr a \<and> c = PStr b \<and> t = PInt i")
    case False
    with run show ?thesis
      by (cases n; cases c; cases t) (auto simp: consume_nonce_def)
  next
    case True
    then obtain a b i where v: "n = PStr a" "c = PStr b" "t = PInt i" by blast
    from run [unfolded v consume_nonce_def prod.case pyval.case] show ?thesis
    proof (cases rule: sbind_cases)
      case (err e)
      then show ?thesis using keepsD [OF same_integrity_check] by blast
    next
      case (ok u s1)
      then have s1: "same_db s s1" "db_header s1 \<noteq> None" using keepsD [OF same_integrity_check ok(1)]
        by (auto simp: integrity_check_ok sound_def)
      from ok(2) have "\<exists>e. with_connect (insert_nonce a b i) s1 = (Inl e, s')"
        by (auto simp: scatch_def state_err_def sraise_def split: prod.splits sum.splits if_splits)
      with with_connect_err [OF s1(2)] s1(1) show ?thesis by (metis same_db_next same_db_trans)
    qed
  qed
qed

text \<open>Everything but the security state and the clock.\<close>

definition same_stores :: "world \<Rightarrow> world \<Rightarrow> bool" where
  "same_stores w w' \<longleftrightarrow> files w' = files w \<and> audit_ledger w' = audit_ledger w \<and> failure_ledger w' = failure_ledger w
     \<and> clk w' = clk w \<and> entropy w' = entropy w"

lemma preorder_same_stores [simp]: "preorder_rel same_stores"
  by (auto simp: preorder_rel_def reflp_def transp_def same_stores_def)

lemma same_stores_basic [keeps_intro]:
  "keeps same_stores (on_sec m)" "keeps same_stores clock_now" "keeps same_stores token_hex"
  by (auto simp: keeps_def same_stores_def on_sec_def szoom_def clock_now_def token_hex_def split: prod.split)

lemma same_stores_check_epoch [keeps_intro]: "keeps same_stores (check_epoch E V v)"
  unfolding check_epoch_def by (intro keeps_intro preorder_same_stores)

lemma same_stores_verify [keeps_intro]: "keeps same_stores (verify_capability E V raw request consume)"
  unfolding verify_capability_def
  by (intro keeps_intro preorder_same_stores)

lemma verify_capability_err:
  assumes "verify_capability E V raw request consume w = (Inl e, w')"
  shows "same_db (sec w) (sec w') \<and> same_stores w w'"
proof -
  let ?w = "w\<lparr>ticks := ticks w + 1\<rparr>"
  have "same_db (sec w) (sec w')"
  proof (cases "\<exists>payload ix. open_envelope E V raw request = Inr payload \<and> check_window V payload = Inr ix")
    case False
    with assms show ?thesis by (auto simp: verify_capability_eq split: sum.splits)
  next
    case True
    then obtain payload i x where o: "open_envelope E V raw request = Inr payload" "check_window V payload = Inr (i, x)"
      by fastforce
    show ?thesis
    proof (cases "clk w (ticks w) + clock_skew_seconds V < i \<or> x \<le> clk w (ticks w)")
      case True
      with assms o show ?thesis by (auto simp: verify_capability_eq Let_def)
    next
      case False
      with assms o have a: "admit E V consume payload (clk w (ticks w)) ?w = (Inl e, w')"
        by (simp add: verify_capability_eq Let_def)
      have ce: "same_db (sec ?w) (sec w2)" if "check_epoch E V v ?w = (q, w2)" for v q w2
      proof -
        have "keeps (\<lambda>w w'. same_db (sec w) (sec w')) (check_epoch E V v)"
          unfolding check_epoch_def
          by (intro keeps_intro) (auto simp: preorder_rel_def reflp_def transp_def on_sec_def
              intro: same_db_trans keeps_szoom [OF current_epoch_same])
        from keepsD [OF this that] show ?thesis .
      qed
      from a [unfolded admit_def] show ?thesis
      proof (cases rule: sbind_cases)
        case (err e)
        with ce show ?thesis by fastforce
      next
        case (ok u w2)
        have s2: "same_db (sec w) (sec w2)" using ce [OF ok(1)] by simp
        from ok(2) obtain s where "consume_nonce (dval payload ''nonce'') (dval payload ''capability_id'')
              (PInt (clk w (ticks w))) (sec w2) = (Inl e, s)" "w' = w2\<lparr>sec := s\<rparr>"
          by (cases consume) (auto simp: sbind_err on_ok)
        with consume_err_same s2 show ?thesis by (auto intro: same_db_trans)
      qed
    qed
  qed
  with keepsD [OF same_stores_verify assms] show ?thesis by blast
qed

section \<open>One acceptance\<close>

text \<open>The payload an envelope opens to does not depend on the request or the verifier.\<close>

lemma open_envelope_payload:
  assumes "open_envelope E V raw request = Inr payload" "open_envelope E V' raw request' = Inr payload'"
  shows "payload' = payload"
proof -
  from open_envelope_parts [OF assms(1)] obtain env where 1: "parse_canonical E raw = Inr (PDict env)"
    "validate_payload E (dval env ''payload'') request = Inr payload" by metis
  from open_envelope_parts [OF assms(2)] obtain env' where 2: "parse_canonical E raw = Inr (PDict env')"
    "validate_payload E (dval env' ''payload'') request' = Inr payload'" by metis
  from 1 2 validate_payload_ok [OF 1(2)] validate_payload_ok [OF 2(2)] show ?thesis by simp
qed

lemma accepted_once:
  assumes first: "verify_capability E V raw request True w = (Inr payload, w1)" and later: "retains (sec w1) (sec w2)"
  shows "\<exists>e. fst (verify_capability E V' raw request' True w2) = Inl e"
proof (rule ccontr)
  from first have o: "open_envelope E V raw request = Inr payload" by (auto simp: verify_capability_ok)
  assume "\<not> ?thesis"
  then obtain payload' w3 where again: "verify_capability E V' raw request' True w2 = (Inr payload', w3)"
    by (metis obj_sumE prod.collapse)
  then have p: "payload' = payload" using open_envelope_payload [OF o] by (auto simp: verify_capability_ok)
  from first again obtain s2 t1 t2 c1 c2 where
    "consume_nonce (dval payload ''nonce'') (dval payload ''capability_id'') (PInt c1) t1 = (Inr (), sec w1)"
    and a: "current_epoch E (epoch_public_key V') (sec w2) = (Inr c2, s2)"
    "consume_nonce (dval payload ''nonce'') (dval payload ''capability_id'') (PInt (clk w2 (ticks w2))) s2 = (Inr (), t2)"
    unfolding verify_capability_ok p by auto
  moreover obtain n c where "dval payload ''nonce'' = PStr n" "dval payload ''capability_id'' = PStr c"
    using check_head_ok [OF open_envelope_ok(2) [OF o]] by blast
  ultimately have "spent (sec w1) n" "\<not> spent s2 n" using consume_spends by auto
  moreover have "spent (sec w2) n" using later calculation(1) by (simp add: retains_def)
  ultimately show False using same_dbD(4) [OF keepsD [OF current_epoch_same a(1)]] by simp
qed

end
