(* ===== verification/Resource_Facts.thy ===== *)
theory Resource_Facts
  imports Resource "HOL-Library.Sublist"
begin

text \<open>
  What the resource guard guarantees: paths stay below the root and pass no symbolic link, a read
  returns what was bound or the hash collided, a mutation touches its bound path and nothing else,
  and a create that fails leaves no trace unless the rollback itself fails. The locale
  \<open>bounded_mutation\<close> is the contract shared by the three mutating operations.
\<close>

section \<open>The tree\<close>

lemma at_append: "at n (p @ q) = (case at n p of None \<Rightarrow> None | Some m \<Rightarrow> at m q)"
proof (induction n p rule: at.induct)
  case (2 m p ps)
  then show ?case by (auto split: option.split)
qed (cases q; simp)+

lemma put_put [simp]: "put p v (put p w n) = put p v n"
  by (induction p w n rule: put.induct) (auto split: option.split)

lemma at_put_same: "at n d = Some (Dir m) \<Longrightarrow> at (put (d @ [x]) v n) (d @ [x]) = v"
proof (induction d arbitrary: n)
  case Nil
  then show ?case by (cases v) auto
next
  case (Cons p d)
  then obtain m' c where n: "n = Dir m'" "m' p = Some c" "at c d = Some (Dir m)"
    by (cases n) (auto split: option.splits)
  with Cons.IH [of c] show ?case by (cases "d @ [x]") auto
qed

lemma at_put_other:
  "\<not> prefix p q \<Longrightarrow> \<not> prefix q p \<Longrightarrow> at (put p v n) q = at n q"
proof (induction p v n arbitrary: q rule: put.induct)
  case (2 p v m)
  then show ?case by (cases q) auto
next
  case (3 p p' ps v m)
  show ?case
  proof (cases q)
    case (Cons a as)
    then show ?thesis using 3 by (cases "a = p") (auto split: option.split)
  qed (use 3 in simp)
qed simp_all

lemma put_at: "at n p = Some v \<Longrightarrow> put p (Some v) n = n"
proof (induction p "Some v" n rule: put.induct)
  case (2 p m)
  then show ?case by (auto split: option.splits)
next
  case (3 p q ps m)
  then show ?case by (auto split: option.splits)
qed simp_all

lemma put_None: "at n p = None \<Longrightarrow> put p None n = n"
proof (induction p "None :: fsnode option" n rule: put.induct)
  case (2 p m)
  then have "m p = None" by (auto split: option.splits)
  then show ?case by (simp add: fun_upd_idem)
next
  case (3 p q ps m)
  then show ?case by (auto split: option.splits)
qed simp_all

definition touches :: "fpath \<Rightarrow> fsys \<Rightarrow> fsys \<Rightarrow> bool" where
  "touches p s s' \<longleftrightarrow> fs_root s' = fs_root s \<or> (\<exists>v. fs_root s' = put p v (fs_root s))"

abbreviation same_tree :: "fsys \<Rightarrow> fsys \<Rightarrow> bool" where
  "same_tree s s' \<equiv> fs_root s' = fs_root s"

lemma preorder_touches [simp]: "preorder_rel (touches p)"
  by (auto simp: preorder_rel_def touches_def reflp_def transp_def)

lemma same_touches: "same_tree s s' \<Longrightarrow> touches p s s'"
  by (simp add: touches_def)

lemma touches_other: "touches p s s' \<Longrightarrow> \<not> prefix p q \<Longrightarrow> \<not> prefix q p \<Longrightarrow> node_at s' q = node_at s q"
  by (auto simp: touches_def node_at_def at_put_other)

lemma set_node_simps [simp]:
  "fs_root (set_node p v s) = put p v (fs_root s)" "io (set_node p v s) = io s"
  by (simp_all add: set_node_def)

lemma keeps_touches: "keeps same_tree m \<Longrightarrow> keeps (touches p) m"
  by (rule keeps_mono [where Q = same_tree]) (simp_all add: touches_def)

section \<open>System calls\<close>

lemma next_io_simps [simp]: "fs_root (snd (next_io s)) = fs_root s"
  by (simp add: next_io_def)

lemma same_sys_check [keeps_intro]: "keeps same_tree sys_check"
  by (auto simp: keeps_def sys_check_def next_io_def op_defs)

lemma keeps_fsnode [keeps_intro]:
  assumes "\<And>b. n = File b \<Longrightarrow> keeps R (f b)" "\<And>m. n = Dir m \<Longrightarrow> keeps R (g m)"
    "\<And>t. n = Link t \<Longrightarrow> keeps R (h t)" "n = Special \<Longrightarrow> keeps R k"
  shows "keeps R (case n of File b \<Rightarrow> f b | Dir m \<Rightarrow> g m | Link t \<Rightarrow> h t | Special \<Rightarrow> k)"
  using assms by (cases n) auto

lemma same_opens [keeps_intro]:
  "keeps same_tree (sys_open_dir p)" "keeps same_tree (sys_open_read p)" "keeps same_tree (sys_open_rdwr p)"
  unfolding sys_open_dir_def sys_open_read_def sys_open_rdwr_def
  by (intro keeps_intro preorder_rel_same)+

lemma same_read_descriptor [keeps_intro]: "keeps same_tree (read_descriptor p)"
  unfolding read_descriptor_def by (intro keeps_intro preorder_rel_same)

lemma same_walk [keeps_intro]: "keeps same_tree (walk c ps)"
  by (induction c ps rule: walk.induct) (auto intro!: keeps_intro preorder_rel_same simp: walk.simps)

lemma same_open_parent [keeps_intro]: "keeps same_tree (open_parent r)"
  unfolding open_parent_def by (intro keeps_intro preorder_rel_same)

lemma same_open_file [keeps_intro]: "keeps same_tree (open_file r)"
  unfolding open_file_def Let_def by (intro keeps_intro preorder_rel_same)

lemma same_binds [keeps_intro]:
  "keeps same_tree (bind_present E r)" "keeps same_tree (bind_absent r h n)" "keeps same_tree (read_bound E b)"
  "keeps same_tree (bind_write E r d)" "keeps same_tree (bind_append E r d)" "keeps same_tree (open_bound E t t' b p)"
  unfolding bind_present_def bind_absent_def read_bound_def bind_write_def bind_append_def open_bound_def Let_def
  by (intro keeps_intro preorder_rel_same)+

lemma touches_set_node [keeps_intro]: "keeps (touches p) (smodify (set_node p v))"
  by (rule keeps_smodify) (auto simp: touches_def)

lemma touches_excl_unlink [keeps_intro]: "keeps (touches p) (sys_open_excl p)" "keeps (touches p) (sys_unlink p)"
  unfolding sys_open_excl_def sys_unlink_def
  by (intro keeps_intro preorder_touches keeps_touches [OF same_sys_check])+

lemma add_bytes_io [simp]: "io (add_bytes p b s) = io s"
  by (simp add: add_bytes_def split: option.split)

definition next_event :: "fsys \<Rightarrow> io_event" where
  "next_event s = (case io s of [] \<Rightarrow> IoOk | e # es \<Rightarrow> e)"

definition after_event :: "fsys \<Rightarrow> fsys" where
  "after_event s = s\<lparr>io := tl (io s)\<rparr>"

lemma after_event_root [simp]: "fs_root (after_event s) = fs_root s" "file_bytes (after_event s) p = file_bytes s p"
  "node_at (after_event s) p = node_at s p"
  by (simp_all add: after_event_def file_bytes_def node_at_def)

text \<open>The write loop, one case per outcome of the system call.\<close>

lemma write_loop_cases:
  assumes "write_loop msg p view s = (r, s')"
  obtains (empty) "view = []" "r = Inr ()" "s' = s"
    | (fail) "view \<noteq> []" "next_event s = IoFail" "r = Inl (Exn OSError ''write'')" "s' = after_event s"
    | (zero) n where "view \<noteq> []" "next_event s = IoShort n" "min n (length view) = 0" "r = res_err msg" "s' = after_event s"
    | (all) "view \<noteq> []" "next_event s = IoOk" "r = Inr ()" "s' = add_bytes p view (after_event s)"
    | (some) n where "view \<noteq> []" "next_event s = IoShort n" "0 < min n (length view)"
        "write_loop msg p (drop (min n (length view)) view) (add_bytes p (take (min n (length view)) view) (after_event s)) = (r, s')"
proof (cases "view = []")
  case True
  with assms empty show ?thesis by (simp add: write_loop.simps)
next
  case False
  note unf = assms [unfolded write_loop.simps [of msg p view s] if_not_P [OF False] Let_def next_event_def [symmetric]
      after_event_def [symmetric]]
  show ?thesis
  proof (cases "next_event s")
    case IoOk
    with unf have "write_loop msg p [] (add_bytes p view (after_event s)) = (r, s')" by simp
    then show ?thesis using all [OF False IoOk] by (simp add: write_loop.simps)
  next
    case IoFail
    with unf fail [OF False] show ?thesis by simp
  next
    case (IoShort n)
    show ?thesis
    proof (cases "min n (length view) = 0")
      case True
      with unf IoShort zero [OF False IoShort True] show ?thesis by (simp split: if_splits)
    next
      case w: False
      then have "0 < min n (length view)" by simp
      moreover have "write_loop msg p (drop (min n (length view)) view)
          (add_bytes p (take (min n (length view)) view) (after_event s)) = (r, s')"
        using unf unfolding IoShort io_event.case if_not_P [OF w] .
      ultimately show ?thesis by (rule some [OF False IoShort])
    qed
  qed
qed

lemma touches_add_bytes: "touches p s (add_bytes p b (after_event s))"
  by (auto simp: touches_def add_bytes_def split: option.split)

lemma touches_write_loop [keeps_intro]: "keeps (touches p) (write_loop msg p d)"
proof (rule keepsI)
  fix s r s'
  have t: "transp (touches p)" using preorder_touches by (simp add: preorder_rel_def)
  assume "write_loop msg p d s = (r, s')"
  then show "touches p s s'"
  proof (induction "length d" arbitrary: d s rule: less_induct)
    case less
    from less.prems show ?case
    proof (cases rule: write_loop_cases)
      case (some n)
      have "length (drop (min n (length d)) d) < length d" using some(3) by simp
      from less.hyps [OF this some(4)] show ?thesis
        by (rule transpE [OF t touches_add_bytes])
    qed (simp_all add: touches_add_bytes, simp_all add: touches_def)
  qed
qed

lemma touches_write_out [keeps_intro]: "keeps (touches p) (write_out t t' p d ok)"
  unfolding write_out_def by (intro keeps_intro preorder_touches keeps_touches [OF same_sys_check])

lemma touches_unlink_quiet [keeps_intro]: "keeps (touches p) (unlink_quiet p)"
  unfolding unlink_quiet_def by (intro keeps_intro preorder_touches keeps_touches [OF same_sys_check])

lemma touches_on_error [keeps_intro]:
  "keeps (touches p) c \<Longrightarrow> keeps (touches p) m \<Longrightarrow> keeps (touches p) (on_error c m)"
  unfolding on_error_def by (intro keeps_intro preorder_touches)

section \<open>Interface: a mutation bound to one path\<close>

locale bounded_mutation =
  fixes target :: "'b \<Rightarrow> fpath option"
    and run :: "'e \<Rightarrow> 'b \<Rightarrow> 'd \<Rightarrow> (fsys, 'a) op"
  assumes no_target: "target b = None \<Longrightarrow> run E b d s = (r, s') \<Longrightarrow> fs_root s' = fs_root s"
    and only_target: "target b = Some p \<Longrightarrow> run E b d s = (r, s') \<Longrightarrow> touches p s s'"
begin

lemma elsewhere:
  assumes "run E b d s = (r, s')" and "\<And>p. target b = Some p \<Longrightarrow> \<not> prefix p q \<and> \<not> prefix q p"
  shows "node_at s' q = node_at s q"
proof (cases "target b")
  case None
  from no_target [OF this assms(1)] show ?thesis by (simp add: node_at_def)
next
  case (Some p)
  from only_target [OF this assms(1)] assms(2) [OF Some] show ?thesis by (simp add: touches_other)
qed

text \<open>Any number of them, whatever their outcomes.\<close>

lemma runs_elsewhere:
  assumes "(\<lambda>s s'. \<exists>b \<in> B. \<exists>E d r. run E b d s = (r, s'))\<^sup>*\<^sup>* s s'"
    and "\<And>b p. b \<in> B \<Longrightarrow> target b = Some p \<Longrightarrow> \<not> prefix p q \<and> \<not> prefix q p"
  shows "node_at s' q = node_at s q"
  using assms(1)
proof (induction rule: rtranclp_induct)
  case (step y z)
  then obtain b E d r where "b \<in> B" "run E b d y = (r, z)" by blast
  from elsewhere [OF this(2) assms(2) [OF this(1)]] step.IH show ?case by simp
qed simp

end

definition bound_target :: "pydict \<Rightarrow> fpath option" where
  "bound_target b = (case parts (dval b ''path'') of Inl e \<Rightarrow> None | Inr p \<Rightarrow> Some p)"

section \<open>Paths\<close>

lemma res_err_neq [simp]: "res_err t \<noteq> Inr x" "Inr x \<noteq> res_err t"
  by (simp_all add: res_err_def)

lemma parts_ok:
  assumes "parts r = Inr ps"
  obtains s where "r = PStr s" "ps = split_on 47 s" "join_with 47 ps = s" "ps \<noteq> []" "length ps \<le> 32"
    and "\<forall>p \<in> set ps. \<not> dotty p \<and> 47 \<notin> set p \<and> 92 \<notin> set p \<and> 0 \<notin> set p"
    and "\<exists>encoded. utf8_encode s = Inr encoded \<and> length encoded \<le> 4096"
proof -
  from assms obtain s where s: "r = PStr s" by (cases r) (simp_all add: parts_def)
  from assms [unfolded s] have c: "\<exists>encoded. utf8_encode s = Inr encoded \<and> length encoded \<le> 4096"
    "92 \<notin> set s" "0 \<notin> set s" "\<not> list_ex dotty (split_on 47 s)" "\<not> startswith s (U ''/'')"
    "length (posix_parts s) \<le> 32" "ps = posix_parts s"
    by (auto simp: parts_def rbind_eq_Inr_iff split: if_splits)
  have "filter (\<lambda>p. p \<noteq> [] \<and> p \<noteq> U ''.'') (split_on 47 s) = split_on 47 s"
    by (rule filter_True) (use c(4) in \<open>auto simp: list_ex_iff dotty_def\<close>)
  with c(5,7) have ps: "ps = split_on 47 s" by (simp add: posix_parts_def)
  have "\<forall>p \<in> set ps. \<not> dotty p \<and> 47 \<notin> set p \<and> 92 \<notin> set p \<and> 0 \<notin> set p"
    using c(2,3,4) split_on_no_sep set_split_on unfolding ps list_ex_iff by metis
  with that [OF s] ps c show ?thesis by simp
qed

lemma parts_not_Nil: "parts r = Inr ps \<Longrightarrow> ps \<noteq> []"
  by (erule parts_ok) simp

lemma sys_check_ok: "sys_check s = (Inr u, s') \<longleftrightarrow> next_event s \<noteq> IoFail \<and> s' = after_event s"
  by (auto simp: sys_check_def sbind_ok next_io_def next_event_def after_event_def)

lemma sys_check_err: "sys_check s = (Inl e, s') \<longleftrightarrow> next_event s = IoFail \<and> e = Exn OSError ''input/output error'' \<and> s' = after_event s"
  by (auto simp: sys_check_def sbind_err next_io_def next_event_def after_event_def)

lemma sys_open_dir_ok: "sys_open_dir p s = (Inr u, s') \<Longrightarrow> (\<exists>m. node_at s p = Some (Dir m)) \<and> same_tree s s'"
  by (auto simp: sys_open_dir_def sbind_ok sys_check_ok split: option.splits fsnode.splits)

lemma walk_ok: "walk c ps s = (Inr d, s') \<Longrightarrow> d = c @ ps \<and> same_tree s s'
    \<and> (ps \<noteq> [] \<longrightarrow> (\<exists>m. node_at s (c @ ps) = Some (Dir m)))"
proof (induction c ps arbitrary: s rule: walk.induct)
  case (2 c p ps)
  then obtain s1 where a: "sys_open_dir (c @ [p]) s = (Inr (), s1)" "walk (c @ [p]) ps s1 = (Inr d, s')"
    by (auto simp: sbind_ok)
  with sys_open_dir_ok [OF a(1)] "2.IH" [OF a(2)] show ?case
    by (cases "ps = []") (auto simp: node_at_def)
qed simp

lemma open_parent_ok:
  assumes "open_parent r s = (Inr (d, x), s')"
  shows "parts r = Inr (d @ [x])" and "same_tree s s'" and "\<exists>m. node_at s d = Some (Dir m)"
proof -
  from assms obtain ps s1 where ps: "parts r = Inr ps" and a: "sys_open_dir [] s = (Inr (), s1)"
    and w: "walk [] (butlast ps) s1 = (Inr d, s')" and x: "x = last ps"
    by (auto simp: open_parent_def sbind_ok)
  note a' = sys_open_dir_ok [OF a] and w' = walk_ok [OF w]
  show "parts r = Inr (d @ [x])" using ps w' x parts_not_Nil [OF ps] by simp
  show "same_tree s s'" using a' w' by simp
  show "\<exists>m. node_at s d = Some (Dir m)"
    using a' w' by (cases "butlast ps = []") (auto simp: node_at_def)
qed

section \<open>Counting failures\<close>

definition faults :: "fsys \<Rightarrow> nat" where
  "faults s = length (filter (\<lambda>e. e = IoFail \<or> e = IoShort 0) (io s))"

abbreviation fewer_faults :: "fsys \<Rightarrow> fsys \<Rightarrow> bool" where
  "fewer_faults s s' \<equiv> faults s' \<le> faults s"

lemma preorder_fewer [simp]: "preorder_rel fewer_faults"
  by (auto simp: preorder_rel_def reflp_def transp_def)

lemma faults_after: "fewer_faults s (after_event s)"
  "next_event s = IoFail \<or> next_event s = IoShort 0 \<Longrightarrow> faults (after_event s) < faults s"
  by (cases "io s"; simp add: faults_def after_event_def next_event_def)+

lemma no_faults_event: "faults s = 0 \<Longrightarrow> next_event s \<noteq> IoFail"
  by (cases "io s") (auto simp: faults_def next_event_def)

lemma faults_set_node [simp]: "faults (set_node p v s) = faults s" "faults (add_bytes p x s) = faults s"
  by (simp_all add: faults_def)

lemma fewer_sys_check [keeps_intro]: "keeps fewer_faults sys_check"
proof (rule keepsI)
  fix s :: fsys and r :: "unit res" and s' assume "sys_check s = (r, s')"
  then show "fewer_faults s s'" using faults_after(1) [of s] by (cases r) (auto simp: sys_check_ok sys_check_err)
qed

lemma fewer_opens [keeps_intro]:
  "keeps fewer_faults (sys_open_dir p)" "keeps fewer_faults (sys_open_read p)" "keeps fewer_faults (sys_open_rdwr p)"
  unfolding sys_open_dir_def sys_open_read_def sys_open_rdwr_def
  by (intro keeps_intro preorder_fewer)+

lemma fewer_excl [keeps_intro]: "keeps fewer_faults (sys_open_excl p)"
  unfolding sys_open_excl_def by (intro keeps_intro preorder_fewer keeps_smodify) simp

lemma fewer_walk [keeps_intro]: "keeps fewer_faults (walk c ps)"
  by (induction c ps rule: walk.induct) (auto intro!: keeps_intro preorder_fewer simp: walk.simps)

lemma fewer_open_parent [keeps_intro]: "keeps fewer_faults (open_parent r)"
  unfolding open_parent_def by (intro keeps_intro preorder_fewer)

section \<open>Writing out\<close>

lemma at_parent: "at n (d @ [x]) = Some v \<Longrightarrow> \<exists>m. at n d = Some (Dir m)"
  by (auto simp: at_append split: option.splits) (metis at.simps(3-5) fsnode.exhaust option.distinct(1))

lemma at_put_file: "at n p = Some v \<Longrightarrow> p \<noteq> [] \<Longrightarrow> at (put p w n) p = w"
  by (cases p rule: rev_cases) (auto dest!: at_parent simp: at_put_same)

lemma file_bytes_at: "file_bytes s p = Some b \<longleftrightarrow> node_at s p = Some (File b)"
  by (auto simp: file_bytes_def split: option.splits fsnode.splits)

lemma add_bytes_file:
  assumes "file_bytes s p = Some b" "p \<noteq> []"
  shows "fs_root (add_bytes p x s) = put p (Some (File (b @ x))) (fs_root s)"
    and "file_bytes (add_bytes p x s) p = Some (b @ x)"
proof -
  have "at (fs_root s) p = Some (File b)" using assms(1) by (simp add: file_bytes_at node_at_def)
  with assms show "fs_root (add_bytes p x s) = put p (Some (File (b @ x))) (fs_root s)"
    "file_bytes (add_bytes p x s) p = Some (b @ x)"
    by (simp_all add: add_bytes_def file_bytes_at [of "set_node p v s" for v] node_at_def at_put_file)
qed

lemma put_same: "file_bytes s p = Some b \<Longrightarrow> put p (Some (File b)) (fs_root s) = fs_root s"
  by (simp add: file_bytes_at node_at_def put_at)

lemma write_loop_out:
  assumes "write_loop msg p d s = (r, s')" "file_bytes s p = Some b" "p \<noteq> []"
  shows "\<exists>k \<le> length d. fs_root s' = put p (Some (File (b @ take k d))) (fs_root s)
    \<and> file_bytes s' p = Some (b @ take k d) \<and> fewer_faults s s'
    \<and> (case r of Inr u \<Rightarrow> k = length d | Inl e \<Rightarrow> faults s' < faults s)"
  using assms(1,2)
proof (induction "length d" arbitrary: d s b rule: less_induct)
  case less
  from less.prems(1) show ?case
  proof (cases rule: write_loop_cases)
    case empty
    with less.prems show ?thesis by (simp add: put_same)
  next
    case fail
    with less.prems faults_after [of s] show ?thesis by (intro exI [of _ 0]) (simp add: put_same)
  next
    case (zero n)
    from zero(1,3) have "n = 0" by (simp add: min_def split: if_splits)
    with zero less.prems faults_after [of s] show ?thesis
      by (intro exI [of _ 0]) (simp add: put_same res_err_def)
  next
    case all
    with less.prems assms(3) faults_after(1) [of s] show ?thesis
      by (intro exI [of _ "length d"]) (simp add: add_bytes_file)
  next
    case (some n)
    let ?w = "min n (length d)"
    let ?s1 = "add_bytes p (take ?w d) (after_event s)"
    have fb: "file_bytes (after_event s) p = Some b" using less.prems by simp
    note s1 = add_bytes_file [OF fb assms(3), of "take ?w d"]
    have "length (drop ?w d) < length d" using some(3) by simp
    from less.hyps [OF this some(4) s1(2)] obtain k where k: "k \<le> length (drop ?w d)"
      "fs_root s' = put p (Some (File ((b @ take ?w d) @ take k (drop ?w d)))) (fs_root ?s1)"
      "file_bytes s' p = Some ((b @ take ?w d) @ take k (drop ?w d))" "fewer_faults ?s1 s'"
      "case r of Inr u \<Rightarrow> k = length (drop ?w d) | Inl e \<Rightarrow> faults s' < faults ?s1" by blast
    have t: "take ?w d @ take k (drop ?w d) = take (?w + k) d" by (simp add: take_add)
    show ?thesis
      by (rule exI [of _ "?w + k"])
        (use k t s1 faults_after(1) [of s] some(3) in \<open>auto split: sum.splits\<close>)
  qed
qed

lemma write_out_ok:
  assumes "write_out t t' p d size_ok s = (Inr u, s')" "file_bytes s p = Some b" "p \<noteq> []"
  shows "fs_root s' = put p (Some (File (b @ d))) (fs_root s)" and "file_bytes s' p = Some (b @ d)"
    and "size_ok (int (length (b @ d)))"
proof -
  from assms(1) obtain s1 s2 where w: "write_loop t p d s = (Inr (), s1)" and c: "sys_check s1 = (Inr (), s2)"
    and rest: "(case file_bytes s2 p of None \<Rightarrow> slift (res_err t') | Some b \<Rightarrow>
       if \<not> size_ok (int (length b)) then slift (res_err t') else sys_check) s2 = (Inr u, s')"
    by (auto simp: write_out_def sbind_ok)
  from write_loop_out [OF w assms(2,3)]
  have 1: "fs_root s1 = put p (Some (File (b @ d))) (fs_root s)" "file_bytes s1 p = Some (b @ d)" by auto
  with c rest show "fs_root s' = put p (Some (File (b @ d))) (fs_root s)" "file_bytes s' p = Some (b @ d)"
    "size_ok (int (length (b @ d)))"
    by (auto simp: sys_check_ok split: if_splits)
qed

lemma write_out_err:
  assumes "write_out t t' p d size_ok s = (Inl e, s')" "file_bytes s p = Some b" "p \<noteq> []"
  shows "\<exists>k \<le> length d. fs_root s' = put p (Some (File (b @ take k d))) (fs_root s)
    \<and> file_bytes s' p = Some (b @ take k d) \<and> (size_ok (int (length (b @ d))) \<longrightarrow> faults s' < faults s)"
proof -
  obtain r1 s1 where w: "write_loop t p d s = (r1, s1)" by fastforce
  from write_loop_out [OF this assms(2,3)] obtain k where k: "k \<le> length d"
    "fs_root s1 = put p (Some (File (b @ take k d))) (fs_root s)" "file_bytes s1 p = Some (b @ take k d)"
    "fewer_faults s s1" "case r1 of Inr u \<Rightarrow> k = length d | Inl e \<Rightarrow> faults s1 < faults s" by blast
  show ?thesis
  proof (cases r1)
    case (Inl e1)
    with w assms(1) have "s' = s1" by (auto simp: write_out_def sbind_def)
    with k Inl show ?thesis by (intro exI [of _ k]) simp
  next
    case (Inr u)
    with k have kd: "k = length d" by simp
    have "sbind sys_check (\<lambda>_. sbind (sget (\<lambda>s. file_bytes s p)) (\<lambda>content.
       case content of None \<Rightarrow> slift (res_err t') | Some b \<Rightarrow>
       if \<not> size_ok (int (length b)) then slift (res_err t') else sys_check)) s1 = (Inl e, s')"
      using assms(1) w Inr by (simp add: write_out_def sbind_def)
    then have "(s' = after_event s1 \<and> next_event s1 = IoFail)
        \<or> (s' = after_event s1 \<and> \<not> size_ok (int (length (b @ d))))
        \<or> (s' = after_event (after_event s1) \<and> next_event (after_event s1) = IoFail)"
      using k(3) kd by (auto simp: sbind_err sys_check_ok sys_check_err split: if_splits)
    then show ?thesis
      using k kd faults_after [of s1] faults_after [of "after_event s1"] by (intro exI [of _ k]) auto
  qed
qed

section \<open>Reading\<close>

lemma CHUNK_pos [simp]: "0 < CHUNK"
  by (simp add: CHUNK_def)

lemma read_chunks_eq:
  "read_chunks n d = (if d \<noteq> [] \<and> MAX_RESOURCE_BYTES < n + length d
     then res_err ''bound resource exceeds size limit'' else Inr d)"
proof (induction n d rule: read_chunks.induct)
  case (1 n d)
  show ?case
  proof (cases "d = [] \<or> MAX_RESOURCE_BYTES < n + length (take CHUNK d)")
    case True
    then show ?thesis by (subst read_chunks.simps) (auto simp: Let_def)
  next
    case False
    let ?n = "n + length (take CHUNK d)" and ?d = "drop CHUNK d"
    have "read_chunks ?n ?d = (if ?d \<noteq> [] \<and> MAX_RESOURCE_BYTES < ?n + length ?d
       then res_err ''bound resource exceeds size limit'' else Inr ?d)"
      by (rule "1.IH" [OF _ refl refl]) (use False in auto)
    moreover have "read_chunks n d = rmap (append (take CHUNK d)) (read_chunks ?n ?d)"
      using False by (subst read_chunks.simps) (simp add: Let_def)
    moreover have "?n + length ?d = n + length d" by simp
    ultimately show ?thesis using False by (auto simp: res_err_def)
  qed
qed

lemma read_descriptor_ok:
  "read_descriptor p s = (Inr d, s') \<Longrightarrow> file_bytes s p = Some b \<Longrightarrow> d = b \<and> same_tree s s' \<and> length d \<le> MAX_RESOURCE_BYTES"
  by (auto simp: read_descriptor_def sbind_ok sys_check_ok read_chunks_eq split: if_splits)

lemma open_file_ok:
  assumes "open_file r s = (Inr p, s')"
  shows "parts r = Inr p \<and> same_tree s s' \<and> (\<exists>b. file_bytes s p = Some b \<and> length b \<le> MAX_RESOURCE_BYTES)"
proof -
  have t: "fs_root s' = fs_root s" using same_open_file assms by (rule keepsD)
  from assms obtain d x s1 where o: "open_parent r s = (Inr (d, x), s1)" and p: "p = d @ [x]"
    and b: "\<exists>b. file_bytes s' p = Some b \<and> length b \<le> MAX_RESOURCE_BYTES"
    by (auto simp: open_file_def sbind_ok Let_def not_less split: option.splits if_splits)
  with open_parent_ok(1) [OF o] t show ?thesis by (auto simp: file_bytes_def node_at_def)
qed

lemma bind_present_ok:
  assumes "bind_present E r s = (Inr b, s')"
  obtains p data where "parts r = Inr p" "file_bytes s p = Some data" "length data \<le> MAX_RESOURCE_BYTES" "same_tree s s'"
    and "b = mk_dict [(''path'', r), (''sha256'', PStr (sha256_hex E data)),
                    (''size'', PInt (int (length data))), (''state'', pstr ''present'')]"
proof -
  from assms obtain p s1 data where o: "open_file r s = (Inr p, s1)" and d: "read_descriptor p s1 = (Inr data, s')"
    and b: "b = mk_dict [(''path'', r), (''sha256'', PStr (sha256_hex E data)),
                    (''size'', PInt (int (length data))), (''state'', pstr ''present'')]"
    by (auto simp: bind_present_def sbind_ok)
  from open_file_ok [OF o] obtain c where c: "parts r = Inr p" "same_tree s s1" "file_bytes s p = Some c" by blast
  then have "file_bytes s1 p = Some c" by (simp add: file_bytes_def node_at_def)
  from read_descriptor_ok [OF d this] c b show ?thesis by (intro that [of p data]) auto
qed

lemma read_bound_ok:
  assumes "read_bound E b s = (Inr data, s')"
  shows "same_tree s s' \<and> length data \<le> MAX_RESOURCE_BYTES
    \<and> dval b ''sha256'' = PStr (sha256_hex E data) \<and> py_eq_int (dval b ''size'') (int (length data))
    \<and> (\<exists>p. parts (dval b ''path'') = Inr p \<and> file_bytes s p = Some data)"
proof -
  from assms obtain p s1 where o: "open_file (dval b ''path'') s = (Inr p, s1)" and d: "read_descriptor p s1 = (Inr data, s')"
    and c: "py_eq_int (dval b ''size'') (int (length data))" "py_eq_str (dval b ''sha256'') (sha256_hex E data)"
    by (auto simp: read_bound_def sbind_ok split: if_splits)
  from open_file_ok [OF o] obtain c where f: "parts (dval b ''path'') = Inr p" "same_tree s s1" "file_bytes s p = Some c" by blast
  then have "file_bytes s1 p = Some c" by (simp add: file_bytes_def node_at_def)
  from read_descriptor_ok [OF d this] f c show ?thesis by (auto simp: py_eq_str_def)
qed

section \<open>Mutating\<close>

lemma sys_open_excl_ok:
  "sys_open_excl p s = (Inr u, s') \<longleftrightarrow>
     next_event s \<noteq> IoFail \<and> node_at s p = None \<and> s' = set_node p (Some (File [])) (after_event s)"
  by (auto simp: sys_open_excl_def sbind_ok sys_check_ok)

lemma sys_open_excl_err: "sys_open_excl p s = (Inl e, s') \<Longrightarrow> same_tree s s'"
  by (auto simp: sys_open_excl_def sbind_err sys_check_ok sys_check_err split: if_splits)

lemma new_file:
  assumes "node_at s p = None" "p = d @ [x]" "node_at s d = Some (Dir m)"
  shows "file_bytes (set_node p (Some (File b)) s) p = Some b"
  using assms by (simp add: file_bytes_at node_at_def at_put_same)

lemma unlink_quiet_ok:
  "faults s = 0 \<Longrightarrow> node_at s p = Some (File b) \<Longrightarrow> fs_root (snd (unlink_quiet p s)) = put p None (fs_root s)"
  using no_faults_event [of s]
  by (auto simp: unlink_quiet_def scatch_def sbind_def sys_unlink_def sys_check_ok next_io_def sys_check_def
      smodify_def sget_def sret_def sraise_def next_event_def after_event_def node_at_def file_bytes_def
      split: list.splits)

text \<open>Creating a file and writing it out, with the rollback: shared by create and write.\<close>

lemma create_and_write:
  fixes v :: "'a"
  assumes p: "p = d @ [x]" "node_at s d = Some (Dir dm)"
  shows "create_out t0 t t' p data v s = (Inr w, s') \<Longrightarrow>
      w = v \<and> node_at s p = None \<and> fs_root s' = put p (Some (File data)) (fs_root s) \<and> node_at s' p = Some (File data)"
    and "create_out t0 t t' p data v s = (Inl e, s') \<Longrightarrow> fs_root s' = fs_root s
      \<or> 2 \<le> faults s \<and> touches p s s'"
proof -
  have pn: "p \<noteq> []" using p by simp
  have excl: "scatch (\<lambda>e. exn_kind_of e = FileExistsError) (\<lambda>_. slift (res_err t0)) (sys_open_excl p) s = (Inr u, s1)
      \<longleftrightarrow> sys_open_excl p s = (Inr u, s1)" for u s1
    by (rule scatch_ok) simp
  let ?s1 = "set_node p (Some (File [])) (after_event s)"
  have open1: "node_at s p = None \<and> file_bytes ?s1 p = Some [] \<and> fs_root ?s1 = put p (Some (File [])) (fs_root s)
      \<and> fewer_faults s ?s1" if "sys_open_excl p s = (Inr u, s1)" for u s1
    using that new_file [of "after_event s" p d x dm "[]"] p faults_after(1) [of s] by (simp add: sys_open_excl_ok)
  show "w = v \<and> node_at s p = None \<and> fs_root s' = put p (Some (File data)) (fs_root s) \<and> node_at s' p = Some (File data)"
    if run: "create_out t0 t t' p data v s = (Inr w, s')"
  proof -
    from run obtain u where o: "sys_open_excl p s = (Inr u, ?s1)"
      and rest: "on_error (unlink_quiet p) (sbind (write_out t t' p data (\<lambda>n. n = int (length data))) (\<lambda>_. sret v)) ?s1 = (Inr w, s')"
      unfolding create_out_def sbind_ok excl by (auto simp: sys_open_excl_ok)
    have "sbind (write_out t t' p data (\<lambda>n. n = int (length data))) (\<lambda>_. sret v) ?s1 = (Inr w, s')"
    proof -
      have "on_error c n s2 = (Inr w, s') \<Longrightarrow> n s2 = (Inr w, s')" for c and n :: "'a fs" and s2
        unfolding on_error_def by (subst (asm) scatch_ok) (auto simp: sbind_ok)
      with rest show ?thesis by blast
    qed
    then obtain u2 where "write_out t t' p data (\<lambda>n. n = int (length data)) ?s1 = (Inr u2, s')" "w = v"
      by (auto simp: sbind_ok)
    with write_out_ok [OF this(1) _ pn] open1 [OF o] show ?thesis by (simp add: file_bytes_at)
  qed
  show "fs_root s' = fs_root s
      \<or> 2 \<le> faults s \<and> touches p s s'"
    if run: "create_out t0 t t' p data v s = (Inl e, s')"
  proof (cases "sys_open_excl p s")
    case (Pair r1 s1)
    show ?thesis
    proof (cases r1)
      case (Inl e1)
      with Pair run have "s' = s1" unfolding create_out_def sbind_def scatch_def by (auto simp: slift_def res_err_def split: if_splits)
      with sys_open_excl_err Pair Inl show ?thesis by blast
    next
      case (Inr u)
      with Pair have o: "sys_open_excl p s = (Inr u, s1)" by simp
      then have s1: "s1 = ?s1" by (simp add: sys_open_excl_ok)
      have rest: "on_error (unlink_quiet p) (sbind (write_out t t' p data (\<lambda>n. n = int (length data))) (\<lambda>_. sret v)) ?s1 = (Inl e, s')"
        using run o s1 unfolding create_out_def sbind_def scatch_def by simp
      let ?wo = "write_out t t' p data (\<lambda>n. n = int (length data))"
      obtain e2 s2 where w: "?wo ?s1 = (Inl e2, s2)"
        and u: "s' = snd (unlink_quiet p s2)"
      proof (cases "?wo ?s1")
        case (Pair r2 s2)
        with rest that show ?thesis
          by (cases r2) (auto simp: on_error_def scatch_def sbind_def sret_def sraise_def split: prod.splits sum.splits)
      qed
      note o1 = open1 [OF o]
      from write_out_err [OF w _ pn] o1 obtain k where k: "k \<le> length data"
        "fs_root s2 = put p (Some (File (take k data))) (fs_root ?s1)" "file_bytes s2 p = Some (take k data)" "faults s2 < faults ?s1"
        by auto
      show ?thesis
      proof (cases "faults s2 = 0")
        case True
        then have "fs_root s' = put p None (fs_root s2)"
          using unlink_quiet_ok k(3) u by (simp add: file_bytes_at)
        also have "\<dots> = put p None (fs_root s)" using k(2) o1 by simp
        also have "\<dots> = fs_root s" using o1 by (intro put_None) (simp add: node_at_def)
        finally show ?thesis ..
      next
        case False
        with k(4) o1 have f: "2 \<le> faults s" by linarith
        have "touches p s s2" using k(2) o1 by (auto simp: touches_def)
        moreover have "touches p s2 s'" using keepsD [OF touches_unlink_quiet, of p s2] u by (metis prod.collapse)
        ultimately have "touches p s s'" using preorder_touches [of p] by (auto simp: preorder_rel_def elim: transpE)
        with f show ?thesis by simp
      qed
    qed
  qed
qed

lemma create_bound_ok:
  assumes "create_bound E b data s = (Inr v, s')"
  shows "\<exists>p. parts (dval b ''path'') = Inr p \<and> node_at s p = None \<and> fs_root s' = put p (Some (File data)) (fs_root s)
    \<and> node_at s' p = Some (File data) \<and> v = PStr (sha256_hex E data) \<and> dval b ''post_sha256'' = v
    \<and> py_eq_int (dval b ''post_size'') (int (length data)) \<and> length data \<le> MAX_RESOURCE_BYTES"
proof -
  from assms obtain d x s1 where c: "py_eq_int (dval b ''post_size'') (int (length data))"
      "py_eq_str (dval b ''post_sha256'') (sha256_hex E data)" "length data \<le> MAX_RESOURCE_BYTES"
    and o: "open_parent (dval b ''path'') s = (Inr (d, x), s1)"
    and r: "create_out ''create target appeared after authorization'' ''short write while creating resource''
       ''created resource verification failed'' (d @ [x]) data (PStr (sha256_hex E data)) s1 = (Inr v, s')"
    by (auto simp: create_bound_def Let_def sbind_ok not_less split: if_splits)
  note o' = open_parent_ok [OF o]
  then obtain m where m: "node_at s1 d = Some (Dir m)" by (auto simp: node_at_def)
  from create_and_write(1) [OF refl m r] o' c show ?thesis by (auto simp: node_at_def py_eq_str_def)
qed

lemma create_bound_err:
  assumes "create_bound E b data s = (Inl e, s')"
  shows "fs_root s' = fs_root s \<or> 2 \<le> faults s"
proof (cases "open_parent (dval b ''path'') s")
  case (Pair r s1)
  have f: "fewer_faults s s1" using keepsD [OF fewer_open_parent Pair] .
  have t: "same_tree s s1" using keepsD [OF same_open_parent Pair] .
  show ?thesis
  proof (cases "s' = s \<or> s' = s1")
    case True
    with t show ?thesis by auto
  next
    case False
    with assms Pair obtain d x where o: "open_parent (dval b ''path'') s = (Inr (d, x), s1)"
      and r: "create_out ''create target appeared after authorization'' ''short write while creating resource''
       ''created resource verification failed'' (d @ [x]) data (PStr (sha256_hex E data)) s1 = (Inl e, s')"
      by (auto simp: create_bound_def Let_def sbind_err split: if_splits)
    note o' = open_parent_ok [OF o]
    then obtain m where m: "node_at s1 d = Some (Dir m)" by (auto simp: node_at_def)
    from create_and_write(2) [OF refl m r] f t show ?thesis by auto
  qed
qed

lemma open_bound_ok:
  assumes "open_bound E t t' b p s = (Inr u, s')"
  shows "same_tree s s' \<and> (\<exists>old. file_bytes s p = Some old \<and> dval b ''pre_sha256'' = PStr (sha256_hex E old)
    \<and> py_eq_int (dval b ''pre_size'') (int (length old)))"
proof -
  from assms obtain s1 old d s2 where 1: "sys_open_rdwr p s = (Inr (), s1)" "file_bytes s1 p = Some old"
    "read_descriptor p s1 = (Inr d, s2)" and c: "py_eq_int (dval b ''pre_size'') (int (length d))"
    "py_eq_str (dval b ''pre_sha256'') (sha256_hex E d)" "s' = s2"
    by (auto simp: open_bound_def sbind_ok split: option.splits if_splits)
  have "same_tree s s1" using keepsD [OF same_opens(3) 1(1)] .
  with read_descriptor_ok [OF 1(3,2)] 1 c show ?thesis
    by (auto simp: py_eq_str_def file_bytes_def node_at_def)
qed

definition pre_absent :: "pydict \<Rightarrow> bool" where
  "pre_absent b \<longleftrightarrow> py_is_str (dval b ''pre_state'') ''absent''"

lemma write_bound_ok:
  assumes "write_bound E b data s = (Inr v, s')"
  shows "\<exists>p. parts (dval b ''path'') = Inr p \<and> fs_root s' = put p (Some (File data)) (fs_root s)
    \<and> node_at s' p = Some (File data) \<and> v = PStr (sha256_hex E data) \<and> dval b ''post_sha256'' = v
    \<and> (if pre_absent b then node_at s p = None
       else \<exists>old. node_at s p = Some (File old) \<and> dval b ''pre_sha256'' = PStr (sha256_hex E old)
              \<and> py_eq_int (dval b ''pre_size'') (int (length old)))"
proof -
  let ?out = "write_out ''short write while writing resource'' ''written resource verification failed''"
  from assms obtain d x s1 where c: "py_eq_str (dval b ''post_sha256'') (sha256_hex E data)"
    and o: "open_parent (dval b ''path'') s = (Inr (d, x), s1)"
    and r: "(if py_is_str (dval b ''pre_state'') ''absent'' then
            sbind sys_check (\<lambda>_. sbind (sget (\<lambda>s. node_at s (d @ [x]))) (\<lambda>n.
            if n \<noteq> None then slift (res_err ''write target appeared after authorization'')
            else create_out ''write target appeared after authorization'' ''short write while writing resource''
                   ''written resource verification failed'' (d @ [x]) data (PStr (sha256_hex E data))))
          else
            sbind (open_bound E ''write target is not a regular file'' ''write target changed after authorization'' b (d @ [x])) (\<lambda>_.
            sbind sys_check (\<lambda>_. sbind (smodify (set_node (d @ [x]) (Some (File [])))) (\<lambda>_.
            sbind (?out (d @ [x]) data (\<lambda>n. n = int (length data))) (\<lambda>_. sret (PStr (sha256_hex E data))))))) s1 = (Inr v, s')"
    by (auto simp: write_bound_def Let_def sbind_ok split: if_splits)
  note o' = open_parent_ok [OF o]
  then obtain m where m: "node_at s1 d = Some (Dir m)" by (auto simp: node_at_def)
  show ?thesis
  proof (cases "pre_absent b")
    case True
    with r have w: "create_out ''write target appeared after authorization'' ''short write while writing resource''
         ''written resource verification failed'' (d @ [x]) data (PStr (sha256_hex E data)) (after_event s1) = (Inr v, s')"
      by (auto simp: pre_absent_def sbind_ok sys_check_ok split: if_splits)
    have "node_at (after_event s1) d = Some (Dir m)" using m by simp
    from create_and_write(1) [OF refl this w] o' c True show ?thesis by (auto simp: node_at_def py_eq_str_def)
  next
    case False
    with r obtain s2 s3 u where ob: "open_bound E ''write target is not a regular file'' ''write target changed after authorization'' b (d @ [x]) s1 = (Inr u, s2)"
      and s3: "s3 = set_node (d @ [x]) (Some (File [])) (after_event s2)"
      and w: "\<exists>u. ?out (d @ [x]) data (\<lambda>n. n = int (length data)) s3 = (Inr u, s')" and v: "v = PStr (sha256_hex E data)"
      by (auto simp: pre_absent_def sbind_ok sys_check_ok)
    from open_bound_ok [OF ob] obtain old where old: "same_tree s1 s2" "file_bytes s1 (d @ [x]) = Some old"
      "dval b ''pre_sha256'' = PStr (sha256_hex E old)" "py_eq_int (dval b ''pre_size'') (int (length old))" by blast
    have at2: "at (fs_root s2) (d @ [x]) = Some (File old)" using old(1,2) by (simp add: file_bytes_at node_at_def)
    then have "file_bytes s3 (d @ [x]) = Some []" unfolding s3 file_bytes_at node_at_def by (simp add: at_put_file)
    with w write_out_ok [of _ _ "d @ [x]" data _ s3 _ s' "[]"] have "fs_root s' = put (d @ [x]) (Some (File data)) (fs_root s3)"
      "file_bytes s' (d @ [x]) = Some data" by auto
    then have "fs_root s' = put (d @ [x]) (Some (File data)) (fs_root s)" "node_at s' (d @ [x]) = Some (File data)"
      using s3 old(1) o' by (simp_all add: file_bytes_at)
    moreover have "node_at s (d @ [x]) = Some (File old)" using old(2) o' by (simp add: file_bytes_at node_at_def)
    ultimately show ?thesis using o' c v False old(3,4) by (auto simp: py_eq_str_def)
  qed
qed

lemma append_bound_ok:
  assumes "append_bound E b data s = (Inr v, s')"
  shows "\<exists>p old. parts (dval b ''path'') = Inr p \<and> node_at s p = Some (File old)
    \<and> fs_root s' = put p (Some (File (old @ data))) (fs_root s) \<and> node_at s' p = Some (File (old @ data))
    \<and> v = dval b ''post_sha256'' \<and> dval b ''pre_sha256'' = PStr (sha256_hex E old)
    \<and> py_eq_int (dval b ''pre_size'') (int (length old)) \<and> py_eq_int (dval b ''post_size'') (int (length (old @ data)))"
proof -
  have h: "scatch (\<lambda>e. exn_kind_of e = FileNotFoundError) (\<lambda>_. slift (res_err ''append target is missing'')) m s
      = (Inr v, s') \<longleftrightarrow> m s = (Inr v, s')" for m :: "pyval fs" and s
    by (rule scatch_ok) simp
  from assms obtain d x s1 s2 u where o: "open_parent (dval b ''path'') s = (Inr (d, x), s1)"
    and ob: "open_bound E ''append target is not a regular file'' ''append target changed after authorization'' b (d @ [x]) s1 = (Inr u, s2)"
    and w: "\<exists>u. write_out ''short write while appending resource'' ''appended resource verification failed''
              (d @ [x]) data (py_eq_int (dval b ''post_size'')) s2 = (Inr u, s')" and v: "v = dval b ''post_sha256''"
    by (auto simp: append_bound_def Let_def sbind_ok h split: if_splits)
  note o' = open_parent_ok [OF o]
  from open_bound_ok [OF ob] obtain old where old: "same_tree s1 s2" "file_bytes s1 (d @ [x]) = Some old"
    "dval b ''pre_sha256'' = PStr (sha256_hex E old)" "py_eq_int (dval b ''pre_size'') (int (length old))" by blast
  have "file_bytes s2 (d @ [x]) = Some old" using old(1,2) by (simp add: file_bytes_at node_at_def)
  with w write_out_ok [of _ _ "d @ [x]" data _ s2 _ s' old]
  have "fs_root s' = put (d @ [x]) (Some (File (old @ data))) (fs_root s)" "node_at s' (d @ [x]) = Some (File (old @ data))"
    "py_eq_int (dval b ''post_size'') (int (length (old @ data)))"
    using old(1) o' by (auto simp: file_bytes_at)
  moreover have "node_at s (d @ [x]) = Some (File old)" using old(2) o' by (simp add: file_bytes_at node_at_def)
  ultimately show ?thesis using o' v old(3,4) by blast
qed

lemma touches_create_out [keeps_intro]: "keeps (touches p) (create_out t t' t'' p d v)"
  unfolding create_out_def by (intro keeps_intro preorder_touches)

lemma mutation_touches:
  assumes "keeps same_tree m0" and "\<And>d x. parts r = Inr (d @ [x]) \<Longrightarrow> keeps (touches (d @ [x])) (f (d, x))"
    and run: "sbind (open_parent r) f s = (w, s')"
  shows "(case parts r of Inl e \<Rightarrow> fs_root s' = fs_root s | Inr p \<Rightarrow> touches p s s')"
  using run
proof (cases rule: sbind_cases)
  case (err e)
  with keepsD [OF same_open_parent] show ?thesis by (auto simp: touches_def split: sum.split)
next
  case (ok dx s1)
  obtain d x where dx: "dx = (d, x)" by fastforce
  note o = open_parent_ok [OF ok(1) [unfolded dx]]
  from keepsD [OF assms(2) [OF o(1)] ok(2) [unfolded dx]] o(1,2) show ?thesis by (auto simp: touches_def)
qed

definition at_target :: "pydict \<Rightarrow> fsys \<Rightarrow> fsys \<Rightarrow> bool" where
  "at_target b s s' \<longleftrightarrow> (case bound_target b of None \<Rightarrow> fs_root s' = fs_root s | Some p \<Rightarrow> touches p s s')"

lemma preorder_at_target [simp]: "preorder_rel (at_target b)"
  using preorder_touches by (cases "bound_target b") (auto simp: at_target_def preorder_rel_def reflp_def transp_def)

lemma at_target_open_parent:
  assumes "\<And>d x. bound_target b = Some (d @ [x]) \<Longrightarrow> keeps (touches (d @ [x])) (f (d, x))"
  shows "keeps (at_target b) (sbind (open_parent (dval b ''path'')) f)"
proof (rule keepsI)
  fix s r s' assume "sbind (open_parent (dval b ''path'')) f s = (r, s')"
  from mutation_touches [OF same_sys_check _ this] assms
  show "at_target b s s'" by (auto simp: at_target_def bound_target_def split: sum.splits)
qed

lemma at_target_create: "keeps (at_target b) (create_bound E b data)"
  unfolding create_bound_def Let_def
  by (intro keeps_if keeps_pure preorder_at_target at_target_open_parent, unfold prod.case,
      intro keeps_intro preorder_touches keeps_touches [OF same_sys_check] keeps_touches [OF same_binds(6)])

lemma at_target_write: "keeps (at_target b) (write_bound E b data)"
  unfolding write_bound_def Let_def
  by (intro keeps_if keeps_pure preorder_at_target at_target_open_parent, unfold prod.case,
      intro keeps_intro preorder_touches keeps_touches [OF same_sys_check] keeps_touches [OF same_binds(6)])

lemma at_target_append: "keeps (at_target b) (append_bound E b data)"
  unfolding append_bound_def Let_def
  by (intro keeps_if keeps_pure preorder_at_target at_target_open_parent, unfold prod.case,
      intro keeps_intro preorder_touches keeps_touches [OF same_sys_check] keeps_touches [OF same_binds(6)])

interpretation creating: bounded_mutation bound_target "create_bound"
  by unfold_locales (use keepsD [OF at_target_create] in \<open>force simp: at_target_def\<close>)+

interpretation writing: bounded_mutation bound_target "write_bound"
  by unfold_locales (use keepsD [OF at_target_write] in \<open>force simp: at_target_def\<close>)+

interpretation appending: bounded_mutation bound_target "append_bound"
  by unfold_locales (use keepsD [OF at_target_append] in \<open>force simp: at_target_def\<close>)+

section \<open>Rolling back\<close>

lemma remove_created_cases:
  assumes "remove_created E b h s = (r, s')"
  shows "(fs_root s' = fs_root s \<and> r \<noteq> Inr True)
    \<or> (\<exists>p data. parts (dval b ''path'') = Inr p \<and> node_at s p = Some (File data) \<and> h = PStr (sha256_hex E data)
        \<and> dget b ''post_sha256'' = Some h \<and> fs_root s' = put p None (fs_root s))"
proof (cases "dget b ''state'' \<noteq> Some (pstr ''absent'') \<or> dget b ''post_sha256'' \<noteq> Some h")
  case True
  with assms show ?thesis by (auto simp: remove_created_def)
next
  case False
  let ?body = "\<lambda>path. scatch is_os_error (\<lambda>_. sret False)
          (sbind (sys_open_read path) (\<lambda>_. sbind (sget (\<lambda>s. file_bytes s path)) (\<lambda>content.
           if content = None then sret False
           else sbind (read_descriptor path) (\<lambda>data.
             if \<not> py_eq_int (dval b ''post_size'') (int (length data)) \<or> h \<noteq> PStr (sha256_hex E data)
             then sret False else sbind (sys_unlink path) (\<lambda>_. sbind sys_check (\<lambda>_. sret True))))))"
  from False assms have "sbind (open_parent (dval b ''path'')) (\<lambda>(parent, name). ?body (parent @ [name])) s = (r, s')"
    by (simp add: remove_created_def Let_def)
  then show ?thesis
  proof (cases rule: sbind_cases)
    case (err e)
    with keepsD [OF same_open_parent] show ?thesis by auto
  next
    case (ok dx s1)
    obtain d x where dx: "dx = (d, x)" by fastforce
    let ?p = "d @ [x]"
    note o = open_parent_ok [OF ok(1) [unfolded dx]]
    have run: "?body ?p s1 = (r, s')" using ok(2) dx by simp
    let ?inner = "sbind (sys_open_read ?p) (\<lambda>_. sbind (sget (\<lambda>s. file_bytes s ?p)) (\<lambda>content.
           if content = None then sret False
           else sbind (read_descriptor ?p) (\<lambda>data.
             if \<not> py_eq_int (dval b ''post_size'') (int (length data)) \<or> h \<noteq> PStr (sha256_hex E data)
             then sret False else sbind (sys_unlink ?p) (\<lambda>_. sbind sys_check (\<lambda>_. sret True)))))"
    obtain q s2 where i: "?inner s1 = (q, s2)" by fastforce
    with run have s': "s' = s2" and r: "r = Inr True \<longrightarrow> q = Inr True"
      by (auto simp: scatch_def split: sum.splits if_splits)
    have step: "(fs_root s2 = fs_root s1 \<and> q \<noteq> Inr True)
      \<or> (\<exists>data. node_at s1 ?p = Some (File data) \<and> h = PStr (sha256_hex E data) \<and> fs_root s2 = put ?p None (fs_root s1))"
      using i
    proof (cases rule: sbind_cases)
      case (err e)
      with keepsD [OF same_opens(2)] show ?thesis by auto
    next
      case (ok u s3)
      have t3: "same_tree s1 s3" using keepsD [OF same_opens(2) ok(1)] .
      show ?thesis
      proof (cases "file_bytes s3 ?p")
        case None
        with ok(2) t3 show ?thesis by (auto simp: sbind_def sget_def)
      next
        case (Some c)
        with ok(2) have "sbind (read_descriptor ?p) (\<lambda>data.
             if \<not> py_eq_int (dval b ''post_size'') (int (length data)) \<or> h \<noteq> PStr (sha256_hex E data)
             then sret False else sbind (sys_unlink ?p) (\<lambda>_. sbind sys_check (\<lambda>_. sret True))) s3 = (q, s2)"
          by (simp add: sbind_def sget_def)
        then show ?thesis
        proof (cases rule: sbind_cases)
          case (err e)
          with keepsD [OF same_read_descriptor] t3 show ?thesis by auto
        next
          case (ok data s4)
          with read_descriptor_ok [OF ok(1) Some] have 4: "data = c" "same_tree s3 s4" by auto
          have at: "node_at s1 ?p = Some (File c)" using Some t3 by (simp add: file_bytes_at node_at_def)
          show ?thesis
          proof (cases "\<not> py_eq_int (dval b ''post_size'') (int (length data)) \<or> h \<noteq> PStr (sha256_hex E data)")
            case True
            with ok(2) 4 t3 show ?thesis by auto
          next
            case match: False
            with ok(2) have u: "sbind (sys_unlink ?p) (\<lambda>_. sbind sys_check (\<lambda>_. sret True)) s4 = (q, s2)" by simp
            have "fs_root s2 = fs_root s4 \<and> q \<noteq> Inr True \<or> fs_root s2 = put ?p None (fs_root s4)"
              using u
            proof (cases rule: sbind_cases)
              case (err e)
              then show ?thesis
                by (auto simp: sys_unlink_def sbind_err sys_check_ok sys_check_err split: option.splits fsnode.splits)
            next
              case (ok u5 s5)
              then have "fs_root s5 = put ?p None (fs_root s4)"
                by (auto simp: sys_unlink_def sbind_ok sys_check_ok split: option.splits fsnode.splits)
              with ok(2) show ?thesis
                by (cases q) (auto simp: sbind_ok sbind_err sys_check_ok sys_check_err)
            qed
            with at match 4 t3 show ?thesis by auto
          qed
        qed
      qed
    qed
    have "node_at s1 ?p = node_at s ?p" using o(2) by (simp add: node_at_def)
    with step s' r o(1,2) False show ?thesis by auto
  qed
qed

lemma at_target_remove: "keeps (at_target b) (remove_created E b h)"
proof (rule keepsI)
  fix s r s' assume "remove_created E b h s = (r, s')"
  from remove_created_cases [OF this] show "at_target b s s'"
    by (auto simp: at_target_def bound_target_def touches_def split: sum.split)
qed

interpretation removing: bounded_mutation bound_target "remove_created"
  by unfold_locales (use keepsD [OF at_target_remove] in \<open>force simp: at_target_def\<close>)+

text \<open>What the executor does to the tree, one bound operation at a time.\<close>

inductive fs_step :: "pydict \<Rightarrow> fsys \<Rightarrow> fsys \<Rightarrow> bool" for b where
  created: "create_bound E b data s = (r, s') \<Longrightarrow> fs_step b s s'"
| written: "write_bound E b data s = (r, s') \<Longrightarrow> fs_step b s s'"
| appended: "append_bound E b data s = (r, s') \<Longrightarrow> fs_step b s s'"
| removed: "remove_created E b h s = (r, s') \<Longrightarrow> fs_step b s s'"
| observed: "read_bound E b s = (r, s') \<Longrightarrow> fs_step b s s'"

inductive_cases fs_stepE: "fs_step b s s'"

lemma fs_step_elsewhere:
  assumes "fs_step b s s'" and "\<And>p. bound_target b = Some p \<Longrightarrow> \<not> prefix p q \<and> \<not> prefix q p"
  shows "node_at s' q = node_at s q"
  using assms(1)
proof (cases rule: fs_step.cases)
  case created
  from creating.elsewhere [OF this assms(2)] show ?thesis .
next
  case written
  from writing.elsewhere [OF this assms(2)] show ?thesis .
next
  case appended
  from appending.elsewhere [OF this assms(2)] show ?thesis .
next
  case removed
  from removing.elsewhere [OF this assms(2)] show ?thesis .
next
  case observed
  from keepsD [OF same_binds(3) this] show ?thesis by (simp add: node_at_def)
qed

section \<open>Properties\<close>

definition sample_fs :: fsys where
  "sample_fs = \<lparr>fs_root = Dir (Map.empty(U ''f'' \<mapsto> File ''ab'')), io = []\<rparr>"

lemmas fs_eval = parts_def posix_parts_def dotty_def open_parent_def open_file_def sys_open_dir_def
  sys_open_read_def sys_open_rdwr_def sys_open_excl_def sys_check_def next_io_def op_defs node_at_def file_bytes_def set_node_def
  read_descriptor_def read_chunks_eq MAX_RESOURCE_BYTES_def utf8_encode_def utf8_char_def is_scalar_def is_surrogate_def
  pstr_def Let_def write_out_def write_loop.simps add_bytes_def on_error_def

text \<open>
  Resource paths are confined. A path the guard accepts is a string of at most 4096 UTF-8
  bytes that splits at its slashes into 1 to 32 nonempty components, none of which is a dot or
  two dots or holds a slash, a backslash or a NUL; joining them gives the string back, so no two
  accepted strings name one file.
\<close>

lemma path_confined:
  assumes "parts r = Inr ps"
  shows "(\<exists>s. r = PStr s \<and> ps = split_on 47 s \<and> join_with 47 ps = s
      \<and> (\<exists>encoded. utf8_encode s = Inr encoded \<and> length encoded \<le> 4096))
    \<and> 1 \<le> length ps \<and> length ps \<le> 32
    \<and> (\<forall>p \<in> set ps. p \<noteq> [] \<and> p \<noteq> U ''.'' \<and> p \<noteq> U ''..'' \<and> 47 \<notin> set p \<and> 92 \<notin> set p \<and> 0 \<notin> set p)
    \<and> (\<forall>r'. parts r' = Inr ps \<longrightarrow> r' = r)"
proof -
  from assms obtain s where s: "r = PStr s" "ps = split_on 47 s" "join_with 47 ps = s" "ps \<noteq> []" "length ps \<le> 32"
    "\<forall>p \<in> set ps. \<not> dotty p \<and> 47 \<notin> set p \<and> 92 \<notin> set p \<and> 0 \<notin> set p"
    "\<exists>encoded. utf8_encode s = Inr encoded \<and> length encoded \<le> 4096" by (rule parts_ok)
  have "r' = r" if "parts r' = Inr ps" for r'
    using that s(1,3) by (auto elim!: parts_ok)
  with s show ?thesis by (auto simp: dotty_def Suc_le_eq)
qed

text \<open>
  C36: No time-of-check gap on reads. Let a path be bound while it held some content, and let the
  tree change in any way afterwards: a bound read either raises or returns the very bytes that the
  regular file at that path holds at the moment of the read. They have the length and the SHA-256
  digest of the bytes that were bound, so they are the bound bytes unless these two very contents are
  a collision. Neither operation changes the tree.
\<close>

theorem read_bound_integrity:
  assumes "bind_present E r s = (Inr b, s1)" and "read_bound E b t = (Inr data, t1)"
  shows "\<exists>p old. parts r = Inr p \<and> node_at s p = Some (File old) \<and> node_at t p = Some (File data)
    \<and> sha256 E data = sha256 E old \<and> length data = length old \<and> (data = old \<or> collides E data old)
    \<and> fs_root s1 = fs_root s \<and> fs_root t1 = fs_root t"
proof -
  from assms(1) obtain p old where b: "parts r = Inr p" "file_bytes s p = Some old" "same_tree s s1"
    and bd: "b = mk_dict [(''path'', r), (''sha256'', PStr (sha256_hex E old)),
                    (''size'', PInt (int (length old))), (''state'', pstr ''present'')]"
    by (rule bind_present_ok)
  from read_bound_ok [OF assms(2)] bd b have "same_tree t t1" "sha256_hex E old = sha256_hex E data"
    "length data = length old" "file_bytes t p = Some data"
    by (auto simp: py_eq_int_def)
  moreover from this(2) have "sha256 E data = sha256 E old" "data = old \<or> collides E data old"
    by (auto simp: sha256_hex_eq_iff collides_def)
  ultimately show ?thesis using b by (auto simp: file_bytes_at)
qed

theorem read_bound_integrity_witness:
  "\<exists>b s1 t1. bind_present demo_platform (pstr ''f'') sample_fs = (Inr b, s1)
     \<and> read_bound demo_platform b sample_fs = (Inr ''ab'', t1) \<and> fs_root t1 = fs_root sample_fs"
proof -
  obtain b where b: "bind_present demo_platform (pstr ''f'') sample_fs = (Inr b, sample_fs)"
    and r: "read_bound demo_platform b sample_fs = (Inr ''ab'', sample_fs)"
    by (simp add: bind_present_def read_bound_def sample_fs_def fs_eval U_def has_keys_def py_is_str_def py_eq_str_def)
  from read_bound_integrity [OF b r] b r show ?thesis by blast
qed

text \<open>
  C37: Creation is exact and rolled back. A bound create that succeeds found nothing at the bound
  path, put a file with exactly the given bytes there, whose digest and length are the bound ones,
  and changed nothing else. One that raises leaves the tree as it was, unless at least two system
  calls failed (the one that made it raise and the rollback's own).
\<close>

theorem create_bound_exact:
  shows "(create_bound E b data s = (Inr v, s') \<longrightarrow>
      (\<exists>p. parts (dval b ''path'') = Inr p \<and> node_at s p = None
         \<and> fs_root s' = put p (Some (File data)) (fs_root s) \<and> node_at s' p = Some (File data)
         \<and> v = PStr (sha256_hex E data) \<and> dval b ''post_sha256'' = v \<and> length data \<le> MAX_RESOURCE_BYTES))
    \<and> (create_bound E b data s = (Inl e, s') \<longrightarrow> fs_root s' = fs_root s \<or> 2 \<le> faults s)"
  using create_bound_ok [of E b data s v s'] create_bound_err [of E b data s e s'] by blast

definition sample_create :: pydict where
  "sample_create = mk_dict [(''path'', pstr ''g''), (''post_sha256'', PStr (sha256_hex demo_platform ''x'')),
     (''post_size'', PInt 1), (''state'', pstr ''absent'')]"

theorem create_bound_exact_witness:
  "\<exists>v s' e s2. create_bound demo_platform sample_create ''x'' sample_fs = (Inr v, s') \<and> node_at s' [U ''g''] = Some (File ''x'')
     \<and> create_bound demo_platform sample_create ''x'' (sample_fs\<lparr>io := [IoOk, IoOk, IoFail]\<rparr>) = (Inl e, s2)
     \<and> fs_root s2 = fs_root sample_fs"
proof -
  obtain v s' where c: "create_bound demo_platform sample_create ''x'' sample_fs = (Inr v, s')"
    by (simp add: create_bound_def create_out_def sample_create_def sample_fs_def fs_eval U_def has_keys_def py_is_str_def py_eq_str_def)
  have p: "parts (dval sample_create ''path'') = Inr [U ''g'']"
    by (simp add: sample_create_def fs_eval U_def)
  obtain e s2 where e: "create_bound demo_platform sample_create ''x'' (sample_fs\<lparr>io := [IoOk, IoOk, IoFail]\<rparr>) = (Inl e, s2)"
    by (simp add: create_bound_def create_out_def sample_create_def sample_fs_def fs_eval U_def has_keys_def py_is_str_def py_eq_str_def
        unlink_quiet_def sys_unlink_def)
  have "faults (sample_fs\<lparr>io := [IoOk, IoOk, IoFail]\<rparr>) = 1" by (simp add: faults_def)
  with create_bound_exact [of demo_platform sample_create "''x''" "sample_fs\<lparr>io := [IoOk, IoOk, IoFail]\<rparr>" _ s2 e] e
  have "fs_root s2 = fs_root sample_fs" by simp
  with create_bound_exact [of demo_platform sample_create "''x''" sample_fs v s'] c p e show ?thesis by auto
qed

text \<open>
  C24: Writes and appends compare before they swap. A bound write that succeeds found exactly the
  bound pre-state (no file, or a file whose digest and length are the bound ones) and leaves exactly the given
  bytes, whose digest is the bound one; a bound append that succeeds found the bound pre-state and
  leaves it extended by exactly the given bytes. Nothing else in the tree changes.
\<close>

theorem write_append_exact:
  "(write_bound E b data s = (Inr v, s') \<longrightarrow>
      (\<exists>p. parts (dval b ''path'') = Inr p \<and> fs_root s' = put p (Some (File data)) (fs_root s)
        \<and> node_at s' p = Some (File data) \<and> v = PStr (sha256_hex E data) \<and> dval b ''post_sha256'' = v
        \<and> (if py_is_str (dval b ''pre_state'') ''absent'' then node_at s p = None
           else \<exists>old. node_at s p = Some (File old) \<and> dval b ''pre_sha256'' = PStr (sha256_hex E old)
              \<and> py_eq_int (dval b ''pre_size'') (int (length old)))))
    \<and> (append_bound E b data s = (Inr v, s') \<longrightarrow>
      (\<exists>p old. parts (dval b ''path'') = Inr p \<and> node_at s p = Some (File old)
        \<and> fs_root s' = put p (Some (File (old @ data))) (fs_root s) \<and> node_at s' p = Some (File (old @ data))
        \<and> v = dval b ''post_sha256'' \<and> dval b ''pre_sha256'' = PStr (sha256_hex E old)
        \<and> py_eq_int (dval b ''post_size'') (int (length (old @ data)))))"
  using write_bound_ok [of E b data s v s'] append_bound_ok [of E b data s v s']
  by (simp add: pre_absent_def) blast

definition sample_write :: "bytes \<Rightarrow> bytes \<Rightarrow> pydict" where
  "sample_write old new = mk_dict [(''path'', pstr ''f''), (''post_sha256'', PStr (sha256_hex demo_platform new)),
     (''post_size'', PInt (int (length new))), (''pre_sha256'', PStr (sha256_hex demo_platform old)),
     (''pre_size'', PInt (int (length old))), (''pre_state'', pstr ''present''), (''state'', pstr ''write'')]"

text \<open>An error after the truncation: the operation raises and the old content is gone.\<close>

lemma write_fails_truncated:
  "\<exists>e s'. write_bound demo_platform (sample_write ''ab'' ''x'') ''x'' (sample_fs\<lparr>io := [IoOk, IoOk, IoOk, IoOk, IoFail]\<rparr>)
      = (Inl e, s') \<and> node_at s' [U ''f''] = Some (File [])"
  by (simp add: write_bound_def open_bound_def sample_write_def write_keys_def sample_fs_def fs_eval U_def
      has_keys_def py_is_str_def py_eq_str_def hashable_def)

theorem write_append_exact_witness:
  "\<exists>v s'. write_bound demo_platform (sample_write ''ab'' ''x'') ''x'' sample_fs = (Inr v, s')
     \<and> node_at s' [U ''f''] = Some (File ''x'')"
proof -
  obtain v s' where w: "write_bound demo_platform (sample_write ''ab'' ''x'') ''x'' sample_fs = (Inr v, s')"
    by (simp add: write_bound_def open_bound_def sample_write_def write_keys_def sample_fs_def fs_eval U_def
        has_keys_def py_is_str_def py_eq_str_def hashable_def)
  have p: "parts (dval (sample_write ''ab'' ''x'') ''path'') = Inr [U ''f'']"
    by (simp add: sample_write_def fs_eval U_def)
  from write_append_exact [of demo_platform "sample_write ''ab'' ''x''" "''x''" sample_fs v s'] w p show ?thesis by auto
qed

text \<open>
  C38: Effects stay where they were bound. Whatever bound operations are run with bindings of a set, in
  any order, with any payloads and outcomes (rollbacks and interrupted writes included), an entry of the tree that is
  neither at, above nor below a path of these bindings is what it was.
\<close>

theorem effects_confined:
  assumes "(\<lambda>s s'. \<exists>b \<in> B. fs_step b s s')\<^sup>*\<^sup>* s s'"
    and "\<forall>b p. b \<in> B \<and> parts (dval b ''path'') = Inr p \<longrightarrow> \<not> prefix p q \<and> \<not> prefix q p"
  shows "node_at s' q = node_at s q"
  using assms(1)
proof (induction rule: rtranclp_induct)
  case (step y z)
  then obtain b where b: "b \<in> B" "fs_step b y z" by blast
  have "bound_target b = Some p \<Longrightarrow> \<not> prefix p q \<and> \<not> prefix q p" for p
    using assms(2) b(1) by (auto simp: bound_target_def split: sum.splits)
  from fs_step_elsewhere [OF b(2) this] step.IH show ?case by simp
qed simp

theorem effects_confined_witness:
  "\<exists>s'. fs_step sample_create sample_fs s' \<and> node_at s' [U ''f''] = Some (File ''ab'')"
proof -
  obtain r s' where c: "create_bound demo_platform sample_create ''x'' sample_fs = (r, s')" by fastforce
  then have st: "fs_step sample_create sample_fs s'" by (rule created)
  then have "(\<lambda>s s'. \<exists>b \<in> {sample_create}. fs_step b s s')\<^sup>*\<^sup>* sample_fs s'" by auto
  moreover have "parts (dval sample_create ''path'') = Inr [U ''g'']"
    by (simp add: sample_create_def fs_eval U_def)
  ultimately have "node_at s' [U ''f''] = node_at sample_fs [U ''f'']"
    by (intro effects_confined [of "{sample_create}"]) auto
  with st show ?thesis by (auto simp: sample_fs_def node_at_def)
qed

end
