(* ===== verification/Authority_Facts.thy ===== *)
theory Authority_Facts
  imports Authority Verifier_Facts Resource_Facts
begin

text \<open>
  What the authority guarantees: it mints only inside its policy and for requests the SAXP gate
  passes, and what it mints the verifier accepts. The second half of the theory states the
  properties of authority and verifier together.
\<close>

section \<open>Identifiers\<close>

lemma ident_ascii: "ident_match s \<Longrightarrow> c \<in> set s \<Longrightarrow> c < 128"
  by (auto simp: ident_match_def ident_char_def is_alnum_def list_all_iff U_def split: list.splits)

lemma ident_match_length: "ident_match s \<Longrightarrow> s \<noteq> [] \<and> length s \<le> 128"
  by (auto simp: ident_match_def split: list.splits)

lemma ident_scalar: "ident_match s \<Longrightarrow> list_all is_scalar s"
  using ident_ascii [of s] scalar_small by (force simp: list_all_iff)

lemma ident_nfc: "platform_ok E \<Longrightarrow> ident_match s \<Longrightarrow> nfc E s = s"
  using ident_ascii by (intro platform_okD(3))

lemma ident_facts: "ident_match s \<Longrightarrow> list_all (\<lambda>c. c < 128) s \<and> list_all is_scalar s \<and> str_valid s \<and> length s \<le> 128"
  using ident_ascii [of s] ident_match_length [of s] small_scalars [of s] by (auto simp: list_all_iff)

lemma require_string_total:
  assumes "list_all is_scalar s" "s \<noteq> []" "length s \<le> 128"
  shows "require_string (PStr s) t = Inr ()"
  using assms length_utf8_concat [of s] by (auto simp: require_string_def utf8_encode_def)

lemma hex_scalar: "hex_match n s \<Longrightarrow> list_all is_scalar s" and hex_nfc: "platform_ok E \<Longrightarrow> hex_match n s \<Longrightarrow> nfc E s = s"
  and hex_length: "hex_match n s \<Longrightarrow> length s = n"
  by (simp_all add: hex_match_def is_hex_scalars canon_hex)

lemma digest_hex: "platform_ok E \<Longrightarrow> digest E v = Inr h \<Longrightarrow> hex_match 64 h"
  by (auto simp: digest_def rmap_eq_Inr_iff sha256_hex_match)

lemma ident_require: "ident_match s \<Longrightarrow> require_string (PStr s) t = Inr ()"
  by (rule require_string_total) (simp_all add: ident_scalar ident_match_length)

lemma hex_require:
  assumes "hex_match n s" "0 < n" "n \<le> 128"
  shows "require_string (PStr s) t = Inr ()"
  using hex_scalar [OF assms(1)] hex_length [OF assms(1)] assms(2,3) by (intro require_string_total) auto

section \<open>Validated requests\<close>

lemma check_identifier_ok: "check_identifier v = Inr s \<longleftrightarrow> v = PStr s \<and> ident_match s"
  by (cases v) (auto simp: check_identifier_def)

lemma validate_request_ok:
  assumes "validate_request E p request = Inr u" and "allowed_resource_prefixes p \<noteq> []"
  obtains i s a t r d prefix where "request_id request = PStr i" "principal request = PStr s" "audience request = PStr a"
    "action request = PStr t" "resource request = PStr r" "request_digest E request = Inr d"
    "ident_match i" "ident_match s" "ident_match a" "ident_match t"
    "t \<in> set (allowed_actions p)" "s \<in> set (allowed_principals p)" "a \<in> set (allowed_audiences p)"
    "prefix \<in> set (allowed_resource_prefixes p)" "startswith r prefix"
proof -
  from assms(1) obtain i s a t d where c: "check_identifier (request_id request) = Inr i"
    "check_identifier (principal request) = Inr s" "check_identifier (audience request) = Inr a"
    "check_identifier (action request) = Inr t" "request_digest E request = Inr d"
    and r: "t \<in> set (allowed_actions p)" "s \<in> set (allowed_principals p)" "a \<in> set (allowed_audiences p)"
      "(case resource request of
       PStr res \<Rightarrow>
         if \<not> list_ex (startswith res) (allowed_resource_prefixes p) then denied ''resource is outside authority policy''
         else Inr ()
     | _ \<Rightarrow> if allowed_resource_prefixes p = [] then denied ''resource is outside authority policy''
            else Inl (Exn AttributeError ''startswith'')) = Inr u"
    unfolding validate_request_def rbind_eq_Inr_iff by (auto split: if_split_asm)
  from r(4) assms(2) obtain res where "resource request = PStr res" "list_ex (startswith res) (allowed_resource_prefixes p)"
    by (cases "resource request") (auto split: if_splits)
  with c r that show ?thesis by (auto simp: check_identifier_ok list_ex_iff)
qed

section \<open>Bindings\<close>

text \<open>A binding that the guard computes is a fixed point of canonicalization and fits its action.\<close>

lemma canon_binding:
  assumes ok: "platform_ok E" and path: "v = PStr r" "nfc E r = r"
    and s: "bind_resource_dispatch E request f = (Inr b, f')" "resource request = v"
  shows "canon E (PDict b) = PDict b \<and> dval b ''path'' = v \<and> check_binding (action request) b = Inr ()"
proof -
  have hex: "nfc E (sha256_hex E x) = sha256_hex E x" for x
    using hex_nfc [OF ok sha256_hex_match [OF ok]] .
  have present: "canon E (PDict b) = PDict b \<and> dval b ''path'' = v
      \<and> has_keys b [''path'', ''sha256'', ''size'', ''state''] \<and> dval b ''state'' = pstr ''present''"
    if "bind_present E v g = (Inr b, g')" for g g'
  proof -
    from that obtain x where b: "b = mk_dict [(''path'', v), (''sha256'', PStr (sha256_hex E x)),
        (''size'', PInt (int (length x))), (''state'', pstr ''present'')]"
      by (auto simp: bind_present_def sbind_ok)
    show ?thesis unfolding b
      by (subst canon_sorted_dict [OF ok])
        (simp_all add: ascii_def U_def canon_pstr [OF ok] path hex has_keys_def)
  qed
  have absent: "canon E (PDict b) = PDict b \<and> dval b ''path'' = v
      \<and> has_keys b [''path'', ''post_sha256'', ''post_size'', ''state''] \<and> dval b ''state'' = pstr ''absent''"
    if "bind_new E v x g = (Inr b, g')" for g g' x
  proof -
    from that have b: "b = mk_dict [(''path'', v), (''post_sha256'', PStr (sha256_hex E x)),
        (''post_size'', PInt (int (length x))), (''state'', pstr ''absent'')]"
      by (auto simp: bind_new_def bind_absent_def sbind_ok split: if_splits prod.splits)
    show ?thesis unfolding b
      by (subst canon_sorted_dict [OF ok])
        (simp_all add: ascii_def U_def canon_pstr [OF ok] path hex has_keys_def)
  qed
  have bwrite: "canon E (PDict b) = PDict b \<and> dval b ''path'' = v \<and> has_keys b write_keys
      \<and> dval b ''state'' = pstr ''write'' \<and> dval b ''pre_state'' \<in> {pstr ''absent'', pstr ''present''}"
    if "bind_write E v x g = (Inr b, g')" for g g' x
  proof -
    from that obtain pre where b: "b = mk_dict
          [(''path'', v), (''post_sha256'', PStr (sha256_hex E x)), (''post_size'', PInt (int (length x))),
           (''pre_sha256'', PStr (case pre of None \<Rightarrow> [] | Some b \<Rightarrow> sha256_hex E b)),
           (''pre_size'', PInt (case pre of None \<Rightarrow> 0 | Some b \<Rightarrow> int (length b))),
           (''pre_state'', pstr (case pre of None \<Rightarrow> ''absent'' | Some b \<Rightarrow> ''present'')),
           (''state'', pstr ''write'')]"
      by (auto simp: bind_write_def sbind_ok Let_def split: if_splits prod.splits)
    have e: "nfc E [] = []" using platform_okD(7) [OF ok] by blast
    show ?thesis unfolding b
      by (subst canon_sorted_dict [OF ok])
        (simp_all add: ascii_def U_def canon_pstr [OF ok] path hex has_keys_def write_keys_def e split: option.split)
  qed
  have bappend: "canon E (PDict b) = PDict b \<and> dval b ''path'' = v \<and> has_keys b append_keys \<and> dval b ''state'' = pstr ''append''"
    if "bind_append E v x g = (Inr b, g')" for g g' x
  proof -
    from that obtain pre where b: "b = mk_dict
          [(''path'', v), (''post_sha256'', PStr (sha256_hex E (pre @ x))),
           (''post_size'', PInt (int (length pre + length x))), (''pre_sha256'', PStr (sha256_hex E pre)),
           (''pre_size'', PInt (int (length pre))), (''state'', pstr ''append'')]"
      by (auto simp: bind_append_def sbind_ok split: if_splits)
    show ?thesis unfolding b
      by (subst canon_sorted_dict [OF ok])
        (simp_all add: ascii_def U_def canon_pstr [OF ok] path hex has_keys_def append_keys_def)
  qed
  from s obtain ps where "copy_mapping (parameters request) = Inr ps"
    by (auto simp: bind_resource_dispatch_def sbind_ok)
  note run = s(1) [unfolded bind_resource_dispatch_def this sbind_simps Let_def s(2)]
  note cb = check_binding_def action_in_def py_is_str_def hashable_def pstr_def
  consider (rd) "action request \<in> {pstr ''resource.read'', pstr ''sandbox.read_file'', pstr ''sandbox.read_record''}"
    | (cr) "action request \<in> {pstr ''resource.create'', pstr ''sandbox.create_record''}"
    | (wr) "action request = pstr ''sandbox.write_file''" | (ap) "action request = pstr ''sandbox.append_file''"
    using run by (auto simp: py_is_str_def split: if_splits)
  then show ?thesis
  proof cases
    case rd
    then have "bind_present E v f = (Inr b, f')"
      using run by (auto simp: py_is_str_def verifier_errs split: if_splits)
    from present [OF this] rd show ?thesis by (auto simp: cb)
  next
    case cr
    then have "\<exists>x. bind_new E v x f = (Inr b, f')"
      using run by (auto simp: py_is_str_def sbind_ok split: if_splits)
    with absent cr show ?thesis by (auto simp: cb)
  next
    case wr
    then have "\<exists>x. bind_write E v x f = (Inr b, f')"
      using run by (auto simp: py_is_str_def sbind_ok)
    with bwrite wr show ?thesis by (auto simp: cb)
  next
    case ap
    then have "\<exists>x. bind_append E v x f = (Inr b, f')"
      using run by (auto simp: py_is_str_def sbind_ok)
    with bappend ap show ?thesis by (auto simp: cb)
  qed
qed

section \<open>What was sealed opens\<close>

lemma sealed_envelope:
  assumes ok: "platform_ok E" and seal: "seal_capability E key (mk_dict xs) = Inr (env, cap)"
    and keys: "list_all (\<lambda>(k, v). ascii k) xs" and new: "map_of xs ''capability_id'' = None"
  obtains d encoded where
    "parse_canonical E env = Inr (PDict (mk_dict [(''algorithm'', pstr ''Ed25519''),
       (''key_id'', PStr (key_id E (ed_public E key))), (''payload'', PDict d),
       (''signature'', PStr (sign E key CAPABILITY_DOMAIN encoded))]))"
    and "canonicalize E (PDict d) = Inr encoded" and "hex_match 64 cap"
    and "\<forall>k. dget d k = map_option (canon E) (map_of (xs @ [(''capability_id'', PStr cap)]) k)"
    and "\<forall>ks. has_keys d ks \<longleftrightarrow> fst ` set (xs @ [(''capability_id'', PStr cap)]) = set ks"
    and "digest E (PDict (dpop d ''capability_id'')) = Inr cap"
proof -
  let ?ys = "xs @ [(''capability_id'', PStr cap)]"
  have "dget (mk_dict xs) ''capability_id'' = map_of xs ''capability_id''" by (induction xs) auto
  then have base: "dset (mk_dict xs) ''capability_id'' (PStr cap) = mk_dict ?ys"
    using new by (simp add: dset_new) (simp add: mk_dict_def)
  from seal obtain encoded where dg: "digest E (PDict (mk_dict xs)) = Inr cap"
    and enc: "canonicalize E (PDict (mk_dict ?ys)) = Inr encoded"
    and env: "canonicalize E (PDict (mk_dict
       [(''algorithm'', pstr ''Ed25519''), (''key_id'', PStr (key_id E (ed_public E key))), (''payload'', PDict (mk_dict ?ys)),
        (''signature'', PStr (sign E key CAPABILITY_DOMAIN encoded))])) = Inr env" (is "canonicalize E ?env = _")
    unfolding seal_capability_def rbind_eq_Inr_iff Let_def using base by auto
  have hex: "hex_match 64 cap" using digest_hex [OF ok dg] .
  have keys': "list_all (\<lambda>(k, v). ascii k) ?ys" using keys by (simp add: ascii_def)
  have nok: "nok E (PDict (mk_dict ?ys))" using enc by (simp add: canonicalize_iff del: mk_dict_simps)
  obtain d where c: "canon E (PDict (mk_dict ?ys)) = PDict d"
    and ms: "mset d = mset (mk_dict (map (\<lambda>(k, v). (k, canon E v)) ?ys))"
    and get: "\<forall>k. dget d k = map_option (canon E) (map_of ?ys k)"
    and has: "\<forall>ks. has_keys d ks \<longleftrightarrow> fst ` set ?ys = set ks"
    by (rule canon_dict [OF ok keys' nok]) (rule that; assumption)
  have d: "canonicalize E (PDict d) = Inr encoded" using canonicalize_canon(1) [OF ok enc] c by simp
  have "canon E ?env = PDict (mk_dict [(''algorithm'', pstr ''Ed25519''),
       (''key_id'', PStr (key_id E (ed_public E key))), (''payload'', PDict d),
       (''signature'', PStr (sign E key CAPABILITY_DOMAIN encoded))])"
    by (subst canon_sorted_dict [OF ok])
      (simp_all add: ascii_def U_def canon_pstr [OF ok] nfc_key_id [OF ok] c sign_def nfc_b64 [OF ok])
  then have p: "parse_canonical E env = Inr \<dots>" using canonical.dec_enc [OF ok env] by simp
  have "digest E (PDict (dpop d ''capability_id'')) = Inr cap"
  proof -
    from dg obtain b where b: "canonicalize E (PDict (mk_dict xs)) = Inr b" "cap = sha256_hex E b"
      by (auto simp: digest_def rmap_eq_Inr_iff)
    have "''capability_id'' \<notin> fst ` set xs" using new by (simp add: map_of_eq_None_iff)
    then have "(''capability_id'', v) \<notin> set xs" for v by force
    then have "filter (\<lambda>kv. fst kv \<noteq> kw ''capability_id'') (mk_dict (map (\<lambda>(k, v). (k, canon E v)) ?ys))
        = mk_dict (map (\<lambda>(k, v). (k, canon E v)) xs)"
      by (auto simp: mk_dict_def intro!: filter_True)
    then have "mset (dpop d ''capability_id'') = mset (mk_dict (map (\<lambda>(k, v). (k, canon E v)) xs))"
      unfolding dpop_def by (metis mset_filter ms)
    also have "mk_dict (map (\<lambda>(k, v). (k, canon E v)) xs) = map (\<lambda>(k, v). (nfc_key E k, canon E v)) (mk_dict xs)"
      using keys by (auto simp: mk_dict_def list_all_iff nfc_key_kw [OF ok])
    finally have "canonicalize E (PDict (dpop d ''capability_id'')) = Inr b"
      by (rule canonicalize_items_canon [OF ok b(1)])
    with b(2) show ?thesis by (simp add: digest_def)
  qed
  with that [OF p d hex get has] show ?thesis .
qed

lemma base_payload_keys:
  "\<exists>xs. base_payload request n i t iss nonce rd b dec = mk_dict xs \<and> list_all (\<lambda>(k, v). ascii k) xs
     \<and> map_of xs ''capability_id'' = None \<and> fst ` set (xs @ [(''capability_id'', v)]) = set PAYLOAD_KEYS
     \<and> map_of xs ''audience'' = Some (audience request) \<and> map_of xs ''authorization_epoch'' = Some (PInt n)
     \<and> map_of xs ''expires_at'' = Some (PInt (i + t)) \<and> map_of xs ''issued_at'' = Some (PInt i)
     \<and> map_of xs ''issuer'' = Some (PStr iss) \<and> map_of xs ''nonce'' = Some (PStr nonce)
     \<and> map_of xs ''request_digest'' = Some (PStr rd) \<and> map_of xs ''resource_binding'' = Some (PDict b)
     \<and> map_of xs ''saxp'' = Some (decision_payload dec) \<and> map_of xs ''schema'' = Some (pstr ''mgk-capability/v1'')
     \<and> map_of xs ''scope'' = Some (PDict (mk_dict [(''action'', action request), (''resource'', resource request)]))
     \<and> map_of xs ''subject'' = Some (principal request)"
  unfolding base_payload_def
  by (rule exI, rule conjI, rule refl) (auto simp: ascii_def PAYLOAD_KEYS_def)

text \<open>What the verifier reads in the envelope of a capability.\<close>

lemma issued_opens:
  assumes ok: "platform_ok E" and key: "public_key V = ed_public E key"
    and req: "principal request = PStr s" "audience request = PStr a" "action request = PStr t" "resource request = PStr r"
      "ident_match s" "ident_match a" "ident_match t" "nfc E r = r" "request_digest E request = Inr rd"
    and iss: "ident_match iss" and nonce: "hex_match 32 nonce"
    and dec: "result dec = ''TEN_XEITO''" "reason_codes dec \<noteq> []" "d_request_digest dec = rd"
    and bind: "canon E (PDict b) = PDict b" "dval b ''path'' = PStr r" "check_binding (PStr t) b = Inr ()"
    and seal: "seal_capability E key (base_payload request n i ttl iss nonce rd b dec) = Inr (env, cap)"
  shows "\<exists>payload. open_envelope E V env request = Inr payload \<and> dval payload ''issued_at'' = PInt i
    \<and> dval payload ''expires_at'' = PInt (i + ttl) \<and> dval payload ''authorization_epoch'' = PInt n
    \<and> dval payload ''nonce'' = PStr nonce \<and> dval payload ''capability_id'' = PStr cap \<and> hex_match 64 cap
    \<and> dval payload ''resource_binding'' = PDict b"
proof -
  obtain xs where x: "base_payload request n i ttl iss nonce rd b dec = mk_dict xs" "list_all (\<lambda>(k, v). ascii k) xs"
     "map_of xs ''capability_id'' = None" "fst ` set (xs @ [(''capability_id'', PStr cap)]) = set PAYLOAD_KEYS"
     and m: "map_of xs ''audience'' = Some (audience request)" "map_of xs ''authorization_epoch'' = Some (PInt n)"
     "map_of xs ''expires_at'' = Some (PInt (i + ttl))" "map_of xs ''issued_at'' = Some (PInt i)"
     "map_of xs ''issuer'' = Some (PStr iss)" "map_of xs ''nonce'' = Some (PStr nonce)"
     "map_of xs ''request_digest'' = Some (PStr rd)" "map_of xs ''resource_binding'' = Some (PDict b)"
     "map_of xs ''saxp'' = Some (decision_payload dec)" "map_of xs ''schema'' = Some (pstr ''mgk-capability/v1'')"
     "map_of xs ''scope'' = Some (PDict (mk_dict [(''action'', action request), (''resource'', resource request)]))"
     "map_of xs ''subject'' = Some (principal request)"
    using base_payload_keys [of request n i ttl iss nonce rd b dec "PStr cap"] by blast
  obtain d encoded where p: "parse_canonical E env = Inr (PDict (mk_dict [(''algorithm'', pstr ''Ed25519''),
       (''key_id'', PStr (key_id E (ed_public E key))), (''payload'', PDict d),
       (''signature'', PStr (sign E key CAPABILITY_DOMAIN encoded))]))"
    and enc: "canonicalize E (PDict d) = Inr encoded" and cap: "hex_match 64 cap"
    and get: "\<forall>k. dget d k = map_option (canon E) (map_of (xs @ [(''capability_id'', PStr cap)]) k)"
    and has: "\<forall>ks. has_keys d ks \<longleftrightarrow> fst ` set (xs @ [(''capability_id'', PStr cap)]) = set ks"
    and dg: "digest E (PDict (dpop d ''capability_id'')) = Inr cap"
    by (rule sealed_envelope [OF ok seal [unfolded x(1)] x(2,3)])
  have rdh: "hex_match 64 rd"
    using digest_hex [OF ok] req(9) by (auto simp: request_digest_def rbind_eq_Inr_iff)
  have val: "dval d k = canon E v" if "map_of xs k = Some v" for k v
    using get that by (simp add: dval_def map_add_def)
  note i_nfc = ident_nfc [OF ok]
  have dv: "dval d ''audience'' = PStr a" "dval d ''authorization_epoch'' = PInt n" "dval d ''expires_at'' = PInt (i + ttl)"
     "dval d ''issued_at'' = PInt i" "dval d ''issuer'' = PStr iss" "dval d ''nonce'' = PStr nonce"
     "dval d ''request_digest'' = PStr rd" "dval d ''resource_binding'' = PDict b"
     "dval d ''schema'' = pstr ''mgk-capability/v1''" "dval d ''subject'' = PStr s"
    using m [THEN val] req i_nfc iss hex_nfc [OF ok] nonce rdh bind(1) by (simp_all add: canon_pstr [OF ok] ascii_def)
  have dcap: "dval d ''capability_id'' = PStr cap"
    using get x(3) hex_nfc [OF ok cap] by (simp add: dval_def map_add_def)
  have dscope: "dval d ''scope'' = PDict (mk_dict [(''action'', PStr t), (''resource'', PStr r)])"
    using m(11) [THEN val] canon_sorted_dict [OF ok, of "[(''action'', action request), (''resource'', resource request)]"] req i_nfc
    by (simp add: ascii_def U_def)
  have dsaxp: "\<exists>cd pid. dval d ''saxp'' = PDict (mk_dict [(''context_digest'', cd), (''policy_id'', pid),
      (''reason_codes'', PList (map (canon E) (map pstr (reason_codes dec)))), (''request_digest'', PStr rd), (''result'', pstr ''TEN_XEITO'')])"
    using m(9) [THEN val] unfolding decision_payload_def
    by (subst (asm) canon_sorted_dict [OF ok])
      (use dec hex_nfc [OF ok rdh] in \<open>auto simp: ascii_def U_def canon_pstr [OF ok] comp_def\<close>)
  have rs: "require_string (PStr iss) ''issuer'' = Inr ()" "require_string (PStr s) ''subject'' = Inr ()"
    "require_string (PStr a) ''audience'' = Inr ()" "require_string (PStr cap) ''capability_id'' = Inr ()"
    "require_string (PStr rd) ''request_digest'' = Inr ()" "require_string (PStr nonce) ''nonce'' = Inr ()"
    by (simp_all add: ident_require iss req(5,6) hex_require [OF cap] hex_require [OF rdh] hex_require [OF nonce])
  have head: "check_head E d = Inr ()"
    using has x(4) dv dcap rs dg cap rdh nonce
    by (simp add: check_head_def hex_field_iff py_is_str_def py_eq_str_def)
  have scope: "check_scope E d request = Inr ()"
    using dscope dv req by (simp add: check_scope_def has_keys_def py_eq_str_def)
  have saxp: "check_saxp E d request = Inr ()"
    using dsaxp req(9) dec(2) by (auto simp: check_saxp_def has_keys_def py_eq_str_def py_is_str_def)
  have vp: "validate_payload E (PDict d) request = Inr d"
    using head scope saxp dv bind req by (simp add: validate_payload_def)
  have ver: "verify E (public_key V) CAPABILITY_DOMAIN encoded (PStr (sign E key CAPABILITY_DOMAIN encoded)) = Inr ()"
    unfolding key by (rule ed25519.chk_sgn [OF ok])
  have "open_envelope E V env request = Inr d"
    using p vp enc ver key by (simp add: open_envelope_def has_keys_def py_is_str_def py_eq_str_def)
  with dv dcap cap show ?thesis by blast
qed

section \<open>A successful issue\<close>

definition resolved :: "capability_authority \<Rightarrow> action_request \<Rightarrow> context_arg \<Rightarrow> context_arg res" where
  "resolved A request ctx = (if ctx = NoContext then context_provider A request else Inr ctx)"

text \<open>The steps after the SAXP gate passed.\<close>

definition mint :: "platform \<Rightarrow> capability_authority \<Rightarrow> action_request \<Rightarrow> pyval \<Rightarrow> saxp_decision \<Rightarrow> issue_result kernel" where
  "mint E A request ttl_seconds dec =
     sbind (slift (choose_ttl (policy A) ttl_seconds)) (\<lambda>ttl.
     sbind (on_files (bind_resource E request)) (\<lambda>binding.
     sbind clock_now (\<lambda>now.
     sbind (on_sec (current_epoch E (state_public_key A))) (\<lambda>epoch.
     sbind token_hex (\<lambda>nonce.
     sbind (slift (request_digest E request)) (\<lambda>rd.
     sbind (slift (seal_capability E (private_key A)
              (base_payload request epoch now ttl (issuer A) nonce rd binding dec))) (\<lambda>(env, cap).
     sret \<lparr>envelope = Some env, decision = dec, i_capability_id = Some cap\<rparr>)))))))"

lemma issue_capability_eq:
  "issue_capability E A request ttl_seconds ctx w =
     (case validate_request E (policy A) request of Inl e \<Rightarrow> (Inl e, w)
      | Inr _ \<Rightarrow> (case resolved A request ctx of Inl e \<Rightarrow> (Inl e, w)
        | Inr (Context c) \<Rightarrow> (case evaluate E (evaluator A) request c of Inl e \<Rightarrow> (Inl e, w)
          | Inr dec \<Rightarrow>
              if result dec \<noteq> ''TEN_XEITO''
              then (Inr \<lparr>envelope = None, decision = dec, i_capability_id = None\<rparr>, w)
              else mint E A request ttl_seconds dec w)
        | Inr _ \<Rightarrow> (schema_err ''trusted context provider returned an invalid context'', w)))"
  by (simp add: issue_capability_def sbind_def slift_def sret_def mint_def resolved_def split: sum.split context_arg.split)

lemma issue_capability_ok:
  assumes "issue_capability E A request ttl_seconds ctx w = (Inr r, w')"
  obtains c where "validate_request E (policy A) request = Inr ()" "resolved A request ctx = Inr (Context c)"
    "evaluate E (evaluator A) request c = Inr (decision r)"
    "if result (decision r) \<noteq> ''TEN_XEITO'' then envelope r = None \<and> i_capability_id r = None \<and> w' = w
     else mint E A request ttl_seconds (decision r) w = (Inr r, w') \<and> envelope r \<noteq> None"
proof -
  from assms obtain u where v: "validate_request E (policy A) request = Inr u"
    by (cases "validate_request E (policy A) request") (simp_all add: issue_capability_eq)
  from assms v obtain x where x: "resolved A request ctx = Inr x"
    by (cases "resolved A request ctx") (simp_all add: issue_capability_eq)
  from assms v x obtain c where c: "x = Context c"
    by (cases x) (simp_all add: issue_capability_eq schema_err_def)
  from assms v x c obtain dec where dec: "evaluate E (evaluator A) request c = Inr dec"
    by (cases "evaluate E (evaluator A) request c") (simp_all add: issue_capability_eq)
  have m: "decision r = dec \<and> envelope r \<noteq> None" if "mint E A request ttl_seconds dec w = (Inr r, w')"
  proof -
    have "\<exists>env cap. r = \<lparr>envelope = Some env, decision = dec, i_capability_id = Some cap\<rparr>"
      using that unfolding mint_def sbind_ok by (clarsimp simp: case_prod_unfold)
    then show ?thesis by auto
  qed
  from assms v x c dec
  have "if result dec \<noteq> ''TEN_XEITO'' then r = \<lparr>envelope = None, decision = dec, i_capability_id = None\<rparr> \<and> w' = w
     else mint E A request ttl_seconds dec w = (Inr r, w')"
    by (auto simp: issue_capability_eq)
  with m v x c dec show ?thesis by (intro that [of c]) (auto split: if_splits)
qed

lemma choose_ttl_ok: "choose_ttl p t = Inr n \<Longrightarrow> 1 \<le> n \<and> n \<le> policy_maximum_ttl p"
  by (auto simp: choose_ttl_def split: pyval.splits if_splits)

lemma bind_resource_ok: "bind_resource E request f = (Inr b, f') \<longleftrightarrow> bind_resource_dispatch E request f = (Inr b, f')"
  unfolding bind_resource_def by (rule scatch_ok) simp

lemma mint_ok:
  assumes "mint E A request ttl_seconds dec w = (Inr r, w')"
  obtains ttl b f n s rd env cap where "choose_ttl (policy A) ttl_seconds = Inr ttl"
    "bind_resource_dispatch E request (files w) = (Inr b, f)"
    "current_epoch E (state_public_key A) (sec w) = (Inr n, s)" "request_digest E request = Inr rd"
    "seal_capability E (private_key A)
       (base_payload request n (clk w (ticks w)) ttl (issuer A) (hex_of_bytes (entropy w (draws w))) rd b dec) = Inr (env, cap)"
    "r = \<lparr>envelope = Some env, decision = dec, i_capability_id = Some cap\<rparr>"
    "w' = w\<lparr>files := f, ticks := ticks w + 1, sec := s, draws := draws w + 1\<rparr>"
  using assms unfolding mint_def sbind_ok on_ok clock_now_ok token_hex_ok bind_resource_ok
  by (clarsimp simp: case_prod_unfold)

text \<open>Issuing changes neither the tree nor a ledger nor the database.\<close>

definition only_reads :: "world \<Rightarrow> world \<Rightarrow> bool" where
  "only_reads w w' \<longleftrightarrow> fs_root (files w') = fs_root (files w) \<and> same_db (sec w) (sec w')
     \<and> audit_ledger w' = audit_ledger w \<and> failure_ledger w' = failure_ledger w"

lemma preorder_only_reads [simp]: "preorder_rel only_reads"
  by (auto simp: preorder_rel_def reflp_def transp_def only_reads_def intro: same_db_trans)

lemma only_reads_basic [keeps_intro]:
  "keeps only_reads clock_now" "keeps only_reads token_hex"
  "keeps same_db m \<Longrightarrow> keeps only_reads (on_sec m)" "keeps same_tree f \<Longrightarrow> keeps only_reads (on_files f)"
  by (auto simp: keeps_def only_reads_def clock_now_def token_hex_def on_sec_def on_files_def szoom_def split: prod.splits)
    (metis snd_conv)+

lemma same_bind_resource: "keeps same_tree (bind_resource E request)"
  unfolding bind_resource_def bind_resource_dispatch_def bind_new_def Let_def
  by (intro keeps_intro preorder_rel_same)

lemma only_reads_issue: "keeps only_reads (issue_capability E A request t ctx)"
  unfolding issue_capability_def
  by (intro keeps_intro preorder_only_reads same_bind_resource current_epoch_same)
    (auto split: context_arg.split intro!: keeps_intro same_bind_resource current_epoch_same)

section \<open>Sample capability\<close>

lemma evaluate_ten:
  assumes "evaluate E ev request c = Inr dec" "result dec = ''TEN_XEITO''"
  shows "reason_codes dec \<noteq> []" and "request_digest E request = Inr (d_request_digest dec)"
    and "\<not> refused c \<and> \<not> incomplete (minimum_sentidino ev) c"
proof -
  let ?v = "verdict (minimum_sentidino ev) c"
  from assms(1) obtain rd where d: "result dec = result_value (fst ?v)" "reason_codes dec = sort_key U (snd ?v)"
    "request_digest E request = Inr (d_request_digest dec)"
    by (auto simp: evaluate_ok)
  then have "fst ?v = TEN_XEITO"
    using assms(2) result_value_eq_iff [of "fst ?v" TEN_XEITO] by simp
  moreover from this have "snd ?v = [''COHERENCE_GATE_SATISFIED'']" by (simp add: verdict_TEN)
  ultimately show "reason_codes dec \<noteq> []" "request_digest E request = Inr (d_request_digest dec)"
    "\<not> refused c \<and> \<not> incomplete (minimum_sentidino ev) c"
    using d by (simp_all add: verdict_spec split: if_splits)
qed

section \<open>A read gets its capability\<close>

lemma seal_plain:
  assumes ok: "platform_ok E"
    and rq: "principal request = PStr s" "audience request = PStr a" "action request = PStr t" "resource request = PStr p"
      "ident_match s" "ident_match a" "ident_match t" "list_all (\<lambda>c. c < 128) p" "length p \<le> 4096"
    and hex: "hex_match 64 rd" "hex_match 64 (d_request_digest dec)" "hex_match 64 (d_context_digest dec)" "hex_match 32 nonce"
    and dec: "result dec = ''TEN_XEITO''" "reason_codes dec = [''COHERENCE_GATE_SATISFIED'']" "d_policy_id dec = U ''saxp-level1-v1''"
    and b: "b = mk_dict [(''path'', PStr p), (''sha256'', PStr (sha256_hex E data)), (''size'', PInt sz), (''state'', pstr ''present'')]"
    and iss: "ident_match iss" and num: "0 \<le> epoch" "epoch \<le> MAX_INTEGER" "0 \<le> now" "now + ttl \<le> MAX_INTEGER" "0 \<le> ttl" "0 \<le> sz" "sz \<le> MAX_INTEGER"
  shows "\<exists>env cap. seal_capability E key (base_payload request epoch now ttl iss nonce rd b dec) = Inr (env, cap) \<and> hex_match 64 cap"
proof -
  note facts = hex [THEN hex_facts] hex_facts [OF sha256_hex_match [OF ok], of data] rq(5-7) [THEN ident_facts] ident_facts [OF iss]
    rq(8,9) small_scalars [OF rq(8)] num
  let ?base = "base_payload request epoch now ttl iss nonce rd b dec"
  note sms = base_payload_def rq(1-4) decision_payload_def dec b demo_doc_simps ascii_def
  obtain cap where cap: "digest E (PDict ?base) = Inr cap"
  proof -
    have "\<exists>x. canonicalize E (PDict ?base) = Inr x"
      by (rule canonicalize_plain [OF ok]) (use facts in \<open>simp_all add: sms\<close>)
    with that show ?thesis by (auto simp: digest_def)
  qed
  note hc = digest_hex [OF ok cap]
  have pl: "dset ?base ''capability_id'' (PStr cap) = ?base @ [(kw ''capability_id'', PStr cap)]"
    by (rule dset_new) (simp add: base_payload_def)
  obtain pb where pb: "canonicalize E (PDict (?base @ [(kw ''capability_id'', PStr cap)])) = Inr pb"
    using canonicalize_plain [OF ok, of "PDict (?base @ [(kw ''capability_id'', PStr cap)])"] facts hex_facts [OF hc] by (force simp: sms)
  have "\<exists>env. canonicalize E (PDict (mk_dict
       [(''algorithm'', pstr ''Ed25519''), (''key_id'', PStr (key_id E (ed_public E key))),
        (''payload'', PDict (?base @ [(kw ''capability_id'', PStr cap)])),
        (''signature'', PStr (sign E key CAPABILITY_DOMAIN pb))])) = Inr env"
    by (rule canonicalize_plain [OF ok])
      (use facts hex_facts [OF hc] sign_facts [OF ok, of key CAPABILITY_DOMAIN pb] key_id_facts [OF ok, of "ed_public E key"]
        in \<open>simp_all add: sms\<close>)
  with cap pb pl hc show ?thesis by (auto simp: seal_capability_def Let_def)
qed


text \<open>A read that the policy allows and the gate passes gets an envelope.\<close>

lemma issue_read:
  assumes ok: "platform_ok E" and A: "evaluator A = \<lparr>policy_id = U ''saxp-level1-v1'', minimum_sentidino = m\<rparr>" "ident_match (issuer A)"
    and vr: "validate_request E (policy A) request = Inr ()" and cx: "resolved A request ctx = Inr (Context c)"
    and gate: "context_typed c" "verdict m c = (TEN_XEITO, [''COHERENCE_GATE_SATISFIED''])" "digest E (context_payload c) = Inr cd"
    and rq: "principal request = PStr s" "audience request = PStr a" "action request = PStr (U ''resource.read'')" "resource request = PStr p"
      "parameters request = PDict []" "ident_match s" "ident_match a" "list_all (\<lambda>c. c < 128) p" "length p \<le> 4096"
    and ttl: "choose_ttl (policy A) t = Inr ttl" "0 \<le> clk w (ticks w)" "clk w (ticks w) + ttl \<le> MAX_INTEGER"
    and b: "bind_present E (PStr p) (files w) = (Inr (mk_dict [(''path'', PStr p), (''sha256'', PStr (sha256_hex E data)),
        (''size'', PInt (int (length data))), (''state'', pstr ''present'')]), f)" "length data \<le> MAX_RESOURCE_BYTES"
    and ep: "current_epoch E (state_public_key A) (sec w) = (Inr n, s1)" "0 \<le> n" "n \<le> MAX_INTEGER"
    and rnd: "length (entropy w (draws w)) = 16"
  shows "\<exists>dec raw cap. issue_capability E A request t ctx w =
      (Inr \<lparr>envelope = Some raw, decision = dec, i_capability_id = Some cap\<rparr>, w\<lparr>files := f, ticks := ticks w + 1, sec := s1, draws := draws w + 1\<rparr>)
    \<and> hex_match 64 cap"
proof -
  obtain rd where rd: "request_digest E request = Inr rd"
    using vr unfolding validate_request_def rbind_eq_Inr_iff by blast
  let ?dec = "\<lparr>result = ''TEN_XEITO'', reason_codes = [''COHERENCE_GATE_SATISFIED''], d_request_digest = rd,
      d_context_digest = cd, d_policy_id = U ''saxp-level1-v1''\<rparr>"
  have ev: "evaluate E (evaluator A) request c = Inr ?dec"
    using gate rd by (simp add: evaluate_ok A)
  have hx: "hex_match 64 rd" "hex_match 64 cd" "hex_match 32 (hex_of_bytes (entropy w (draws w)))"
    using rd gate(3) digest_hex [OF ok] rnd by (auto simp: request_digest_def rbind_eq_Inr_iff hex_match_def hex_of_bytes_is_hex)
  let ?b = "mk_dict [(''path'', PStr p), (''sha256'', PStr (sha256_hex E data)), (''size'', PInt (int (length data))), (''state'', pstr ''present'')]"
  have num: "0 \<le> ttl" "int (length data) \<le> MAX_INTEGER"
    using choose_ttl_ok [OF ttl(1)] b(2) by (simp_all add: MAX_RESOURCE_BYTES_def MAX_INTEGER_def)
  have idt: "ident_match (U ''resource.read'')" by (simp add: ident_match_def is_alnum_def ident_char_def U_def)
  have "\<exists>env cap. seal_capability E (private_key A) (base_payload request n (clk w (ticks w)) ttl (issuer A)
      (hex_of_bytes (entropy w (draws w))) rd ?b ?dec) = Inr (env, cap) \<and> hex_match 64 cap"
    by (rule seal_plain [OF ok rq(1-4,6,7) idt rq(8,9) hx(1) _ _ hx(3) _ _ _ refl A(2) ep(2,3) ttl(2,3) num(1) _ num(2)])
      (simp_all add: hx)
  then obtain env cap where seal: "seal_capability E (private_key A) (base_payload request n (clk w (ticks w)) ttl (issuer A)
      (hex_of_bytes (entropy w (draws w))) rd ?b ?dec) = Inr (env, cap)" and hc: "hex_match 64 cap" by blast
  have bd: "bind_resource_dispatch E request (files w) = (Inr ?b, f)"
    using b(1) rq by (simp add: bind_resource_dispatch_def copy_mapping_def py_is_str_def pstr_def sbind_def slift_def Let_def)
  have "mint E A request t ?dec w = (Inr \<lparr>envelope = Some env, decision = ?dec, i_capability_id = Some cap\<rparr>,
      w\<lparr>files := f, ticks := ticks w + 1, sec := s1, draws := draws w + 1\<rparr>)"
    unfolding mint_def sbind_ok on_ok clock_now_ok token_hex_ok bind_resource_ok slift_eq
    using bd rd ep(1) seal by (simp add: ttl(1))
  with ev hc show ?thesis by (auto simp: issue_capability_eq cx vr)
qed

section \<open>A sample\<close>

definition demo_request :: action_request where
  "demo_request = \<lparr>request_id = pstr ''r1'', principal = pstr ''planner'', audience = pstr ''executor'',
     action = pstr ''resource.read'', resource = pstr ''workspace/f'', parameters = PDict []\<rparr>"

definition demo_authority :: capability_authority where
  "demo_authority = \<lparr>issuer = U ''mgk'', private_key = ''k'', state_public_key = ed_public demo_platform ''k'',
     context_provider = (\<lambda>_. Inr NotContext), evaluator = \<lparr>policy_id = U ''saxp-level1-v1'', minimum_sentidino = 5000\<rparr>,
     policy = default_policy\<rparr>"

definition demo_verifier :: capability_verifier where
  "demo_verifier = \<lparr>public_key = ed_public demo_platform ''k'', epoch_public_key = ed_public demo_platform ''k'',
     maximum_ttl_seconds = 300, clock_skew_seconds = 5\<rparr>"

definition demo_files :: fsys where
  "demo_files = \<lparr>fs_root = Dir (Map.empty(U ''workspace'' \<mapsto> Dir (Map.empty(U ''f'' \<mapsto> File ''hi'')))), io = []\<rparr>"

definition demo_world :: "bytes \<Rightarrow> ledger \<Rightarrow> ledger \<Rightarrow> world" where
  "demo_world raw La Lf = \<lparr>sec = demo_state\<lparr>metadata := [''schema_version'' \<mapsto> SCHEMA_VERSION, ''epoch_envelope'' \<mapsto> raw]\<rparr>,
     audit_ledger = La, failure_ledger = Lf, files = demo_files, clk = (\<lambda>_. 100), ticks = 0,
     entropy = (\<lambda>_. replicate 16 (CHR ''a'')), draws = 0\<rparr>"

lemma demo_authority_ok: "authority_init demo_authority = Inr demo_authority"
  by (simp add: authority_init_def demo_authority_def ident_match_def is_alnum_def ident_char_def U_def validate_policy_def
      default_policy_def)

lemma demo_validate: "validate_request demo_platform default_policy demo_request = Inr ()"
proof -
  have "\<exists>d. request_digest demo_platform demo_request = Inr d"
  proof -
    have "\<exists>b. canonicalize demo_platform (PDict (mk_dict
       [(''action'', pstr ''resource.read''), (''audience'', pstr ''executor''), (''parameters'', PDict []),
        (''principal'', pstr ''planner''), (''request_id'', pstr ''r1''), (''resource'', pstr ''workspace/f'')])) = Inr b"
      by (rule canonicalize_demo) (simp_all add: demo_doc_simps U_def is_scalar_def str_valid_def is_surrogate_def)
    then show ?thesis by (auto simp: request_digest_def request_payload_def copy_mapping_def demo_request_def digest_def)
  qed
  then obtain d where "request_digest demo_platform demo_request = Inr d" by blast
  then show ?thesis
    by (simp add: validate_request_def demo_request_def default_policy_def check_identifier_def pstr_def U_def
        ident_match_def is_alnum_def ident_char_def)
qed

lemma demo_hex: "hex_match 64 h \<Longrightarrow> list_all is_scalar h \<and> str_valid h \<and> length h = 64"
  by (simp add: hex_match_def is_hex_scalars)

lemma demo_epoch_world:
  obtains raw where "\<forall>La Lf. current_epoch demo_platform (ed_public demo_platform ''k'') (sec (demo_world raw La Lf))
      = (Inr 1, sec (demo_world raw La Lf))"
proof -
  obtain raw where "current_epoch demo_platform (ed_public demo_platform ''k'')
      (demo_state\<lparr>metadata := [''schema_version'' \<mapsto> SCHEMA_VERSION, ''epoch_envelope'' \<mapsto> raw]\<rparr>)
      = (Inr 1, demo_state\<lparr>metadata := [''schema_version'' \<mapsto> SCHEMA_VERSION, ''epoch_envelope'' \<mapsto> raw]\<rparr>)"
    by (rule demo_epoch)
  then show ?thesis by (intro that [of raw]) (simp add: demo_world_def)
qed

lemma demo_bound:
  "bind_resource_dispatch demo_platform demo_request demo_files =
     (Inr (mk_dict [(''path'', pstr ''workspace/f''), (''sha256'', PStr (sha256_hex demo_platform ''hi'')),
       (''size'', PInt 2), (''state'', pstr ''present'')]), demo_files)"
  by (simp add: bind_resource_dispatch_def copy_mapping_def demo_request_def bind_present_def py_is_str_def
      demo_files_def fs_eval U_def)

text \<open>A context whose evaluation by the demonstration authority passes.\<close>

definition demo_passes :: "saxp_context \<Rightarrow> bool" where
  "demo_passes c \<longleftrightarrow> context_typed c \<and> verdict 5000 c = (TEN_XEITO, [''COHERENCE_GATE_SATISFIED''])
     \<and> (\<exists>b. canonicalize demo_platform (context_payload c) = Inr b)"

lemma demo_passes_sample: "demo_passes sample_context"
proof -
  have "context_typed sample_context" by (simp add: context_typed_def sample_context_def) blast
  moreover have "verdict 5000 sample_context = (TEN_XEITO, [''COHERENCE_GATE_SATISFIED''])"
    by (simp add: verdict_def sample_context_def)
  ultimately show ?thesis using canonicalize_sample_context by (simp add: demo_passes_def)
qed

lemma demo_evaluate:
  assumes "demo_passes c"
  obtains dec where "evaluate demo_platform \<lparr>policy_id = U ''saxp-level1-v1'', minimum_sentidino = 5000\<rparr> demo_request c = Inr dec"
    and "result dec = ''TEN_XEITO''" and "reason_codes dec = [''COHERENCE_GATE_SATISFIED'']"
    and "d_policy_id dec = U ''saxp-level1-v1''" and "hex_match 64 (d_request_digest dec)" and "hex_match 64 (d_context_digest dec)"
    and "request_digest demo_platform demo_request = Inr (d_request_digest dec)"
proof -
  obtain d where d: "request_digest demo_platform demo_request = Inr d"
    using demo_validate unfolding validate_request_def rbind_eq_Inr_iff by blast
  obtain cd where cd: "digest demo_platform (context_payload c) = Inr cd"
    using assms by (auto simp: demo_passes_def digest_def)
  have "hex_match 64 d" "hex_match 64 cd"
    using d digest_hex [OF platform_ok_demo] cd by (auto simp: request_digest_def rbind_eq_Inr_iff)
  with that [of "\<lparr>result = ''TEN_XEITO'', reason_codes = [''COHERENCE_GATE_SATISFIED''], d_request_digest = d,
      d_context_digest = cd, d_policy_id = U ''saxp-level1-v1''\<rparr>"] d cd assms
  show ?thesis by (simp add: evaluate_ok demo_passes_def)
qed

lemma demo_issue:
  assumes c: "demo_passes c" and epoch: "current_epoch demo_platform (ed_public demo_platform ''k'') (sec w) = (Inr 1, sec w)"
    and w: "files w = demo_files" "clk w = (\<lambda>_. 100)" "length (entropy w (draws w)) = 16"
  shows "\<exists>r raw cap. issue_capability demo_platform demo_authority demo_request PNone (Context c) w
      = (Inr r, w\<lparr>ticks := ticks w + 1, draws := draws w + 1\<rparr>)
    \<and> envelope r = Some raw \<and> i_capability_id r = Some cap \<and> hex_match 64 cap"
proof -
  obtain cd where cd: "digest demo_platform (context_payload c) = Inr cd" using c by (auto simp: demo_passes_def digest_def)
  have rq: "principal demo_request = PStr (U ''planner'')" "audience demo_request = PStr (U ''executor'')"
    "action demo_request = PStr (U ''resource.read'')" "resource demo_request = PStr (U ''workspace/f'')" "parameters demo_request = PDict []"
    by (simp_all add: demo_request_def pstr_def)
  have idt: "ident_match (U ''planner'')" "ident_match (U ''executor'')" "ident_match (issuer demo_authority)"
    by (simp_all add: ident_match_def is_alnum_def ident_char_def U_def demo_authority_def)
  have A: "evaluator demo_authority = \<lparr>policy_id = U ''saxp-level1-v1'', minimum_sentidino = 5000\<rparr>"
    "state_public_key demo_authority = ed_public demo_platform ''k''" by (simp_all add: demo_authority_def)
  have vr: "validate_request demo_platform (policy demo_authority) demo_request = Inr ()"
    using demo_validate by (simp add: demo_authority_def)
  have cx: "resolved demo_authority demo_request (Context c) = Inr (Context c)" by (simp add: resolved_def)
  have ttl: "choose_ttl (policy demo_authority) PNone = Inr 60"
    by (simp add: choose_ttl_def demo_authority_def default_policy_def)
  have b: "bind_present demo_platform (PStr (U ''workspace/f'')) demo_files = (Inr (mk_dict [(''path'', PStr (U ''workspace/f'')),
      (''sha256'', PStr (sha256_hex demo_platform ''hi'')), (''size'', PInt (int (length ''hi''))), (''state'', pstr ''present'')]), demo_files)"
    by (simp add: bind_present_def demo_files_def fs_eval U_def)
  have f: "w\<lparr>files := files w, ticks := ticks w + 1, sec := sec w, draws := draws w + 1\<rparr> = w\<lparr>ticks := ticks w + 1, draws := draws w + 1\<rparr>"
    by (cases w) simp
  show ?thesis
    using issue_read [OF platform_ok_demo A(1) idt(3) vr cx _ _ cd rq idt(1,2) _ _ ttl, of w "''hi''" "files w" 1 "sec w"]
      c epoch w b A(2) f by (auto simp: demo_passes_def ascii_def MAX_INTEGER_def MAX_RESOURCE_BYTES_def)
qed

end
