(* ===== verification/Capability.thy ===== *)
theory Capability
  imports Authority_Facts
begin

text \<open>
  The properties of authority and verifier together: what is issued is inside the policy and is
  accepted, what is accepted was signed for this very request, and it is accepted once.
\<close>

section \<open>Issuing\<close>

text \<open>
  C19: The authority mints inside its policy only. Whatever an issue returns, its request names an
  allowed action, principal and audience and a resource under an allowed prefix; it carries an
  envelope exactly when the SAXP gate passes the context (no refusal condition, nothing
  incomplete), for a lifetime between 1 second and the policy's maximum. Issuing, whatever its
  outcome, changes no file, no ledger, no epoch and consumes no nonce.
\<close>

theorem issue_within_policy:
  assumes "authority_init A = Inr A" and "issue_capability E A request t ctx w = (r, w')"
  shows "only_reads w w'
    \<and> (\<forall>res. r = Inr res \<longrightarrow>
        (\<exists>s a act p prefix. principal request = PStr s \<and> audience request = PStr a \<and> action request = PStr act
           \<and> resource request = PStr p \<and> s \<in> set (allowed_principals (policy A)) \<and> a \<in> set (allowed_audiences (policy A))
           \<and> act \<in> set (allowed_actions (policy A)) \<and> prefix \<in> set (allowed_resource_prefixes (policy A)) \<and> startswith p prefix)
      \<and> (\<exists>c. resolved A request ctx = Inr (Context c)
           \<and> (envelope res \<noteq> None \<longleftrightarrow> \<not> refused c \<and> \<not> incomplete (minimum_sentidino (evaluator A)) c))
      \<and> (envelope res \<noteq> None \<longrightarrow> (\<exists>n. choose_ttl (policy A) t = Inr n \<and> 1 \<le> n \<and> n \<le> policy_maximum_ttl (policy A))))"
proof (intro conjI allI impI)
  show "only_reads w w'" using keepsD [OF only_reads_issue assms(2)] .
  fix res assume "r = Inr res"
  with assms(2) have run: "issue_capability E A request t ctx w = (Inr res, w')" by simp
  have "allowed_resource_prefixes (policy A) \<noteq> []"
    using assms(1) by (auto simp: authority_init_def validate_policy_def rbind_eq_Inr_iff split: if_splits)
  note pre = this
  from run obtain c where v: "validate_request E (policy A) request = Inr ()" and c: "resolved A request ctx = Inr (Context c)"
    and ev: "evaluate E (evaluator A) request c = Inr (decision res)"
    and out: "if result (decision res) \<noteq> ''TEN_XEITO'' then envelope res = None \<and> i_capability_id res = None \<and> w' = w
     else mint E A request t (decision res) w = (Inr res, w') \<and> envelope res \<noteq> None"
    by (rule issue_capability_ok)
  show "\<exists>s a act p prefix. principal request = PStr s \<and> audience request = PStr a \<and> action request = PStr act
           \<and> resource request = PStr p \<and> s \<in> set (allowed_principals (policy A)) \<and> a \<in> set (allowed_audiences (policy A))
           \<and> act \<in> set (allowed_actions (policy A)) \<and> prefix \<in> set (allowed_resource_prefixes (policy A)) \<and> startswith p prefix"
    using v pre by (rule validate_request_ok) blast
  have gate: "result (decision res) = ''TEN_XEITO'' \<longleftrightarrow> \<not> refused c \<and> \<not> incomplete (minimum_sentidino (evaluator A)) c"
  proof -
    have "result (decision res) = result_value (fst (verdict (minimum_sentidino (evaluator A)) c))"
      using ev by (auto simp: evaluate_ok)
    then show ?thesis using result_value_eq_iff [of "fst (verdict (minimum_sentidino (evaluator A)) c)" TEN_XEITO]
      by (simp add: verdict_spec)
  qed
  show "\<exists>c. resolved A request ctx = Inr (Context c)
           \<and> (envelope res \<noteq> None \<longleftrightarrow> \<not> refused c \<and> \<not> incomplete (minimum_sentidino (evaluator A)) c)"
    using c gate out by (intro exI [of _ c]) (auto split: if_splits)
  assume "envelope res \<noteq> None"
  with out have "mint E A request t (decision res) w = (Inr res, w')" by (auto split: if_splits)
  then obtain n where "choose_ttl (policy A) t = Inr n" by (rule mint_ok)
  with choose_ttl_ok show "\<exists>n. choose_ttl (policy A) t = Inr n \<and> 1 \<le> n \<and> n \<le> policy_maximum_ttl (policy A)" by blast
qed

lemma demo_issued:
  obtains w r raw w' where "issue_capability demo_platform demo_authority demo_request PNone (Context sample_context) w = (Inr r, w')"
    and "envelope r = Some raw" and "sound (sec w)" and "db_faults (sec w) = []" and "consumed_nonces (sec w) = []"
    and "clk w = (\<lambda>_. 100)" and "length (entropy w (draws w)) = 16" and "audit_ledger w = La" and "failure_ledger w = Lf"
    and "files w = demo_files"
proof -
  obtain e where e: "\<forall>La Lf. current_epoch demo_platform (ed_public demo_platform ''k'') (sec (demo_world e La Lf))
      = (Inr 1, sec (demo_world e La Lf))" by (rule demo_epoch_world)
  let ?w = "demo_world e La Lf"
  have "\<exists>r raw cap. issue_capability demo_platform demo_authority demo_request PNone (Context sample_context) ?w
      = (Inr r, ?w\<lparr>ticks := ticks ?w + 1, draws := draws ?w + 1\<rparr>)
    \<and> envelope r = Some raw \<and> i_capability_id r = Some cap \<and> hex_match 64 cap"
    by (rule demo_issue [OF demo_passes_sample e [rule_format]]) (simp_all add: demo_world_def)
  moreover have "sound (sec ?w)" using e by (auto simp: current_epoch_ok)
  ultimately show ?thesis using that [of ?w] by (auto simp: demo_world_def demo_state_def)
qed

theorem issue_within_policy_witness:
  "\<exists>w r w'. issue_capability demo_platform demo_authority demo_request PNone (Context sample_context) w = (Inr r, w')
     \<and> envelope r \<noteq> None \<and> only_reads w w' \<and> U ''planner'' \<in> set (allowed_principals (policy demo_authority))"
proof -
  obtain w r raw w' where i: "issue_capability demo_platform demo_authority demo_request PNone (Context sample_context) w = (Inr r, w')"
    "envelope r = Some raw" by (rule demo_issued)
  from issue_within_policy [OF demo_authority_ok i(1)] i show ?thesis
    by (fastforce simp: demo_request_def pstr_def)
qed

lemma issued_accepted:
  assumes ok: "platform_ok E" and A: "authority_init A = Inr A"
    and issued: "issue_capability E A request t ctx w = (Inr r, w')" "envelope r = Some raw"
    and res: "resource request = PStr p" "nfc E p = p" and rnd: "length (entropy w (draws w)) = 16"
    and V: "public_key V = ed_public E (private_key A)" "epoch_public_key V = state_public_key A"
      "policy_maximum_ttl (policy A) \<le> maximum_ttl_seconds V" "0 \<le> clock_skew_seconds V"
    and db: "sound (sec v)" "db_faults (sec v) = []" "metadata (sec v) = metadata (sec w)"
      "expected_minimum_epoch (sec v) = expected_minimum_epoch (sec w)"
      "\<not> seen_nonce (sec v) (hex_of_bytes (entropy w (draws w)))"
    and time: "clk w (ticks w) \<le> clk v (ticks v)" "choose_ttl (policy A) t = Inr ttl" "clk v (ticks v) < clk w (ticks w) + ttl"
      "- (2 ^ 63) \<le> clk v (ticks v)" "clk v (ticks v) < 2 ^ 63"
  shows "\<exists>payload cap v' b f. verify_capability E V raw request True v = (Inr payload, v')
    \<and> i_capability_id r = Some cap \<and> dval payload ''capability_id'' = PStr cap
    \<and> bind_resource E request (files w) = (Inr b, f) \<and> dval payload ''resource_binding'' = PDict b"
proof -
  have pre: "allowed_resource_prefixes (policy A) \<noteq> []" "ident_match (issuer A)"
    using A by (auto simp: authority_init_def validate_policy_def rbind_eq_Inr_iff split: if_splits)
  from issued(1) obtain c where vr: "validate_request E (policy A) request = Inr ()"
    and ev: "evaluate E (evaluator A) request c = Inr (decision r)"
    and out: "if result (decision r) \<noteq> ''TEN_XEITO'' then envelope r = None \<and> i_capability_id r = None \<and> w' = w
     else mint E A request t (decision r) w = (Inr r, w') \<and> envelope r \<noteq> None"
    by (rule issue_capability_ok)
  from out issued(2) have ten: "result (decision r) = ''TEN_XEITO''" and m: "mint E A request t (decision r) w = (Inr r, w')"
    by (auto split: if_splits)
  note dec = evaluate_ten [OF ev ten]
  from vr pre(1) obtain s a act where rq: "principal request = PStr s" "audience request = PStr a" "action request = PStr act"
    "ident_match s" "ident_match a" "ident_match act" by (rule validate_request_ok)
  let ?nonce = "hex_of_bytes (entropy w (draws w))"
  from m obtain ttl' b f n s1 rd env cap where ttl': "choose_ttl (policy A) t = Inr ttl'"
    and b: "bind_resource_dispatch E request (files w) = (Inr b, f)"
    and ep: "current_epoch E (state_public_key A) (sec w) = (Inr n, s1)" and rd: "request_digest E request = Inr rd"
    and seal: "seal_capability E (private_key A)
       (base_payload request n (clk w (ticks w)) ttl' (issuer A) ?nonce rd b (decision r)) = Inr (env, cap)"
    and r: "r = \<lparr>envelope = Some env, decision = decision r, i_capability_id = Some cap\<rparr>"
    by (rule mint_ok)
  have eq: "ttl' = ttl" "env = raw" "i_capability_id r = Some cap" using ttl' time(2) issued(2) r
    by (simp, metis issue_result.select_convs(1) option.inject, metis issue_result.select_convs(3))
  note tt = choose_ttl_ok [OF time(2)]
  have nonce: "hex_match 32 ?nonce" using rnd by (simp add: hex_match_def hex_of_bytes_is_hex)
  have cb: "canon E (PDict b) = PDict b \<and> dval b ''path'' = PStr p \<and> check_binding (action request) b = Inr ()"
    using canon_binding [OF ok refl res(2) b res(1)] .
  obtain payload where o: "open_envelope E V raw request = Inr payload"
    and pl: "dval payload ''issued_at'' = PInt (clk w (ticks w))" "dval payload ''expires_at'' = PInt (clk w (ticks w) + ttl)"
      "dval payload ''authorization_epoch'' = PInt n" "dval payload ''nonce'' = PStr ?nonce"
      "dval payload ''capability_id'' = PStr cap" "hex_match 64 cap" "dval payload ''resource_binding'' = PDict b"
    using issued_opens [OF ok V(1) rq(1,2,3) res(1) rq(4,5,6) res(2) rd pre(2) nonce ten dec(1) _ _ _ _ seal [unfolded eq(1,2)]]
      cb rq(3) dec(2) rd by auto
  have win: "check_window V payload = Inr (clk w (ticks w), clk w (ticks w) + ttl)"
    using pl tt V(3) by (simp add: check_window_ok)
  have ce: "current_epoch E (epoch_public_key V) (sec v) = (Inr n, next_tx (next_tx (sec v)))"
    using ep db V(2) by (auto simp: current_epoch_ok)
  have sv: "str_valid ?nonce" "str_valid cap"
    using nonce pl(6) is_hex_scalars by (auto simp: hex_match_def)
  have "\<exists>s2. consume_nonce (PStr ?nonce) (PStr cap) (PInt (clk v (ticks v))) (next_tx (next_tx (sec v))) = (Inr (), s2)"
    using db sv time(4,5) by (simp add: consume_ok)
  then obtain s2 where "consume_nonce (PStr ?nonce) (PStr cap) (PInt (clk v (ticks v))) (next_tx (next_tx (sec v))) = (Inr (), s2)" ..
  then have "verify_capability E V raw request True v = (Inr payload, v\<lparr>sec := s2, ticks := ticks v + 1\<rparr>)"
    unfolding verify_capability_ok using o win ce pl time V(4) by auto
  with eq(3) pl(5,7) b show ?thesis unfolding bind_resource_ok by blast
qed

text \<open>
  C39: What is issued is accepted. An envelope that the authority returned verifies, at any later
  world with the same epoch in which its nonce is not consumed and whose clock is inside the
  capability's lifetime, and the payload that comes back names the issued capability and carries the
  binding the guard computed when it was issued. The resource
  name must be in normalization form C: for any other name the request itself never matches.
\<close>

theorem issued_verifies:
  assumes ok: "platform_ok E" and A: "authority_init A = Inr A"
    and issued: "issue_capability E A request t ctx w = (Inr r, w')" "envelope r = Some raw"
    and res: "resource request = PStr p" "nfc E p = p" and rnd: "length (entropy w (draws w)) = 16"
    and V: "public_key V = ed_public E (private_key A)" "epoch_public_key V = state_public_key A"
      "policy_maximum_ttl (policy A) \<le> maximum_ttl_seconds V" "0 \<le> clock_skew_seconds V"
    and db: "sound (sec v)" "db_faults (sec v) = []" "metadata (sec v) = metadata (sec w)"
      "expected_minimum_epoch (sec v) = expected_minimum_epoch (sec w)"
      "\<not> seen_nonce (sec v) (hex_of_bytes (entropy w (draws w)))"
    and time: "clk w (ticks w) \<le> clk v (ticks v)" "choose_ttl (policy A) t = Inr ttl" "clk v (ticks v) < clk w (ticks w) + ttl"
      "- (2 ^ 63) \<le> clk v (ticks v)" "clk v (ticks v) < 2 ^ 63"
  shows "\<exists>payload cap v' b f. verify_capability E V raw request True v = (Inr payload, v')
    \<and> i_capability_id r = Some cap \<and> dval payload ''capability_id'' = PStr cap
    \<and> bind_resource E request (files w) = (Inr b, f) \<and> dval payload ''resource_binding'' = PDict b"
  by (rule issued_accepted [OF assms])

lemma demo_verified:
  obtains w raw payload v where "verify_capability demo_platform demo_verifier raw demo_request True w = (Inr payload, v)"
    and "audit_ledger w = La" and "failure_ledger w = Lf" and "files w = demo_files" and "clk w = (\<lambda>_. 100)"
    and "sound (sec w)" and "db_faults (sec w) = []"
    and "dval payload ''resource_binding'' = PDict (mk_dict [(''path'', pstr ''workspace/f''),
       (''sha256'', PStr (sha256_hex demo_platform ''hi'')), (''size'', PInt 2), (''state'', pstr ''present'')])"
proof -
  obtain w r raw w' where i: "issue_capability demo_platform demo_authority demo_request PNone (Context sample_context) w = (Inr r, w')"
    "envelope r = Some raw" and w: "sound (sec w)" "db_faults (sec w) = []" "consumed_nonces (sec w) = []" "clk w = (\<lambda>_. 100)"
    "length (entropy w (draws w)) = 16" "audit_ledger w = La" "failure_ledger w = Lf" "files w = demo_files"
    by (rule demo_issued)
  have res: "resource demo_request = PStr (U ''workspace/f'')" by (simp add: demo_request_def pstr_def)
  have "\<exists>payload cap v' b f. verify_capability demo_platform demo_verifier raw demo_request True w = (Inr payload, v')
    \<and> i_capability_id r = Some cap \<and> dval payload ''capability_id'' = PStr cap
    \<and> bind_resource demo_platform demo_request (files w) = (Inr b, f) \<and> dval payload ''resource_binding'' = PDict b"
    by (rule issued_accepted [OF platform_ok_demo demo_authority_ok i res, where ttl = 60])
      (use w in \<open>simp_all add: demo_verifier_def demo_authority_def seen_nonce_def choose_ttl_def default_policy_def\<close>)
  then obtain payload v' b f where "verify_capability demo_platform demo_verifier raw demo_request True w = (Inr payload, v')"
    "bind_resource demo_platform demo_request (files w) = (Inr b, f)" "dval payload ''resource_binding'' = PDict b" by blast
  with that [of raw w payload v'] w demo_bound show ?thesis by (simp add: bind_resource_ok)
qed

theorem issued_verifies_witness:
  "\<exists>w r raw w' payload v v'. issue_capability demo_platform demo_authority demo_request PNone (Context sample_context) w = (Inr r, w')
     \<and> envelope r = Some raw \<and> clk w (ticks w) < clk v (ticks v)
     \<and> verify_capability demo_platform demo_verifier raw demo_request True v = (Inr payload, v')"
proof -
  obtain w r raw w' where i: "issue_capability demo_platform demo_authority demo_request PNone (Context sample_context) w = (Inr r, w')"
    "envelope r = Some raw" and w: "sound (sec w)" "db_faults (sec w) = []" "consumed_nonces (sec w) = []" "clk w = (\<lambda>_. 100)"
    "length (entropy w (draws w)) = 16" by (rule demo_issued)
  have res: "resource demo_request = PStr (U ''workspace/f'')" by (simp add: demo_request_def pstr_def)
  let ?v = "w'\<lparr>sec := sec w, clk := (\<lambda>_. 130)\<rparr>"
  have "\<exists>payload cap v' b f. verify_capability demo_platform demo_verifier raw demo_request True ?v = (Inr payload, v')
    \<and> i_capability_id r = Some cap \<and> dval payload ''capability_id'' = PStr cap
    \<and> bind_resource demo_platform demo_request (files w) = (Inr b, f) \<and> dval payload ''resource_binding'' = PDict b"
    by (rule issued_verifies [OF platform_ok_demo demo_authority_ok i res, where ttl = 60])
      (use w in \<open>simp_all add: demo_verifier_def demo_authority_def seen_nonce_def choose_ttl_def default_policy_def\<close>)
  moreover have "clk w (ticks w) < clk ?v (ticks ?v)" using w by simp
  ultimately show ?thesis using i by blast
qed

section \<open>Verifying\<close>

text \<open>
  C5: What is accepted was authorized. If the verifier returns, the envelope is the canonical
  encoding of a document whose signature the Ed25519 primitive accepts, under the capability
  domain and the verifier's key, on the canonical encoding of the payload; the payload names the
  digest of this very request (in its own field and in its SAXP evidence, whose result is
  TEN_XEITO), its action, resource, subject and audience and a binding of the right kind for this
  resource; the clock is inside the signed window and the epoch is the current one. The nonce was
  not consumed before and is now, with the identifier of the capability, and nothing else changes.
\<close>

theorem verify_sound:
  assumes "verify_capability E V raw request True w = (Inr payload, w')"
  shows "authentic E V raw request payload
    \<and> (\<exists>i x. dval payload ''issued_at'' = PInt i \<and> dval payload ''expires_at'' = PInt x
         \<and> x - i \<le> maximum_ttl_seconds V \<and> i \<le> clk w (ticks w) + clock_skew_seconds V \<and> clk w (ticks w) < x)
    \<and> (\<exists>n s. dval payload ''authorization_epoch'' = PInt n \<and> current_epoch E (epoch_public_key V) (sec w) = (Inr n, s))
    \<and> (\<exists>n c. dval payload ''nonce'' = PStr n \<and> dval payload ''capability_id'' = PStr c \<and> \<not> spent (sec w) n \<and> spent (sec w') n
         \<and> consumed_nonces (sec w') = consumed_nonces (sec w) @ [(n, c, clk w (ticks w))])
    \<and> metadata (sec w') = metadata (sec w) \<and> same_stores w w'"
proof -
  from assms obtain i x n s1 s2 where o: "open_envelope E V raw request = Inr payload"
    and win: "check_window V payload = Inr (i, x)" "i \<le> clk w (ticks w) + clock_skew_seconds V" "clk w (ticks w) < x"
    and ep: "dval payload ''authorization_epoch'' = PInt n" "current_epoch E (epoch_public_key V) (sec w) = (Inr n, s1)"
    and con: "consume_nonce (dval payload ''nonce'') (dval payload ''capability_id'') (PInt (clk w (ticks w))) s1 = (Inr (), s2)"
    and w': "w' = w\<lparr>sec := s2, ticks := ticks w + 1\<rparr>"
    unfolding verify_capability_ok by auto
  from check_head_ok [OF open_envelope_ok(2) [OF o]] obtain nonce cap where nc: "dval payload ''nonce'' = PStr nonce"
    "dval payload ''capability_id'' = PStr cap" by blast
  have same: "same_db (sec w) s1" using keepsD [OF current_epoch_same ep(2)] .
  from con nc consume_spends [of nonce cap "clk w (ticks w)" s1 "()" s2] same_dbD [OF same]
  have n: "\<not> spent (sec w) nonce" "spent s2 nonce" by auto
  have s2: "consumed_nonces s2 = consumed_nonces (sec w) @ [(nonce, cap, clk w (ticks w))]" "metadata s2 = metadata (sec w)"
    using con nc same_dbD [OF same] by (auto simp: consume_ok)
  show ?thesis
    using open_envelope_ok(1) [OF o] win ep n s2 nc w' keepsD [OF same_stores_verify assms]
    by (simp add: check_window_ok)
qed

theorem verify_sound_witness:
  "\<exists>w raw payload v. verify_capability demo_platform demo_verifier raw demo_request True w = (Inr payload, v)
     \<and> authentic demo_platform demo_verifier raw demo_request payload"
proof -
  obtain w raw payload v where v: "verify_capability demo_platform demo_verifier raw demo_request True w = (Inr payload, v)"
    by (rule demo_verified)
  from verify_sound [OF v] v show ?thesis by blast
qed

text \<open>
  C6: One capability, one request, one acceptance. Once an envelope was accepted, then whatever
  operations any process ran on the security state, no verifier accepts that envelope again, for any
  request; and if it ever opens for another request, the two requests have one canonical form, unless
  the canonical encodings of these two very requests are a collision of SHA-256.
\<close>

theorem capability_single_use:
  assumes ok: "platform_ok E" and first: "verify_capability E V raw request True w = (Inr payload, w1)"
    and later: "(sec_step E)\<^sup>*\<^sup>* (sec w1) (sec w2)"
  shows "(\<exists>e. fst (verify_capability E V' raw request' True w2) = Inl e)
    \<and> (\<forall>payload'. open_envelope E V' raw request' = Inr payload' \<longrightarrow> payload' = payload
         \<and> (\<exists>p p' b b'. request_payload request = Inr p \<and> request_payload request' = Inr p'
              \<and> canonicalize E p = Inr b \<and> canonicalize E p' = Inr b'
              \<and> (canon E p' = canon E p \<or> collides E b b')))"
proof -
  from first have o: "open_envelope E V raw request = Inr payload" by (auto simp: verify_capability_ok)
  have same: "payload' = payload" if "open_envelope E V' raw request' = Inr payload'" for payload'
    by (rule open_envelope_payload [OF o that])
  have "\<exists>e. fst (verify_capability E V' raw request' True w2) = Inl e"
    by (rule accepted_once [OF first sec_steps_retain [OF later]])
  moreover have "\<exists>p p' b b'. request_payload request = Inr p \<and> request_payload request' = Inr p'
      \<and> canonicalize E p = Inr b \<and> canonicalize E p' = Inr b' \<and> (canon E p' = canon E p \<or> collides E b b')"
    if o': "open_envelope E V' raw request' = Inr payload'" for payload'
  proof -
    obtain d where d: "request_digest E request = Inr d" "request_digest E request' = Inr d"
      using open_envelope_ok(1) [OF o] open_envelope_ok(1) [OF o'] same [OF o'] by (auto simp: authentic_def)
    then obtain p p' b b' where pp: "request_payload request = Inr p" "request_payload request' = Inr p'"
      "canonicalize E p = Inr b" "canonicalize E p' = Inr b'" "sha256_hex E b = sha256_hex E b'"
      by (auto simp: request_digest_def digest_def rbind_eq_Inr_iff rmap_eq_Inr_iff)
    then have "canon E p' = canon E p \<or> collides E b b'"
      using same_digest [of E b b'] canonical.enc_inject [OF ok, of p b p'] by auto
    with pp show ?thesis by blast
  qed
  ultimately show ?thesis using same by blast
qed

theorem capability_single_use_witness:
  "\<exists>w raw payload w1 e. verify_capability demo_platform demo_verifier raw demo_request True w = (Inr payload, w1)
     \<and> fst (verify_capability demo_platform demo_verifier raw demo_request True w1) = Inl e"
proof -
  obtain w raw payload v where v: "verify_capability demo_platform demo_verifier raw demo_request True w = (Inr payload, v)"
    by (rule demo_verified)
  from capability_single_use [OF platform_ok_demo v rtranclp.rtrancl_refl] v show ?thesis by blast
qed

text \<open>
  A refusal changes nothing. When verification raises, at whatever check, the epoch, the consumed
  nonces, the files and the ledgers are what they were: a refused envelope burns no nonce.
\<close>

lemma verify_fail_closed:
  assumes "verify_capability E V raw request consume w = (Inl e, w')"
  shows "metadata (sec w') = metadata (sec w) \<and> consumed_nonces (sec w') = consumed_nonces (sec w)
    \<and> expected_minimum_epoch (sec w') = expected_minimum_epoch (sec w)
    \<and> files w' = files w \<and> audit_ledger w' = audit_ledger w \<and> failure_ledger w' = failure_ledger w"
  using verify_capability_err [OF assms] same_dbD by (auto simp: same_stores_def)

end
