(* ===== verification/Executor_Facts.thy ===== *)
theory Executor_Facts
  imports Executor Capability Ledger_Facts
begin

text \<open>
  What the executor guarantees: it always returns a result, it acts only under a capability that
  the verifier accepted in the same call, its effects stay at the bound path, and its records only
  grow the ledgers.
\<close>

section \<open>Denials\<close>

lemma sbind_clock: "sbind clock_now f w = f (clk w (ticks w)) (w\<lparr>ticks := ticks w + 1\<rparr>)"
  by (simp add: sbind_def clock_now_def)

lemma quietly_total: "\<exists>w'. quietly m w = (Inr (), w')"
  by (cases "m w"; cases "fst (m w)") (auto simp: quietly_def scatch_def sbind_def sret_def)

definition denied_result :: "exn \<Rightarrow> pyval \<Rightarrow> execution_result" where
  "denied_result e cap = \<lparr>success = False, status = ''DENIED'', reason_code = exn_code e, execution_authority = 0,
     x_capability_id = cap, output_digest = PNone, outp = None\<rparr>"

lemma record_denial_total: "\<exists>w'. record_denial E X request code cap w = (Inr (), w')"
proof -
  have two: "\<exists>w'. (sbind (quietly m) (\<lambda>_. quietly m')) w = (Inr (), w')" for m m' :: "ustr kernel" and w
    using quietly_total [of m w] quietly_total [of m'] unfolding sbind_ok by blast
  then show ?thesis by (simp only: record_denial_def Let_def sbind_clock)
qed

lemma deny_total: "\<exists>w'. deny E X request cap e w = (Inr (denied_result e cap), w')"
  using record_denial_total [of E X request "exn_code e" cap w]
  by (auto simp: deny_def sbind_ok denied_result_def)

lemma deny_eq: "deny E X request cap e w = (r, w') \<Longrightarrow> r = Inr (denied_result e cap)"
  using deny_total [of E X request cap e w] by auto

text \<open>The result of a call: denied before the capability was accepted, denied after it, or executed.\<close>

lemma execute_cases:
  assumes "execute E X raw request w = (r, w')"
  obtains (refused) e v where "authorize E X raw request w = (Inl e, v)" "r = Inr (denied_result e PNone)"
        "deny E X request PNone e v = (r, w')"
    | (aborted) payload v e u where "authorize E X raw request w = (Inr payload, v)"
        "commit E X request payload v = (Inl e, u)" "r = Inr (denied_result e (dval payload ''capability_id''))"
        "deny E X request (dval payload ''capability_id'') e u = (r, w')"
    | (executed) payload v x where "authorize E X raw request w = (Inr payload, v)"
        "commit E X request payload v = (Inr x, w')" "r = Inr x"
proof -
  let ?rest = "\<lambda>payload. scatch any_exn (deny E X request (dval payload ''capability_id'')) (commit E X request payload)"
  from assms [unfolded execute_def] show ?thesis
  proof (cases rule: scatch_cases)
    case (ok x)
    from ok(1) obtain payload v where a: "authorize E X raw request w = (Inr payload, v)" and c: "?rest payload v = (Inr x, w')"
      by (auto simp: sbind_ok)
    from c show ?thesis
    proof (cases rule: scatch_cases)
      case (ok y)
      with a \<open>r = Inr x\<close> executed show ?thesis by simp
    next
      case (handled e u)
      from deny_eq [OF handled(3)] handled a \<open>r = Inr x\<close> aborted show ?thesis by auto
    qed simp
  next
    case (handled e v)
    from handled(1) show ?thesis
      unfolding sbind_err
    proof (elim disjE exE conjE)
      assume "authorize E X raw request w = (Inl e, v)"
      with handled(3) deny_eq [OF handled(3)] refused show ?thesis by simp
    next
      fix payload u assume "?rest payload u = (Inl e, v)"
      then show ?thesis
        by (cases rule: scatch_cases) (use deny_eq in \<open>fastforce+\<close>)
    qed
  qed simp
qed

definition executed_result :: "pyval \<Rightarrow> pyval \<Rightarrow> bytes option \<Rightarrow> execution_result" where
  "executed_result cap d out = \<lparr>success = True, status = ''EXECUTED'', reason_code = ''TEN_XEITO_AUTHORIZED'',
     execution_authority = 1, x_capability_id = cap, output_digest = d, outp = out\<rparr>"

definition bound_of :: "pydict \<Rightarrow> pydict" where
  "bound_of payload = (case dval payload ''resource_binding'' of PDict b \<Rightarrow> b | _ \<Rightarrow> [])"

section \<open>A committed execution\<close>

lemma commit_ok:
  assumes "commit E X request payload w = (Inr x, w')"
  obtains h1 w1 n s d out f h2 w3 where
    "audit_append E X ''EXECUTION_AUTHORIZED'' (intent_data request (dval payload ''capability_id'')) (clk w (ticks w))
       (w\<lparr>ticks := ticks w + 1\<rparr>) = (Inr h1, w1)"
    "current_epoch E (epoch_public_key (verifier X)) (sec w1) = (Inr n, s)"
    "py_eq_int (dval payload ''authorization_epoch'') n"
    "perform E request (bound_of payload) (files w1) = (Inr (d, out), f)"
    "w3 = w1\<lparr>sec := s, files := f\<rparr>"
    "audit_append E X ''EXECUTION_COMPLETED'' (dset (intent_data request (dval payload ''capability_id'')) ''output_digest'' d)
       (clk w3 (ticks w3)) (w3\<lparr>ticks := ticks w3 + 1\<rparr>) = (Inr h2, w')"
    "x = executed_result (dval payload ''capability_id'') d out"
proof -
  have sc: "scatch any_exn (\<lambda>e. sbind m (\<lambda>_. sraise e)) k v = (Inr y, v') \<longleftrightarrow> k v = (Inr y, v')"
    for m :: "unit kernel" and k :: "ustr kernel" and v y v'
    by (rule scatch_ok) (auto simp: sbind_ok)
  from assms obtain h1 w1 where a: "audit_append E X ''EXECUTION_AUTHORIZED'' (intent_data request (dval payload ''capability_id''))
      (clk w (ticks w)) (w\<lparr>ticks := ticks w + 1\<rparr>) = (Inr h1, w1)"
    and r: "sbind (on_sec (current_epoch E (epoch_public_key (verifier X)))) (\<lambda>current.
        if \<not> py_eq_int (dval payload ''authorization_epoch'') current
        then slift (epoch_err ''authorization epoch changed before commit'')
        else
          sbind (on_files (perform E request (bound_of payload))) (\<lambda>(digest, data).
          sbind (scatch any_exn
                  (\<lambda>e. sbind (if action_in (action request) [''resource.create'', ''sandbox.create_record'']
                              then sbind (on_files (remove_created E (bound_of payload) digest)) (\<lambda>_. sret ())
                              else sret ()) (\<lambda>_. sraise e))
                  (sbind clock_now (\<lambda>t.
                   audit_append E X ''EXECUTION_COMPLETED'' (dset (intent_data request (dval payload ''capability_id'')) ''output_digest'' digest) t))) (\<lambda>_.
          sret (executed_result (dval payload ''capability_id'') digest data)))) w1 = (Inr x, w')"
    unfolding commit_def Let_def bound_of_def [symmetric] executed_result_def [symmetric]
    unfolding sbind_ok [of clock_now] clock_now_ok unfolding sbind_ok [of "audit_append E X ev da t" for ev da t] by blast
  from r obtain n s where e: "current_epoch E (epoch_public_key (verifier X)) (sec w1) = (Inr n, s)"
    and q: "py_eq_int (dval payload ''authorization_epoch'') n"
    and r2: "sbind (on_files (perform E request (bound_of payload))) (\<lambda>(digest, data).
          sbind (scatch any_exn
                  (\<lambda>e. sbind (if action_in (action request) [''resource.create'', ''sandbox.create_record'']
                              then sbind (on_files (remove_created E (bound_of payload) digest)) (\<lambda>_. sret ())
                              else sret ()) (\<lambda>_. sraise e))
                  (sbind clock_now (\<lambda>t.
                   audit_append E X ''EXECUTION_COMPLETED'' (dset (intent_data request (dval payload ''capability_id'')) ''output_digest'' digest) t))) (\<lambda>_.
          sret (executed_result (dval payload ''capability_id'') digest data))) (w1\<lparr>sec := s\<rparr>) = (Inr x, w')"
    by (subst (asm) sbind_ok) (clarsimp simp: on_ok split: if_splits)
  from r2 obtain d out f where p: "perform E request (bound_of payload) (files w1) = (Inr (d, out), f)"
    and r3: "\<exists>h2. (sbind clock_now (\<lambda>t. audit_append E X ''EXECUTION_COMPLETED''
       (dset (intent_data request (dval payload ''capability_id'')) ''output_digest'' d) t)) (w1\<lparr>sec := s, files := f\<rparr>) = (Inr h2, w')"
    and x: "x = executed_result (dval payload ''capability_id'') d out"
    by (subst (asm) sbind_ok) (auto simp: on_ok sbind_ok [of "scatch p h k" for p h k] sc)
  from r3 obtain h2 where "audit_append E X ''EXECUTION_COMPLETED''
       (dset (intent_data request (dval payload ''capability_id'')) ''output_digest'' d)
       (clk (w1\<lparr>sec := s, files := f\<rparr>) (ticks (w1\<lparr>sec := s, files := f\<rparr>)))
       ((w1\<lparr>sec := s, files := f\<rparr>)\<lparr>ticks := ticks (w1\<lparr>sec := s, files := f\<rparr>) + 1\<rparr>) = (Inr h2, w')"
    by (auto simp: sbind_ok clock_now_ok)
  from that [OF a e q p refl this x] show ?thesis .
qed

section \<open>Authorization\<close>

lemma verify_integrity_ok: "verify_integrity E p L = (r, L') \<longleftrightarrow> r = verify_ledger E p L \<and> L' = L"
  by (auto simp: verify_integrity_def)

lemma authorize_ok:
  assumes "authorize E X raw request w = (Inr payload, v)"
  shows "audience request = PStr (executor_id X) \<and> is_ok (verify_ledger E (audit_key X) (audit_ledger w))
    \<and> is_ok (verify_ledger E (failure_key X) (failure_ledger w)) \<and> sound (sec w)
    \<and> verify_capability E (verifier X) raw request True (w\<lparr>sec := next_tx (sec w)\<rparr>) = (Inr payload, v)"
proof -
  from assms have a: "audience request = PStr (executor_id X)"
    by (auto simp: authorize_def split: if_splits)
  with assms have "sbind (on_audit (verify_integrity E (audit_key X))) (\<lambda>_.
        sbind (on_failures (verify_integrity E (failure_key X))) (\<lambda>_.
        sbind (on_sec integrity_check) (\<lambda>_.
        verify_capability E (verifier X) raw request True))) w = (Inr payload, v)"
    by (simp add: authorize_def)
  with a show ?thesis
    by (clarsimp simp: sbind_ok on_ok verify_integrity_ok integrity_check_ok is_ok_iff) metis
qed

lemma same_stores_authorize: "keeps same_stores (authorize E X raw request)"
proof -
  have v: "keeps same_stores (on_audit (verify_integrity E p))" "keeps same_stores (on_failures (verify_integrity E p))" for p
    by (auto simp: keeps_def same_stores_def on_audit_def on_failures_def szoom_def verify_integrity_def)
  show ?thesis unfolding authorize_def by (intro keeps_intro preorder_same_stores v)
qed

section \<open>Relations kept by an execution\<close>

text \<open>Files change through bound operations on one binding.\<close>

definition acts :: "pydict \<Rightarrow> world \<Rightarrow> world \<Rightarrow> bool" where
  "acts b w w' \<longleftrightarrow> (fs_step b)\<^sup>*\<^sup>* (files w) (files w')"

lemma preorder_acts [simp]: "preorder_rel (acts b)"
  by (auto simp: preorder_rel_def reflp_def transp_def acts_def)

lemma keeps_fs_steps: "(\<And>s r s'. m s = (r, s') \<Longrightarrow> fs_step b s s') \<Longrightarrow> keeps (fs_step b)\<^sup>*\<^sup>* m"
  by (auto intro!: keepsI)

lemma preorder_fs_steps [simp]: "preorder_rel (fs_step b)\<^sup>*\<^sup>*"
  by (auto simp: preorder_rel_def reflp_def transp_def)

lemma fs_steps_perform: "keeps (fs_step b)\<^sup>*\<^sup>* (perform E request b)"
proof -
  have k: "keeps (fs_step b)\<^sup>*\<^sup>* (read_bound E b)" "keeps (fs_step b)\<^sup>*\<^sup>* (create_bound E b d)"
    "keeps (fs_step b)\<^sup>*\<^sup>* (write_bound E b d)" "keeps (fs_step b)\<^sup>*\<^sup>* (append_bound E b d)" for d
    by (intro keeps_fs_steps; blast intro: fs_step.intros)+
  show ?thesis unfolding perform_def Let_def
    by (intro keeps_if keeps_sbind keeps_pure preorder_fs_steps k)
qed

lemma acts_basic [keeps_intro]:
  "keeps (acts b) (on_sec m)" "keeps (acts b) clock_now" "keeps (acts b) (on_audit L)" "keeps (acts b) (on_failures L)"
  "keeps (fs_step b)\<^sup>*\<^sup>* f \<Longrightarrow> keeps (acts b) (on_files f)"
  by (auto simp: keeps_def acts_def on_sec_def on_audit_def on_failures_def on_files_def clock_now_def szoom_def split: prod.splits)
    (metis snd_conv)

lemma acts_commit: "keeps (acts (bound_of payload)) (commit E X request payload)"
proof -
  have r: "keeps (fs_step b)\<^sup>*\<^sup>* (remove_created E b d)" for b d
    by (intro keeps_fs_steps) (blast intro: fs_step.intros)
  show ?thesis
    unfolding commit_def Let_def audit_append_def bound_of_def [symmetric]
    by (intro keeps_intro preorder_acts fs_steps_perform r)
qed

lemma same_files_deny: "keeps (\<lambda>w w'. files w' = files w) (deny E X request cap e)"
proof -
  have "keeps (\<lambda>w w'. files w' = files w) clock_now" "keeps (\<lambda>w w'. files w' = files w) (on_failures m)"
    "keeps (\<lambda>w w'. files w' = files w) (on_audit m)" for m :: "(ledger, 'b) op"
    by (auto simp: keeps_def clock_now_def on_audit_def on_failures_def szoom_def split: prod.splits)
  note k = this
  show ?thesis
    unfolding deny_def record_denial_def quietly_def audit_append_def Let_def
    by (intro keeps_intro preorder_rel_same k)
qed

text \<open>The audit ledger only grows.\<close>

definition grows :: "platform \<Rightarrow> bytes \<Rightarrow> world \<Rightarrow> world \<Rightarrow> bool" where
  "grows E p w w' \<longleftrightarrow> (\<forall>rs'. history E p (audit_ledger w') = Some rs' \<longrightarrow>
     (\<exists>rs. history E p (audit_ledger w) = Some rs \<and> prefix rs rs'))"

lemma preorder_grows [simp]: "preorder_rel (grows E p)"
  by (auto simp: preorder_rel_def reflp_def transp_def grows_def) (meson prefix_order.trans)

lemma same_audit_grows: "audit_ledger w' = audit_ledger w \<Longrightarrow> grows E p w w'"
  by (simp add: grows_def)

lemma grows_basic [keeps_intro]:
  "keeps (grows E p) (on_sec a)" "keeps (grows E p) clock_now" "keeps (grows E p) (on_failures b)" "keeps (grows E p) (on_files c)"
  by (auto simp: keeps_def on_sec_def on_failures_def on_files_def clock_now_def szoom_def split: prod.splits
      intro!: same_audit_grows)

lemma grows_append:
  assumes "platform_ok E" "audit_key X = ed_public E k" "audit_signer X = Some k"
  shows "keeps (grows E (ed_public E k)) (audit_append E X ev d t)"
proof (rule keepsI)
  fix w r w' assume "audit_append E X ev d t w = (r, w')"
  then obtain L where run: "append_ledger E (ed_public E k) (Some k) (pstr ev) (PDict d) (PInt t) (audit_ledger w) = (r, L)"
    and w': "w' = w\<lparr>audit_ledger := L\<rparr>"
    using assms by (auto simp: audit_append_def on_ok)
  show "grows E (ed_public E k) w w'"
    using audit.app_extends [of "(E, k)" "(pstr ev, PDict d, PInt t)" "audit_ledger w" r L] run assms(1) w'
    by (auto simp: grows_def)
qed

lemma grows_deny:
  assumes "platform_ok E" "audit_key X = ed_public E k" "audit_signer X = Some k"
  shows "keeps (grows E (ed_public E k)) (deny E X request cap e)"
  unfolding deny_def record_denial_def quietly_def Let_def
  by (intro keeps_intro preorder_grows grows_append [OF assms])

lemma grows_commit:
  assumes "platform_ok E" "audit_key X = ed_public E k" "audit_signer X = Some k"
  shows "keeps (grows E (ed_public E k)) (commit E X request payload)"
  unfolding commit_def Let_def
  by (intro keeps_intro preorder_grows grows_append [OF assms])

lemma grows_authorize: "keeps (grows E p) (authorize E X raw request)"
  by (rule keeps_mono [OF same_stores_authorize]) (simp add: same_stores_def same_audit_grows)

text \<open>Consumed nonces stay consumed.\<close>

definition sec_retains :: "world \<Rightarrow> world \<Rightarrow> bool" where
  "sec_retains w w' \<longleftrightarrow> retains (sec w) (sec w')"

lemma preorder_sec_retains [simp]: "preorder_rel sec_retains"
  using preorder_retains by (auto simp: preorder_rel_def reflp_def transp_def sec_retains_def)

lemma sec_retains_basic [keeps_intro]:
  "keeps sec_retains clock_now" "keeps sec_retains (on_audit a)" "keeps sec_retains (on_failures b)"
  "keeps sec_retains (on_files c)" "keeps retains m \<Longrightarrow> keeps sec_retains (on_sec m)"
  by (auto simp: keeps_def sec_retains_def on_sec_def on_audit_def on_failures_def on_files_def clock_now_def szoom_def
      retains_def split: prod.splits) (metis snd_conv)

lemma sec_retains_commit: "keeps sec_retains (commit E X request payload)"
  unfolding commit_def Let_def audit_append_def
  by (intro keeps_intro preorder_sec_retains)

lemma sec_retains_deny: "keeps sec_retains (deny E X request cap e)"
  unfolding deny_def record_denial_def quietly_def Let_def audit_append_def
  by (intro keeps_intro preorder_sec_retains)

lemma authorize_path:
  assumes "authorize E X raw request w = (Inr payload, v)"
  shows "dval payload ''resource_binding'' = PDict (bound_of payload) \<and> py_eq (dval (bound_of payload) ''path'') (resource request)
    \<and> binding_for (action request) (bound_of payload) \<and> (\<exists>c. dval payload ''capability_id'' = PStr c)"
proof -
  from authorize_ok [OF assms] have o: "open_envelope E (verifier X) raw request = Inr payload"
    by (auto simp: verify_capability_ok)
  from open_envelope_ok(1) [OF o] check_head_ok [OF open_envelope_ok(2) [OF o]] show ?thesis
    by (auto simp: authentic_def bound_of_def)
qed

text \<open>What an action did to the file system, by kind.\<close>

definition effect :: "platform \<Rightarrow> action_request \<Rightarrow> pydict \<Rightarrow> fsys \<Rightarrow> fsys \<Rightarrow> pyval \<Rightarrow> bytes option \<Rightarrow> bool" where
  "effect E request b f f' d out \<longleftrightarrow> (\<exists>p. parts (dval b ''path'') = Inr p \<and>
     ((\<exists>data. out = Some data \<and> node_at f p = Some (File data) \<and> fs_root f' = fs_root f \<and> d = PStr (sha256_hex E data)
         \<and> dval b ''sha256'' = d \<and> action_in (action request) [''resource.read'', ''sandbox.read_file'', ''sandbox.read_record''])
    \<or> (\<exists>data. out = None \<and> payload_content request = Inr data \<and> node_at f p = None
         \<and> fs_root f' = put p (Some (File data)) (fs_root f) \<and> d = PStr (sha256_hex E data) \<and> dval b ''post_sha256'' = d
         \<and> action_in (action request) [''resource.create'', ''sandbox.create_record''])
    \<or> (\<exists>data. out = None \<and> payload_content request = Inr data \<and> fs_root f' = put p (Some (File data)) (fs_root f)
         \<and> d = PStr (sha256_hex E data) \<and> dval b ''post_sha256'' = d \<and> py_is_str (action request) ''sandbox.write_file''
         \<and> (if py_is_str (dval b ''pre_state'') ''absent'' then node_at f p = None
            else \<exists>old. node_at f p = Some (File old) \<and> dval b ''pre_sha256'' = PStr (sha256_hex E old)))
    \<or> (\<exists>data old. out = None \<and> payload_content request = Inr data \<and> node_at f p = Some (File old)
         \<and> fs_root f' = put p (Some (File (old @ data))) (fs_root f) \<and> d = dval b ''post_sha256''
         \<and> dval b ''pre_sha256'' = PStr (sha256_hex E old) \<and> py_is_str (action request) ''sandbox.append_file'')))"

lemma perform_effect:
  assumes "perform E request b f = (Inr (d, out), f')"
  shows "effect E request b f f' d out"
proof -
  consider (rd) "action_in (action request) [''resource.read'', ''sandbox.read_file'', ''sandbox.read_record'']"
      "\<exists>data. read_bound E b f = (Inr data, f') \<and> d = PStr (sha256_hex E data) \<and> out = Some data"
    | (cr) data where "action_in (action request) [''resource.create'', ''sandbox.create_record'']"
      "payload_content request = Inr data" "create_bound E b data f = (Inr d, f')" "out = None"
    | (wr) data where "py_is_str (action request) ''sandbox.write_file''"
      "payload_content request = Inr data" "write_bound E b data f = (Inr d, f')" "out = None"
    | (ap) data where "py_is_str (action request) ''sandbox.append_file''"
      "payload_content request = Inr data" "append_bound E b data f = (Inr d, f')" "out = None"
    using assms unfolding perform_def Let_def
    by (auto simp: sbind_ok action_in_def split: if_splits)
  then show ?thesis
  proof cases
    case rd
    then obtain data where data: "read_bound E b f = (Inr data, f')" "d = PStr (sha256_hex E data)" "out = Some data" by blast
    from read_bound_ok [OF data(1)] obtain p where "parts (dval b ''path'') = Inr p" "file_bytes f p = Some data"
      "same_tree f f'" "dval b ''sha256'' = PStr (sha256_hex E data)" by (auto simp: py_eq_str_def)
    with rd(1) data show ?thesis unfolding effect_def by (intro exI [of _ p]) (simp add: file_bytes_at)
  next
    case cr
    from create_bound_ok [OF cr(3)] cr show ?thesis unfolding effect_def by blast
  next
    case wr
    from write_bound_ok [OF wr(3)] wr show ?thesis unfolding effect_def pre_absent_def by (simp split: if_splits) blast+
  next
    case ap
    from append_bound_ok [OF ap(3)] ap show ?thesis unfolding effect_def by blast
  qed
qed

end
