(* ===== verification/Execution.thy ===== *)
theory Execution
  imports Executor_Facts
begin

text \<open>The properties of the executor, the component all others exist for.\<close>

section \<open>A verified read executes\<close>

lemma audit_append_plain:
  assumes ok: "platform_ok E" and X: "audit_key X = ed_public E k" "audit_signer X = Some k"
    and v: "verify_ledger E (ed_public E k) (audit_ledger w) = Inr (n, head)"
    and f: "lg_faults (audit_ledger w) = []" and log: "log_file (audit_ledger w) \<noteq> None"
    and n: "0 \<le> n" "n < MAX_INTEGER" "hex_match 64 head"
    and d: "plain (PDict d)" "wf_keys (PDict d)" "vok 1 (PDict d)" "nodes (PDict d) \<le> 1000" "scalars (PDict d)" "jbound (PDict d) \<le> 10000"
    and ev: "ev \<noteq> []" "ascii ev" "length ev \<le> 100" and t: "0 \<le> t" "t \<le> MAX_INTEGER"
  shows "\<exists>h L. audit_append E X ev d t w = (Inr h, w\<lparr>audit_ledger := L\<rparr>)
    \<and> verify_ledger E (ed_public E k) L = Inr (n + 1, h) \<and> lg_faults L = [] \<and> log_file L \<noteq> None \<and> hex_match 64 h"
proof -
  let ?L = "audit_ledger w"
  have o: "opened ?L = ?L" using log f by (cases ?L) (auto simp: opened_def log_content_def)
  have e: "list_all (\<lambda>c. c < 128) (U ev)" "length (U ev) \<le> 100" "U ev \<noteq> []"
    using ev by (auto simp: ascii_def U_def list_all_iff)
  obtain h line where r: "next_record E (ed_public E k) (U ev) (PDict d) t ?L = Inr (n, head, h, line)" and h: "hex_match 64 h"
    using plain_event [OF ok d e(1,2) n(3,1,2) t] v o by metis
  obtain L' where "append_ledger E (ed_public E k) (Some k) (PStr (U ev)) (PDict d) (PInt t) ?L = (Inr h, L')"
    "verify_ledger E (ed_public E k) L' = Inr (n + 1, h)" "lg_faults L' = []" "log_file L' = Some (log_content ?L @ line @ [NL])"
    by (rule append_succeeds [OF ok f e(3) t r n(2)])
  with h show ?thesis by (intro exI [of _ h] exI [of _ L']) (simp add: audit_append_def X on_ok pstr_def)
qed

lemma commit_intro:
  assumes "audit_append E X ''EXECUTION_AUTHORIZED'' (intent_data request (dval payload ''capability_id'')) (clk w (ticks w))
       (w\<lparr>ticks := ticks w + 1\<rparr>) = (Inr h1, w1)"
    and "current_epoch E (epoch_public_key (verifier X)) (sec w1) = (Inr n, s)"
    and "py_eq_int (dval payload ''authorization_epoch'') n"
    and "perform E request (bound_of payload) (files w1) = (Inr (d, out), f)"
    and "audit_append E X ''EXECUTION_COMPLETED'' (dset (intent_data request (dval payload ''capability_id'')) ''output_digest'' d)
       (clk w1 (ticks w1)) (w1\<lparr>sec := s, files := f, ticks := ticks w1 + 1\<rparr>) = (Inr h2, w2)"
  shows "commit E X request payload w = (Inr (executed_result (dval payload ''capability_id'') d out), w2)"
proof -
  have r: "scatch any_exn h (sbind clock_now (\<lambda>t. audit_append E X ''EXECUTION_COMPLETED'' (dset (intent_data request (dval payload ''capability_id'')) ''output_digest'' d) t))
      (w1\<lparr>sec := s, files := f\<rparr>) = (Inr h2, w2)" for h
    using assms(5) by (simp add: scatch_def sbind_clock)
  have c: "on_sec (current_epoch E (epoch_public_key (verifier X))) w1 = (Inr n, w1\<lparr>sec := s\<rparr>)"
    using assms(2) by (simp add: on_ok)
  have p: "on_files (perform E request (bound_of payload)) (w1\<lparr>sec := s\<rparr>) = (Inr (d, out), w1\<lparr>sec := s, files := f\<rparr>)"
    using assms(4) by (simp add: on_ok)
  show ?thesis
    unfolding commit_def Let_def bound_of_def [symmetric] sbind_clock [of "\<lambda>t. sbind (A t) B" for A B]
    using assms(1,3) c p r by (simp add: sbind_def executed_result_def sret_def)
qed

lemma authorize_verified:
  assumes "audit_key X = ed_public E k"
    and ver: "verify_capability E (verifier X) raw request True w = (Inr payload, v)" and rq: "audience request = PStr (executor_id X)"
    and ledgers: "verify_ledger E (ed_public E k) (audit_ledger w) = Inr x" "verify_ledger E (failure_key X) (failure_ledger w) = Inr y"
    and db: "sound (sec w)" "db_faults (sec w) = []"
  shows "authorize E X raw request w = (Inr payload, v)"
proof -
  have "integrity_check (sec w) = (Inr (), sec w)" using db by (simp add: integrity_check_ok next_tx_def)
  then have "on_sec integrity_check w = (Inr (), w)" by (simp add: on_ok)
  moreover have "on_audit (verify_integrity E (audit_key X)) w = (Inr x, w)" "on_failures (verify_integrity E (failure_key X)) w = (Inr y, w)"
    using assms(1) ledgers by (simp_all add: on_ok verify_integrity_ok)
  ultimately show ?thesis using ver rq by (simp add: authorize_def sbind_def)
qed

text \<open>A verified read of a file that is still as it was bound executes.\<close>

lemma execute_read:
  assumes ok: "platform_ok E" and X: "audit_key X = ed_public E k" "audit_signer X = Some k"
    and ver: "verify_capability E (verifier X) raw request True w = (Inr payload, v)"
    and rq: "audience request = PStr (executor_id X)" "action request = PStr (U ''resource.read'')" "request_id request = PStr i" "resource request = PStr p"
      "ident_match i" "list_all (\<lambda>c. c < 128) p" "length p \<le> 1000"
    and audit: "verify_ledger E (ed_public E k) (audit_ledger w) = Inr (n, head)" "lg_faults (audit_ledger w) = []"
      "log_file (audit_ledger w) \<noteq> None" "0 \<le> n" "n + 1 < MAX_INTEGER" "hex_match 64 head"
    and failures: "verify_ledger E (failure_key X) (failure_ledger w) = Inr x"
    and db: "sound (sec w)" "db_faults (sec w) = []" and clk: "\<And>i. 0 \<le> clk w i" "\<And>i. clk w i \<le> MAX_INTEGER"
    and b: "read_bound E (bound_of payload) (files w) = (Inr data, f)"
  shows "\<exists>cap h L. execute E X raw request w = (Inr (executed_result (PStr cap) (PStr (sha256_hex E data)) (Some data)),
      v\<lparr>audit_ledger := L, files := f, ticks := ticks v + 2\<rparr>) \<and> verify_ledger E (ed_public E k) L = Inr (n + 2, h) \<and> hex_match 64 cap"
proof -
  have auth: "authorize E X raw request w = (Inr payload, v)"
    by (rule authorize_verified [OF X(1) ver rq(1) audit(1) failures db])
  have vs: "files v = files w" "audit_ledger v = audit_ledger w" "clk v = clk w"
    using keepsD [OF same_stores_verify ver] by (simp_all add: same_stores_def)
  obtain cap nonce where cap: "dval payload ''capability_id'' = PStr cap" "hex_match 64 cap" "dval payload ''nonce'' = PStr nonce"
  proof -
    have o: "open_envelope E (verifier X) raw request = Inr payload" using ver by (simp add: verify_capability_ok)
    with check_head_ok [OF open_envelope_ok(2) [OF o]] that show ?thesis by blast
  qed
  obtain m where ep: "dval payload ''authorization_epoch'' = PInt m" "current_epoch E (epoch_public_key (verifier X)) (sec v) = (Inr m, sec v)"
    using ver db cap unfolding verify_capability_ok by (auto simp: current_epoch_ok consume_ok next_tx_def sound_def)
  note cs = hex_facts [OF cap(2)] ident_facts [OF rq(5)] small_scalars [OF rq(6)] rq(6,7)
  let ?data = "intent_data request (dval payload ''capability_id'')" and ?v = "v\<lparr>ticks := ticks v + 1\<rparr>"
  note intent = intent_data_def rq(2-4) cap demo_doc_simps ascii_def
  have D: "plain (PDict ?data)" "wf_keys (PDict ?data)" "vok 1 (PDict ?data)" "nodes (PDict ?data) \<le> 1000" "scalars (PDict ?data)"
    "jbound (PDict ?data) \<le> 10000" using cs by (simp_all add: intent)
  have 1: "verify_ledger E (ed_public E k) (audit_ledger ?v) = Inr (n, head)" "lg_faults (audit_ledger ?v) = []"
    "log_file (audit_ledger ?v) \<noteq> None" "n < MAX_INTEGER" using vs audit by simp_all
  have ev: "''EXECUTION_AUTHORIZED'' \<noteq> []" "ascii ''EXECUTION_AUTHORIZED''" "length ''EXECUTION_AUTHORIZED'' \<le> 100"
    "''EXECUTION_COMPLETED'' \<noteq> []" "ascii ''EXECUTION_COMPLETED''" "length ''EXECUTION_COMPLETED'' \<le> 100" by (simp_all add: ascii_def)
  obtain h1 L1 where a1: "audit_append E X ''EXECUTION_AUTHORIZED'' ?data (clk w (ticks v)) ?v = (Inr h1, ?v\<lparr>audit_ledger := L1\<rparr>)"
    and l1: "verify_ledger E (ed_public E k) L1 = Inr (n + 1, h1)" "lg_faults L1 = []" "log_file L1 \<noteq> None" "hex_match 64 h1"
    using audit_append_plain [OF ok X 1(1-3) audit(4) 1(4) audit(6) D ev(1-3) clk] by blast
  let ?w1 = "?v\<lparr>audit_ledger := L1\<rparr>" and ?d = "PStr (sha256_hex E data)"
  have pf: "perform E request (bound_of payload) (files ?w1) = (Inr (?d, Some data), f)"
    using b rq(2) by (simp add: vs perform_def py_is_str_def pstr_def sbind_def sret_def Let_def)
  let ?w2 = "?w1\<lparr>sec := sec v, files := f, ticks := ticks ?w1 + 1\<rparr>"
  have 2: "verify_ledger E (ed_public E k) (audit_ledger ?w2) = Inr (n + 1, h1)" "lg_faults (audit_ledger ?w2) = []"
    "log_file (audit_ledger ?w2) \<noteq> None" "0 \<le> n + 1" using l1 audit by simp_all
  have ds: "dset ?data ''output_digest'' ?d = ?data @ [(kw ''output_digest'', ?d)]"
    by (rule dset_new) (simp add: intent_data_def)
  let ?D = "dset ?data ''output_digest'' ?d"
  have D': "plain (PDict ?D)" "wf_keys (PDict ?D)" "vok 1 (PDict ?D)" "nodes (PDict ?D) \<le> 1000" "scalars (PDict ?D)" "jbound (PDict ?D) \<le> 10000"
    unfolding ds using cs hex_facts [OF sha256_hex_match [OF ok], of data] by (simp_all add: intent)
  obtain h2 L2 where a2: "audit_append E X ''EXECUTION_COMPLETED'' ?D (clk w (ticks v + 1)) ?w2 = (Inr h2, ?w2\<lparr>audit_ledger := L2\<rparr>)"
    and l2: "verify_ledger E (ed_public E k) L2 = Inr (n + 1 + 1, h2)"
    using audit_append_plain [OF ok X 2(1-3) 2(4) audit(5) l1(4) D' ev(4-6) clk] by blast
  have "commit E X request payload v = (Inr (executed_result (dval payload ''capability_id'') ?d (Some data)), ?w2\<lparr>audit_ledger := L2\<rparr>)"
    by (rule commit_intro [where w = v and ?w1.0 = ?w1 and n = m and s = "sec v" and f = f])
      (use a1 a2 ep pf vs in simp_all)
  then have "execute E X raw request w = (Inr (executed_result (dval payload ''capability_id'') ?d (Some data)), ?w2\<lparr>audit_ledger := L2\<rparr>)"
    using auth by (simp add: execute_def scatch_def sbind_def)
  with cap l2 show ?thesis
    by (intro exI [of _ cap] exI [of _ h2] exI [of _ L2]) (simp add: add.assoc)
qed

section \<open>A sample execution\<close>

definition demo_executor :: capability_executor where
  "demo_executor = \<lparr>executor_id = U ''executor'', verifier = demo_verifier, audit_key = ed_public demo_platform ''a'',
     audit_signer = Some ''a'', failure_key = ed_public demo_platform ''a'', failure_signer = Some ''a''\<rparr>"

definition demo_ledger_at :: "bytes \<Rightarrow> ledger" where
  "demo_ledger_at env = \<lparr>log_file = Some [], checkpoint_file = Some env, lg_faults = []\<rparr>"

lemma demo_execute_in:
  assumes ver: "verify_capability demo_platform demo_verifier raw demo_request True w = (Inr payload, v)"
    and empty: "verify_ledger demo_platform (ed_public demo_platform ''a'') (demo_ledger_at env) = Inr (0, GENESIS_HASH)"
    and w: "audit_ledger w = demo_ledger_at env" "failure_ledger w = demo_ledger_at env" "files w = demo_files" "clk w = (\<lambda>_. 100)"
      "sound (sec w)" "db_faults (sec w) = []"
    and b: "dval payload ''resource_binding'' = PDict (mk_dict [(''path'', pstr ''workspace/f''),
       (''sha256'', PStr (sha256_hex demo_platform ''hi'')), (''size'', PInt 2), (''state'', pstr ''present'')])"
  shows "authorize demo_platform demo_executor raw demo_request w = (Inr payload, v)"
    and "\<exists>cap w'. execute demo_platform demo_executor raw demo_request w
      = (Inr (executed_result (PStr cap) (PStr (sha256_hex demo_platform ''hi'')) (Some ''hi'')), w')
      \<and> hex_match 64 cap \<and> clk w' = (\<lambda>_. 100)"
proof -
  have X: "audit_key demo_executor = ed_public demo_platform ''a''" "audit_signer demo_executor = Some ''a''"
    "failure_key demo_executor = ed_public demo_platform ''a''" "verifier demo_executor = demo_verifier" "executor_id demo_executor = U ''executor''"
    by (simp_all add: demo_executor_def)
  have rq: "audience demo_request = PStr (executor_id demo_executor)" "action demo_request = PStr (U ''resource.read'')"
    "request_id demo_request = PStr (U ''r1'')" "resource demo_request = PStr (U ''workspace/f'')"
    by (simp_all add: demo_request_def pstr_def X)
  have idt: "ident_match (U ''r1'')" by (simp add: ident_match_def is_alnum_def ident_char_def U_def)
  have sm: "list_all (\<lambda>c. c < 128) (U ''workspace/f'')" "length (U ''workspace/f'') \<le> 1000" by (simp_all add: ascii_def)
  have l: "verify_ledger demo_platform (ed_public demo_platform ''a'') (audit_ledger w) = Inr (0, GENESIS_HASH)"
    "lg_faults (audit_ledger w) = []" "log_file (audit_ledger w) \<noteq> None"
    "verify_ledger demo_platform (failure_key demo_executor) (failure_ledger w) = Inr (0, GENESIS_HASH)"
    using empty w by (simp_all add: X demo_ledger_at_def)
  have v: "verify_capability demo_platform (verifier demo_executor) raw demo_request True w = (Inr payload, v)" using ver by (simp add: X)
  show "authorize demo_platform demo_executor raw demo_request w = (Inr payload, v)"
    by (rule authorize_verified [OF X(1) v rq(1) l(1,4) w(5,6)])
  have rb: "read_bound demo_platform (bound_of payload) (files w) = (Inr ''hi'', demo_files)"
    by (simp add: bound_of_def b w read_bound_def demo_files_def fs_eval U_def has_keys_def py_is_str_def py_eq_str_def)
  have vs: "clk v = (\<lambda>_. 100)" using keepsD [OF same_stores_verify ver] w by (simp add: same_stores_def)
  obtain cap h L where ex: "execute demo_platform demo_executor raw demo_request w =
      (Inr (executed_result (PStr cap) (PStr (sha256_hex demo_platform ''hi'')) (Some ''hi'')),
       v\<lparr>audit_ledger := L, files := demo_files, ticks := ticks v + 2\<rparr>)" and cap: "hex_match 64 cap"
    using execute_read [OF platform_ok_demo X(1,2) v rq idt sm l(1-3) _ _ genesis_hex l(4) w(5,6) _ _ rb] w(4)
    by (auto simp: MAX_INTEGER_def)
  with vs show "\<exists>cap w'. execute demo_platform demo_executor raw demo_request w
      = (Inr (executed_result (PStr cap) (PStr (sha256_hex demo_platform ''hi'')) (Some ''hi'')), w')
      \<and> hex_match 64 cap \<and> clk w' = (\<lambda>_. 100)"
    by (intro exI [of _ cap]) simp
qed

lemma demo_execute:
  obtains w raw r w' payload v where "execute demo_platform demo_executor raw demo_request w = (Inr r, w')"
    and "authorize demo_platform demo_executor raw demo_request w = (Inr payload, v)" and "success r"
    and "outp r = Some ''hi''"
proof -
  obtain env where empty: "verify_ledger demo_platform (ed_public demo_platform ''a'') (demo_ledger_at env) = Inr (0, GENESIS_HASH)"
    using empty_ledger [OF platform_ok_demo] unfolding demo_ledger_at_def by metis
  obtain w raw payload v where ver: "verify_capability demo_platform demo_verifier raw demo_request True w = (Inr payload, v)"
    and w: "audit_ledger w = demo_ledger_at env" "failure_ledger w = demo_ledger_at env" "files w = demo_files" "clk w = (\<lambda>_. 100)"
      "sound (sec w)" "db_faults (sec w) = []"
    and b: "dval payload ''resource_binding'' = PDict (mk_dict [(''path'', pstr ''workspace/f''),
       (''sha256'', PStr (sha256_hex demo_platform ''hi'')), (''size'', PInt 2), (''state'', pstr ''present'')])"
    by (rule demo_verified)
  from demo_execute_in [OF ver empty w b] that show ?thesis by (auto simp: executed_result_def)
qed

section \<open>Properties\<close>

text \<open>
  C40: Every call ends in a result. Whatever the envelope, the request, the world and the failures
  of its files, database and ledgers, \<^verbatim>\<open>execute\<close> returns, never raises, and the result has one of
  two shapes: executed, with authority 1 and the digest of what was done, or denied, with authority
  0, no output, no digest and the code of an exception.
\<close>

theorem execute_outcome:
  "\<exists>x w'. execute E X raw request w = (Inr x, w')
     \<and> (success x \<longleftrightarrow> status x = ''EXECUTED'') \<and> (success x \<longleftrightarrow> execution_authority x = 1)
     \<and> (success x \<longleftrightarrow> reason_code x = ''TEN_XEITO_AUTHORIZED'')
     \<and> (\<not> success x \<longrightarrow> status x = ''DENIED'' \<and> execution_authority x = 0 \<and> output_digest x = PNone \<and> outp x = None
         \<and> (reason_code x = ''UNEXPECTED_EXCEPTION'' \<or> (\<exists>k. reason_code x = error_code k)))"
proof -
  obtain r w' where run: "execute E X raw request w = (r, w')" by fastforce
  have d: "exn_code e \<noteq> ''TEN_XEITO_AUTHORIZED''" for e
    by (cases "exn_kind_of e") (simp_all add: exn_code_def)
  have c: "exn_code e = ''UNEXPECTED_EXCEPTION'' \<or> (\<exists>k. exn_code e = error_code k)" for e
    by (auto simp: exn_code_def)
  from run show ?thesis
  proof (cases rule: execute_cases)
    case (executed payload v x)
    from commit_ok [OF executed(2)] obtain cap dg out where "x = executed_result cap dg out" by metis
    with run executed show ?thesis by (simp add: executed_result_def)
  qed (use run d c in \<open>simp_all add: denied_result_def\<close>)
qed

theorem execute_outcome_witness:
  "\<exists>w raw x w'. execute demo_platform demo_executor raw demo_request w = (Inr x, w') \<and> status x = ''EXECUTED''"
proof -
  obtain w raw x w' where "execute demo_platform demo_executor raw demo_request w = (Inr x, w')" "success x"
    by (rule demo_execute)
  with execute_outcome [of demo_platform demo_executor raw demo_request w] show ?thesis by auto
qed

text \<open>
  C1: No effect without authority. If a call succeeds, or changes anything in the resource tree, then
  the request is addressed to this executor, both ledgers verified, the verifier accepted the envelope
  for this request in this very call (and consumed its nonce), and the intent was appended to the audit
  ledger before the first change. All changes come from operations bound to the binding of the signed
  payload, whose path is the request's resource; nothing beside that path changes.
\<close>

theorem execute_requires_authority:
  assumes "execute E X raw request w = (Inr x, w')" and "success x \<or> fs_root (files w') \<noteq> fs_root (files w)"
  shows "\<exists>payload v b h w1. verify_capability E (verifier X) raw request True (w\<lparr>sec := next_tx (sec w)\<rparr>) = (Inr payload, v)
    \<and> authentic E (verifier X) raw request payload \<and> audience request = PStr (executor_id X)
    \<and> is_ok (verify_ledger E (audit_key X) (audit_ledger w)) \<and> is_ok (verify_ledger E (failure_key X) (failure_ledger w))
    \<and> x_capability_id x = dval payload ''capability_id''
    \<and> audit_append E X ''EXECUTION_AUTHORIZED'' (intent_data request (dval payload ''capability_id''))
        (clk v (ticks v)) (v\<lparr>ticks := ticks v + 1\<rparr>) = (Inr h, w1) \<and> files w1 = files w
    \<and> dval payload ''resource_binding'' = PDict b \<and> py_eq (dval b ''path'') (resource request)
    \<and> (fs_step b)\<^sup>*\<^sup>* (files w1) (files w')
    \<and> (\<forall>q. (\<forall>p. parts (dval b ''path'') = Inr p \<longrightarrow> \<not> prefix p q \<and> \<not> prefix q p) \<longrightarrow> node_at (files w') q = node_at (files w) q)"
proof -
  have main: ?thesis
    if a: "authorize E X raw request w = (Inr payload, v)" and c: "commit E X request payload v = (r, u)"
      and f: "files w' = files u" and cap: "x_capability_id x = dval payload ''capability_id''"
      and ch: "is_ok r \<or> fs_root (files u) \<noteq> fs_root (files w)" for payload v r u
  proof -
    have fv: "files v = files w" using keepsD [OF same_stores_authorize a] by (simp add: same_stores_def)
    note auth = authorize_ok [OF a] and path = authorize_path [OF a]
    from auth have ac: "authentic E (verifier X) raw request payload"
      by (auto simp: verify_capability_ok intro: open_envelope_ok)
    let ?app = "audit_append E X ''EXECUTION_AUTHORIZED'' (intent_data request (dval payload ''capability_id''))
        (clk v (ticks v)) (v\<lparr>ticks := ticks v + 1\<rparr>)"
    obtain h w1 where app: "?app = (h, w1)" by fastforce
    have f1: "files w1 = files w" using app fv by (auto simp: audit_append_def on_ok)
    have ok: "is_ok h"
    proof (cases h)
      case (Inl e)
      with c app have "r = Inl e \<and> u = w1"
        by (simp add: commit_def Let_def sbind_clock [of "\<lambda>t. sbind (A t) B" for A B] sbind_def [of "audit_append E X ev d t" for ev d t])
      with ch f1 show ?thesis by simp
    qed simp
    then obtain h' where h': "h = Inr h'" by (auto simp: is_ok_iff)
    have st: "(fs_step (bound_of payload))\<^sup>*\<^sup>* (files w1) (files w')"
      using keepsD [OF acts_commit c] fv f1 f by (simp add: acts_def)
    have "node_at (files w') q = node_at (files w) q"
      if q: "\<forall>p. parts (dval (bound_of payload) ''path'') = Inr p \<longrightarrow> \<not> prefix p q \<and> \<not> prefix q p" for q
      using st unfolding f1 [symmetric]
    proof (induction rule: rtranclp_induct)
      case (step y z)
      have "bound_target (bound_of payload) = Some p \<Longrightarrow> \<not> prefix p q \<and> \<not> prefix q p" for p
        using q by (auto simp: bound_target_def split: sum.splits)
      from fs_step_elsewhere [OF step.hyps(2) this] step.IH show ?case by simp
    qed simp
    with auth path ac app h' st f1 cap show ?thesis by blast
  qed
  from assms(1) show ?thesis
  proof (cases rule: execute_cases)
    case (refused e v)
    have "files w' = files v" using keepsD [OF same_files_deny refused(3)] .
    moreover have "files v = files w" using keepsD [OF same_stores_authorize refused(1)] by (simp add: same_stores_def)
    ultimately show ?thesis using assms(2) refused(2) by (simp add: denied_result_def)
  next
    case (aborted payload v e u)
    have "files w' = files u" using keepsD [OF same_files_deny aborted(4)] .
    with aborted assms(2) main [OF aborted(1,2)] show ?thesis by (simp add: denied_result_def)
  next
    case (executed payload v y)
    from commit_ok [OF executed(2)] obtain cap dg out where "y = executed_result (dval payload ''capability_id'') dg out" by metis
    with executed main [OF executed(1,2) refl] show ?thesis by (simp add: executed_result_def)
  qed
qed

theorem execute_requires_authority_witness:
  "\<exists>w raw x w' payload. execute demo_platform demo_executor raw demo_request w = (Inr x, w')
     \<and> authentic demo_platform (verifier demo_executor) raw demo_request payload"
proof -
  obtain w raw x w' where e: "execute demo_platform demo_executor raw demo_request w = (Inr x, w')" "success x"
    by (rule demo_execute)
  from execute_requires_authority [OF e(1)] e show ?thesis by blast
qed

text \<open>
  C25: A success did what was asked. An executed call had, on the file its binding names, exactly the
  effect of its action: a read returned the bytes that are there and whose digest was signed, a create put the
  request's content on a free path, a write replaced the signed pre-state by the request's content, an
  append extended it by that content; and the audit history grew by exactly two records, the intent and
  the completion.
\<close>

theorem execute_effect:
  assumes ok: "platform_ok E" and key: "audit_key X = ed_public E k" "audit_signer X = Some k"
    and run: "execute E X raw request w = (Inr x, w')" and "success x"
  shows "(\<exists>b. py_eq (dval b ''path'') (resource request) \<and> effect E request b (files w) (files w') (output_digest x) (outp x))
    \<and> (\<exists>rs r1 r2. history E (audit_key X) (audit_ledger w) = Some rs
         \<and> history E (audit_key X) (audit_ledger w') = Some (rs @ [r1, r2]))"
  using run
proof (cases rule: execute_cases)
  case (executed payload v y)
  have v: "files v = files w" "audit_ledger v = audit_ledger w"
    using keepsD [OF same_stores_authorize executed(1)] by (simp_all add: same_stores_def)
  from executed(2) obtain h1 w1 n s d out f h2 w3 where
    a1: "audit_append E X ''EXECUTION_AUTHORIZED'' (intent_data request (dval payload ''capability_id'')) (clk v (ticks v))
       (v\<lparr>ticks := ticks v + 1\<rparr>) = (Inr h1, w1)"
    and p: "perform E request (bound_of payload) (files w1) = (Inr (d, out), f)"
    and w3: "w3 = w1\<lparr>sec := s, files := f\<rparr>"
    and a2: "audit_append E X ''EXECUTION_COMPLETED'' (dset (intent_data request (dval payload ''capability_id'')) ''output_digest'' d)
       (clk w3 (ticks w3)) (w3\<lparr>ticks := ticks w3 + 1\<rparr>) = (Inr h2, w')"
    and y: "y = executed_result (dval payload ''capability_id'') d out" by (rule commit_ok)
  have f1: "files w1 = files w" "files w' = f" using a1 a2 v w3 by (auto simp: audit_append_def on_ok)
  have hist: "\<exists>rs r. history E (audit_key X) (audit_ledger u) = Some rs \<and> history E (audit_key X) (audit_ledger u') = Some (rs @ [r])"
    if "audit_append E X ev da t u = (Inr h, u')" for ev da t u h u'
    using that audit.app_ok [of "(E, k)" "(pstr ev, PDict da, PInt t)" "audit_ledger u" h "audit_ledger u'"] ok key
    by (auto simp: audit_append_def on_ok)
  obtain rs r1 where 1: "history E (audit_key X) (audit_ledger w) = Some rs" "history E (audit_key X) (audit_ledger w1) = Some (rs @ [r1])"
    using hist [OF a1] v by auto
  obtain r2 where 2: "history E (audit_key X) (audit_ledger w') = Some ((rs @ [r1]) @ [r2])"
    using hist [OF a2] 1 w3 by auto
  from perform_effect [OF p] authorize_path [OF executed(1)] 1(1) 2 y executed(3) f1 show ?thesis
    by (auto simp: executed_result_def)
qed (use assms(5) in \<open>simp_all add: denied_result_def\<close>)

theorem execute_effect_witness:
  "\<exists>w raw x w' b. execute demo_platform demo_executor raw demo_request w = (Inr x, w') \<and> outp x = Some ''hi''
     \<and> effect demo_platform demo_request b (files w) (files w') (output_digest x) (Some ''hi'')"
proof -
  obtain w raw x w' where e: "execute demo_platform demo_executor raw demo_request w = (Inr x, w')" "success x" "outp x = Some ''hi''"
    by (rule demo_execute)
  have k: "audit_key demo_executor = ed_public demo_platform ''a''" "audit_signer demo_executor = Some ''a''"
    by (simp_all add: demo_executor_def)
  from execute_effect [OF platform_ok_demo k e(1,2)] e show ?thesis by metis
qed

text \<open>
  C20: One execution per capability. Once a call accepted an envelope, whether it then executed or was
  aborted, every later call with that envelope, on any executor and for any request and after any
  operations on the security state, is denied before authorization and leaves the resource tree as it is.
\<close>

theorem execute_once:
  assumes first: "execute E X raw request w = (Inr x, w')" "x_capability_id x \<noteq> PNone"
    and later: "(sec_step E)\<^sup>*\<^sup>* (sec w') (sec w2)" and again: "execute E X' raw request' w2 = (r, w3)"
  shows "\<exists>y. r = Inr y \<and> \<not> success y \<and> x_capability_id y = PNone \<and> fs_root (files w3) = fs_root (files w2)"
proof -
  have main: "\<exists>e. fst (authorize E X' raw request' w2) = Inl e"
    if a: "authorize E X raw request w = (Inr payload, v)" and k: "sec_retains v w'" for payload v
  proof (rule ccontr)
    assume "\<not> ?thesis"
    then obtain payload' v' where "authorize E X' raw request' w2 = (Inr payload', v')"
      by (metis obj_sumE prod.collapse)
    from authorize_ok [OF this] have "verify_capability E (verifier X') raw request' True (w2\<lparr>sec := next_tx (sec w2)\<rparr>) = (Inr payload', v')"
      by simp
    moreover have "retains (sec v) (next_tx (sec w2))"
    proof -
      have "retains (sec v) (sec w2)"
        using k sec_steps_retain [OF later] by (auto simp: sec_retains_def retains_def)
      moreover have "spent (next_tx s) n = spent s n" for s n by (simp add: spent_def)
      ultimately show ?thesis by (simp add: retains_def)
    qed
    ultimately show False
      using accepted_once [of E "verifier X" raw request "w\<lparr>sec := next_tx (sec w)\<rparr>" payload v "w2\<lparr>sec := next_tx (sec w2)\<rparr>" "verifier X'" request']
        authorize_ok [OF a] by auto
  qed
  have "\<exists>e. fst (authorize E X' raw request' w2) = Inl e"
    using first(1)
  proof (cases rule: execute_cases)
    case (refused e v)
    with first(2) show ?thesis by (simp add: denied_result_def)
  next
    case (aborted payload v e u)
    have "sec_retains v u" "sec_retains u w'"
      using keepsD [OF sec_retains_commit aborted(2)] keepsD [OF sec_retains_deny aborted(4)] .
    then have "sec_retains v w'" using preorder_sec_retains by (auto simp: preorder_rel_def elim: transpE)
    with main [OF aborted(1)] show ?thesis .
  next
    case (executed payload v y)
    from main [OF executed(1)] keepsD [OF sec_retains_commit executed(2)] show ?thesis .
  qed
  then obtain e v where a: "authorize E X' raw request' w2 = (Inl e, v)" by (metis prod.collapse)
  from again a show ?thesis
  proof (cases rule: execute_cases)
    case (refused e v)
    have "files w3 = files v" using keepsD [OF same_files_deny refused(3)] .
    moreover have "files v = files w2" using keepsD [OF same_stores_authorize refused(1)] by (simp add: same_stores_def)
    ultimately show ?thesis using refused(2) by (simp add: denied_result_def)
  qed simp_all
qed

theorem execute_once_witness:
  "\<exists>w raw x w' y w3. execute demo_platform demo_executor raw demo_request w = (Inr x, w') \<and> success x
     \<and> execute demo_platform demo_executor raw demo_request w' = (Inr y, w3) \<and> \<not> success y"
proof -
  obtain w raw x w' payload v where e: "execute demo_platform demo_executor raw demo_request w = (Inr x, w')" "success x"
    and a: "authorize demo_platform demo_executor raw demo_request w = (Inr payload, v)"
    by (rule demo_execute)
  have "x_capability_id x \<noteq> PNone"
    using e(1)
  proof (cases rule: execute_cases)
    case (executed payload v y)
    from commit_ok [OF executed(2)] obtain dg out where "y = executed_result (dval payload ''capability_id'') dg out" by metis
    with executed authorize_path [OF executed(1)] show ?thesis by (auto simp: executed_result_def)
  qed (use e(2) in \<open>simp_all add: denied_result_def\<close>)
  obtain r w3 where "execute demo_platform demo_executor raw demo_request w' = (r, w3)" by fastforce
  with execute_once [OF e(1) \<open>x_capability_id x \<noteq> PNone\<close> rtranclp.rtrancl_refl this] e show ?thesis by blast
qed

text \<open>
  The record only grows. Over any sequence of calls on one executor, whatever their requests and
  outcomes, an audit ledger that verifies at the end verified at the start, with a history that is a
  prefix of the final one; and no execution forgets a consumed nonce.
\<close>

lemma executions_recorded:
  assumes ok: "platform_ok E" and key: "audit_key X = ed_public E k" "audit_signer X = Some k"
    and runs: "(\<lambda>w w'. \<exists>raw request r. execute E X raw request w = (r, w'))\<^sup>*\<^sup>* w w'"
  shows "(\<forall>rs'. history E (audit_key X) (audit_ledger w') = Some rs' \<longrightarrow>
      (\<exists>rs. history E (audit_key X) (audit_ledger w) = Some rs \<and> prefix rs rs'))
    \<and> (\<forall>n. spent (sec w) n \<longrightarrow> spent (sec w') n)"
proof -
  have auth: "keeps sec_retains (authorize E X raw request)" for raw request
  proof (rule keepsI)
    fix u r u' assume "authorize E X raw request u = (r, u')"
    have "keeps sec_retains (on_audit (verify_integrity E p))" "keeps sec_retains (on_failures (verify_integrity E p))" for p
      by (intro keeps_intro)+
    moreover have "keeps sec_retains (verify_capability E (verifier X) raw request True)"
      unfolding verify_capability_def check_epoch_def
      by (intro keeps_intro preorder_sec_retains)
    ultimately have "keeps sec_retains (authorize E X raw request)"
      unfolding authorize_def by (intro keeps_intro preorder_sec_retains)
    then show "sec_retains u u'" using keepsD \<open>authorize E X raw request u = (r, u')\<close> by metis
  qed
  have call: "grows E (ed_public E k) u u' \<and> sec_retains u u'" if "execute E X raw request u = (r, u')" for raw request r u u'
  proof -
    have "keeps (grows E (ed_public E k)) (execute E X raw request)"
      unfolding execute_def
      by (intro keeps_intro preorder_grows grows_authorize grows_deny [OF ok key] grows_commit [OF ok key])
    moreover have "keeps sec_retains (execute E X raw request)"
      unfolding execute_def
      by (intro keeps_intro preorder_sec_retains auth sec_retains_deny sec_retains_commit)
    ultimately show ?thesis using keepsD that by metis
  qed
  have "grows E (ed_public E k) w w' \<and> sec_retains w w'"
    using runs
  proof (induction rule: rtranclp_induct)
    case base
    show ?case using preorder_grows preorder_sec_retains by (simp add: preorder_rel_def reflp_def)
  next
    case (step y z)
    then obtain raw request r where "execute E X raw request y = (r, z)" by blast
    from step(3) call [OF this] show ?case
      using preorder_grows [of E "ed_public E k"] preorder_sec_retains by (auto simp: preorder_rel_def elim: transpE)
  qed
  then show ?thesis by (simp add: grows_def sec_retains_def retains_def key)
qed

end
