(* ===== verification/Flight.thy ===== *)
theory Flight
  imports Ledger
begin

text \<open>
  \<^verbatim>\<open>runtime/flight.py\<close>: the flight recorder, a hash-chained event log with an unsigned
  checkpoint. Its two files, its interruptions and its writes are those of the audit ledger.
\<close>

definition flight_checkpoint :: "platform \<Rightarrow> int \<Rightarrow> ustr \<Rightarrow> bytes res" where
  "flight_checkpoint E cnt head_hash = canonicalize E (PDict (mk_dict [(''count'', PInt cnt), (''head_hash'', PStr head_hash)]))"

definition flight_write_checkpoint :: "platform \<Rightarrow> append_fault \<Rightarrow> int \<Rightarrow> ustr \<Rightarrow> (ledger, unit) op" where
  "flight_write_checkpoint E fault cnt head_hash =
     sbind (slift (flight_checkpoint E cnt head_hash)) (\<lambda>document.
     if fault = CheckpointFails then sraise (Exn OSError ''checkpoint'')
     else sbind (smodify (\<lambda>L. L\<lparr>checkpoint_file := Some (document @ [NL])\<rparr>)) (\<lambda>_.
          if fault = CheckpointLate then sraise (Exn OSError ''directory fsync'') else sret ()))"

definition flight_load_checkpoint :: "platform \<Rightarrow> bytes option \<Rightarrow> (int \<times> ustr) res" where
  "flight_load_checkpoint E stored =
     rbind (audit_wrap ''cannot parse flight checkpoint''
       (case stored of
          None \<Rightarrow> Inl (Exn FileNotFoundError ''checkpoint'')
        | Some raw \<Rightarrow>
            if \<not> endswith raw [NL] then audit_err ''checkpoint newline missing''
            else parse_canonical E (butlast raw))) (\<lambda>v.
     case v of
       PDict value \<Rightarrow>
         if \<not> has_keys value [''count'', ''head_hash''] then audit_err ''invalid flight checkpoint''
         else (case dval value ''count'' of
           PInt cnt \<Rightarrow>
             if cnt < 0 then audit_err ''invalid flight checkpoint count''
             else (case dval value ''head_hash'' of
               PStr head \<Rightarrow>
                 if length head \<noteq> 64 then audit_err ''invalid flight checkpoint head'' else Inr (cnt, head)
             | _ \<Rightarrow> audit_err ''invalid flight checkpoint head'')
         | _ \<Rightarrow> audit_err ''invalid flight checkpoint count'')
     | _ \<Rightarrow> audit_err ''invalid flight checkpoint'')"

definition flight_scan_line :: "platform \<Rightarrow> int \<times> ustr \<Rightarrow> bytes \<Rightarrow> (int \<times> ustr) res" where
  "flight_scan_line E acc line =
     (case acc of (cnt, previous) \<Rightarrow>
       if \<not> endswith line [NL] then audit_err ''unterminated flight record''
       else
         rbind (parse_canonical E (butlast line)) (\<lambda>v.
         case v of
           PDict record \<Rightarrow>
             if \<not> has_keys record [''data'', ''event_hash'', ''event_type'', ''prev_hash'', ''seq'', ''timestamp'']
             then audit_err ''invalid flight record schema''
             else
               let event_hash = dval record ''event_hash''; body = dpop record ''event_hash'' in
               rbind (canonicalize E (PDict body)) (\<lambda>encoded.
               let expected = sha256_hex E encoded in
               if \<not> py_eq_str event_hash expected then audit_err ''flight event hash mismatch''
               else if \<not> py_eq_int (dval body ''seq'') (cnt + 1) \<or> \<not> py_eq_str (dval body ''prev_hash'') previous
               then audit_err ''flight chain discontinuity''
               else (case dval body ''timestamp'' of
                 PInt t \<Rightarrow> if t < 0 then audit_err ''invalid flight timestamp'' else Inr (cnt + 1, expected)
               | _ \<Rightarrow> audit_err ''invalid flight timestamp''))
         | _ \<Rightarrow> audit_err ''invalid flight record schema''))"

fun flight_scan_lines :: "platform \<Rightarrow> int \<times> ustr \<Rightarrow> bytes list \<Rightarrow> (int \<times> ustr) res" where
  "flight_scan_lines E acc [] = Inr acc"
| "flight_scan_lines E acc (l # ls) = rbind (flight_scan_line E acc l) (\<lambda>acc. flight_scan_lines E acc ls)"

definition flight_scan :: "platform \<Rightarrow> bytes option \<Rightarrow> (int \<times> ustr) res" where
  "flight_scan E stored = audit_wrap ''cannot scan flight recorder''
     (case stored of
        None \<Rightarrow> Inl (Exn FileNotFoundError ''flight'')
      | Some content \<Rightarrow> flight_scan_lines E (0, GENESIS_HASH) (lines_of content))"

definition flight_verify :: "platform \<Rightarrow> ledger \<Rightarrow> (int \<times> ustr) res" where
  "flight_verify E L =
     rbind (flight_scan E (log_file L)) (\<lambda>scanned.
     rbind (flight_load_checkpoint E (checkpoint_file L)) (\<lambda>checkpoint.
     if checkpoint \<noteq> scanned then audit_err ''flight recorder does not match checkpoint'' else Inr scanned))"

definition flight_verify_integrity :: "platform \<Rightarrow> (ledger, int \<times> ustr) op" where
  "flight_verify_integrity E = (\<lambda>L. (flight_verify E L, L))"

definition flight_append_event :: "platform \<Rightarrow> ustr \<Rightarrow> pyval \<Rightarrow> int \<Rightarrow> (ledger, ustr) op" where
  "flight_append_event E event_type data timestamp =
     sbind take_fault (\<lambda>fault.
     sbind (open_log fault) (\<lambda>_.
     sbind (flight_verify_integrity E) (\<lambda>(cnt, head).
     let body = record_body data event_type head (cnt + 1) timestamp in
     sbind (slift (canonicalize E (PDict (mk_dict body)))) (\<lambda>encoded.
     let event_hash = sha256_hex E encoded in
     sbind (slift (canonicalize E (PDict (mk_dict (body @ [(''event_hash'', PStr event_hash)]))))) (\<lambda>line.
     sbind (write_log fault (line @ [NL])) (\<lambda>_.
     sbind (flight_write_checkpoint E fault (cnt + 1) event_hash) (\<lambda>_.
     sret event_hash)))))))"

definition flight_append :: "platform \<Rightarrow> pyval \<Rightarrow> pyval \<Rightarrow> pyval \<Rightarrow> (ledger, ustr) op" where
  "flight_append E event_type data timestamp =
     (case (event_type, data) of
        (PStr ty, PDict d) \<Rightarrow>
          if ty = [] then slift (audit_err ''invalid flight append request'')
          else (case timestamp of
            PInt t \<Rightarrow>
              if t < 0 then slift (audit_err ''invalid flight timestamp'') else flight_append_event E ty (PDict d) t
          | _ \<Rightarrow> slift (audit_err ''invalid flight timestamp''))
      | _ \<Rightarrow> slift (audit_err ''invalid flight append request''))"

definition flight_init :: "platform \<Rightarrow> (ledger, int \<times> ustr) op" where
  "flight_init E =
     sbind (sget (\<lambda>L. (log_file L = None, checkpoint_file L = None))) (\<lambda>(no_log, no_checkpoint).
     sbind (if no_log \<and> no_checkpoint then
              sbind take_fault (\<lambda>fault.
              sbind (smodify (\<lambda>L. L\<lparr>log_file := Some []\<rparr>)) (\<lambda>_.
              flight_write_checkpoint E fault 0 GENESIS_HASH))
            else if no_log \<or> no_checkpoint then slift (audit_err ''partial flight recorder state'')
            else sret ()) (\<lambda>_.
     flight_verify_integrity E))"

end
