(* ===== verification/Flight_Facts.thy ===== *)
theory Flight_Facts
  imports Flight Ledger_Facts
begin

text \<open>
  The flight recorder is the second provider of the \<open>append_only\<close> contract: its scanner accepts every
  record the audit ledger's scanner accepts, so what is known of written records carries over.
\<close>

section \<open>Scanning\<close>

lemma flight_scan_line_eq:
  assumes "endswith line [NL]" and "parse_canonical E (butlast line) = Inr (PDict d)"
    and "has_keys d [''data'', ''event_hash'', ''event_type'', ''prev_hash'', ''seq'', ''timestamp'']"
    and "canonicalize E (PDict (dpop d ''event_hash'')) = Inr encoded"
  shows "flight_scan_line E (n, p) line = (let body = dpop d ''event_hash''; expected = sha256_hex E encoded in
     if \<not> py_eq_str (dval d ''event_hash'') expected then audit_err ''flight event hash mismatch''
     else if \<not> py_eq_int (dval body ''seq'') (n + 1) \<or> \<not> py_eq_str (dval body ''prev_hash'') p
     then audit_err ''flight chain discontinuity''
     else (case dval body ''timestamp'' of
       PInt t \<Rightarrow> if t < 0 then audit_err ''invalid flight timestamp'' else Inr (n + 1, expected)
     | _ \<Rightarrow> audit_err ''invalid flight timestamp''))"
  using assms by (simp add: flight_scan_line_def Let_def)

lemma flight_scan_line_ok:
  assumes "flight_scan_line E (n, p) line = Inr (m, h)"
  shows "m = n + 1" "\<exists>b. h = sha256_hex E b" "endswith line [NL]"
proof -
  from assms show nl: "endswith line [NL]" by (auto simp: flight_scan_line_def split: if_splits)
  with assms obtain v where v: "parse_canonical E (butlast line) = Inr v"
    by (auto simp: flight_scan_line_def rbind_eq_Inr_iff)
  with assms nl obtain d where d: "v = PDict d" by (cases v) (auto simp: flight_scan_line_def)
  with assms nl v have keys: "has_keys d [''data'', ''event_hash'', ''event_type'', ''prev_hash'', ''seq'', ''timestamp'']"
    by (auto simp: flight_scan_line_def split: if_splits)
  with assms nl v d obtain b where b: "canonicalize E (PDict (dpop d ''event_hash'')) = Inr b"
    by (auto simp: flight_scan_line_def rbind_eq_Inr_iff Let_def)
  from assms flight_scan_line_eq [OF nl v [unfolded d] keys b, of n p] have "m = n + 1 \<and> h = sha256_hex E b"
    by (simp add: Let_def split: if_splits pyval.splits)
  then show "m = n + 1" "\<exists>b. h = sha256_hex E b" by blast+
qed

lemma flight_scan_line_of:
  assumes "scan_line E (n, p) line = Inr r"
  shows "flight_scan_line E (n, p) line = Inr r"
proof -
  from assms have nl: "endswith line [NL]" by (auto simp: scan_line_def split: if_splits)
  with assms obtain v where v: "parse_canonical E (butlast line) = Inr v"
    by (auto simp: scan_line_def rbind_eq_Inr_iff)
  with assms nl obtain d where d: "v = PDict d" by (cases v) (auto simp: scan_line_def)
  with assms nl v have keys: "has_keys d [''data'', ''event_hash'', ''event_type'', ''prev_hash'', ''seq'', ''timestamp'']"
    by (auto simp: scan_line_def split: if_splits)
  with assms nl v d obtain b where b: "canonicalize E (PDict (dpop d ''event_hash'')) = Inr b"
    by (auto simp: scan_line_def rbind_eq_Inr_iff Let_def)
  have "scan_line E (n, p) line = (let body = dpop d ''event_hash''; expected = sha256_hex E b in
      if \<not> py_eq_str (dval d ''event_hash'') expected then audit_err ''ledger event hash mismatch''
      else if \<not> py_eq_int (dval body ''seq'') (n + 1) \<or> \<not> py_eq_str (dval body ''prev_hash'') p
      then audit_err ''ledger chain discontinuity''
      else (case dval body ''timestamp'' of
        PInt t \<Rightarrow>
          if t < 0 then audit_err ''invalid ledger timestamp''
          else (case dval body ''event_type'' of
            PStr s \<Rightarrow> if s = [] then audit_err ''invalid ledger event type'' else Inr (n + 1, expected)
          | _ \<Rightarrow> audit_err ''invalid ledger event type'')
      | _ \<Rightarrow> audit_err ''invalid ledger timestamp''))"
    using nl v d keys b by (simp add: scan_line_def Let_def)
  with assms flight_scan_line_eq [OF nl v [unfolded d] keys b, of n p] show ?thesis
    by (simp add: Let_def split: if_splits pyval.splits)
qed

lemma flight_scan_lines_append:
  "flight_scan_lines E acc (xs @ ys) = rbind (flight_scan_lines E acc xs) (\<lambda>acc. flight_scan_lines E acc ys)"
  by (induction xs arbitrary: acc) (simp_all add: rbind_assoc)

lemma flight_scan_lines_ok:
  assumes "platform_ok E"
  shows "flight_scan_lines E (n, p) ls = Inr (m, h) \<Longrightarrow> hex_match 64 p \<Longrightarrow> hex_match 64 h \<and> m = n + int (length ls)"
proof (induction ls arbitrary: n p)
  case (Cons l ls)
  then obtain n' p' where l: "flight_scan_line E (n, p) l = Inr (n', p')" and ls: "flight_scan_lines E (n', p') ls = Inr (m, h)"
    by (auto simp: rbind_eq_Inr_iff)
  from flight_scan_line_ok [OF l] sha256_hex_match [OF assms] have "n' = n + 1" "hex_match 64 p'" by auto
  with Cons.IH [OF ls] show ?case by simp
qed simp

lemma flight_scan_terminated:
  assumes "flight_scan_lines E acc (lines_of s) = Inr r"
  shows "s = [] \<or> last s = NL"
proof (cases "lines_of s" rule: rev_cases)
  case Nil
  then show ?thesis by (metis concat.simps(1) concat_lines_of)
next
  case (snoc ls l)
  with assms have "endswith l [NL]"
    by (auto simp: flight_scan_lines_append rbind_eq_Inr_iff intro: flight_scan_line_ok)
  moreover have "s = concat ls @ l" using snoc by (metis concat.simps concat_append concat_lines_of append_Nil2)
  ultimately show ?thesis by (auto simp: endswith_NL)
qed

lemma flight_scan_ok:
  "flight_scan E stored = Inr r \<longleftrightarrow> (\<exists>s. stored = Some s \<and> flight_scan_lines E (0, GENESIS_HASH) (lines_of s) = Inr r)"
  by (cases stored) (simp_all add: flight_scan_def)

lemma flight_verify_ok:
  "flight_verify E L = Inr r \<longleftrightarrow> flight_scan E (log_file L) = Inr r \<and> flight_load_checkpoint E (checkpoint_file L) = Inr r"
  by (cases r) (auto simp: flight_verify_def rbind_eq_Inr_iff split: if_splits)

text \<open>A written checkpoint loads.\<close>

lemma flight_load_written:
  assumes ok: "platform_ok E" and h: "hex_match 64 h" and n: "0 \<le> n" and c: "flight_checkpoint E n h = Inr document"
  shows "flight_load_checkpoint E (Some (document @ [NL])) = Inr (n, h)"
proof -
  let ?doc = "PDict (mk_dict [(''count'', PInt n), (''head_hash'', PStr h)])"
  have "canon E ?doc = ?doc"
    by (subst canon_sorted_dict [OF ok]) (simp_all add: ascii_def U_def hex_match_nfc [OF ok h])
  then have "parse_canonical E document = Inr ?doc"
    using canonical.dec_enc [OF ok c [unfolded flight_checkpoint_def]] by simp
  moreover have "length h = 64" using h by (simp add: hex_match_def)
  ultimately show ?thesis using n
    by (simp add: flight_load_checkpoint_def endswith_NL audit_wrap_def has_keys_def)
qed

section \<open>Appending\<close>

definition flight_next :: "platform \<Rightarrow> ustr \<Rightarrow> pyval \<Rightarrow> int \<Rightarrow> ledger \<Rightarrow> (int \<times> ustr \<times> ustr \<times> bytes) res" where
  "flight_next E ty data t L =
     rbind (flight_verify E (opened L)) (\<lambda>(n, head).
     let body = record_body data ty head (n + 1) t in
     rbind (canonicalize E (PDict (mk_dict body))) (\<lambda>encoded.
     rbind (canonicalize E (PDict (mk_dict (body @ [(''event_hash'', PStr (sha256_hex E encoded))])))) (\<lambda>line.
     Inr (n, head, sha256_hex E encoded, line))))"

lemma flight_append_event_eq:
  "flight_append_event E ty data t L =
     (let f = fault_of L; L1 = opened L in
      if f = OpenFails then (Inl (Exn OSError ''open''), L\<lparr>lg_faults := tl (lg_faults L)\<rparr>)
      else case flight_next E ty data t L of
        Inl e \<Rightarrow> (Inl e, L1)
      | Inr (n, head, h, line) \<Rightarrow>
          (case f of
             LogFails m \<Rightarrow>
               (Inl (Exn OSError ''write''), L1\<lparr>log_file := Some (log_content L @ take m (line @ [NL]))\<rparr>)
           | _ \<Rightarrow>
               let L2 = L1\<lparr>log_file := Some (log_content L @ line @ [NL])\<rparr> in
               case flight_checkpoint E (n + 1) h of
                 Inl e \<Rightarrow> (Inl e, L2)
               | Inr document \<Rightarrow>
                   if f = CheckpointFails then (Inl (Exn OSError ''checkpoint''), L2)
                   else let L3 = L2\<lparr>checkpoint_file := Some (document @ [NL])\<rparr> in
                     if f = CheckpointLate then (Inl (Exn OSError ''directory fsync''), L3) else (Inr h, L3)))"
proof -
  have o: "L\<lparr>lg_faults := tl (lg_faults L), log_file := Some (case log_file L of None \<Rightarrow> [] | Some b \<Rightarrow> b)\<rparr> = opened L"
    by (simp add: opened_def log_content_def)
  show ?thesis
    by (auto simp: flight_append_event_def sbind_def take_fault_def open_log_def write_log_def flight_write_checkpoint_def
        flight_verify_integrity_def slift_def sraise_def smodify_def sret_def fault_of_def flight_next_def o Let_def
        split: append_fault.split list.split sum.split)
qed

definition flight_history :: "platform \<Rightarrow> ledger \<Rightarrow> bytes list option" where
  "flight_history E L =
     (case flight_verify E (opened L) of Inl e \<Rightarrow> None | Inr r \<Rightarrow> Some (lines_of (log_content L)))"

lemma flight_history_eq:
  assumes "log_file L \<noteq> None"
  shows "flight_history E L = (case flight_verify E L of Inl e \<Rightarrow> None | Inr r \<Rightarrow> Some (lines_of (log_content L)))"
proof -
  from assms have "flight_verify E (opened L) = flight_verify E L"
    by (auto simp: flight_verify_def log_content_def)
  then show ?thesis by (simp add: flight_history_def)
qed

lemma flight_history_cong:
  "checkpoint_file L' = checkpoint_file L \<Longrightarrow> log_content L' = log_content L \<Longrightarrow> flight_history E L' = flight_history E L"
  by (simp only: flight_history_def flight_verify_def opened_simps)

text \<open>The log after the record, or a part of it, is written.\<close>

lemma flight_scan_appended:
  assumes ok: "platform_ok E" and ty: "ty \<noteq> []" and t: "0 \<le> t"
    and r: "flight_next E ty data t L = Inr (n, head, h, line)"
  shows "flight_scan E (Some (log_content L @ line @ [NL])) = Inr (n + 1, h)"
    and "lines_of (log_content L @ line @ [NL]) = lines_of (log_content L) @ [line @ [NL]]"
    and "\<And>m. 0 < m \<Longrightarrow> m \<le> length line \<Longrightarrow> \<exists>e. flight_scan E (Some (log_content L @ take m line)) = Inl e"
    and "hex_match 64 h" and "flight_history E L = Some (lines_of (log_content L))" and "0 \<le> n"
    and "flight_verify E (opened L) = Inr (n, head)"
proof -
  from r obtain encoded where v: "flight_verify E (opened L) = Inr (n, head)"
    and body: "canonicalize E (PDict (mk_dict (record_body data ty head (n + 1) t))) = Inr encoded"
    and h: "h = sha256_hex E encoded"
    and line: "canonicalize E (PDict (mk_dict (record_body data ty head (n + 1) t @ [(''event_hash'', PStr h)]))) = Inr line"
    by (auto simp: flight_next_def rbind_eq_Inr_iff Let_def split: prod.splits)
  from v have s: "flight_scan_lines E (0, GENESIS_HASH) (lines_of (log_content L)) = Inr (n, head)"
    by (simp add: flight_verify_ok flight_scan_ok)
  have nl: "NL \<notin> set line" using canonical_no_newline [OF line] by (simp add: NL_def)
  have tm: "log_content L = [] \<or> last (log_content L) = NL" by (rule flight_scan_terminated [OF s])
  note app = lines_of_append [OF tm]
  show lines: "lines_of (log_content L @ line @ [NL]) = lines_of (log_content L) @ [line @ [NL]]"
    by (simp add: app lines_of_single [OF nl])
  note sl = flight_scan_lines_ok [OF ok s genesis_hex]
  have "flight_scan_line E (n, head) (line @ [NL]) = Inr (n + 1, h)"
    using scan_line_appended [OF ok _ ty t body] sl line h by (simp add: flight_scan_line_of)
  with s lines show "flight_scan E (Some (log_content L @ line @ [NL])) = Inr (n + 1, h)"
    by (simp add: flight_scan_ok flight_scan_lines_append)
  show "hex_match 64 h" using h sha256_hex_match [OF ok] by simp
  show "flight_history E L = Some (lines_of (log_content L))" using v by (simp add: flight_history_def)
  show "0 \<le> n" "flight_verify E (opened L) = Inr (n, head)" using sl v by simp_all
  fix m assume m: "0 < m" "m \<le> length line"
  let ?x = "take m line"
  have x: "NL \<notin> set ?x" "?x \<noteq> []" using nl m by (auto dest: in_set_takeD)
  then have "\<not> endswith ?x [NL]" using last_in_set [of ?x] unfolding endswith_NL by metis
  then have "flight_scan_line E (n, head) ?x = audit_err ''unterminated flight record''" by (simp add: flight_scan_line_def)
  moreover have "lines_of (log_content L @ ?x) = lines_of (log_content L) @ [?x]"
    by (simp add: app lines_of_unterminated [OF x])
  ultimately have "flight_scan_lines E (0, GENESIS_HASH) (lines_of (log_content L @ ?x)) = audit_err ''unterminated flight record''"
    using s by (simp add: flight_scan_lines_append audit_err_def)
  then show "\<exists>e. flight_scan E (Some (log_content L @ ?x)) = Inl e" by (simp add: flight_scan_def audit_wrap_def audit_err_def)
qed

lemma flight_stale:
  assumes "flight_verify E (opened L) = Inr (n, head)" and "checkpoint_file M = checkpoint_file L" and "log_file M = Some c"
    and "flight_scan E (Some c) = Inr (n + 1, h) \<or> (\<exists>e. flight_scan E (Some c) = Inl e)"
  shows "flight_history E M = None"
proof -
  have "flight_verify E M \<noteq> Inr r" for r
    using assms by (cases r) (auto simp: flight_verify_ok)
  then have "\<exists>e. flight_verify E M = Inl e" by (cases "flight_verify E M") auto
  then show ?thesis using assms(3) by (auto simp: flight_history_eq)
qed

text \<open>Every outcome of an append, seen through the history.\<close>

lemma flight_append_history:
  assumes ok: "platform_ok E" and ty: "ty \<noteq> []" and t: "0 \<le> t" and run: "flight_append_event E ty data t L = (r, L')"
  shows "(\<exists>e. r = Inl e) \<and> (flight_history E L' = None \<or> flight_history E L' = flight_history E L)
    \<or> (\<exists>n head h line. (r = Inr h \<or> (\<exists>e. r = Inl e)) \<and> flight_next E ty data t L = Inr (n, head, h, line)
        \<and> flight_verify E L' = Inr (n + 1, h) \<and> flight_history E L = Some (lines_of (log_content L))
        \<and> flight_history E L' = Some (lines_of (log_content L) @ [line @ [NL]]))"
proof -
  let ?f = "fault_of L"
  consider (opens) "?f = OpenFails" | (err) e where "?f \<noteq> OpenFails" "flight_next E ty data t L = Inl e"
    | (go) n head h line where "?f \<noteq> OpenFails" "flight_next E ty data t L = Inr (n, head, h, line)"
    by (cases "flight_next E ty data t L") auto
  then show ?thesis
  proof cases
    case opens
    with run have "\<exists>e. r = Inl e" "L' = L\<lparr>lg_faults := tl (lg_faults L)\<rparr>"
      by (auto simp: flight_append_event_eq Let_def)
    then show ?thesis using flight_history_cong [of L' L] by (simp add: log_content_def)
  next
    case err
    with run have "\<exists>e. r = Inl e" "L' = opened L" by (auto simp: flight_append_event_eq Let_def)
    then show ?thesis using flight_history_cong [of L' L] by simp
  next
    case go
    note sc = flight_scan_appended [OF ok ty t go(2)]
    let ?full = "(opened L)\<lparr>log_file := Some (log_content L @ line @ [NL])\<rparr>"
    note stale = flight_stale [OF sc(7)]
    from run go(1) consider m where "?f = LogFails m" "\<exists>e. r = Inl e" "L' = (opened L)\<lparr>log_file := Some (log_content L @ take m (line @ [NL]))\<rparr>"
      | "\<exists>e. r = Inl e" "L' = ?full"
      | document where "flight_checkpoint E (n + 1) h = Inr document" "r = Inr h \<or> (\<exists>e. r = Inl e)"
          "L' = ?full\<lparr>checkpoint_file := Some (document @ [NL])\<rparr>"
      by (auto simp: flight_append_event_eq go(2) Let_def split: append_fault.splits sum.splits if_splits)
    then show ?thesis
    proof cases
      case (1 m)
      consider "m = 0" | "0 < m" "m \<le> length line" | "length line < m" by linarith
      then have "flight_history E L' = None \<or> flight_history E L' = flight_history E L"
      proof cases
        case 1
        with \<open>L' = _\<close> show ?thesis using flight_history_cong [of L' L] by (simp add: log_content_def)
      next
        case 2
        then have "take m (line @ [NL]) = take m line" by simp
        with sc(3) [OF 2] \<open>L' = _\<close> stale [of L' "log_content L @ take m line"] show ?thesis by simp
      next
        case 3
        then have "take m (line @ [NL]) = line @ [NL]" by simp
        with sc(1) \<open>L' = _\<close> stale [of L' "log_content L @ line @ [NL]"] show ?thesis by simp
      qed
      with 1(2) show ?thesis by blast
    next
      case 2
      with sc(1) stale [of L' "log_content L @ line @ [NL]"] show ?thesis by simp
    next
      case (3 document)
      have "flight_load_checkpoint E (checkpoint_file L') = Inr (n + 1, h)"
        using flight_load_written [OF ok sc(4) _ 3(1)] sc(6) 3(3) by simp
      with sc(1) 3(3) have v: "flight_verify E L' = Inr (n + 1, h)" by (simp add: flight_verify_ok)
      with 3(3) sc(2) have "flight_history E L' = Some (lines_of (log_content L) @ [line @ [NL]])"
        by (simp add: flight_history_eq) (simp add: log_content_def)
      with v sc(5) go(2) 3(2) show ?thesis by blast
    qed
  qed
qed

lemma flight_append_cases:
  assumes "flight_append E ty data t L = (r, L')"
  obtains (refused) e where "r = Inl e" "L' = L"
    | (run) s d i where "ty = PStr s" "data = PDict d" "t = PInt i" "s \<noteq> []" "0 \<le> i" "flight_append_event E s data i L = (r, L')"
  using assms by (auto simp: flight_append_def audit_err_def split: if_splits pyval.splits prod.splits)

interpretation flight: append_only platform_ok flight_history "\<lambda>E (ty, data, t). flight_append E ty data t"
proof unfold_locales
  fix E :: platform and a :: "pyval \<times> pyval \<times> pyval" and s h s'
  assume ok: "platform_ok E" and run: "(case a of (ty, data, t) \<Rightarrow> flight_append E ty data t) s = (Inr h, s')"
  obtain ty data t where [simp]: "a = (ty, data, t)" by (metis prod_cases3)
  from run have "flight_append E ty data t s = (Inr h, s')" by simp
  then show "\<exists>rs r. flight_history E s = Some rs \<and> flight_history E s' = Some (rs @ [r])"
  proof (cases rule: flight_append_cases)
    case (run k d i)
    from flight_append_history [OF ok run(4-6)] show ?thesis by auto
  qed simp
next
  fix E :: platform and a :: "pyval \<times> pyval \<times> pyval" and s e s'
  assume ok: "platform_ok E" and run: "(case a of (ty, data, t) \<Rightarrow> flight_append E ty data t) s = (Inl e, s')"
  obtain ty data t where [simp]: "a = (ty, data, t)" by (metis prod_cases3)
  from run have "flight_append E ty data t s = (Inl e, s')" by simp
  then show "flight_history E s' = None \<or> flight_history E s' = flight_history E s
      \<or> (\<exists>rs r. flight_history E s = Some rs \<and> flight_history E s' = Some (rs @ [r]))"
  proof (cases rule: flight_append_cases)
    case (run k d i)
    from flight_append_history [OF ok run(4-6)] show ?thesis by auto
  qed simp
qed

section \<open>Properties\<close>

lemma flight_checkpoint_demo:
  assumes "0 \<le> n" "n \<le> MAX_INTEGER" "hex_match 64 h"
  shows "\<exists>document. flight_checkpoint demo_platform n h = Inr document"
proof -
  have "list_all is_scalar h" "str_valid h" "length h = 64"
    using assms(3) is_hex_scalars by (simp_all add: hex_match_def)
  with assms show ?thesis
    unfolding flight_checkpoint_def by (intro canonicalize_demo) (simp_all add: demo_doc_simps)
qed

lemma demo_flight:
  obtains F h F' where "flight_verify demo_platform F = Inr (0, GENESIS_HASH)" and "log_file F = Some []"
    and "flight_append demo_platform (pstr ''E'') (PDict sample_event) (PInt 7) F = (Inr h, F')"
    and "flight_verify demo_platform F' = Inr (1, h)"
proof -
  obtain document where doc: "flight_checkpoint demo_platform 0 GENESIS_HASH = Inr document"
    using flight_checkpoint_demo [OF _ _ genesis_hex, of 0] by (auto simp: MAX_INTEGER_def)
  let ?F = "\<lparr>log_file = Some [], checkpoint_file = Some (document @ [NL]), lg_faults = []\<rparr>"
  have v: "flight_verify demo_platform ?F = Inr (0, GENESIS_HASH)"
    using flight_load_written [OF platform_ok_demo genesis_hex _ doc] by (simp add: flight_verify_ok flight_scan_ok)
  have o: "opened F = F" if "log_file F = Some []" "lg_faults F = []" for F
    using that by (cases F) (simp add: opened_def log_content_def)
  obtain env where e: "verify_ledger demo_platform (ed_public demo_platform ''k'')
      \<lparr>log_file = Some [], checkpoint_file = Some env, lg_faults = []\<rparr> = Inr (0, GENESIS_HASH)"
    using empty_ledger [OF platform_ok_demo] by metis
  let ?L = "\<lparr>log_file = Some [], checkpoint_file = Some env, lg_faults = []\<rparr>"
  have "\<exists>h line. next_record demo_platform (ed_public demo_platform ''k'') (U ''E'') (PDict sample_event) 7 ?L = Inr (0, GENESIS_HASH, h, line)"
    using plain_event [OF platform_ok_demo, of sample_event "U ''E''" GENESIS_HASH 0 7 "ed_public demo_platform ''k''" ?L] e o genesis_hex
    by (auto simp: sample_event_def demo_doc_simps ascii_def)
  then obtain h line where "next_record demo_platform (ed_public demo_platform ''k'') (U ''E'') (PDict sample_event) 7 ?L = Inr (0, GENESIS_HASH, h, line)"
    by blast
  then obtain encoded where "canonicalize demo_platform (PDict (mk_dict (record_body (PDict sample_event) (U ''E'') GENESIS_HASH (0 + 1) 7))) = Inr encoded"
    "h = sha256_hex demo_platform encoded"
    "canonicalize demo_platform (PDict (mk_dict (record_body (PDict sample_event) (U ''E'') GENESIS_HASH (0 + 1) 7 @ [(''event_hash'', PStr h)]))) = Inr line"
    by (rule next_record_ok)
  then have nx: "flight_next demo_platform (U ''E'') (PDict sample_event) 7 ?F = Inr (0, GENESIS_HASH, h, line)"
    using v o [of ?F] by (simp add: flight_next_def Let_def)
  have h: "hex_match 64 h" using flight_scan_appended(4) [OF platform_ok_demo _ _ nx] by simp
  obtain doc' where "flight_checkpoint demo_platform (0 + 1) h = Inr doc'"
    using flight_checkpoint_demo [OF _ _ h, of 1] by (auto simp: MAX_INTEGER_def)
  then have "\<exists>F'. flight_append_event demo_platform (U ''E'') (PDict sample_event) 7 ?F = (Inr h, F')"
    by (simp add: flight_append_event_eq Let_def nx fault_of_def)
  then obtain F' where run: "flight_append_event demo_platform (U ''E'') (PDict sample_event) 7 ?F = (Inr h, F')" by blast
  have "flight_verify demo_platform F' = Inr (1, h)"
    using flight_append_history [OF platform_ok_demo _ _ run] nx by auto
  with that [of ?F h F'] v run show ?thesis by (simp add: flight_append_def pstr_def)
qed

text \<open>
  The flight recorder is append-only. Whatever was appended and wherever an append was
  interrupted, a recorder that verifies afterwards verified before, and its old events are a prefix of the
  new ones; an append that returns extended them by exactly one event and left the recorder verified
  with the returned hash as its head; an append that raises leaves a recorder that is refused, or has
  the old events, or the old events and the one new event.
\<close>

lemma flight_append_only:
  assumes ok: "platform_ok E" and runs: "(\<lambda>L L'. \<exists>ty d t r. flight_append E ty d t L = (r, L'))\<^sup>*\<^sup>* L L'"
    and last: "flight_append E ty d t L' = (r, L2)"
  shows "(\<forall>rs'. flight_history E L' = Some rs' \<longrightarrow> (\<exists>rs. flight_history E L = Some rs \<and> prefix rs rs'))
    \<and> (case r of
         Inr h \<Rightarrow> \<exists>rs event n. flight_history E L' = Some rs \<and> flight_history E L2 = Some (rs @ [event])
           \<and> flight_verify E L2 = Inr (n + 1, h) \<and> n = int (length rs)
       | Inl e \<Rightarrow> flight_history E L2 = None \<or> flight_history E L2 = flight_history E L'
           \<or> (\<exists>rs event. flight_history E L' = Some rs \<and> flight_history E L2 = Some (rs @ [event])))"
proof -
  have "(\<lambda>s s'. \<exists>a r. (case a of (ty, data, t) \<Rightarrow> flight_append E ty data t) s = (r, s'))\<^sup>*\<^sup>* L L'"
    using runs by (rule rtranclp_mono [THEN predicate2D, rotated]) auto
  moreover have "\<exists>rs event n. flight_history E L' = Some rs \<and> flight_history E L2 = Some (rs @ [event])
      \<and> flight_verify E L2 = Inr (n + 1, h) \<and> n = int (length rs)" if "r = Inr h" for h
    using last
  proof (cases rule: flight_append_cases)
    case (run s d' i)
    from flight_append_history [OF ok run(4-6)] that obtain n head line where
      "flight_next E s (PDict d') i L' = Inr (n, head, h, line)" and h: "flight_verify E L2 = Inr (n + 1, h)"
      "flight_history E L' = Some (lines_of (log_content L'))"
      "flight_history E L2 = Some (lines_of (log_content L') @ [line @ [NL]])"
      using run(2) by auto
    then have "flight_scan_lines E (0, GENESIS_HASH) (lines_of (log_content L')) = Inr (n, head)"
      using flight_scan_appended(7) [OF ok run(4,5)] run(2) by (simp add: flight_verify_ok flight_scan_ok)
    from flight_scan_lines_ok [OF ok this genesis_hex] h show ?thesis by auto
  qed (use that in simp)
  ultimately show ?thesis
    using flight.run_extends [OF ok, of L L'] flight.app_err [OF ok, of "(ty, d, t)" L' _ L2] last
    by (auto split: sum.split)
qed

end
