(* ===== verification/Policy.thy ===== *)
theory Policy
  imports Authority
begin

text \<open>
  \<^verbatim>\<open>runtime/policy.py\<close>, \<^verbatim>\<open>runtime/sandbox/__init__.py\<close> and \<^verbatim>\<open>runtime/config.py\<close>: the three fixed
  SAXP contexts, the policy that chooses among them, the closed actuator registry and the bounds of
  the runtime configuration.
\<close>

section \<open>Contexts\<close>

definition SAFE_CONTEXT :: saxp_context where
  "SAFE_CONTEXT = \<lparr>coherence_delta = PInt 100, systemic_pressure = PInt 10, threshold_k = PInt 100, sentidino = PInt 9000,
     information_complete = PBool True, critical_uncertainty = PBool False, control_risk = PBool False,
     ethical_constraints_satisfied = PBool True\<rparr>"

definition REQUIRE_HUMAN_CONTEXT :: saxp_context where
  "REQUIRE_HUMAN_CONTEXT = SAFE_CONTEXT\<lparr>information_complete := PBool False, critical_uncertainty := PBool True\<rparr>"

definition DENY_ALL_CONTEXT :: saxp_context where
  "DENY_ALL_CONTEXT = SAFE_CONTEXT\<lparr>control_risk := PBool True\<rparr>"

section \<open>The policy\<close>

record runtime_policy =
  mode :: string
  rp_allowed_actions :: "ustr list"
  rp_prefixes :: "ustr list"
  sensitive_actions :: "ustr list"

definition default_runtime_policy :: runtime_policy where
  "default_runtime_policy = \<lparr>mode = ''allow_safe'',
     rp_allowed_actions = SANDBOX_ACTIONS @ [U ''resource.read'', U ''resource.create''],
     rp_prefixes = [U ''files/'', U ''records/'', U ''workspace/''],
     sensitive_actions = [U ''sandbox.write_file'', U ''sandbox.append_file'', U ''sandbox.create_record'']\<rparr>"

definition policy_init :: "runtime_policy \<Rightarrow> unit res" where
  "policy_init p =
     (if mode p \<notin> {''allow_safe'', ''deny_all'', ''require_human''} then Inl (Exn ValueError ''invalid runtime policy mode'')
      else Inr ())"

text \<open>\<^verbatim>\<open>action in frozenset\<close> and \<^verbatim>\<open>any(resource.startswith(prefix) for prefix in \<dots>)\<close> on values of any type.\<close>

definition in_set :: "pyval \<Rightarrow> ustr list \<Rightarrow> bool res" where
  "in_set v xs = (if \<not> hashable v then Inl (Exn TypeError ''unhashable type'') else Inr (list_ex (py_eq_str v) xs))"

definition under_prefix :: "pyval \<Rightarrow> ustr list \<Rightarrow> bool res" where
  "under_prefix v ps =
     (case v of
        PStr r \<Rightarrow> Inr (list_ex (startswith r) ps)
      | _ \<Rightarrow> if ps = [] then Inr False else Inl (Exn AttributeError ''startswith''))"

definition allows :: "runtime_policy \<Rightarrow> pyval \<Rightarrow> pyval \<Rightarrow> bool res" where
  "allows p act res =
     rbind (in_set act (rp_allowed_actions p)) (\<lambda>ok. if \<not> ok then Inr False else under_prefix res (rp_prefixes p))"

definition context_for :: "runtime_policy \<Rightarrow> action_request \<Rightarrow> saxp_context res" where
  "context_for p request =
     (if mode p = ''deny_all'' then Inr DENY_ALL_CONTEXT
      else if mode p = ''require_human'' then Inr REQUIRE_HUMAN_CONTEXT
      else
        rbind (in_set (action request) (rp_allowed_actions p)) (\<lambda>allowed.
        if \<not> allowed then Inr DENY_ALL_CONTEXT
        else rbind (under_prefix (resource request) (rp_prefixes p)) (\<lambda>inside.
        if \<not> inside then Inr DENY_ALL_CONTEXT
        else rbind (in_set (action request) (sensitive_actions p)) (\<lambda>sensitive.
        if sensitive then Inr REQUIRE_HUMAN_CONTEXT else Inr SAFE_CONTEXT))))"

definition resolved_context :: "runtime_policy \<Rightarrow> saxp_context" where
  "resolved_context p = SAFE_CONTEXT"

section \<open>The actuator registry\<close>

definition ACTUATOR_ACTIONS :: "ustr list" where
  "ACTUATOR_ACTIONS = map U [''sandbox.read_file'', ''sandbox.write_file'', ''sandbox.append_file'',
     ''sandbox.create_record'', ''sandbox.read_record'']"

record actuator =
  a_action :: ustr
  namespace :: ustr
  description :: string
  needs_content :: bool

definition ACTUATORS :: "actuator list" where
  "ACTUATORS =
     [\<lparr>a_action = U ''sandbox.read_file'', namespace = U ''files/'',
        description = ''Read a file's bytes from the runtime workspace'', needs_content = False\<rparr>,
      \<lparr>a_action = U ''sandbox.write_file'', namespace = U ''files/'',
        description = ''Create or overwrite a file in the runtime workspace'', needs_content = True\<rparr>,
      \<lparr>a_action = U ''sandbox.append_file'', namespace = U ''files/'',
        description = ''Append bytes to an existing file in the runtime workspace'', needs_content = True\<rparr>,
      \<lparr>a_action = U ''sandbox.create_record'', namespace = U ''records/'',
        description = ''Create a structured record in the runtime records store'', needs_content = True\<rparr>,
      \<lparr>a_action = U ''sandbox.read_record'', namespace = U ''records/'',
        description = ''Read a structured record from the runtime records store'', needs_content = False\<rparr>]"

definition actuator_for :: "pyval \<Rightarrow> actuator option" where
  "actuator_for act = find (\<lambda>a. py_eq_str act (a_action a)) ACTUATORS"

definition value_err :: "string \<Rightarrow> 'a res" where
  "value_err t = Inl (Exn ValueError t)"

lemma value_err_neq [simp]: "value_err t \<noteq> Inr x" "Inr x \<noteq> value_err t"
  by (simp_all add: value_err_def)

definition validate_actuation :: "pydict \<Rightarrow> unit res" where
  "validate_actuation request =
     (case actuator_for (dval request ''action'') of
        None \<Rightarrow> value_err ''action is not a governed sandbox actuator''
      | Some a \<Rightarrow>
          (case dval request ''resource'' of
             PStr r \<Rightarrow>
               if \<not> startswith r (namespace a) then value_err ''resource must live under namespace''
               else (case dval request ''parameters'' of
                 PDict ps \<Rightarrow>
                   if needs_content a \<and> dget ps ''content_b64'' = None then value_err ''actuator requires content_b64 parameter''
                   else if \<not> needs_content a \<and> ps \<noteq> [] then value_err ''actuator takes no content parameters''
                   else Inr ()
               | _ \<Rightarrow> value_err ''parameters must be a mapping'')
           | _ \<Rightarrow> value_err ''resource must live under namespace''))"

section \<open>Configuration\<close>

record runtime_config =
  workdir :: ustr
  port :: int
  host :: ustr
  ttl_seconds :: int
  cfg_epoch :: int

text \<open>\<^verbatim>\<open>isinstance(v, int)\<close> holds for booleans too.\<close>

definition as_number :: "pyval \<Rightarrow> int option" where
  "as_number v = (case v of PInt i \<Rightarrow> Some i | PBool b \<Rightarrow> Some (of_bool b) | _ \<Rightarrow> None)"

definition int_between :: "pyval \<Rightarrow> int \<Rightarrow> int \<Rightarrow> string \<Rightarrow> int res" where
  "int_between v lo hi msg =
     (case as_number v of None \<Rightarrow> value_err msg | Some i \<Rightarrow> if lo \<le> i \<and> i \<le> hi then Inr i else value_err msg)"

definition override :: "pydict \<Rightarrow> string \<Rightarrow> pyval \<Rightarrow> pyval" where
  "override d k v = (case dget d k of None \<Rightarrow> v | Some w \<Rightarrow> w)"

definition from_workdir :: "ustr \<Rightarrow> pydict \<Rightarrow> runtime_config res" where
  "from_workdir path overrides =
     rbind (int_between (override overrides ''port'' (PInt 8787)) 1024 65535 ''invalid runtime port'') (\<lambda>port.
     rbind (case override overrides ''host'' (pstr ''127.0.0.1'') of
              PStr h \<Rightarrow> if h = [] then value_err ''invalid runtime host'' else Inr h
            | _ \<Rightarrow> value_err ''invalid runtime host'') (\<lambda>host.
     rbind (int_between (override overrides ''ttl_seconds'' (PInt 60)) 1 300 ''invalid runtime TTL'') (\<lambda>ttl.
     rbind (case as_number (override overrides ''epoch'' (PInt 1)) of
              None \<Rightarrow> value_err ''invalid runtime epoch''
            | Some i \<Rightarrow> if i < 1 then value_err ''invalid runtime epoch'' else Inr i) (\<lambda>epoch.
     Inr \<lparr>workdir = path, port = port, host = host, ttl_seconds = ttl, cfg_epoch = epoch\<rparr>))))"

section \<open>What the policy lets pass\<close>

lemma contexts_verdict:
  "fst (verdict 5000 SAFE_CONTEXT) = TEN_XEITO" "fst (verdict 5000 REQUIRE_HUMAN_CONTEXT) = REQUIRE_XEITO"
  "fst (verdict n DENY_ALL_CONTEXT) = NON_TEN_XEITO"
  by (simp_all add: verdict_def SAFE_CONTEXT_def REQUIRE_HUMAN_CONTEXT_def DENY_ALL_CONTEXT_def)

definition policy_safe :: "runtime_policy \<Rightarrow> action_request \<Rightarrow> bool" where
  "policy_safe p request \<longleftrightarrow> mode p \<noteq> ''deny_all'' \<and> mode p \<noteq> ''require_human''
     \<and> (\<exists>a r. action request = PStr a \<and> resource request = PStr r \<and> a \<in> set (rp_allowed_actions p)
          \<and> a \<notin> set (sensitive_actions p) \<and> (\<exists>prefix \<in> set (rp_prefixes p). startswith r prefix))"

lemma contexts_distinct:
  "SAFE_CONTEXT \<noteq> DENY_ALL_CONTEXT" "SAFE_CONTEXT \<noteq> REQUIRE_HUMAN_CONTEXT" "DENY_ALL_CONTEXT \<noteq> REQUIRE_HUMAN_CONTEXT"
  by (simp_all add: SAFE_CONTEXT_def REQUIRE_HUMAN_CONTEXT_def DENY_ALL_CONTEXT_def)

lemma in_set_True: "in_set v xs = Inr b \<Longrightarrow> b \<longleftrightarrow> (\<exists>s \<in> set xs. v = PStr s)"
  by (auto simp: in_set_def list_ex_iff py_eq_str_def split: if_splits)

lemma under_prefix_True: "under_prefix v ps = Inr b \<Longrightarrow> b \<longleftrightarrow> (\<exists>r prefix. v = PStr r \<and> prefix \<in> set ps \<and> startswith r prefix)"
  by (cases v) (auto simp: under_prefix_def list_ex_iff split: if_splits)

lemma context_for_cases:
  assumes "context_for p request = Inr c"
  shows "c = SAFE_CONTEXT \<and> policy_safe p request \<or> c = REQUIRE_HUMAN_CONTEXT \<or> c = DENY_ALL_CONTEXT"
proof (cases "mode p = ''deny_all'' \<or> mode p = ''require_human''")
  case True
  with assms show ?thesis by (auto simp: context_for_def)
next
  case False
  have "c = SAFE_CONTEXT \<or> c = REQUIRE_HUMAN_CONTEXT \<or> c = DENY_ALL_CONTEXT"
    using assms False by (auto simp: context_for_def rbind_eq_Inr_iff split: if_splits)
  moreover have "policy_safe p request" if "c = SAFE_CONTEXT"
  proof -
    have "in_set (action request) (rp_allowed_actions p) = Inr True"
      "under_prefix (resource request) (rp_prefixes p) = Inr True"
      "in_set (action request) (sensitive_actions p) = Inr False"
      using assms False contexts_distinct that by (auto simp: context_for_def rbind_eq_Inr_iff split: if_splits)
    with False show ?thesis by (fastforce simp: policy_safe_def dest!: in_set_True under_prefix_True)
  qed
  ultimately show ?thesis by blast
qed

text \<open>The gate passes exactly what the policy calls safe.\<close>

lemma policy_gate:
  assumes "context_for p request = Inr c" and "evaluate E ev request c = Inr d" and "minimum_sentidino ev = 5000"
  shows "result d = ''TEN_XEITO'' \<longrightarrow> policy_safe p request"
proof
  assume "result d = ''TEN_XEITO''"
  then have "fst (verdict 5000 c) = TEN_XEITO"
    using assms(2,3) result_value_eq_iff [of "fst (verdict 5000 c)" TEN_XEITO] by (auto simp: evaluate_ok)
  with context_for_cases [OF assms(1)] contexts_verdict contexts_verdict(3) [of 5000] show "policy_safe p request" by auto
qed

end
