(* ===== verification/Runtime_Ledger.thy ===== *)
theory Runtime_Ledger
  imports Canonical
begin

text \<open>
  \<^verbatim>\<open>runtime/runtime_ledger.py\<close>: the SQLite index of proposals, decisions and human actions.
  A table is the list of its rows in insertion order; a transaction is atomic, and
  \<open>rl_faults\<close> says, one entry per transaction, whether the library raises instead of committing.
\<close>

section \<open>Tables\<close>

record proposal_row =
  p_request_id :: ustr
  p_principal :: ustr
  p_audience :: ustr
  p_action :: ustr
  p_resource :: ustr
  p_parameters :: bytes
  p_digest :: ustr
  p_created_at :: int

record decision_row =
  d_decision_id :: ustr
  d_request_id :: ustr
  d_state :: ustr
  d_reason_codes :: bytes
  d_capability_id :: pyval
  d_executed :: bool
  d_output_digest :: pyval
  d_flight_hash :: ustr
  d_created_at :: int

record human_row =
  h_action_id :: ustr
  h_request_id :: ustr
  h_operator :: ustr
  h_decision :: ustr
  h_signature :: ustr
  h_flight_hash :: ustr
  h_created_at :: int

record runtime_ledger =
  rl_ok :: bool
  rl_schema :: "bytes option"
  rl_proposals :: "proposal_row list"
  rl_decisions :: "decision_row list"
  rl_human :: "human_row list"
  rl_faults :: "bool list"

type_synonym 'a rl = "(runtime_ledger, 'a) op"

section \<open>Transactions\<close>

definition rl_error :: "'a rl" where
  "rl_error = sraise (Exn SqliteDatabaseError ''database error'')"

text \<open>\<^verbatim>\<open>with self._connect() as connection: \<dots>\<close>\<close>

definition transaction :: "'a rl \<Rightarrow> 'a rl" where
  "transaction body = (\<lambda>s.
     if \<not> rl_ok s then rl_error s
     else if rl_faults s \<noteq> [] \<and> hd (rl_faults s) then rl_error (s\<lparr>rl_faults := tl (rl_faults s)\<rparr>)
     else let s = s\<lparr>rl_faults := tl (rl_faults s)\<rparr>
          in case body s of (Inl e, _) \<Rightarrow> (Inl e, s) | (Inr x, s') \<Rightarrow> (Inr x, s'))"

definition rl_translate :: "string \<Rightarrow> 'a rl \<Rightarrow> 'a rl" where
  "rl_translate t = scatch is_db_error (\<lambda>_. sraise (Exn StateIntegrityError t))"

text \<open>Binding parameters: text is encoded as UTF-8, an integer must fit 64 bits.\<close>

definition bind_values :: "ustr list \<Rightarrow> int \<Rightarrow> unit res" where
  "bind_values texts n =
     (if \<not> list_all str_valid texts then Inl (Exn UnicodeError ''surrogates not allowed'')
      else if \<not> (- (2 ^ 63) \<le> n \<and> n < 2 ^ 63) then Inl (Exn OverflowError ''int too large'')
      else Inr ())"

definition RL_SCHEMA_VERSION :: bytes where "RL_SCHEMA_VERSION = ''1''"

definition rl_ensure_schema :: "unit rl" where
  "rl_ensure_schema = rl_translate ''runtime ledger initialization failed'' (transaction (
     sbind (sget rl_schema) (\<lambda>row.
     case row of
       None \<Rightarrow> smodify (\<lambda>s. s\<lparr>rl_schema := Some RL_SCHEMA_VERSION\<rparr>)
     | Some v \<Rightarrow> if v \<noteq> RL_SCHEMA_VERSION then sraise (Exn StateIntegrityError ''runtime ledger schema mismatch'') else sret ())))"

section \<open>Writing\<close>

text \<open>\<^verbatim>\<open>INSERT \<dots> ON CONFLICT(request_id) DO NOTHING\<close>\<close>

definition store_proposal ::
    "platform \<Rightarrow> ustr \<Rightarrow> ustr \<Rightarrow> ustr \<Rightarrow> ustr \<Rightarrow> ustr \<Rightarrow> pyval \<Rightarrow> ustr \<Rightarrow> int \<Rightarrow> unit rl" where
  "store_proposal E rid prin aud act res params digest_hex created_at =
     sbind (slift (canonicalize E params)) (\<lambda>encoded.
     rl_translate ''cannot store proposal'' (transaction (
       sbind (slift (bind_values [rid, prin, aud, act, res, digest_hex] created_at)) (\<lambda>_.
       smodify (\<lambda>s.
         if list_ex (\<lambda>r. p_request_id r = rid) (rl_proposals s) then s
         else s\<lparr>rl_proposals := rl_proposals s @
           [\<lparr>p_request_id = rid, p_principal = prin, p_audience = aud, p_action = act, p_resource = res,
             p_parameters = encoded, p_digest = digest_hex, p_created_at = created_at\<rparr>]\<rparr>)))))"

text \<open>The upsert on \<^verbatim>\<open>request_id\<close>; a clash on the primary key alone is an integrity error.\<close>

definition upsert_decision :: "decision_row \<Rightarrow> unit rl" where
  "upsert_decision row = (\<lambda>s.
     if list_ex (\<lambda>r. d_decision_id r = d_decision_id row \<and> d_request_id r \<noteq> d_request_id row) (rl_decisions s)
     then sraise (Exn SqliteIntegrityError ''UNIQUE constraint failed'') s
     else if list_ex (\<lambda>r. d_request_id r = d_request_id row) (rl_decisions s)
     then (Inr (), s\<lparr>rl_decisions := map (\<lambda>r. if d_request_id r = d_request_id row then row else r) (rl_decisions s)\<rparr>)
     else (Inr (), s\<lparr>rl_decisions := rl_decisions s @ [row]\<rparr>))"

definition store_decision ::
    "platform \<Rightarrow> ustr \<Rightarrow> ustr \<Rightarrow> ustr \<Rightarrow> string list \<Rightarrow> pyval \<Rightarrow> bool \<Rightarrow> pyval \<Rightarrow> ustr \<Rightarrow> int \<Rightarrow> unit rl" where
  "store_decision E did rid st codes cap exec outd fh created_at =
     rl_translate ''cannot store decision'' (transaction (
       sbind (slift (canonicalize E (PList (map pstr codes)))) (\<lambda>encoded.
       sbind (slift (bind_values [did, rid, st, fh] created_at)) (\<lambda>_.
       upsert_decision \<lparr>d_decision_id = did, d_request_id = rid, d_state = st, d_reason_codes = encoded,
         d_capability_id = cap, d_executed = exec, d_output_digest = outd, d_flight_hash = fh,
         d_created_at = created_at\<rparr>))))"

text \<open>
  A value bound to a \<^verbatim>\<open>TEXT NOT NULL\<close> column: numbers take the column's affinity, \<^verbatim>\<open>None\<close> violates the
  constraint, containers have no SQL form.
\<close>

definition text_param :: "pyval \<Rightarrow> ustr res" where
  "text_param v =
     (case v of
        PStr s \<Rightarrow> if str_valid s then Inr s else Inl (Exn UnicodeError ''surrogates not allowed'')
      | PBool b \<Rightarrow> Inr (int_str (of_bool b))
      | PInt i \<Rightarrow> if - (2 ^ 63) \<le> i \<and> i < 2 ^ 63 then Inr (int_str i) else Inl (Exn OverflowError ''int too large'')
      | PNone \<Rightarrow> Inl (Exn SqliteIntegrityError ''NOT NULL constraint failed'')
      | _ \<Rightarrow> Inl (Exn SqliteDatabaseError ''type is not supported''))"

definition store_human_action ::
    "ustr \<Rightarrow> ustr \<Rightarrow> pyval \<Rightarrow> string \<Rightarrow> ustr \<Rightarrow> ustr \<Rightarrow> int \<Rightarrow> unit rl" where
  "store_human_action aid rid operator choice signature fh created_at =
     rl_translate ''cannot store human action'' (transaction (
       sbind (slift (bind_values [aid, rid, signature, fh] created_at)) (\<lambda>_.
       sbind (slift (text_param operator)) (\<lambda>op_text s.
       if list_ex (\<lambda>r. h_action_id r = aid) (rl_human s)
       then sraise (Exn SqliteIntegrityError ''UNIQUE constraint failed'') s
       else (Inr (), s\<lparr>rl_human := rl_human s @
         [\<lparr>h_action_id = aid, h_request_id = rid, h_operator = op_text, h_decision = U choice, h_signature = signature,
           h_flight_hash = fh, h_created_at = created_at\<rparr>]\<rparr>)))))"

section \<open>Reading\<close>

definition proposal_dict :: "platform \<Rightarrow> proposal_row \<Rightarrow> pydict res" where
  "proposal_dict E r =
     rbind (parse_canonical E (p_parameters r)) (\<lambda>params.
     Inr (mk_dict [(''request_id'', PStr (p_request_id r)), (''principal'', PStr (p_principal r)),
       (''audience'', PStr (p_audience r)), (''action'', PStr (p_action r)), (''resource'', PStr (p_resource r)),
       (''parameters'', params), (''request_digest'', PStr (p_digest r)), (''created_at'', PInt (p_created_at r))]))"

definition decision_dict :: "platform \<Rightarrow> decision_row \<Rightarrow> pydict res" where
  "decision_dict E r =
     rbind (parse_canonical E (d_reason_codes r)) (\<lambda>codes.
     Inr (mk_dict [(''decision_id'', PStr (d_decision_id r)), (''request_id'', PStr (d_request_id r)),
       (''state'', PStr (d_state r)), (''reason_codes'', codes), (''capability_id'', d_capability_id r),
       (''executed'', PBool (d_executed r)), (''output_digest'', d_output_digest r),
       (''flight_hash'', PStr (d_flight_hash r)), (''created_at'', PInt (d_created_at r))]))"

definition human_dict :: "human_row \<Rightarrow> pydict" where
  "human_dict r = mk_dict [(''action_id'', PStr (h_action_id r)), (''request_id'', PStr (h_request_id r)),
     (''operator'', PStr (h_operator r)), (''decision'', PStr (h_decision r)), (''signature'', PStr (h_signature r)),
     (''flight_hash'', PStr (h_flight_hash r)), (''created_at'', PInt (h_created_at r))]"

fun res_list :: "('a \<Rightarrow> 'b res) \<Rightarrow> 'a list \<Rightarrow> 'b list res" where
  "res_list f [] = Inr []"
| "res_list f (x # xs) = rbind (f x) (\<lambda>y. rmap (Cons y) (res_list f xs))"

definition proposal :: "platform \<Rightarrow> ustr \<Rightarrow> pydict option rl" where
  "proposal E rid =
     sbind (rl_translate ''cannot read proposal'' (transaction (
       sbind (slift (bind_values [rid] 0)) (\<lambda>_. sget (\<lambda>s. find (\<lambda>r. p_request_id r = rid) (rl_proposals s)))))) (\<lambda>row.
     case row of None \<Rightarrow> sret None | Some r \<Rightarrow> slift (rmap Some (proposal_dict E r)))"

text \<open>\<^verbatim>\<open>ORDER BY created_at DESC\<close>; equal times stay in insertion order.\<close>

definition proposals :: "platform \<Rightarrow> pydict list rl" where
  "proposals E =
     sbind (rl_translate ''cannot read proposals'' (transaction (sget rl_proposals))) (\<lambda>rows.
     slift (res_list (proposal_dict E) (sort_key (\<lambda>r. - p_created_at r) rows)))"

definition decisions :: "platform \<Rightarrow> pydict list rl" where
  "decisions E =
     sbind (rl_translate ''cannot read decisions'' (transaction (sget rl_decisions))) (\<lambda>rows.
     slift (res_list (decision_dict E) (sort_key (\<lambda>r. - d_created_at r) rows)))"

definition human_actions :: "pydict list rl" where
  "human_actions =
     sbind (rl_translate ''cannot read human actions'' (transaction (sget rl_human))) (\<lambda>rows.
     sret (map human_dict (sort_key (\<lambda>r. - h_created_at r) rows)))"

end
