(* ===== verification/Decision.thy ===== *)
theory Decision
  imports Policy Flight Runtime_Ledger Executor
begin

text \<open>
  \<^verbatim>\<open>runtime/decision.py\<close>: the decision pipeline, which turns a proposal into a decision and lets the
  authority and the executor act only when the policy's SAXP verdict allows it, or a human approved
  what the policy referred to a human.
\<close>

section \<open>Values of the language\<close>

text \<open>
  What \<^verbatim>\<open>str\<close> says of a container or an object, what \<^verbatim>\<open>str\<close> says of an exception, and what \<^verbatim>\<open>dict\<close>
  makes of objects outside the model.
\<close>

record builtins =
  str_other :: "pyval \<Rightarrow> ustr res"
  str_exn :: "exn \<Rightarrow> ustr"
  dict_other :: "pyval \<Rightarrow> pydict res"

definition py_str :: "builtins \<Rightarrow> pyval \<Rightarrow> ustr res" where
  "py_str B v =
     (case v of
        PStr s \<Rightarrow> Inr s
      | PNone \<Rightarrow> Inr (U ''None'')
      | PBool b \<Rightarrow> Inr (U (if b then ''True'' else ''False''))
      | PInt i \<Rightarrow> if max_int_digits < length (nat_digits (nat \<bar>i\<bar>)) then Inl (Exn ValueError ''integer string conversion'')
                  else Inr (int_str i)
      | _ \<Rightarrow> str_other B v)"

text \<open>
  \<^verbatim>\<open>dict(v)\<close>: a dictionary is copied, any other iterable must yield pairs, the first element of each
  being hashable. A key that is not a string becomes \<open>KOther\<close>, which no document may contain.
\<close>

definition as_key :: "pyval \<Rightarrow> pykey res" where
  "as_key v =
     (case v of
        PStr s \<Rightarrow> Inr (KStr s)
      | PList _ \<Rightarrow> Inl (Exn TypeError ''unhashable type'')
      | PDict _ \<Rightarrow> Inl (Exn TypeError ''unhashable type'')
      | PNone \<Rightarrow> Inr (KOther ''NoneType'')
      | PBool _ \<Rightarrow> Inr (KOther ''bool'')
      | PInt _ \<Rightarrow> Inr (KOther ''int'')
      | POther t \<Rightarrow> Inr (KOther t))"

fun key_value :: "pykey \<Rightarrow> pyval" where
  "key_value (KStr s) = PStr s"
| "key_value (KOther t) = POther t"

definition dict_pair :: "pyval \<Rightarrow> (pykey \<times> pyval) res" where
  "dict_pair v =
     (let pair = (\<lambda>xs. case xs of [k, x] \<Rightarrow> rbind (as_key k) (\<lambda>k. Inr (k, x))
                        | _ \<Rightarrow> Inl (Exn ValueError ''dictionary update sequence element''))
      in case v of
           PList xs \<Rightarrow> pair xs
         | PStr s \<Rightarrow> pair (map (\<lambda>c. PStr [c]) s)
         | PDict d \<Rightarrow> pair (map (key_value \<circ> fst) d)
         | _ \<Rightarrow> Inl (Exn TypeError ''cannot convert dictionary update sequence element''))"

fun dict_pairs :: "pydict \<Rightarrow> pyval list \<Rightarrow> pydict res" where
  "dict_pairs d [] = Inr d"
| "dict_pairs d (v # vs) = rbind (dict_pair v) (\<lambda>(k, x). dict_pairs (AList.update k x d) vs)"

definition is_other :: "pyval \<Rightarrow> bool" where
  "is_other v = (case v of POther _ \<Rightarrow> True | _ \<Rightarrow> False)"

definition dict_of :: "builtins \<Rightarrow> pyval \<Rightarrow> pydict res" where
  "dict_of B v =
     (case v of
        PDict d \<Rightarrow> Inr d
      | PList vs \<Rightarrow> if list_ex is_other vs then dict_other B v else dict_pairs [] vs
      | PStr s \<Rightarrow> dict_pairs [] (map (\<lambda>c. PStr [c]) s)
      | POther _ \<Rightarrow> dict_other B v
      | _ \<Rightarrow> Inl (Exn TypeError ''object is not iterable''))"

section \<open>State and decisions\<close>

text \<open>The kernel's world, the flight recorder and the runtime ledger.\<close>

record runtime =
  kernel :: world
  flight_log :: ledger
  index :: runtime_ledger

type_synonym 'a run = "(runtime, 'a) op"

definition on_kernel :: "'a kernel \<Rightarrow> 'a run" where
  "on_kernel = szoom kernel (\<lambda>k s. s\<lparr>kernel := k\<rparr>)"

definition on_flight :: "(ledger, 'a) op \<Rightarrow> 'a run" where
  "on_flight = szoom flight_log (\<lambda>L s. s\<lparr>flight_log := L\<rparr>)"

definition on_index :: "'a rl \<Rightarrow> 'a run" where
  "on_index = szoom index (\<lambda>i s. s\<lparr>index := i\<rparr>)"

datatype decision_state = ALLOW | DENY | REQUIRE_HUMAN | INDETERMINATE

fun state_value :: "decision_state \<Rightarrow> string" where
  "state_value ALLOW = ''ALLOW''"
| "state_value DENY = ''DENY''"
| "state_value REQUIRE_HUMAN = ''REQUIRE_HUMAN''"
| "state_value INDETERMINATE = ''INDETERMINATE''"

record decision =
  dc_state :: decision_state
  dc_request :: pyval
  dc_digest :: ustr
  dc_codes :: "string list"
  dc_capability_id :: "ustr option"
  dc_executed :: bool
  dc_output_digest :: pyval
  dc_flight_hash :: "ustr option"
  dc_human_decision :: "string option"
  dc_human_signature :: "ustr option"
  dc_operator :: pyval

definition opt_str :: "ustr option \<Rightarrow> pyval" where
  "opt_str x = (case x of None \<Rightarrow> PNone | Some s \<Rightarrow> PStr s)"

definition Decision_of :: "decision_state \<Rightarrow> pyval \<Rightarrow> ustr \<Rightarrow> string list \<Rightarrow> ustr option \<Rightarrow> decision" where
  "Decision_of st req dg codes fh =
     \<lparr>dc_state = st, dc_request = req, dc_digest = dg, dc_codes = codes, dc_capability_id = None, dc_executed = False,
      dc_output_digest = PNone, dc_flight_hash = fh, dc_human_decision = None, dc_human_signature = None,
      dc_operator = PNone\<rparr>"

definition to_dict :: "decision \<Rightarrow> pydict" where
  "to_dict d = mk_dict
     [(''state'', pstr (state_value (dc_state d))), (''request'', dc_request d), (''request_digest'', PStr (dc_digest d)),
      (''reason_codes'', PList (map pstr (dc_codes d))), (''capability_id'', opt_str (dc_capability_id d)),
      (''executed'', PBool (dc_executed d)), (''output_digest'', dc_output_digest d),
      (''flight_hash'', opt_str (dc_flight_hash d)), (''human_decision'', opt_str (map_option U (dc_human_decision d))),
      (''human_signature'', opt_str (dc_human_signature d)), (''operator'', dc_operator d)]"

record pipeline =
  authority :: capability_authority
  executor :: capability_executor
  rt_policy :: runtime_policy
  operator_key :: "bytes option"
  saxp :: saxp_evaluator

text \<open>\<^verbatim>\<open>SAXPEvaluator()\<close>\<close>

definition default_saxp :: saxp_evaluator where
  "default_saxp = \<lparr>policy_id = U ''saxp-level1-v1'', minimum_sentidino = 5000\<rparr>"

definition pipeline_init :: "capability_authority \<Rightarrow> capability_executor \<Rightarrow> runtime_policy \<Rightarrow> bytes option \<Rightarrow> pipeline" where
  "pipeline_init A X p key = \<lparr>authority = A, executor = X, rt_policy = p, operator_key = key, saxp = default_saxp\<rparr>"

definition new_decision_id :: "ustr run" where
  "new_decision_id = on_kernel token_hex"

section \<open>Steps shared by the handlers\<close>

definition flight :: "platform \<Rightarrow> string \<Rightarrow> (string \<times> pyval) list \<Rightarrow> ustr run" where
  "flight E event_type data =
     sbind (on_kernel clock_now) (\<lambda>now. on_flight (flight_append E (pstr event_type) (PDict (mk_dict data)) (PInt now)))"

definition field :: "builtins \<Rightarrow> pydict \<Rightarrow> string \<Rightarrow> ustr res" where
  "field B d k = (case dget d k of None \<Rightarrow> Inl (Exn KeyError k) | Some v \<Rightarrow> py_str B v)"

definition request_of :: "builtins \<Rightarrow> pydict \<Rightarrow> action_request res" where
  "request_of B d =
     rbind (field B d ''request_id'') (\<lambda>rid.
     rbind (field B d ''principal'') (\<lambda>prin.
     rbind (field B d ''audience'') (\<lambda>aud.
     rbind (field B d ''action'') (\<lambda>act.
     rbind (field B d ''resource'') (\<lambda>res.
     rbind (case dget d ''parameters'' of None \<Rightarrow> Inl (Exn KeyError ''parameters'') | Some v \<Rightarrow> dict_of B v) (\<lambda>ps.
     Inr \<lparr>request_id = PStr rid, principal = PStr prin, audience = PStr aud, action = PStr act, resource = PStr res,
          parameters = PDict ps\<rparr>))))))"

definition request_error :: "exn \<Rightarrow> bool" where
  "request_error e \<longleftrightarrow> exn_kind_of e = KeyError \<or> exn_kind_of e = TypeError \<or> is_value_error e"

text \<open>The fields of a request that \<open>request_of\<close> built are strings.\<close>

definition text_of :: "pyval \<Rightarrow> ustr" where
  "text_of v = (case v of PStr s \<Rightarrow> s | _ \<Rightarrow> [])"

definition record_proposal :: "platform \<Rightarrow> action_request \<Rightarrow> unit run" where
  "record_proposal E bound =
     sbind (on_kernel clock_now) (\<lambda>now.
     sbind (slift (request_payload bound)) (\<lambda>_.
     sbind (slift (request_digest E bound)) (\<lambda>dg.
     on_index (store_proposal E (text_of (request_id bound)) (text_of (principal bound)) (text_of (audience bound))
       (text_of (action bound)) (text_of (resource bound)) (parameters bound) dg now))))"

definition store :: "platform \<Rightarrow> ustr \<Rightarrow> decision_state \<Rightarrow> string list \<Rightarrow> pyval \<Rightarrow> bool \<Rightarrow> pyval \<Rightarrow> ustr \<Rightarrow> unit run" where
  "store E rid st codes cap exec outd fh =
     sbind (on_kernel clock_now) (\<lambda>now.
     on_index (store_decision E rid rid (U (state_value st)) codes cap exec outd fh now))"

text \<open>\<^verbatim>\<open>Decision(state, bound.to_payload(), bound.digest(), codes, flight_hash=\<dots>)\<close>\<close>

definition decided :: "platform \<Rightarrow> decision_state \<Rightarrow> action_request \<Rightarrow> string list \<Rightarrow> ustr option \<Rightarrow> decision run" where
  "decided E st bound codes fh =
     sbind (slift (request_payload bound)) (\<lambda>payload.
     sbind (slift (request_digest E bound)) (\<lambda>dg.
     sret (Decision_of st payload dg codes fh)))"

definition codes_value :: "string list \<Rightarrow> pyval" where
  "codes_value codes = PList (map pstr codes)"

definition indeterminate :: "platform \<Rightarrow> builtins \<Rightarrow> ustr \<Rightarrow> exn \<Rightarrow> decision run" where
  "indeterminate E B rid e =
     (let code = exn_code e in
      sbind (scatch any_exn (\<lambda>_. sret None)
        (sbind (flight E ''DECISION_INDETERMINATE'' [(''request_id'', PStr rid), (''code'', pstr code), (''reason'', PStr (str_exn B e))])
           (\<lambda>h. sret (Some h)))) (\<lambda>fh.
      sbind (quietly (store E rid INDETERMINATE [code] PNone False PNone (case fh of None \<Rightarrow> [] | Some h \<Rightarrow> h))) (\<lambda>_.
      sret (Decision_of INDETERMINATE (PDict (mk_dict [(''request_id'', PStr rid)])) [] [code] fh))))"

section \<open>Proposals\<close>

definition deny_issue_failure :: "platform \<Rightarrow> builtins \<Rightarrow> action_request \<Rightarrow> string list \<Rightarrow> exn \<Rightarrow> decision run" where
  "deny_issue_failure E B bound codes e =
     (let rid = request_id bound; all_codes = codes @ [error_code (exn_kind_of e)] in
      sbind (flight E ''DECISION_DENY''
        [(''request_id'', rid), (''reason_codes'', codes_value all_codes), (''reason'', PStr (str_exn B e))]) (\<lambda>fh.
      sbind (store E (text_of rid) DENY all_codes PNone False PNone fh) (\<lambda>_.
      decided E DENY bound all_codes (Some fh))))"

text \<open>What is recorded once the executor has returned.\<close>

definition settle_execution ::
    "platform \<Rightarrow> action_request \<Rightarrow> string list \<Rightarrow> ustr \<Rightarrow> execution_result \<Rightarrow> decision run" where
  "settle_execution E bound codes cap x =
     (let rid = request_id bound in
      if success x then
        sbind (flight E ''DECISION_ALLOW'' [(''request_id'', rid), (''capability_id'', PStr cap),
           (''output_digest'', output_digest x)]) (\<lambda>fh.
        sbind (store E (text_of rid) ALLOW codes (PStr cap) True (output_digest x) fh) (\<lambda>_.
        sbind (decided E ALLOW bound codes (Some fh)) (\<lambda>d.
        sret (d\<lparr>dc_capability_id := Some cap, dc_executed := True, dc_output_digest := output_digest x\<rparr>))))
      else
        sbind (flight E ''DECISION_DENY'' [(''request_id'', rid), (''reason_codes'', codes_value codes),
           (''reason'', pstr (reason_code x))]) (\<lambda>fh.
        sbind (store E (text_of rid) DENY codes (PStr cap) False PNone fh) (\<lambda>_.
        sbind (decided E DENY bound codes (Some fh)) (\<lambda>d. sret (d\<lparr>dc_capability_id := Some cap\<rparr>)))))"

definition run_capability ::
    "platform \<Rightarrow> pipeline \<Rightarrow> action_request \<Rightarrow> string list \<Rightarrow> bytes \<Rightarrow> ustr \<Rightarrow> decision run" where
  "run_capability E P bound codes env cap =
     sbind (flight E ''CAPABILITY_ISSUED'' [(''request_id'', request_id bound), (''capability_id'', PStr cap),
        (''action'', action bound), (''resource'', resource bound)]) (\<lambda>_.
     sbind (on_kernel (execute E (executor P) env bound)) (settle_execution E bound codes cap))"

text \<open>A capability without an envelope is denied; one with an envelope has an identifier.\<close>

definition refuse :: "platform \<Rightarrow> string \<Rightarrow> decision_state \<Rightarrow> action_request \<Rightarrow> string list \<Rightarrow> decision run" where
  "refuse E event st bound codes =
     sbind (flight E event [(''request_id'', request_id bound), (''reason_codes'', codes_value codes)]) (\<lambda>fh.
     sbind (store E (text_of (request_id bound)) st codes PNone False PNone fh) (\<lambda>_.
     decided E st bound codes (Some fh)))"

definition issue_and_execute :: "platform \<Rightarrow> builtins \<Rightarrow> pipeline \<Rightarrow> action_request \<Rightarrow> string list \<Rightarrow> decision run" where
  "issue_and_execute E B P bound codes =
     sbind (scatch is_mgk_error (\<lambda>e. sret (Inl e))
        (sbind (on_kernel (issue_capability E (authority P) bound PNone NoContext)) (\<lambda>i. sret (Inr i)))) (\<lambda>attempt.
     case attempt of
       Inl e \<Rightarrow> deny_issue_failure E B bound codes e
     | Inr issued \<Rightarrow>
         (case (envelope issued, i_capability_id issued) of
            (Some env, Some cap) \<Rightarrow> run_capability E P bound codes env cap
          | _ \<Rightarrow> refuse E ''DECISION_DENY'' DENY bound codes))"

definition propose :: "platform \<Rightarrow> builtins \<Rightarrow> pipeline \<Rightarrow> pydict \<Rightarrow> decision run" where
  "propose E B P request =
     sbind (slift (field B request ''request_id'')) (\<lambda>rid.
     case request_of B request of
       Inl e \<Rightarrow> if request_error e then indeterminate E B rid e else sraise e
     | Inr bound \<Rightarrow>
         scatch any_exn (indeterminate E B rid)
           (sbind (record_proposal E bound) (\<lambda>_.
            sbind (slift (context_for (rt_policy P) bound)) (\<lambda>context.
            sbind (slift (evaluate E (saxp P) bound context)) (\<lambda>dec.
            let codes = reason_codes dec in
            if result dec = result_value NON_TEN_XEITO then refuse E ''DECISION_DENY'' DENY bound codes
            else if result dec = result_value REQUIRE_XEITO then refuse E ''DECISION_REQUIRE_HUMAN'' REQUIRE_HUMAN bound codes
            else issue_and_execute E B P bound codes)))))"

section \<open>The human gate\<close>

definition pending :: "platform \<Rightarrow> pydict list run" where
  "pending E =
     sbind (on_index (decisions E)) (\<lambda>rows.
     sret (filter (\<lambda>row. dval row ''state'' = pstr (state_value REQUIRE_HUMAN)) rows))"

definition decision_state_of :: "platform \<Rightarrow> ustr \<Rightarrow> pyval run" where
  "decision_state_of E rid =
     sbind (on_index (decisions E)) (\<lambda>rows.
     sret (case find (\<lambda>row. dval row ''request_id'' = PStr rid) rows of None \<Rightarrow> PNone | Some row \<Rightarrow> dval row ''state''))"

definition gate_transition_denied :: "platform \<Rightarrow> builtins \<Rightarrow> ustr \<Rightarrow> pydict \<Rightarrow> pyval \<Rightarrow> decision run" where
  "gate_transition_denied E B rid prop current =
     (let codes = [''HUMAN_GATE_TRANSITION_DENIED''] in
      case request_of B prop of
        Inl e \<Rightarrow>
          if request_error e then sret (Decision_of DENY (PDict (mk_dict [(''request_id'', PStr rid)])) [] codes None)
          else sraise e
      | Inr bound \<Rightarrow>
          sbind (scatch any_exn (\<lambda>_. sret None)
            (sbind (flight E ''HUMAN_GATE_DENIED'' [(''request_id'', PStr rid), (''current_state'', current),
                (''reason_codes'', codes_value codes)]) (\<lambda>h. sret (Some h)))) (\<lambda>fh.
          decided E DENY bound codes fh))"

definition sign_human :: "platform \<Rightarrow> pipeline \<Rightarrow> pydict \<Rightarrow> string \<Rightarrow> pyval \<Rightarrow> ustr run" where
  "sign_human E P prop choice operator =
     (case operator_key P of
        None \<Rightarrow> sret []
      | Some key \<Rightarrow>
          sbind (on_kernel clock_now) (\<lambda>now.
          sbind (slift (canonicalize E (PDict (mk_dict
            [(''request_id'', dval prop ''request_id''), (''request_digest'', dval prop ''request_digest''),
             (''decision'', pstr choice), (''operator'', operator), (''timestamp'', PInt now)])))) (\<lambda>document.
          sret (sign E key HUMAN_GATE_DOMAIN document))))"

text \<open>The steps that approval and denial share up to the recorded human action.\<close>

definition human_record :: "platform \<Rightarrow> pipeline \<Rightarrow> ustr \<Rightarrow> pydict \<Rightarrow> string \<Rightarrow> pyval \<Rightarrow> (ustr \<times> ustr \<times> int) run" where
  "human_record E P rid prop choice operator =
     sbind (sign_human E P prop choice operator) (\<lambda>signature.
     sbind (on_kernel clock_now) (\<lambda>now.
     sbind (flight E ''HUMAN_DECISION'' [(''request_id'', PStr rid), (''operator'', operator),
        (''decision'', pstr choice), (''signature'', PStr signature)]) (\<lambda>fh.
     sbind (on_index (store_human_action (U ''human-'' @ rid) rid operator choice signature fh now)) (\<lambda>_.
     sret (signature, fh, now)))))"

definition by_human :: "pyval \<Rightarrow> string \<Rightarrow> ustr \<Rightarrow> decision \<Rightarrow> decision" where
  "by_human operator choice signature d =
     d\<lparr>dc_human_decision := Some choice, dc_human_signature := Some signature, dc_operator := operator\<rparr>"

definition settle_approved ::
    "platform \<Rightarrow> action_request \<Rightarrow> string list \<Rightarrow> pyval \<Rightarrow> ustr \<Rightarrow> ustr \<Rightarrow> execution_result \<Rightarrow> decision run" where
  "settle_approved E bound codes operator signature cap x =
     (let rid = request_id bound; st = (if success x then ALLOW else DENY) in
      sbind (flight E ''HUMAN_EXECUTION'' [(''request_id'', rid), (''decision'', pstr ''APPROVE''),
         (''capability_id'', PStr cap), (''executed'', PBool (success x)), (''output_digest'', output_digest x)]) (\<lambda>fh.
      sbind (store E (text_of rid) st codes (PStr cap) (success x) (output_digest x) fh) (\<lambda>_.
      sbind (decided E st bound codes (Some fh)) (\<lambda>d.
      sret (by_human operator ''APPROVE'' signature
        (d\<lparr>dc_capability_id := Some cap, dc_executed := success x, dc_output_digest := output_digest x\<rparr>))))))"

definition issue_and_execute_human ::
    "platform \<Rightarrow> builtins \<Rightarrow> pipeline \<Rightarrow> action_request \<Rightarrow> string list \<Rightarrow> pyval \<Rightarrow> ustr \<Rightarrow> saxp_context \<Rightarrow> decision run" where
  "issue_and_execute_human E B P bound codes operator signature context =
     sbind (scatch is_mgk_error (\<lambda>e. sret (Inl e))
        (sbind (on_kernel (issue_capability E (authority P) bound PNone (Context context))) (\<lambda>i. sret (Inr i)))) (\<lambda>attempt.
     case attempt of
       Inl e \<Rightarrow>
         let rid = request_id bound; all_codes = codes @ [error_code (exn_kind_of e)] in
         sbind (flight E ''HUMAN_DECISION_DENY''
           [(''request_id'', rid), (''reason_codes'', codes_value all_codes), (''reason'', PStr (str_exn B e))]) (\<lambda>fh.
         sbind (store E (text_of rid) DENY all_codes PNone False PNone fh) (\<lambda>_.
         sbind (decided E DENY bound all_codes (Some fh)) (\<lambda>d. sret (by_human operator ''APPROVE'' signature d))))
     | Inr issued \<Rightarrow>
         (case (envelope issued, i_capability_id issued) of
            (Some env, Some cap) \<Rightarrow>
              sbind (on_kernel (execute E (executor P) env bound)) (settle_approved E bound codes operator signature cap)
          | _ \<Rightarrow> sbind (decided E DENY bound codes None) (\<lambda>d. sret (by_human operator ''APPROVE'' signature d))))"

text \<open>The gate: a stored proposal whose decision row says that a human must decide.\<close>

definition human_gate ::
    "platform \<Rightarrow> builtins \<Rightarrow> ustr \<Rightarrow> (pydict \<Rightarrow> decision run) \<Rightarrow> decision run" where
  "human_gate E B rid act =
     sbind (on_index (proposal E rid)) (\<lambda>found.
     case found of
       None \<Rightarrow> sret (Decision_of INDETERMINATE (PDict (mk_dict [(''request_id'', PStr rid)])) [] [''PROPOSAL_NOT_FOUND''] None)
     | Some prop \<Rightarrow>
         sbind (decision_state_of E rid) (\<lambda>current.
         if current \<noteq> pstr (state_value REQUIRE_HUMAN) then gate_transition_denied E B rid prop current else act prop))"

definition human_approve :: "platform \<Rightarrow> builtins \<Rightarrow> pipeline \<Rightarrow> ustr \<Rightarrow> pyval \<Rightarrow> decision run" where
  "human_approve E B P rid operator = human_gate E B rid (\<lambda>prop.
     sbind (slift (request_of B prop)) (\<lambda>bound.
     sbind (human_record E P rid prop ''APPROVE'' operator) (\<lambda>(signature, _, _).
     let resolved = resolved_context (rt_policy P) in
     sbind (slift (evaluate E (saxp P) bound resolved)) (\<lambda>dec.
     issue_and_execute_human E B P bound (reason_codes dec) operator signature resolved))))"

definition human_deny :: "platform \<Rightarrow> builtins \<Rightarrow> pipeline \<Rightarrow> ustr \<Rightarrow> pyval \<Rightarrow> decision run" where
  "human_deny E B P rid operator = human_gate E B rid (\<lambda>prop.
     sbind (slift (request_of B prop)) (\<lambda>bound.
     sbind (human_record E P rid prop ''DENY'' operator) (\<lambda>(signature, fh, now).
     let codes = [''HUMAN_DENIED''] in
     sbind (on_index (store_decision E rid rid (U (state_value DENY)) codes PNone False PNone fh now)) (\<lambda>_.
     sbind (decided E DENY bound codes (Some fh)) (\<lambda>d. sret (by_human operator ''DENY'' signature d))))))"

end
