(* ===== verification/Runtime_Ledger_Facts.thy ===== *)
theory Runtime_Ledger_Facts
  imports Runtime_Ledger Bounds
begin

text \<open>
  The runtime ledger refines three finite maps: proposals by request, decisions by request and human
  actions by identifier. A write that fails leaves every table as it was.
\<close>

section \<open>The abstract index\<close>

definition table :: "('r \<Rightarrow> 'k) \<Rightarrow> 'r list \<Rightarrow> 'k \<Rightarrow> 'r option" where
  "table key rows k = find (\<lambda>r. key r = k) rows"

lemma table_None: "table key rows k = None \<longleftrightarrow> \<not> list_ex (\<lambda>r. key r = k) rows"
  by (auto simp: table_def find_None_iff list_ex_iff)

lemma table_Some: "table key rows k = Some r \<Longrightarrow> r \<in> set rows \<and> key r = k"
  by (auto simp: table_def find_Some_iff)

lemma table_append: "table key rows (key r) = None \<Longrightarrow> table key (rows @ [r]) = (table key rows)(key r \<mapsto> r)"
  by (induction rows) (auto simp: table_def fun_eq_iff split: if_splits)

lemma table_replace:
  "table key rows (key row) \<noteq> None \<Longrightarrow>
     table key (map (\<lambda>r. if key r = key row then row else r) rows) = (table key rows)(key row \<mapsto> row)"
proof (induction rows)
  case (Cons r rows)
  show ?case
  proof (cases "table key rows (key row) = None")
    case True
    then have same: "map (\<lambda>r. if key r = key row then row else r) rows = rows"
      by (intro map_idI) (auto simp: table_None list_ex_iff)
    with True Cons.prems show ?thesis by (auto simp: table_def fun_eq_iff split: if_splits)
  next
    case False
    with Cons.IH have "table key (map (\<lambda>r. if key r = key row then row else r) rows) k = ((table key rows)(key row \<mapsto> row)) k" for k
      by simp
    then show ?thesis by (auto simp: table_def fun_eq_iff)
  qed
qed (simp add: table_def)

record abstract_index =
  proposed :: "ustr \<rightharpoonup> proposal_row"
  settled :: "ustr \<rightharpoonup> decision_row"
  acted_on :: "ustr \<rightharpoonup> human_row"

definition abs_index :: "runtime_ledger \<Rightarrow> abstract_index" where
  "abs_index s = \<lparr>proposed = table p_request_id (rl_proposals s), settled = table d_request_id (rl_decisions s),
     acted_on = table h_action_id (rl_human s)\<rparr>"

text \<open>What each write does to the maps: the first proposal stays, the last decision wins, a human acts once.\<close>

definition spec_propose :: "proposal_row \<Rightarrow> abstract_index \<Rightarrow> abstract_index" where
  "spec_propose row I =
     (if proposed I (p_request_id row) = None then I\<lparr>proposed := (proposed I)(p_request_id row \<mapsto> row)\<rparr> else I)"

definition spec_decide :: "decision_row \<Rightarrow> abstract_index \<Rightarrow> abstract_index" where
  "spec_decide row I = I\<lparr>settled := (settled I)(d_request_id row \<mapsto> row)\<rparr>"

definition spec_human :: "human_row \<Rightarrow> abstract_index \<Rightarrow> abstract_index option" where
  "spec_human row I =
     (if acted_on I (h_action_id row) = None then Some (I\<lparr>acted_on := (acted_on I)(h_action_id row \<mapsto> row)\<rparr>) else None)"

section \<open>Transactions\<close>

definition same_tables :: "runtime_ledger \<Rightarrow> runtime_ledger \<Rightarrow> bool" where
  "same_tables s s' \<longleftrightarrow> rl_ok s' = rl_ok s \<and> rl_schema s' = rl_schema s \<and> rl_proposals s' = rl_proposals s
     \<and> rl_decisions s' = rl_decisions s \<and> rl_human s' = rl_human s"

lemma same_tables_abs: "same_tables s s' \<Longrightarrow> abs_index s' = abs_index s"
  by (simp add: same_tables_def abs_index_def)

lemma preorder_same_tables [simp]: "preorder_rel same_tables"
  by (auto simp: preorder_rel_def reflp_def transp_def same_tables_def)

definition settled_tx :: "runtime_ledger \<Rightarrow> runtime_ledger" where
  "settled_tx s = s\<lparr>rl_faults := tl (rl_faults s)\<rparr>"

lemma same_settled: "same_tables s (settled_tx s)" "same_tables (settled_tx s) s' \<longleftrightarrow> same_tables s s'"
  by (simp_all add: same_tables_def settled_tx_def)

lemma settled_tx_simps [simp]:
  "rl_proposals (settled_tx s) = rl_proposals s" "rl_decisions (settled_tx s) = rl_decisions s"
  "rl_human (settled_tx s) = rl_human s" "rl_schema (settled_tx s) = rl_schema s" "rl_ok (settled_tx s) = rl_ok s"
  by (simp_all add: settled_tx_def)

lemma transaction_ok:
  assumes "rl_translate t (transaction body) s = (Inr x, s')"
  shows "rl_ok s" "body (settled_tx s) = (Inr x, s')"
proof -
  have "transaction body s = (Inr x, s')"
    using assms by (auto simp: rl_translate_def scatch_def split: prod.splits sum.splits if_splits)
  then show "rl_ok s" "body (settled_tx s) = (Inr x, s')"
    by (auto simp: transaction_def rl_error_def settled_tx_def Let_def split: if_splits prod.splits sum.splits)
qed

lemma transaction_err:
  assumes "rl_translate t (transaction body) s = (Inl e, s')"
  shows "same_tables s s'"
proof -
  have "\<exists>e s1. transaction body s = (Inl e, s1) \<and> s' = s1"
    using assms by (auto simp: rl_translate_def scatch_def split: prod.splits sum.splits if_splits)
  then show ?thesis
    by (auto simp: transaction_def rl_error_def same_tables_def Let_def split: if_splits prod.splits sum.splits)
qed

lemma transaction_succeeds:
  assumes "rl_ok s" "rl_faults s = []" "body s = (Inr x, s')"
  shows "rl_translate t (transaction body) s = (Inr x, s')"
proof -
  have s: "s\<lparr>rl_faults := []\<rparr> = s" using assms(2) by (cases s) simp
  have "body (s\<lparr>rl_faults := []\<rparr>) = (Inr x, s')" unfolding s by (rule assms(3))
  with assms(1,2) show ?thesis by (simp add: rl_translate_def transaction_def scatch_def Let_def)
qed

text \<open>A transaction that only reads.\<close>

lemma reads_only:
  assumes "\<And>s r s'. body s = (r, s') \<Longrightarrow> s' = s"
  shows "keeps same_tables (rl_translate t (transaction body))"
proof (rule keepsI)
  fix s r s' assume run: "rl_translate t (transaction body) s = (r, s')"
  show "same_tables s s'"
  proof (cases r)
    case (Inl e)
    with run transaction_err show ?thesis by metis
  next
    case (Inr x)
    with run transaction_ok(2) assms have "s' = settled_tx s" by metis
    then show ?thesis by (simp add: same_settled)
  qed
qed

section \<open>Operations\<close>

lemma store_proposal_ok:
  assumes "store_proposal E rid prin aud act res params dg t s = (Inr u, s')"
  obtains encoded where "canonicalize E params = Inr encoded"
    and "abs_index s' = spec_propose \<lparr>p_request_id = rid, p_principal = prin, p_audience = aud, p_action = act,
        p_resource = res, p_parameters = encoded, p_digest = dg, p_created_at = t\<rparr> (abs_index s)"
    and "rl_human s' = rl_human s" and "rl_decisions s' = rl_decisions s" and "table p_request_id (rl_proposals s') rid \<noteq> None"
proof -
  from assms obtain encoded where e: "canonicalize E params = Inr encoded"
    and tx: "rl_translate ''cannot store proposal'' (transaction (
       sbind (slift (bind_values [rid, prin, aud, act, res, dg] t)) (\<lambda>_.
       smodify (\<lambda>s.
         if list_ex (\<lambda>r. p_request_id r = rid) (rl_proposals s) then s
         else s\<lparr>rl_proposals := rl_proposals s @
           [\<lparr>p_request_id = rid, p_principal = prin, p_audience = aud, p_action = act, p_resource = res,
             p_parameters = encoded, p_digest = dg, p_created_at = t\<rparr>]\<rparr>)))) s = (Inr u, s')"
    by (auto simp: store_proposal_def sbind_ok)
  let ?row = "\<lparr>p_request_id = rid, p_principal = prin, p_audience = aud, p_action = act, p_resource = res,
             p_parameters = encoded, p_digest = dg, p_created_at = t\<rparr>"
  from transaction_ok(2) [OF tx] have s': "s' = (if list_ex (\<lambda>r. p_request_id r = rid) (rl_proposals s) then settled_tx s
      else (settled_tx s)\<lparr>rl_proposals := rl_proposals s @ [?row]\<rparr>)"
    by (auto simp: sbind_ok)
  show ?thesis
  proof (cases "list_ex (\<lambda>r. p_request_id r = rid) (rl_proposals s)")
    case True
    then have "table p_request_id (rl_proposals s) rid \<noteq> None" by (simp add: table_None)
    with True s' show ?thesis by (intro that [OF e]) (auto simp: abs_index_def spec_propose_def)
  next
    case False
    then have "table p_request_id (rl_proposals s) (p_request_id ?row) = None" by (simp add: table_None)
    from table_append [OF this] this False s' show ?thesis
      by (intro that [OF e]) (simp_all add: abs_index_def spec_propose_def)
  qed
qed

lemma store_decision_ok:
  assumes "store_decision E did rid st codes cap exec outd fh t s = (Inr u, s')"
  obtains encoded where "canonicalize E (PList (map pstr codes)) = Inr encoded"
    and "abs_index s' = spec_decide \<lparr>d_decision_id = did, d_request_id = rid, d_state = st, d_reason_codes = encoded,
        d_capability_id = cap, d_executed = exec, d_output_digest = outd, d_flight_hash = fh, d_created_at = t\<rparr> (abs_index s)"
    and "rl_human s' = rl_human s" and "rl_proposals s' = rl_proposals s"
proof -
  let ?row = "\<lambda>encoded. \<lparr>d_decision_id = did, d_request_id = rid, d_state = st, d_reason_codes = encoded,
        d_capability_id = cap, d_executed = exec, d_output_digest = outd, d_flight_hash = fh, d_created_at = t\<rparr>"
  from transaction_ok(2) [OF assms [unfolded store_decision_def]] obtain encoded where
    e: "canonicalize E (PList (map pstr codes)) = Inr encoded"
    and up: "upsert_decision (?row encoded) (settled_tx s) = (Inr u, s')"
    by (auto simp: sbind_ok)
  note row = up [unfolded upsert_decision_def, simplified]
  have "abs_index s' = spec_decide (?row encoded) (abs_index s) \<and> rl_human s' = rl_human s \<and> rl_proposals s' = rl_proposals s"
  proof (cases "table d_request_id (rl_decisions s) rid = None")
    case True
    then have "\<not> list_ex (\<lambda>r. d_request_id r = rid) (rl_decisions s)" by (simp add: table_None)
    with row have "s' = (settled_tx s)\<lparr>rl_decisions := rl_decisions s @ [?row encoded]\<rparr>" by (simp split: if_splits)
    with table_append [of d_request_id "rl_decisions s" "?row encoded"] True show ?thesis
      by (simp add: abs_index_def spec_decide_def)
  next
    case False
    then have "list_ex (\<lambda>r. d_request_id r = rid) (rl_decisions s)" by (simp add: table_None)
    with row have "s' = (settled_tx s)\<lparr>rl_decisions := map (\<lambda>r. if d_request_id r = rid then ?row encoded else r) (rl_decisions s)\<rparr>"
      by (simp split: if_splits)
    with table_replace [of d_request_id "rl_decisions s" "?row encoded"] False show ?thesis
      by (simp add: abs_index_def spec_decide_def)
  qed
  with that [OF e] show ?thesis by blast
qed

lemma store_human_action_ok:
  assumes "store_human_action aid rid operator choice signature fh t s = (Inr u, s')"
  obtains op_text where "text_param operator = Inr op_text"
    and "rl_human s' = rl_human s @ [\<lparr>h_action_id = aid, h_request_id = rid, h_operator = op_text, h_decision = U choice,
        h_signature = signature, h_flight_hash = fh, h_created_at = t\<rparr>]"
    and "table h_action_id (rl_human s) aid = None"
    and "spec_human \<lparr>h_action_id = aid, h_request_id = rid, h_operator = op_text, h_decision = U choice,
        h_signature = signature, h_flight_hash = fh, h_created_at = t\<rparr> (abs_index s) = Some (abs_index s')"
    and "rl_proposals s' = rl_proposals s" and "rl_decisions s' = rl_decisions s"
proof -
  let ?row = "\<lambda>op_text. \<lparr>h_action_id = aid, h_request_id = rid, h_operator = op_text, h_decision = U choice,
        h_signature = signature, h_flight_hash = fh, h_created_at = t\<rparr>"
  from transaction_ok(2) [OF assms [unfolded store_human_action_def]] obtain op_text where
    o: "text_param operator = Inr op_text"
    and s': "\<not> list_ex (\<lambda>r. h_action_id r = aid) (rl_human s)" "s' = (settled_tx s)\<lparr>rl_human := rl_human s @ [?row op_text]\<rparr>"
    by (auto simp: sbind_ok split: if_splits)
  have "table h_action_id (rl_human s) (h_action_id (?row op_text)) = None" using s'(1) by (simp add: table_None)
  from table_append [OF this] this s'(2) show ?thesis
    by (intro that [OF o]) (simp_all add: abs_index_def spec_human_def)
qed

lemma writes_err:
  "store_proposal E rid prin aud act res params dg t s = (Inl e, s') \<Longrightarrow> same_tables s s'"
  "store_decision E did rid st codes cap exec outd fh t s = (Inl e, s') \<Longrightarrow> same_tables s s'"
  "store_human_action aid rid operator choice signature fh t s = (Inl e, s') \<Longrightarrow> same_tables s s'"
proof -
  show "store_proposal E rid prin aud act res params dg t s = (Inl e, s') \<Longrightarrow> same_tables s s'"
    by (auto simp: store_proposal_def sbind_err dest: transaction_err) (simp add: same_tables_def)
qed (auto simp: store_decision_def store_human_action_def dest: transaction_err)

lemma same_tables_reads [keeps_intro]:
  "keeps same_tables (proposal E rid)" "keeps same_tables (decisions E)" "keeps same_tables (proposals E)"
  "keeps same_tables human_actions"
  unfolding proposal_def decisions_def proposals_def human_actions_def
  by (intro keeps_intro preorder_same_tables reads_only; auto simp: sbind_def slift_def sget_def sraise_def split: sum.splits prod.splits)+

lemma proposal_ok:
  assumes "proposal E rid s = (Inr found, s')"
  shows "case found of None \<Rightarrow> proposed (abs_index s) rid = None
    | Some d \<Rightarrow> \<exists>row. proposed (abs_index s) rid = Some row \<and> proposal_dict E row = Inr d"
proof -
  from assms obtain row where "rl_translate ''cannot read proposal'' (transaction (
       sbind (slift (bind_values [rid] 0)) (\<lambda>_. sget (\<lambda>s. find (\<lambda>r. p_request_id r = rid) (rl_proposals s))))) s = (Inr row, s')"
    and d: "found = None \<and> row = None \<or> (\<exists>r d. row = Some r \<and> found = Some d \<and> proposal_dict E r = Inr d)"
    by (auto simp: proposal_def sbind_ok rmap_eq_Inr_iff split: option.splits)
  from transaction_ok(2) [OF this(1)] have "row = proposed (abs_index s) rid"
    by (auto simp: sbind_ok abs_index_def table_def)
  with d show ?thesis by auto
qed

section \<open>Properties\<close>

text \<open>The steps of the code, whatever their arguments and outcome, and those of the specification.\<close>

inductive rl_step :: "platform \<Rightarrow> runtime_ledger \<Rightarrow> runtime_ledger \<Rightarrow> bool" for E where
  schema: "rl_ensure_schema s = (r, s') \<Longrightarrow> rl_step E s s'"
| propose: "store_proposal E rid prin aud act res params dg t s = (r, s') \<Longrightarrow> rl_step E s s'"
| decide: "store_decision E did rid st codes cap exec outd fh t s = (r, s') \<Longrightarrow> rl_step E s s'"
| human: "store_human_action aid rid operator choice signature fh t s = (r, s') \<Longrightarrow> rl_step E s s'"
| read: "proposal E rid s = (r1, s') \<Longrightarrow> rl_step E s s'"
| read_all: "proposals E s = (r2, s') \<Longrightarrow> rl_step E s s'"
| read_decisions: "decisions E s = (r2, s') \<Longrightarrow> rl_step E s s'"
| read_human: "human_actions s = (r2, s') \<Longrightarrow> rl_step E s s'"

inductive index_step :: "abstract_index \<Rightarrow> abstract_index \<Rightarrow> bool" where
  skip: "index_step I I"
| propose: "index_step I (spec_propose row I)"
| decide: "index_step I (spec_decide row I)"
| human: "spec_human row I = Some I' \<Longrightarrow> index_step I I'"

inductive_cases rl_stepE: "rl_step E s s'"

lemma rl_ensure_schema_abs: "rl_ensure_schema s = (r, s') \<Longrightarrow> abs_index s' = abs_index s"
proof (cases r)
  case (Inr u)
  assume "rl_ensure_schema s = (r, s')"
  from transaction_ok(2) [OF this [unfolded rl_ensure_schema_def Inr]] show ?thesis
    by (auto simp: sbind_ok abs_index_def split: option.splits if_splits)
next
  case (Inl e)
  assume "rl_ensure_schema s = (r, s')"
  from transaction_err [OF this [unfolded rl_ensure_schema_def Inl]] show ?thesis by (rule same_tables_abs)
qed

lemma rl_step_simulates:
  assumes "rl_step E s s'"
  shows "index_step (abs_index s) (abs_index s')"
  using assms
proof cases
  case (schema r)
  with rl_ensure_schema_abs show ?thesis by (metis index_step.skip)
next
  case (propose rid prin aud act res params dg t r)
  then show ?thesis
  proof (cases r)
    case (Inl e)
    with propose writes_err(1) same_tables_abs show ?thesis by (metis index_step.skip)
  next
    case (Inr u)
    with propose have "store_proposal E rid prin aud act res params dg t s = (Inr u, s')" by simp
    then show ?thesis by (rule store_proposal_ok) (simp add: index_step.propose)
  qed
next
  case (decide did rid st codes cap exec outd fh t r)
  then show ?thesis
  proof (cases r)
    case (Inl e)
    with decide writes_err(2) same_tables_abs show ?thesis by (metis index_step.skip)
  next
    case (Inr u)
    with decide have "store_decision E did rid st codes cap exec outd fh t s = (Inr u, s')" by simp
    then show ?thesis by (rule store_decision_ok) (simp add: index_step.decide)
  qed
next
  case (human aid rid operator choice signature fh t r)
  then show ?thesis
  proof (cases r)
    case (Inl e)
    with human writes_err(3) same_tables_abs show ?thesis by (metis index_step.skip)
  next
    case (Inr u)
    with human have "store_human_action aid rid operator choice signature fh t s = (Inr u, s')" by simp
    then show ?thesis by (rule store_human_action_ok) (rule index_step.human)
  qed
qed (metis keepsD same_tables_abs same_tables_reads index_step.skip)+

lemma index_step_keeps:
  assumes "index_step I I'"
  shows "proposed I \<subseteq>\<^sub>m proposed I'" "acted_on I \<subseteq>\<^sub>m acted_on I'"
  using assms by (cases; auto simp: spec_propose_def spec_decide_def spec_human_def map_le_def split: if_splits)+

text \<open>
  C29: The runtime ledger refines its specification. Whatever sequence of reads and writes runs, with
  whatever arguments, failures and outcomes, it is a sequence of abstract steps on three finite maps:
  nothing happens, a first proposal is kept for its request, the decision of a request is replaced, or a
  human action is added under an unused identifier. In consequence a stored proposal and a recorded
  human action never change, and reading a proposal returns the row its map holds.
\<close>

theorem runtime_ledger_refines:
  assumes "(rl_step E)\<^sup>*\<^sup>* s s'"
  shows "index_step\<^sup>*\<^sup>* (abs_index s) (abs_index s')
    \<and> proposed (abs_index s) \<subseteq>\<^sub>m proposed (abs_index s') \<and> acted_on (abs_index s) \<subseteq>\<^sub>m acted_on (abs_index s')
    \<and> (\<forall>rid found v. proposal E rid s' = (Inr found, v) \<longrightarrow>
         (case found of None \<Rightarrow> proposed (abs_index s') rid = None
          | Some d \<Rightarrow> \<exists>row. proposed (abs_index s') rid = Some row \<and> proposal_dict E row = Inr d))"
proof -
  have "index_step\<^sup>*\<^sup>* (abs_index s) (abs_index s') \<and> proposed (abs_index s) \<subseteq>\<^sub>m proposed (abs_index s')
      \<and> acted_on (abs_index s) \<subseteq>\<^sub>m acted_on (abs_index s')"
    using assms
  proof (induction rule: rtranclp_induct)
    case (step y z)
    have "index_step (abs_index y) (abs_index z)" using step(2) by (rule rl_step_simulates)
    with step.IH index_step_keeps [OF this] show ?case
      by (meson map_le_trans rtranclp.rtrancl_into_rtrancl)
  qed simp
  with proposal_ok show ?thesis by blast
qed

definition sample_index :: runtime_ledger where
  "sample_index = \<lparr>rl_ok = True, rl_schema = Some RL_SCHEMA_VERSION, rl_proposals = [], rl_decisions = [], rl_human = [], rl_faults = []\<rparr>"

theorem runtime_ledger_refines_witness:
  "\<exists>s'. store_human_action (U ''h'') (U ''r'') (pstr ''op'') ''APPROVE'' [] [] 5 sample_index = (Inr (), s')
     \<and> index_step\<^sup>*\<^sup>* (abs_index sample_index) (abs_index s') \<and> acted_on (abs_index s') (U ''h'') \<noteq> None"
proof -
  let ?s = "sample_index\<lparr>rl_human := [\<lparr>h_action_id = U ''h'', h_request_id = U ''r'', h_operator = U ''op'', h_decision = U ''APPROVE'',
    h_signature = [], h_flight_hash = [], h_created_at = 5\<rparr>]\<rparr>"
  have run: "store_human_action (U ''h'') (U ''r'') (pstr ''op'') ''APPROVE'' [] [] 5 sample_index = (Inr (), ?s)"
    unfolding store_human_action_def
    by (rule transaction_succeeds)
      (use str_valid_U [of "[]"] in \<open>simp_all add: sample_index_def text_param_def pstr_def bind_values_def\<close>)
  from rl_step.human [OF run] have "(rl_step E)\<^sup>*\<^sup>* sample_index ?s" for E by blast
  from runtime_ledger_refines [OF this] run show ?thesis by (auto simp: abs_index_def table_def)
qed

end
