(* ===== verification/Decision_Facts.thy ===== *)
theory Decision_Facts
  imports Decision Runtime_Ledger_Facts Flight_Facts Executor_Facts Authority_Facts
begin

text \<open>
  What the steps of the decision pipeline leave alone, and what of a run can touch the resource tree:
  only the executor does, and a handler that acted went through it.
\<close>

section \<open>What the steps keep\<close>

lemma on_run_ok [res_simps]:
  "on_kernel a s = (r, s') \<longleftrightarrow> (\<exists>k. a (kernel s) = (r, k) \<and> s' = s\<lparr>kernel := k\<rparr>)"
  "on_flight b s = (r, s') \<longleftrightarrow> (\<exists>L. b (flight_log s) = (r, L) \<and> s' = s\<lparr>flight_log := L\<rparr>)"
  "on_index c s = (r, s') \<longleftrightarrow> (\<exists>i. c (index s) = (r, i) \<and> s' = s\<lparr>index := i\<rparr>)"
  by (auto simp: on_kernel_def on_flight_def on_index_def szoom_eq)

definition grown :: "runtime_ledger \<Rightarrow> runtime_ledger \<Rightarrow> bool" where
  "grown i i' \<longleftrightarrow> prefix (rl_human i) (rl_human i') \<and> proposed (abs_index i) \<subseteq>\<^sub>m proposed (abs_index i')"

lemma preorder_grown [simp]: "preorder_rel grown"
  by (auto simp: preorder_rel_def reflp_def transp_def grown_def) (meson map_le_trans)

lemma same_tables_grown: "same_tables i i' \<Longrightarrow> grown i i'"
  by (auto simp: grown_def same_tables_abs) (simp add: same_tables_def)

lemma grown_writes [keeps_intro]:
  "keeps grown (store_proposal E rid prin aud act res params dg t)"
  "keeps grown (store_decision E did rid st codes cap exec outd fh t)"
  "keeps grown (store_human_action aid rid operator choice signature fh t)"
proof -
  show "keeps grown (store_proposal E rid prin aud act res params dg t)"
  proof (rule keepsI)
    fix s r s' assume run: "store_proposal E rid prin aud act res params dg t s = (r, s')"
    show "grown s s'"
    proof (cases r)
      case (Inl e)
      with run writes_err(1) same_tables_grown show ?thesis by blast
    next
      case (Inr u)
      with run have "store_proposal E rid prin aud act res params dg t s = (Inr u, s')" by simp
      then show ?thesis by (rule store_proposal_ok) (auto simp: grown_def spec_propose_def map_le_def)
    qed
  qed
  show "keeps grown (store_decision E did rid st codes cap exec outd fh t)"
  proof (rule keepsI)
    fix s r s' assume run: "store_decision E did rid st codes cap exec outd fh t s = (r, s')"
    show "grown s s'"
    proof (cases r)
      case (Inl e)
      with run writes_err(2) same_tables_grown show ?thesis by blast
    next
      case (Inr u)
      with run have "store_decision E did rid st codes cap exec outd fh t s = (Inr u, s')" by simp
      then show ?thesis by (rule store_decision_ok) (auto simp: grown_def spec_decide_def)
    qed
  qed
  show "keeps grown (store_human_action aid rid operator choice signature fh t)"
  proof (rule keepsI)
    fix s r s' assume run: "store_human_action aid rid operator choice signature fh t s = (r, s')"
    show "grown s s'"
    proof (cases r)
      case (Inl e)
      with run writes_err(3) same_tables_grown show ?thesis by blast
    next
      case (Inr u)
      with run have "store_human_action aid rid operator choice signature fh t s = (Inr u, s')" by simp
      then show ?thesis by (rule store_human_action_ok) (auto simp: grown_def abs_index_def)
    qed
  qed
qed

lemma grown_reads [keeps_intro]: "keeps grown (proposal E rid)" "keeps grown (decisions E)"
  using same_tables_reads keeps_mono same_tables_grown by metis+

definition tree :: "runtime \<Rightarrow> fsnode" where
  "tree s = fs_root (files (kernel s))"

text \<open>Nothing happens to the resources, and the ledger's proposals and human actions stay.\<close>

definition idle :: "runtime \<Rightarrow> runtime \<Rightarrow> bool" where
  "idle s s' \<longleftrightarrow> tree s' = tree s \<and> grown (index s) (index s')"

definition run_grown :: "runtime \<Rightarrow> runtime \<Rightarrow> bool" where
  "run_grown s s' \<longleftrightarrow> grown (index s) (index s')"

lemma preorder_idle [simp]: "preorder_rel idle"
  using preorder_grown by (auto simp: preorder_rel_def reflp_def transp_def idle_def)

lemma preorder_run_grown [simp]: "preorder_rel run_grown"
  using preorder_grown by (auto simp: preorder_rel_def reflp_def transp_def run_grown_def)

lemma grown_refl [simp]: "grown i i"
  using preorder_grown by (simp add: preorder_rel_def reflp_def)

lemma idle_basic [keeps_intro]:
  "keeps only_reads m \<Longrightarrow> keeps idle (on_kernel m)" "keeps idle (on_flight f)" "keeps grown i \<Longrightarrow> keeps idle (on_index i)"
  by (auto simp: keeps_def idle_def tree_def only_reads_def on_kernel_def on_flight_def on_index_def szoom_def split: prod.splits)
    (metis snd_conv)+

lemma idle_grown: "keeps idle m \<Longrightarrow> keeps run_grown m"
  by (erule keeps_mono) (simp add: idle_def run_grown_def)

lemma run_grown_kernel: "keeps run_grown (on_kernel m)"
  by (auto simp: keeps_def run_grown_def on_kernel_def szoom_def split: prod.splits)

lemma idle_steps [keeps_intro]:
  "keeps idle (flight E ev data)" "keeps idle (record_proposal E bound)" "keeps idle (store E rid st codes cap exec outd fh)"
  "keeps idle (decided E st bound codes fo)" "keeps idle (sign_human E P stored choice operator)"
  "keeps idle (decision_state_of E rid)"
  unfolding flight_def record_proposal_def store_def decided_def sign_human_def decision_state_of_def
  by (intro keeps_intro preorder_idle)+

lemma idle_more [keeps_intro]:
  "keeps idle (indeterminate E B rid e)" "keeps idle (refuse E ev st bound codes)"
  "keeps idle (deny_issue_failure E B bound codes e)" "keeps idle (human_record E P rid stored choice operator)"
  "keeps idle (on_kernel (issue_capability E A bound t ctx))"
  unfolding indeterminate_def refuse_def deny_issue_failure_def human_record_def quietly_def Let_def
  by (intro keeps_intro preorder_idle only_reads_issue)+

lemma keeps_sum [keeps_intro]:
  "(\<And>a. x = Inl a \<Longrightarrow> keeps R (f a)) \<Longrightarrow> (\<And>b. x = Inr b \<Longrightarrow> keeps R (g b)) \<Longrightarrow>
     keeps R (case x of Inl a \<Rightarrow> f a | Inr b \<Rightarrow> g b)"
  by (cases x) auto

section \<open>Acting\<close>

text \<open>A step acted when it changed the tree, or when it says that it executed something.\<close>

definition acted :: "runtime \<Rightarrow> decision res \<Rightarrow> runtime \<Rightarrow> bool" where
  "acted s r s' \<longleftrightarrow> tree s' \<noteq> tree s \<or> (case r of Inl e \<Rightarrow> False | Inr d \<Rightarrow> dc_executed d \<or> dc_state d = ALLOW)"

lemma acted_sbind:
  assumes "acted s r s'" and "sbind m f s = (r, s')" and "keeps idle m"
  obtains x v where "m s = (Inr x, v)" "f x v = (r, s')" "acted v r s'" "idle s v"
  using assms(2)
proof (cases rule: sbind_cases)
  case (err e)
  with keepsD [OF assms(3) err(1)] assms(1) show ?thesis by (simp add: acted_def idle_def)
next
  case (ok x v)
  have "idle s v" using keepsD [OF assms(3) ok(1)] .
  with ok that assms(1) show ?thesis by (simp add: acted_def idle_def)
qed

lemma acted_slift:
  assumes "acted s r s'" and "sbind (slift x) f s = (r, s')"
  obtains y where "x = Inr y" "f y s = (r, s')"
  using assms by (cases x) (auto simp: acted_def)

lemma decided_ok:
  "decided E st bound codes fo s = (Inr d, s') \<longleftrightarrow> s' = s \<and> (\<exists>payload dg. request_payload bound = Inr payload
     \<and> request_digest E bound = Inr dg \<and> d = Decision_of st payload dg codes fo)"
  by (auto simp: decided_def sbind_ok)

lemma Decision_of_simps [simp]:
  "dc_state (Decision_of st req dg codes fo) = st" "dc_executed (Decision_of st req dg codes fo) = False"
  "dc_codes (Decision_of st req dg codes fo) = codes" "dc_flight_hash (Decision_of st req dg codes fo) = fo"
  "dc_capability_id (Decision_of st req dg codes fo) = None" "dc_output_digest (Decision_of st req dg codes fo) = PNone"
  "dc_digest (Decision_of st req dg codes fo) = dg" "dc_request (Decision_of st req dg codes fo) = req"
  by (simp_all add: Decision_of_def)

lemma by_human_simps [simp]:
  "dc_state (by_human operator choice signature d) = dc_state d" "dc_executed (by_human operator choice signature d) = dc_executed d"
  by (simp_all add: by_human_def)

lemma guarded_total: "\<exists>fo v. scatch any_exn (\<lambda>_. sret None) (sbind m (\<lambda>h. sret (Some h))) s = (Inr fo, v)"
proof -
  obtain r v where "m s = (r, v)" by fastforce
  then show ?thesis by (cases r) (simp_all add: scatch_def sbind_def sret_def)
qed

lemma guarded_no_err: "scatch any_exn (\<lambda>_. sret None) (sbind m (\<lambda>h. sret (Some h))) s \<noteq> (Inl e, v)"
  using guarded_total [of m s] by auto

lemma quietly_no_err: "quietly m s \<noteq> (Inl e, v)"
  using quietly_total [of m s] by auto

lemma indeterminate_result:
  assumes "indeterminate E B rid e s = (r, s')"
  obtains fo where "r = Inr (Decision_of INDETERMINATE (PDict (mk_dict [(''request_id'', PStr rid)])) [] [exn_code e] fo)"
  using assms [unfolded indeterminate_def Let_def]
proof (cases rule: sbind_cases)
  case (err e')
  then show ?thesis by (simp add: guarded_no_err)
next
  case (ok fo v)
  from ok(2) show ?thesis
  proof (cases rule: sbind_cases)
    case (err e')
    then show ?thesis by (simp add: quietly_no_err)
  qed (use that in auto)
qed

lemma refuse_result:
  assumes "refuse E ev st bound codes s = (Inr d, s')"
  shows "dc_state d = st" "\<not> dc_executed d"
  using assms by (auto simp: refuse_def sbind_ok decided_ok)

lemma not_acted:
  "st \<noteq> ALLOW \<Longrightarrow> refuse E ev st bound codes s = (r, s') \<Longrightarrow> \<not> acted s r s'"
  "deny_issue_failure E B bound codes e s = (r, s') \<Longrightarrow> \<not> acted s r s'"
  "indeterminate E B rid e s = (r, s') \<Longrightarrow> \<not> acted s r s'"
proof -
  assume st: "st \<noteq> ALLOW" and run: "refuse E ev st bound codes s = (r, s')"
  have "tree s' = tree s" using keepsD [OF idle_more(2) run] by (simp add: idle_def)
  with st run show "\<not> acted s r s'" by (cases r) (auto simp: acted_def dest: refuse_result)
next
  assume run: "deny_issue_failure E B bound codes e s = (r, s')"
  have "tree s' = tree s" using keepsD [OF idle_more(3) run] by (simp add: idle_def)
  with run show "\<not> acted s r s'"
    by (cases r) (auto simp: acted_def deny_issue_failure_def sbind_ok decided_ok Let_def)
next
  assume run: "indeterminate E B rid e s = (r, s')"
  have "tree s' = tree s" using keepsD [OF idle_more(1) run] by (simp add: idle_def)
  with run show "\<not> acted s r s'" by (auto simp: acted_def elim: indeterminate_result)
qed

lemma acted_guarded:
  assumes "acted s r s'" and "scatch any_exn (indeterminate E B rid) m s = (r, s')"
  obtains r1 v where "m s = (r1, v)" "acted s r1 v" "tree v = tree s'"
    "\<forall>d. r = Inr d \<longrightarrow> dc_executed d \<or> dc_state d = ALLOW \<longrightarrow> r1 = r"
  using assms(2)
proof (cases rule: scatch_cases)
  case (handled e v)
  have "tree v = tree s'" using keepsD [OF idle_more(1) handled(3)] by (simp add: idle_def)
  moreover have "\<not> acted v r s'" using not_acted(3) [OF handled(3)] .
  moreover have "\<forall>d. r = Inr d \<longrightarrow> \<not> (dc_executed d \<or> dc_state d = ALLOW)"
    using \<open>\<not> acted v r s'\<close> by (auto simp: acted_def)
  moreover have "acted s (Inl e) v" using calculation assms(1) by (auto simp: acted_def split: sum.splits)
  ultimately show ?thesis using that [OF handled(1)] by blast
qed (use assms(1) that in auto)

text \<open>The execution that a run acted through.\<close>

text \<open>A continuation that only records what the executor returned, and says so.\<close>

definition settles :: "(execution_result \<Rightarrow> decision run) \<Rightarrow> bool" where
  "settles f \<longleftrightarrow> (\<forall>x. keeps idle (f x))
     \<and> (\<forall>x s d s'. f x s = (Inr d, s') \<longrightarrow> (dc_executed d \<longleftrightarrow> success x) \<and> dc_state d = (if success x then ALLOW else DENY))"

lemma settles_settle: "settles (settle_execution E bound codes cap)" "settles (settle_approved E bound codes operator signature cap)"
proof -
  have "keeps idle (settle_execution E bound codes cap x)" "keeps idle (settle_approved E bound codes operator signature cap x)" for x
    unfolding settle_execution_def settle_approved_def Let_def by (intro keeps_intro preorder_idle)+
  then show "settles (settle_execution E bound codes cap)" "settles (settle_approved E bound codes operator signature cap)"
    by (auto simp: settles_def settle_execution_def settle_approved_def sbind_ok decided_ok Let_def split: if_splits)
qed

text \<open>The executor always returns, and what follows it does not touch the tree.\<close>

lemma acted_execution:
  assumes "acted s r s'" and "sbind (on_kernel (execute E X env bound)) f s = (r, s')" and "settles f"
  obtains x w' where "execute E X env bound (kernel s) = (Inr x, w')" "fs_root (files w') = tree s'"
    "success x \<or> fs_root (files w') \<noteq> tree s"
    "\<forall>d. r = Inr d \<longrightarrow> (dc_executed d \<longleftrightarrow> success x) \<and> (dc_state d = ALLOW \<longleftrightarrow> success x)"
proof -
  obtain r1 w' where run: "execute E X env bound (kernel s) = (r1, w')" by fastforce
  then obtain x where x: "r1 = Inr x" by (cases rule: execute_cases) auto
  have f: "f x (s\<lparr>kernel := w'\<rparr>) = (r, s')" using assms(2) run x by (simp add: sbind_def on_kernel_def szoom_def)
  have t: "tree s' = fs_root (files w')" using keepsD [of idle "f x", OF _ f] assms(3) by (auto simp: settles_def idle_def tree_def)
  have d: "(dc_executed d \<longleftrightarrow> success x) \<and> (dc_state d = ALLOW \<longleftrightarrow> success x)" if "r = Inr d" for d
    using assms(3) f that unfolding settles_def by (metis decision_state.distinct(1))
  show ?thesis
  proof (rule that)
    show "execute E X env bound (kernel s) = (Inr x, w')" using run x by simp
    show "success x \<or> fs_root (files w') \<noteq> tree s" using assms(1) t d by (cases r) (auto simp: acted_def)
  qed (use t d in auto)
qed

section \<open>Handlers that acted\<close>

text \<open>
  The authority issued an envelope for the request and the executor ran under it, starting from the
  tree the handler found and leaving the tree it left.
\<close>

definition granted ::
    "platform \<Rightarrow> pipeline \<Rightarrow> action_request \<Rightarrow> context_arg \<Rightarrow> runtime \<Rightarrow> decision res \<Rightarrow> runtime \<Rightarrow> bool" where
  "granted E P bound ctx s r s' \<longleftrightarrow> (\<exists>u issued u' env w x w'.
     issue_capability E (authority P) bound PNone ctx u = (Inr issued, u') \<and> envelope issued = Some env
     \<and> execute E (executor P) env bound w = (Inr x, w') \<and> fs_root (files u) = tree s \<and> fs_root (files w) = tree s
     \<and> fs_root (files w') = tree s' \<and> (success x \<or> tree s' \<noteq> tree s)
     \<and> (\<forall>d. r = Inr d \<longrightarrow> (dc_executed d \<or> dc_state d = ALLOW) \<longrightarrow> success x))"

definition issue_attempt :: "platform \<Rightarrow> pipeline \<Rightarrow> action_request \<Rightarrow> context_arg \<Rightarrow> (exn + issue_result) run" where
  "issue_attempt E P bound ctx =
     scatch is_mgk_error (\<lambda>e. sret (Inl e))
       (sbind (on_kernel (issue_capability E (authority P) bound PNone ctx)) (\<lambda>i. sret (Inr i)))"

lemma idle_attempt [keeps_intro]: "keeps idle (issue_attempt E P bound ctx)"
  unfolding issue_attempt_def by (intro keeps_intro preorder_idle)

lemma issue_attempt_ok:
  assumes "issue_attempt E P bound ctx s = (Inr (Inr issued), v)"
  shows "\<exists>u. issue_capability E (authority P) bound PNone ctx (kernel s) = (Inr issued, u)"
  using assms unfolding issue_attempt_def
proof (cases rule: scatch_cases)
  case (ok x)
  then show ?thesis by (auto simp: sbind_ok on_run_ok)
qed auto

text \<open>Every way of continuing from an attempt acts only through the executor.\<close>

lemma acted_attempt:
  assumes "acted s r s'" and "sbind (issue_attempt E P bound ctx) g s = (r, s')"
    and "\<And>e v r v'. g (Inl e) v = (r, v') \<Longrightarrow> \<not> acted v r v'"
    and "\<And>issued v r v'. g (Inr issued) v = (r, v') \<Longrightarrow> acted v r v' \<Longrightarrow>
      \<exists>env f v1. envelope issued = Some env \<and> idle v v1 \<and> sbind (on_kernel (execute E (executor P) env bound)) f v1 = (r, v') \<and> settles f"
  shows "granted E P bound ctx s r s'"
proof -
  obtain y v where y: "issue_attempt E P bound ctx s = (Inr y, v)" "g y v = (r, s')" "acted v r s'" "idle s v"
    by (rule acted_sbind [OF assms(1,2) idle_attempt])
  then obtain issued where i: "y = Inr issued" using assms(3) by (cases y) auto
  with y(2,3) assms(4) obtain env f v1 where env: "envelope issued = Some env" "idle v v1"
    and ex: "sbind (on_kernel (execute E (executor P) env bound)) f v1 = (r, s')" and k: "settles f"
    by blast
  have t: "tree v = tree s" "tree v1 = tree s" using y(4) env(2) by (simp_all add: idle_def)
  have "acted v1 r s'" using y(3) t by (simp add: acted_def)
  from this ex k obtain x w' where x: "execute E (executor P) env bound (kernel v1) = (Inr x, w')"
    "fs_root (files w') = tree s'" "success x \<or> fs_root (files w') \<noteq> tree v1"
    "\<forall>d. r = Inr d \<longrightarrow> (dc_executed d \<longleftrightarrow> success x) \<and> (dc_state d = ALLOW \<longleftrightarrow> success x)"
    by (rule acted_execution)
  obtain u where "issue_capability E (authority P) bound PNone ctx (kernel s) = (Inr issued, u)"
    using issue_attempt_ok y(1) i by blast
  then show ?thesis
    using env(1) x t unfolding granted_def tree_def by (metis (no_types, lifting))
qed

lemma acted_issue:
  assumes "acted s r s'" and "issue_and_execute E B P bound codes s = (r, s')"
  shows "granted E P bound NoContext s r s'"
proof (rule acted_attempt [OF assms(1) assms(2) [unfolded issue_and_execute_def, folded issue_attempt_def]])
  fix e v r v' assume "(case (Inl e :: exn + issue_result) of Inl e \<Rightarrow> deny_issue_failure E B bound codes e
      | Inr issued \<Rightarrow> (case (envelope issued, i_capability_id issued) of
            (Some env, Some cap) \<Rightarrow> run_capability E P bound codes env cap
          | _ \<Rightarrow> refuse E ''DECISION_DENY'' DENY bound codes)) v = (r, v')"
  then show "\<not> acted v r v'" using not_acted(2) by simp
next
  fix issued v r v' assume run: "(case (Inr issued :: exn + issue_result) of Inl e \<Rightarrow> deny_issue_failure E B bound codes e
      | Inr issued \<Rightarrow> (case (envelope issued, i_capability_id issued) of
            (Some env, Some cap) \<Rightarrow> run_capability E P bound codes env cap
          | _ \<Rightarrow> refuse E ''DECISION_DENY'' DENY bound codes)) v = (r, v')" and a: "acted v r v'"
  have "\<exists>env cap. envelope issued = Some env \<and> i_capability_id issued = Some cap"
    using run a not_acted(1) [of DENY E "''DECISION_DENY''" bound codes v r v'] by (auto split: option.splits)
  then obtain env cap where env: "envelope issued = Some env" "i_capability_id issued = Some cap" by blast
  with run have "run_capability E P bound codes env cap v = (r, v')" by simp
  from acted_sbind [OF a this [unfolded run_capability_def] idle_steps(1)] obtain v1 where
    "sbind (on_kernel (execute E (executor P) env bound)) (settle_execution E bound codes cap) v1 = (r, v')" "idle v v1"
    by metis
  with env settles_settle(1) show "\<exists>env f v1. envelope issued = Some env \<and> idle v v1
        \<and> sbind (on_kernel (execute E (executor P) env bound)) f v1 = (r, v') \<and> settles f"
    by blast
qed

lemma acted_issue_human:
  assumes "acted s r s'" and "issue_and_execute_human E B P bound codes operator signature context s = (r, s')"
  shows "granted E P bound (Context context) s r s'"
proof (rule acted_attempt [OF assms(1) assms(2) [unfolded issue_and_execute_human_def, folded issue_attempt_def]])
  fix e v r v' assume run: "(case (Inl e :: exn + issue_result) of Inl e \<Rightarrow>
         let rid = request_id bound; all_codes = codes @ [error_code (exn_kind_of e)] in
         sbind (flight E ''HUMAN_DECISION_DENY''
           [(''request_id'', rid), (''reason_codes'', codes_value all_codes), (''reason'', PStr (str_exn B e))]) (\<lambda>fh.
         sbind (store E (text_of rid) DENY all_codes PNone False PNone fh) (\<lambda>_.
         sbind (decided E DENY bound all_codes (Some fh)) (\<lambda>d. sret (by_human operator ''APPROVE'' signature d))))
      | Inr issued \<Rightarrow> (case (envelope issued, i_capability_id issued) of
            (Some env, Some cap) \<Rightarrow>
              sbind (on_kernel (execute E (executor P) env bound)) (settle_approved E bound codes operator signature cap)
          | _ \<Rightarrow> sbind (decided E DENY bound codes None) (\<lambda>d. sret (by_human operator ''APPROVE'' signature d)))) v = (r, v')"
  have "keeps idle (let rid = request_id bound; all_codes = codes @ [error_code (exn_kind_of e)] in
         sbind (flight E ''HUMAN_DECISION_DENY''
           [(''request_id'', rid), (''reason_codes'', codes_value all_codes), (''reason'', PStr (str_exn B e))]) (\<lambda>fh.
         sbind (store E (text_of rid) DENY all_codes PNone False PNone fh) (\<lambda>_.
         sbind (decided E DENY bound all_codes (Some fh)) (\<lambda>d. sret (by_human operator ''APPROVE'' signature d)))))"
    unfolding Let_def by (intro keeps_intro preorder_idle)
  from keepsD [OF this run [simplified]] run show "\<not> acted v r v'"
    by (cases r) (auto simp: acted_def idle_def sbind_ok decided_ok Let_def)
next
  fix issued v r v' assume run: "(case (Inr issued :: exn + issue_result) of Inl e \<Rightarrow>
         let rid = request_id bound; all_codes = codes @ [error_code (exn_kind_of e)] in
         sbind (flight E ''HUMAN_DECISION_DENY''
           [(''request_id'', rid), (''reason_codes'', codes_value all_codes), (''reason'', PStr (str_exn B e))]) (\<lambda>fh.
         sbind (store E (text_of rid) DENY all_codes PNone False PNone fh) (\<lambda>_.
         sbind (decided E DENY bound all_codes (Some fh)) (\<lambda>d. sret (by_human operator ''APPROVE'' signature d))))
      | Inr issued \<Rightarrow> (case (envelope issued, i_capability_id issued) of
            (Some env, Some cap) \<Rightarrow>
              sbind (on_kernel (execute E (executor P) env bound)) (settle_approved E bound codes operator signature cap)
          | _ \<Rightarrow> sbind (decided E DENY bound codes None) (\<lambda>d. sret (by_human operator ''APPROVE'' signature d)))) v = (r, v')"
    and a: "acted v r v'"
  have "\<not> acted v r v'" if "sbind (decided E DENY bound codes None) (\<lambda>d. sret (by_human operator ''APPROVE'' signature d)) v = (r, v')"
  proof -
    have "keeps idle (sbind (decided E DENY bound codes None) (\<lambda>d. sret (by_human operator ''APPROVE'' signature d)))"
      by (intro keeps_intro preorder_idle)
    from keepsD [OF this that] that show ?thesis by (cases r) (auto simp: acted_def idle_def sbind_ok decided_ok)
  qed
  with run a have "\<exists>env cap. envelope issued = Some env \<and> i_capability_id issued = Some cap"
    by (auto split: option.splits)
  then obtain env cap where env: "envelope issued = Some env" "i_capability_id issued = Some cap" by blast
  with run have "sbind (on_kernel (execute E (executor P) env bound)) (settle_approved E bound codes operator signature cap) v = (r, v')" by simp
  moreover have "idle v v" by (simp add: idle_def)
  ultimately show "\<exists>env f v1. envelope issued = Some env \<and> idle v v1
        \<and> sbind (on_kernel (execute E (executor P) env bound)) f v1 = (r, v') \<and> settles f"
    using env settles_settle(2) by blast
qed

section \<open>Handlers as a whole\<close>

lemma run_grown_steps [keeps_intro]:
  "keeps run_grown (flight E ev data)" "keeps run_grown (store E rid st codes cap exec outd fh)"
  "keeps run_grown (decided E st bound codes fo)" "keeps run_grown (record_proposal E bound)"
  "keeps run_grown (decision_state_of E rid)" "keeps run_grown (indeterminate E B rid e)" "keeps run_grown (refuse E ev st bound codes)"
  "keeps run_grown (deny_issue_failure E B bound codes e)" "keeps run_grown (human_record E P rid stored choice operator)"
  "keeps run_grown (settle_execution E bound codes cid x)" "keeps run_grown (settle_approved E bound codes operator signature cid x)"
  "keeps run_grown (on_kernel m)" "keeps grown i \<Longrightarrow> keeps run_grown (on_index i)"
  using settles_settle by (auto intro!: idle_grown run_grown_kernel keeps_intro simp: settles_def)

lemma run_grown_issue [keeps_intro]:
  "keeps run_grown (issue_and_execute E B P bound codes)"
  "keeps run_grown (issue_and_execute_human E B P bound codes operator signature context)"
  unfolding issue_and_execute_def issue_and_execute_human_def run_capability_def Let_def
  by (intro keeps_intro preorder_run_grown)+

lemma run_grown_propose: "keeps run_grown (propose E B P request)"
  unfolding propose_def Let_def by (intro keeps_intro preorder_run_grown)

lemma run_grown_gate: "(\<And>stored. keeps run_grown (act stored)) \<Longrightarrow> keeps run_grown (human_gate E B rid act)"
  unfolding human_gate_def gate_transition_denied_def Let_def by (intro keeps_intro preorder_run_grown)

lemma run_grown_human:
  "keeps run_grown (human_approve E B P rid operator)" "keeps run_grown (human_deny E B P rid operator)"
  unfolding human_approve_def human_deny_def Let_def by (intro run_grown_gate keeps_intro preorder_run_grown)+

lemma record_proposal_ok:
  assumes "record_proposal E bound s = (Inr u, s')"
  shows "proposed (abs_index (index s')) (text_of (request_id bound)) \<noteq> None"
proof -
  from assms obtain dg t i i' where
    "store_proposal E (text_of (request_id bound)) (text_of (principal bound)) (text_of (audience bound))
       (text_of (action bound)) (text_of (resource bound)) (parameters bound) dg t i = (Inr u, i')" and s': "index s' = i'"
    by (auto simp: record_proposal_def sbind_ok on_run_ok)
  from this(1) have "table p_request_id (rl_proposals i') (text_of (request_id bound)) \<noteq> None" by (rule store_proposal_ok)
  with s' show ?thesis by (simp add: abs_index_def)
qed

lemma acted_propose:
  assumes acted: "acted s r s'" and run: "propose E B P request s = (r, s')" and ev: "saxp P = default_saxp"
  obtains bound where "request_of B request = Inr bound" "policy_safe (rt_policy P) bound" "granted E P bound NoContext s r s'"
    "proposed (abs_index (index s')) (text_of (request_id bound)) \<noteq> None"
proof -
  obtain rid where
    1: "(case request_of B request of
       Inl e \<Rightarrow> if request_error e then indeterminate E B rid e else sraise e
     | Inr bound \<Rightarrow>
         scatch any_exn (indeterminate E B rid)
           (sbind (record_proposal E bound) (\<lambda>_.
            sbind (slift (context_for (rt_policy P) bound)) (\<lambda>context.
            sbind (slift (evaluate E (saxp P) bound context)) (\<lambda>dec.
            let codes = reason_codes dec in
            if result dec = result_value NON_TEN_XEITO then refuse E ''DECISION_DENY'' DENY bound codes
            else if result dec = result_value REQUIRE_XEITO then refuse E ''DECISION_REQUIRE_HUMAN'' REQUIRE_HUMAN bound codes
            else issue_and_execute E B P bound codes))))) s = (r, s')"
    by (rule acted_slift [OF acted run [unfolded propose_def]])
  show ?thesis
  proof (cases "request_of B request")
    case (Inl e)
    with 1 have "indeterminate E B rid e s = (r, s') \<or> r = Inl e \<and> s' = s" by (auto split: if_splits)
    with acted not_acted(3) show ?thesis by (auto simp: acted_def)
  next
    case (Inr bound)
    note 2 = 1 [unfolded Inr sum.case]
    obtain r1 v where m: "sbind (record_proposal E bound) (\<lambda>_.
            sbind (slift (context_for (rt_policy P) bound)) (\<lambda>context.
            sbind (slift (evaluate E (saxp P) bound context)) (\<lambda>dec.
            let codes = reason_codes dec in
            if result dec = result_value NON_TEN_XEITO then refuse E ''DECISION_DENY'' DENY bound codes
            else if result dec = result_value REQUIRE_XEITO then refuse E ''DECISION_REQUIRE_HUMAN'' REQUIRE_HUMAN bound codes
            else issue_and_execute E B P bound codes))) s = (r1, v)"
      and a: "acted s r1 v" and v: "tree v = tree s'" and r1: "\<forall>d. r = Inr d \<longrightarrow> dc_executed d \<or> dc_state d = ALLOW \<longrightarrow> r1 = r"
      by (rule acted_guarded [OF acted 2])
    have grow: "run_grown v s'"
    proof -
      from 2 have "(\<exists>e. r1 = Inl e \<and> indeterminate E B rid e v = (r, s')) \<or> v = s'"
        using m by (auto simp: scatch_def split: sum.splits)
      then show ?thesis using keepsD [OF run_grown_steps(6)] by (auto simp: run_grown_def)
    qed
    obtain u v1 where rp: "record_proposal E bound s = (Inr u, v1)" and a1: "acted v1 r1 v" and i1: "idle s v1"
      and m1: "sbind (slift (context_for (rt_policy P) bound)) (\<lambda>context.
            sbind (slift (evaluate E (saxp P) bound context)) (\<lambda>dec.
            let codes = reason_codes dec in
            if result dec = result_value NON_TEN_XEITO then refuse E ''DECISION_DENY'' DENY bound codes
            else if result dec = result_value REQUIRE_XEITO then refuse E ''DECISION_REQUIRE_HUMAN'' REQUIRE_HUMAN bound codes
            else issue_and_execute E B P bound codes)) v1 = (r1, v)"
      by (rule acted_sbind [OF a m idle_steps(2)])
    obtain cx where c: "context_for (rt_policy P) bound = Inr cx"
      and m2: "sbind (slift (evaluate E (saxp P) bound cx)) (\<lambda>dec.
            let codes = reason_codes dec in
            if result dec = result_value NON_TEN_XEITO then refuse E ''DECISION_DENY'' DENY bound codes
            else if result dec = result_value REQUIRE_XEITO then refuse E ''DECISION_REQUIRE_HUMAN'' REQUIRE_HUMAN bound codes
            else issue_and_execute E B P bound codes) v1 = (r1, v)"
      by (rule acted_slift [OF a1 m1])
    obtain dec where d: "evaluate E (saxp P) bound cx = Inr dec"
      and m3: "(let codes = reason_codes dec in
            if result dec = result_value NON_TEN_XEITO then refuse E ''DECISION_DENY'' DENY bound codes
            else if result dec = result_value REQUIRE_XEITO then refuse E ''DECISION_REQUIRE_HUMAN'' REQUIRE_HUMAN bound codes
            else issue_and_execute E B P bound codes) v1 = (r1, v)"
      by (rule acted_slift [OF a1 m2])
    have n: "result dec \<noteq> result_value NON_TEN_XEITO" "result dec \<noteq> result_value REQUIRE_XEITO"
      and m4: "issue_and_execute E B P bound (reason_codes dec) v1 = (r1, v)"
      using m3 a1 not_acted(1) [of DENY] not_acted(1) [of REQUIRE_HUMAN] by (auto simp: Let_def split: if_splits)
    have "result dec = result_value (fst (verdict (minimum_sentidino (saxp P)) cx))" using d by (auto simp: evaluate_ok)
    with n have "result dec = ''TEN_XEITO''" by (cases "fst (verdict (minimum_sentidino (saxp P)) cx)") auto
    with policy_gate [OF c d] ev have safe: "policy_safe (rt_policy P) bound" by (simp add: default_saxp_def)
    have "granted E P bound NoContext v1 r1 v" by (rule acted_issue [OF a1 m4])
    moreover have "tree v1 = tree s" using i1 by (simp add: idle_def)
    ultimately have "granted E P bound NoContext s r s'" using v r1 unfolding granted_def by (metis (no_types, lifting))
    moreover have "proposed (abs_index (index s')) (text_of (request_id bound)) \<noteq> None"
    proof -
      have "run_grown v1 v" using keepsD [OF run_grown_issue(1) m4] .
      with grow have "proposed (abs_index (index v1)) \<subseteq>\<^sub>m proposed (abs_index (index s'))"
        by (auto simp: run_grown_def grown_def intro: map_le_trans)
      with record_proposal_ok [OF rp] show ?thesis by (auto simp: map_le_def dom_def)
    qed
    ultimately show ?thesis using that [OF Inr safe] by blast
  qed
qed

section \<open>The human gate\<close>

lemma res_list_ok: "res_list f xs = Inr ys \<Longrightarrow> y \<in> set ys \<Longrightarrow> \<exists>x \<in> set xs. f x = Inr y"
  by (induction xs arbitrary: ys) (auto simp: rbind_eq_Inr_iff rmap_eq_Inr_iff)

lemma decision_state_of_ok:
  assumes "decision_state_of E rid s = (Inr (PStr st), s')"
  shows "\<exists>drow \<in> set (rl_decisions (index s)). d_request_id drow = rid \<and> d_state drow = st"
proof -
  from assms obtain rows i row where ds: "decisions E (index s) = (Inr rows, i)"
    and f: "find (\<lambda>row. dval row ''request_id'' = PStr rid) rows = Some row" "dval row ''state'' = PStr st"
    by (auto simp: decision_state_of_def sbind_ok on_run_ok split: option.splits)
  from ds obtain rs i' where tx: "rl_translate ''cannot read decisions'' (transaction (sget rl_decisions)) (index s) = (Inr rs, i')"
    and rl: "res_list (decision_dict E) (sort_key (\<lambda>r. - d_created_at r) rs) = Inr rows"
    by (auto simp: decisions_def sbind_ok)
  from transaction_ok(2) [OF tx] have rs: "rs = rl_decisions (index s)" by simp
  from f have "row \<in> set rows" "dval row ''request_id'' = PStr rid" by (auto simp: find_Some_iff)
  with res_list_ok [OF rl] rs obtain drow where d: "drow \<in> set (rl_decisions (index s))" "decision_dict E drow = Inr row" by auto
  from d(2) f(2) \<open>dval row ''request_id'' = PStr rid\<close> have "d_request_id drow = rid \<and> d_state drow = st"
    by (auto simp: decision_dict_def rbind_eq_Inr_iff)
  with d(1) show ?thesis by blast
qed

lemma gate_transition_denied_result:
  assumes "gate_transition_denied E B rid stored current s = (r, s')"
  shows "\<not> acted s r s'"
proof -
  have "keeps idle (gate_transition_denied E B rid stored current)"
    unfolding gate_transition_denied_def Let_def by (intro keeps_intro preorder_idle)
  from keepsD [OF this assms] have "tree s' = tree s" by (simp add: idle_def)
  with assms show ?thesis
    by (cases r) (auto simp: acted_def gate_transition_denied_def sbind_ok decided_ok Let_def split: sum.splits if_splits)
qed

text \<open>What the gate has checked when it lets a human act.\<close>

definition awaiting :: "platform \<Rightarrow> builtins \<Rightarrow> ustr \<Rightarrow> runtime \<Rightarrow> pydict \<Rightarrow> bool" where
  "awaiting E B rid s stored \<longleftrightarrow> (\<exists>row. proposed (abs_index (index s)) rid = Some row \<and> proposal_dict E row = Inr stored)
     \<and> (\<exists>drow \<in> set (rl_decisions (index s)). d_request_id drow = rid \<and> d_state drow = U ''REQUIRE_HUMAN'')"

lemma human_gate_cases:
  assumes "human_gate E B rid act s = (r, s')"
  obtains (closed) "\<not> acted s r s'" "tree s' = tree s" "\<forall>d. r = Inr d \<longrightarrow> dc_human_decision d = None"
    | (opened) stored v where "act stored v = (r, s')" "awaiting E B rid s stored" "kernel v = kernel s" "same_tables (index s) (index v)"
        "\<exists>u. on_index (proposal E rid) s = (Inr (Some stored), u)
           \<and> decision_state_of E rid u = (Inr (pstr (state_value REQUIRE_HUMAN)), v)"
proof -
  have noact: ?thesis if "r = Inl e" "idle s s'" for e
    using that closed by (simp add: acted_def idle_def)
  from assms show ?thesis
    unfolding human_gate_def
  proof (cases rule: sbind_cases)
    case (err e)
    have "keeps idle (on_index (proposal E rid))" by (intro keeps_intro)
    from keepsD [OF this err(1)] err(2) noact show ?thesis by blast
  next
    case (ok found v)
    then obtain i where i: "proposal E rid (index s) = (Inr found, i)" "v = s\<lparr>index := i\<rparr>" by (auto simp: on_run_ok)
    have st: "same_tables (index s) i" using keepsD [OF same_tables_reads(1) i(1)] .
    show ?thesis
    proof (cases found)
      case None
      with ok(2) i show ?thesis by (intro closed) (auto simp: acted_def tree_def Decision_of_def)
    next
      case (Some stored)
      from proposal_ok [OF i(1)] Some obtain row where row: "proposed (abs_index (index s)) rid = Some row" "proposal_dict E row = Inr stored"
        by auto
      have t: "tree v = tree s" using i by (simp add: tree_def)
      from ok(2) Some have "sbind (decision_state_of E rid) (\<lambda>current.
         if current \<noteq> pstr (state_value REQUIRE_HUMAN) then gate_transition_denied E B rid stored current else act stored) v = (r, s')"
        by simp
      then show ?thesis
      proof (cases rule: sbind_cases)
        case (err e)
        from keepsD [OF idle_steps(6) err(1)] err(2) t closed show ?thesis by (simp add: acted_def idle_def)
      next
        case (ok current v2)
        then obtain rows i2 where i2: "decisions E (index v) = (Inr rows, i2)" "v2 = v\<lparr>index := i2\<rparr>"
          by (auto simp: decision_state_of_def sbind_ok on_run_ok)
        have st2: "same_tables (index v) i2" using keepsD [OF same_tables_reads(2) i2(1)] .
        show ?thesis
        proof (cases "current = pstr (state_value REQUIRE_HUMAN)")
          case True
          with decision_state_of_ok ok(1) i have "\<exists>drow \<in> set (rl_decisions i). d_request_id drow = rid \<and> d_state drow = U ''REQUIRE_HUMAN''"
            by (metis pstr_def runtime.select_convs(3) runtime.surjective runtime.update_convs(3) state_value.simps(3))
          moreover have "rl_decisions i = rl_decisions (index s)" using st by (simp add: same_tables_def)
          ultimately have "awaiting E B rid s stored" using row by (simp add: awaiting_def)
          moreover have "same_tables (index s) (index v2)" using st st2 i i2 by (simp add: same_tables_def)
          moreover have "act stored v2 = (r, s')" using True ok(2) by simp
          moreover have "on_index (proposal E rid) s = (Inr (Some stored), v)" using i Some by (simp add: on_run_ok)
          moreover have "decision_state_of E rid v = (Inr (pstr (state_value REQUIRE_HUMAN)), v2)" using ok(1) True by simp
          ultimately show ?thesis using opened i i2 by simp
        next
          case False
          with ok(2) have g: "gate_transition_denied E B rid stored current v2 = (r, s')" by simp
          have t2: "tree v2 = tree s" using i i2 by (simp add: tree_def)
          have "keeps idle (gate_transition_denied E B rid stored current)"
            unfolding gate_transition_denied_def Let_def by (intro keeps_intro preorder_idle)
          from keepsD [OF this g] t2 have "tree s' = tree s" by (simp add: idle_def)
          moreover have "\<not> acted s r s'" using gate_transition_denied_result [OF g] t2 by (simp add: acted_def)
          moreover have "\<forall>d. r = Inr d \<longrightarrow> dc_human_decision d = None"
            using g by (auto simp: gate_transition_denied_def sbind_ok decided_ok Decision_of_def Let_def split: sum.splits if_splits)
          ultimately show ?thesis using closed by blast
        qed
      qed
    qed
  qed
qed

text \<open>The recorded human action.\<close>

definition human_recorded :: "platform \<Rightarrow> pipeline \<Rightarrow> ustr \<Rightarrow> pydict \<Rightarrow> string \<Rightarrow> pyval \<Rightarrow> runtime_ledger \<Rightarrow> runtime_ledger \<Rightarrow> bool" where
  "human_recorded E P rid stored choice operator i i' \<longleftrightarrow> acted_on (abs_index i) (U ''human-'' @ rid) = None
     \<and> (\<exists>row. acted_on (abs_index i') (U ''human-'' @ rid) = Some row \<and> h_request_id row = rid \<and> h_decision row = U choice
          \<and> text_param operator = Inr (h_operator row)
          \<and> (case operator_key P of None \<Rightarrow> h_signature row = []
             | Some key \<Rightarrow> \<exists>t document. canonicalize E (PDict (mk_dict
                 [(''request_id'', dval stored ''request_id''), (''request_digest'', dval stored ''request_digest''),
                  (''decision'', pstr choice), (''operator'', operator), (''timestamp'', PInt t)])) = Inr document
                 \<and> h_signature row = sign E key HUMAN_GATE_DOMAIN document))"

lemma human_record_ok:
  assumes "human_record E P rid stored choice operator s = (Inr (signature, fh, now), s')"
  shows "human_recorded E P rid stored choice operator (index s) (index s')"
proof -
  from assms obtain v i' where sg: "sign_human E P stored choice operator s = (Inr signature, v)"
    and st: "store_human_action (U ''human-'' @ rid) rid operator choice signature fh now (index v) = (Inr (), i')"
    and s': "index s' = i'"
    by (auto simp: human_record_def sbind_ok on_run_ok flight_def)
  have v: "index v = index s"
    using sg by (auto simp: sign_human_def sbind_ok on_run_ok split: option.splits)
  have sgn: "case operator_key P of None \<Rightarrow> signature = []
     | Some key \<Rightarrow> \<exists>t document. canonicalize E (PDict (mk_dict
         [(''request_id'', dval stored ''request_id''), (''request_digest'', dval stored ''request_digest''),
          (''decision'', pstr choice), (''operator'', operator), (''timestamp'', PInt t)])) = Inr document
         \<and> signature = sign E key HUMAN_GATE_DOMAIN document"
    using sg by (auto simp: sign_human_def sbind_ok split: option.splits simp del: mk_dict_simps)
  from st obtain op_text where o: "text_param operator = Inr op_text"
    and h: "rl_human i' = rl_human (index v) @ [\<lparr>h_action_id = U ''human-'' @ rid, h_request_id = rid, h_operator = op_text,
        h_decision = U choice, h_signature = signature, h_flight_hash = fh, h_created_at = now\<rparr>]"
    and n: "table h_action_id (rl_human (index v)) (U ''human-'' @ rid) = None"
    by (rule store_human_action_ok)
  let ?row = "\<lparr>h_action_id = U ''human-'' @ rid, h_request_id = rid, h_operator = op_text,
        h_decision = U choice, h_signature = signature, h_flight_hash = fh, h_created_at = now\<rparr>"
  have "table h_action_id (rl_human i') (U ''human-'' @ rid) = Some ?row"
    using table_append [of h_action_id "rl_human (index v)" ?row] n h by simp
  with n v s' o sgn show ?thesis
    unfolding human_recorded_def by (auto simp: abs_index_def simp del: mk_dict_simps split: option.splits)
qed

end
