(* ===== verification/Governance.thy ===== *)
theory Governance
  imports Decision_Facts Execution
begin

text \<open>The properties of the decision pipeline: a proposal is not authority.\<close>

section \<open>Human actions persist\<close>

lemma table_prefix: "prefix (rows :: 'r list) rows' \<Longrightarrow> table key rows \<subseteq>\<^sub>m table key rows'"
proof -
  have "find P (xs @ ys) = (case find P xs of None \<Rightarrow> find P ys | Some x \<Rightarrow> Some x)" for P and xs ys :: "'r list"
    by (induction xs) auto
  moreover assume "prefix rows rows'"
  ultimately show ?thesis by (auto simp: prefix_def map_le_def table_def dom_def)
qed

lemma grown_acted_on: "grown i i' \<Longrightarrow> acted_on (abs_index i) \<subseteq>\<^sub>m acted_on (abs_index i')"
  by (simp add: grown_def abs_index_def table_prefix)

lemma human_recorded_mono:
  assumes "human_recorded E P rid stored choice operator i i'" "same_tables i0 i" "grown i' i2"
  shows "human_recorded E P rid stored choice operator i0 i2"
proof -
  have 1: "acted_on (abs_index i0) = acted_on (abs_index i)" using assms(2) by (simp add: same_tables_abs)
  have 2: "acted_on (abs_index i2) k = Some row" if "acted_on (abs_index i') k = Some row" for k row
    using grown_acted_on [OF assms(3)] that by (force simp: map_le_def dom_def)
  show ?thesis
    using assms(1) unfolding human_recorded_def 1
    by (elim conjE exE) (intro conjI exI, assumption, rule 2, assumption+)
qed

section \<open>Approval and denial\<close>

lemma acted_approve:
  assumes acted: "acted s r s'" and run: "human_approve E B P rid operator s = (r, s')"
  obtains stored bound where "awaiting E B rid s stored" "request_of B stored = Inr bound"
    "human_recorded E P rid stored ''APPROVE'' operator (index s) (index s')" "granted E P bound (Context SAFE_CONTEXT) s r s'"
  using run unfolding human_approve_def
proof (cases rule: human_gate_cases)
  case closed
  with acted show ?thesis by blast
next
  case (opened stored v)
  have t: "tree v = tree s" using opened(3) by (simp add: tree_def)
  have a: "acted v r s'" using acted t by (simp add: acted_def)
  obtain bound where b: "request_of B stored = Inr bound" and
    m1: "sbind (human_record E P rid stored ''APPROVE'' operator) (\<lambda>(signature, _, _).
     let resolved = resolved_context (rt_policy P) in
     sbind (slift (evaluate E (saxp P) bound resolved)) (\<lambda>dec.
     issue_and_execute_human E B P bound (reason_codes dec) operator signature resolved)) v = (r, s')"
    by (rule acted_slift [OF a opened(1)])
  obtain y u where hr: "human_record E P rid stored ''APPROVE'' operator v = (Inr y, u)" and a1: "acted u r s'" and i: "idle v u"
    and m2: "(\<lambda>(signature, _, _).
     let resolved = resolved_context (rt_policy P) in
     sbind (slift (evaluate E (saxp P) bound resolved)) (\<lambda>dec.
     issue_and_execute_human E B P bound (reason_codes dec) operator signature resolved)) y u = (r, s')"
    by (rule acted_sbind [OF a m1 idle_more(4)])
  obtain signature fh now where y: "y = (signature, fh, now)" by (cases y)
  from m2 y have m3: "sbind (slift (evaluate E (saxp P) bound SAFE_CONTEXT)) (\<lambda>dec.
     issue_and_execute_human E B P bound (reason_codes dec) operator signature SAFE_CONTEXT) u = (r, s')"
    by (simp add: resolved_context_def)
  obtain dec where "evaluate E (saxp P) bound SAFE_CONTEXT = Inr dec" and m4: "issue_and_execute_human E B P bound (reason_codes dec) operator signature SAFE_CONTEXT u = (r, s')"
    by (rule acted_slift [OF a1 m3])
  have g: "granted E P bound (Context SAFE_CONTEXT) u r s'" by (rule acted_issue_human [OF a1 m4])
  have "tree u = tree s" using i t by (simp add: idle_def)
  with g have g': "granted E P bound (Context SAFE_CONTEXT) s r s'" by (simp add: granted_def)
  have "grown (index u) (index s')" using keepsD [OF run_grown_issue(2) m4] by (simp add: run_grown_def)
  with human_record_ok [OF hr [unfolded y]] opened(4)
  have "human_recorded E P rid stored ''APPROVE'' operator (index s) (index s')" by (rule human_recorded_mono)
  with that opened(2) b g' show ?thesis by blast
qed

lemma deny_cases:
  assumes run: "human_deny E B P rid operator s = (r, s')"
  shows "tree s' = tree s \<and> \<not> acted s r s' \<and> (\<forall>d. r = Inr d \<longrightarrow> dc_human_decision d \<noteq> None \<longrightarrow>
    (\<exists>stored row. awaiting E B rid s stored \<and> human_recorded E P rid stored ''DENY'' operator (index s) (index s')
      \<and> settled (abs_index (index s')) rid = Some row \<and> d_state row = U ''DENY'' \<and> \<not> d_executed row))"
  using run unfolding human_deny_def
proof (cases rule: human_gate_cases)
  case closed
  then show ?thesis by simp
next
  case (opened stored v)
  let ?codes = "[''HUMAN_DENIED'']"
  let ?tail = "\<lambda>bound. \<lambda>(signature, fh, now). let codes = ?codes in
     sbind (on_index (store_decision E rid rid (U (state_value DENY)) codes PNone False PNone fh now)) (\<lambda>_.
     sbind (decided E DENY bound codes (Some fh)) (\<lambda>d. sret (by_human operator ''DENY'' signature d)))"
  have t: "tree v = tree s" using opened(3) by (simp add: tree_def)
  have "keeps idle (sbind (slift (request_of B stored)) (\<lambda>bound. sbind (human_record E P rid stored ''DENY'' operator) (?tail bound)))"
    unfolding Let_def by (intro keeps_intro preorder_idle)
  from keepsD [OF this opened(1)] t have tree: "tree s' = tree s" by (simp add: idle_def)
  have res: "dc_state d = DENY \<and> \<not> dc_executed d
      \<and> (\<exists>row. human_recorded E P rid stored ''DENY'' operator (index s) (index s')
        \<and> settled (abs_index (index s')) rid = Some row \<and> d_state row = U ''DENY'' \<and> \<not> d_executed row)" if r: "r = Inr d" for d
  proof -
    from opened(1) r obtain bound signature fh now u i where hr: "human_record E P rid stored ''DENY'' operator v = (Inr (signature, fh, now), u)"
      and st: "store_decision E rid rid (U ''DENY'') ?codes PNone False PNone fh now (index u) = (Inr (), i)"
      and s': "index s' = i" and d: "dc_state d = DENY" "\<not> dc_executed d"
      by (auto simp: sbind_ok on_run_ok decided_ok Let_def)
    from st obtain encoded where enc: "abs_index i = spec_decide \<lparr>d_decision_id = rid, d_request_id = rid, d_state = U ''DENY'', d_reason_codes = encoded,
        d_capability_id = PNone, d_executed = False, d_output_digest = PNone, d_flight_hash = fh, d_created_at = now\<rparr> (abs_index (index u))"
      by (rule store_decision_ok)
    have "grown (index u) (index s')" using keepsD [OF grown_writes(2) st] s' by simp
    with human_record_ok [OF hr] opened(4)
    have "human_recorded E P rid stored ''DENY'' operator (index s) (index s')" by (rule human_recorded_mono)
    with enc s' d show ?thesis by (simp add: spec_decide_def)
  qed
  with tree opened(2) show ?thesis by (auto simp: acted_def split: sum.split)
qed

section \<open>A sample runtime\<close>

definition demo_pipeline :: "runtime_policy \<Rightarrow> pipeline" where
  "demo_pipeline p = pipeline_init (demo_authority\<lparr>context_provider := (\<lambda>r. rmap Context (context_for p r))\<rparr>) demo_executor p None"

definition demo_builtins :: builtins where
  "demo_builtins = \<lparr>str_other = (\<lambda>_. Inr []), str_exn = (\<lambda>e. U (exn_msg e)), dict_other = (\<lambda>_. Inl (Exn TypeError ''object''))\<rparr>"

definition demo_proposal :: pydict where
  "demo_proposal = mk_dict [(''request_id'', pstr ''r1''), (''principal'', pstr ''planner''), (''audience'', pstr ''executor''),
     (''action'', pstr ''resource.read''), (''resource'', pstr ''workspace/f''), (''parameters'', PDict [])]"

lemma demo_request_of: "request_of demo_builtins demo_proposal = Inr demo_request"
  by (simp add: request_of_def demo_proposal_def demo_request_def field_def py_str_def dict_of_def pstr_def)

lemma demo_safe_context: "context_for default_runtime_policy demo_request = Inr SAFE_CONTEXT"
  by (simp add: context_for_def default_runtime_policy_def demo_request_def in_set_def under_prefix_def hashable_def
      py_eq_str_def pstr_def SANDBOX_ACTIONS_def U_def)

lemma demo_passes_safe: "demo_passes SAFE_CONTEXT"
proof -
  have "context_typed SAFE_CONTEXT" by (simp add: context_typed_def SAFE_CONTEXT_def) blast
  moreover have "verdict 5000 SAFE_CONTEXT = (TEN_XEITO, [''COHERENCE_GATE_SATISFIED''])"
    by (simp add: verdict_def SAFE_CONTEXT_def)
  moreover have "\<exists>b. canonicalize demo_platform (context_payload SAFE_CONTEXT) = Inr b"
    by (simp add: context_payload_def SAFE_CONTEXT_def demo_platform_def eval_simps)
  ultimately show ?thesis by (simp add: demo_passes_def)
qed

text \<open>An event on a flight recorder that verifies.\<close>

lemma demo_flight_step:
  assumes v: "flight_verify demo_platform F = Inr (n, head)" and f: "lg_faults F = []" and log: "log_file F \<noteq> None"
    and n: "0 \<le> n" "n < 1000" "hex_match 64 head"
    and d: "wf_keys (PDict (mk_dict d))" "vok 1 (PDict (mk_dict d))" "nodes (PDict (mk_dict d)) \<le> 1000"
      "scalars (PDict (mk_dict d))" "jbound (PDict (mk_dict d)) \<le> 10000"
    and ev: "ev \<noteq> []" "length ev \<le> 100" and s: "flight_log s = F" "clk (kernel s) = (\<lambda>_. 100)"
  shows "\<exists>h F'. flight demo_platform ev d s = (Inr h, s\<lparr>kernel := (kernel s)\<lparr>ticks := ticks (kernel s) + 1\<rparr>, flight_log := F'\<rparr>)
    \<and> flight_verify demo_platform F' = Inr (n + 1, h) \<and> lg_faults F' = [] \<and> log_file F' \<noteq> None \<and> hex_match 64 h"
proof -
  have o: "opened F = F" using log f by (cases F) (auto simp: opened_def log_content_def)
  let ?body = "record_body (PDict (mk_dict d)) (U ev) head (n + 1) 100"
  have hx: "list_all is_scalar h" "str_valid h" "length h = 64" if "hex_match 64 h" for h using demo_hex [OF that] by simp_all
  have m: "n < MAX_INTEGER" "100 \<le> MAX_INTEGER" using n by (simp_all add: MAX_INTEGER_def)
  note facts = d ev hx [OF n(3)] n m scalars_U
  obtain encoded where e: "canonicalize demo_platform (PDict (mk_dict ?body)) = Inr encoded"
    using canonicalize_demo [of "PDict (mk_dict ?body)"] facts by (force simp: record_body_def demo_doc_simps)
  let ?h = "sha256_hex demo_platform encoded"
  have h: "hex_match 64 ?h" by (rule sha256_hex_match [OF platform_ok_demo])
  have "\<exists>line. canonicalize demo_platform (PDict (mk_dict (?body @ [(''event_hash'', PStr ?h)]))) = Inr line"
    by (rule canonicalize_demo) (use facts hx [OF h] in \<open>simp_all add: record_body_def demo_doc_simps\<close>)
  then obtain line where line: "canonicalize demo_platform (PDict (mk_dict (?body @ [(''event_hash'', PStr ?h)]))) = Inr line" by blast
  have nx: "flight_next demo_platform (U ev) (PDict (mk_dict d)) 100 F = Inr (n, head, ?h, line)"
    using v o e line by (simp add: flight_next_def Let_def)
  obtain document where doc: "flight_checkpoint demo_platform (n + 1) ?h = Inr document"
    using flight_checkpoint_demo [OF _ _ h, of "n + 1"] n m by auto
  have k: "U ev \<noteq> []" "(0 :: int) \<le> 100" using ev by simp_all
  obtain F' where F': "flight_append_event demo_platform (U ev) (PDict (mk_dict d)) 100 F = (Inr ?h, F')"
    "lg_faults F' = []" "log_file F' \<noteq> None"
    by (simp add: flight_append_event_eq Let_def nx fault_of_def f doc) (simp add: opened_def f)
  have "flight_verify demo_platform F' = Inr (n + 1, ?h)"
    using flight_append_history [OF platform_ok_demo k F'(1)] nx by auto
  moreover have "flight_append demo_platform (pstr ev) (PDict (mk_dict d)) (PInt 100) F = (Inr ?h, F')"
    using F'(1) k by (simp add: flight_append_def pstr_def)
  ultimately show ?thesis using F' h s
    by (intro exI [of _ ?h] exI [of _ F']) (simp add: flight_def sbind_def on_kernel_def on_flight_def szoom_def clock_now_def)
qed

lemma demo_issue_eq:
  "context_for p request = Inr c \<Longrightarrow> issue_capability E (authority (demo_pipeline p)) request t NoContext w
     = issue_capability E demo_authority request t (Context c) w"
  "issue_capability E (authority (demo_pipeline p)) request t (Context c) w = issue_capability E demo_authority request t (Context c) w"
  by (simp_all add: issue_capability_def demo_pipeline_def pipeline_init_def cong: if_cong)

definition demo_at :: "bytes \<Rightarrow> bytes \<Rightarrow> nat \<Rightarrow> nat \<Rightarrow> world" where
  "demo_at e env n m = (demo_world e (demo_ledger_at env) (demo_ledger_at env))\<lparr>ticks := n, draws := m\<rparr>"

lemma demo_grant:
  assumes c: "demo_passes c"
    and e: "\<forall>La Lf. current_epoch demo_platform (ed_public demo_platform ''k'') (sec (demo_world e La Lf)) = (Inr 1, sec (demo_world e La Lf))"
    and env: "verify_ledger demo_platform (ed_public demo_platform ''a'') (demo_ledger_at env) = Inr (0, GENESIS_HASH)"
  shows "\<exists>r raw cap. issue_capability demo_platform demo_authority demo_request PNone (Context c) (demo_at e env n 0) = (Inr r, demo_at e env (n + 1) 1)
    \<and> envelope r = Some raw \<and> i_capability_id r = Some cap \<and> hex_match 64 cap
    \<and> (\<forall>m. \<exists>cap' w'. execute demo_platform demo_executor raw demo_request (demo_at e env m 1)
         = (Inr (executed_result (PStr cap') (PStr (sha256_hex demo_platform ''hi'')) (Some ''hi'')), w')
         \<and> hex_match 64 cap' \<and> clk w' = (\<lambda>_. 100))"
proof -
  let ?w = "demo_at e env n 0"
  have w: "sec ?w = sec (demo_world e (demo_ledger_at env) (demo_ledger_at env))" "files ?w = demo_files" "clk ?w = (\<lambda>_. 100)"
    "length (entropy ?w (draws ?w)) = 16" "ticks ?w = n" "draws ?w = 0"
    by (simp_all add: demo_at_def demo_world_def)
  have ep: "current_epoch demo_platform (ed_public demo_platform ''k'') (sec ?w) = (Inr 1, sec ?w)" using e w by simp
  from demo_issue [OF c ep w(2-4)] obtain r raw cap where
    i: "issue_capability demo_platform demo_authority demo_request PNone (Context c) ?w = (Inr r, ?w\<lparr>ticks := ticks ?w + 1, draws := draws ?w + 1\<rparr>)"
    and r: "envelope r = Some raw" "i_capability_id r = Some cap" "hex_match 64 cap" by blast
  have res: "resource demo_request = PStr (U ''workspace/f'')" by (simp add: demo_request_def pstr_def)
  have ex: "\<exists>cap' w'. execute demo_platform demo_executor raw demo_request (demo_at e env m 1)
         = (Inr (executed_result (PStr cap') (PStr (sha256_hex demo_platform ''hi'')) (Some ''hi'')), w')
         \<and> hex_match 64 cap' \<and> clk w' = (\<lambda>_. 100)" for m
  proof -
    let ?v = "demo_at e env m 1"
    have v: "sound (sec ?v)" "db_faults (sec ?v) = []"
      using ep by (simp_all add: current_epoch_ok demo_at_def demo_world_def demo_state_def)
    have "\<exists>payload cap v' b f. verify_capability demo_platform demo_verifier raw demo_request True ?v = (Inr payload, v')
      \<and> i_capability_id r = Some cap \<and> dval payload ''capability_id'' = PStr cap
      \<and> bind_resource demo_platform demo_request (files ?w) = (Inr b, f) \<and> dval payload ''resource_binding'' = PDict b"
      by (rule issued_accepted [OF platform_ok_demo demo_authority_ok i r(1) res, where ttl = 60])
        (use v in \<open>simp_all add: demo_verifier_def demo_authority_def seen_nonce_def choose_ttl_def default_policy_def demo_at_def
          demo_world_def demo_state_def\<close>)
    then obtain payload v' b f where ver: "verify_capability demo_platform demo_verifier raw demo_request True ?v = (Inr payload, v')"
      "bind_resource demo_platform demo_request (files ?w) = (Inr b, f)" "dval payload ''resource_binding'' = PDict b" by blast
    then have b: "dval payload ''resource_binding'' = PDict (mk_dict [(''path'', pstr ''workspace/f''),
       (''sha256'', PStr (sha256_hex demo_platform ''hi'')), (''size'', PInt 2), (''state'', pstr ''present'')])"
      using w(2) demo_bound by (simp add: bind_resource_ok)
    show ?thesis
      by (rule demo_execute_in(2) [OF ver(1) env _ _ _ _ v b]) (simp_all add: demo_at_def demo_world_def)
  qed
  have "?w\<lparr>ticks := ticks ?w + 1, draws := draws ?w + 1\<rparr> = demo_at e env (n + 1) 1" by (simp add: demo_at_def)
  with i r ex show ?thesis by simp
qed

text \<open>Storing a decision in an index without other decisions on other requests.\<close>

lemma demo_store:
  assumes i: "rl_ok (index s)" "rl_faults (index s) = []" "\<forall>r \<in> set (rl_decisions (index s)). d_request_id r = rid"
    and s: "clk (kernel s) = (\<lambda>_. 100)" "str_valid rid" "str_valid fh"
    and enc: "canonicalize demo_platform (PList (map pstr codes)) = Inr encoded"
  shows "\<exists>i'. store demo_platform rid st codes cap exec outd fh s
      = (Inr (), s\<lparr>kernel := (kernel s)\<lparr>ticks := ticks (kernel s) + 1\<rparr>, index := i'\<rparr>)"
proof -
  let ?row = "\<lparr>d_decision_id = rid, d_request_id = rid, d_state = U (state_value st), d_reason_codes = encoded, d_capability_id = cap,
    d_executed = exec, d_output_digest = outd, d_flight_hash = fh, d_created_at = 100\<rparr>"
  have u: "\<exists>i'. upsert_decision ?row (index s) = (Inr (), i')"
    using i(3) by (auto simp: upsert_decision_def list_ex_iff)
  then obtain i' where i': "upsert_decision ?row (index s) = (Inr (), i')" by blast
  have "store_decision demo_platform rid rid (U (state_value st)) codes cap exec outd fh 100 (index s) = (Inr (), i')"
    unfolding store_decision_def using i(1,2)
    by (rule transaction_succeeds) (simp add: enc bind_values_def s i')
  then show ?thesis using s by (intro exI [of _ i']) (simp add: store_def sbind_def on_kernel_def on_index_def szoom_def clock_now_def)
qed

definition demo_runtime :: "bytes \<Rightarrow> bytes \<Rightarrow> ledger \<Rightarrow> runtime_ledger \<Rightarrow> runtime" where
  "demo_runtime e env F i = \<lparr>kernel = demo_at e env 0 0, flight_log = F, index = i\<rparr>"

lemma demo_codes: "\<exists>b. canonicalize demo_platform (PList (map pstr [''COHERENCE_GATE_SATISFIED''])) = Inr b"
  by (rule canonicalize_demo) (simp_all add: demo_doc_simps)

lemma demo_pieces:
  obtains e env F where
    "\<forall>La Lf. current_epoch demo_platform (ed_public demo_platform ''k'') (sec (demo_world e La Lf)) = (Inr 1, sec (demo_world e La Lf))"
    and "verify_ledger demo_platform (ed_public demo_platform ''a'') (demo_ledger_at env) = Inr (0, GENESIS_HASH)"
    and "flight_verify demo_platform F = Inr (0, GENESIS_HASH)" and "lg_faults F = []" and "log_file F \<noteq> None"
proof -
  obtain e where e: "\<forall>La Lf. current_epoch demo_platform (ed_public demo_platform ''k'') (sec (demo_world e La Lf))
      = (Inr 1, sec (demo_world e La Lf))" by (rule demo_epoch_world)
  obtain env where env: "verify_ledger demo_platform (ed_public demo_platform ''a'') (demo_ledger_at env) = Inr (0, GENESIS_HASH)"
    using empty_ledger [OF platform_ok_demo] unfolding demo_ledger_at_def by metis
  obtain document where doc: "flight_checkpoint demo_platform 0 GENESIS_HASH = Inr document"
    using flight_checkpoint_demo [OF _ _ genesis_hex, of 0] by (auto simp: MAX_INTEGER_def)
  let ?F = "\<lparr>log_file = Some [], checkpoint_file = Some (document @ [NL]), lg_faults = []\<rparr>"
  have "flight_verify demo_platform ?F = Inr (0, GENESIS_HASH)"
    using flight_load_written [OF platform_ok_demo genesis_hex _ doc] by (simp add: flight_verify_ok flight_scan_ok)
  with that [OF e env, of ?F] show ?thesis by simp
qed

text \<open>The steps of a proposal and of an approval on the demonstration runtime.\<close>

definition demo_row :: "bytes \<Rightarrow> ustr \<Rightarrow> proposal_row" where
  "demo_row encoded dg = \<lparr>p_request_id = U ''r1'', p_principal = U ''planner'', p_audience = U ''executor'', p_action = U ''resource.read'',
     p_resource = U ''workspace/f'', p_parameters = encoded, p_digest = dg, p_created_at = 100\<rparr>"

lemma demo_texts:
  "text_of (request_id demo_request) = U ''r1''" "text_of (principal demo_request) = U ''planner''"
  "text_of (audience demo_request) = U ''executor''" "text_of (action demo_request) = U ''resource.read''"
  "text_of (resource demo_request) = U ''workspace/f''" "parameters demo_request = PDict []"
  by (simp_all add: text_of_def demo_request_def pstr_def)

lemma demo_recorded:
  assumes "request_digest demo_platform demo_request = Inr dg" "hex_match 64 dg"
  shows "\<exists>encoded. canonicalize demo_platform (PDict []) = Inr encoded
    \<and> record_proposal demo_platform demo_request (demo_runtime e env F sample_index)
      = (Inr (), \<lparr>kernel = demo_at e env 1 0, flight_log = F, index = sample_index\<lparr>rl_proposals := [demo_row encoded dg]\<rparr>\<rparr>)"
proof -
  obtain encoded where eb: "canonicalize demo_platform (PDict []) = Inr encoded"
    using canonicalize_demo [of "PDict []"] by (auto simp: demo_doc_simps)
  have "bind_values [U ''r1'', U ''planner'', U ''executor'', U ''resource.read'', U ''workspace/f'', dg] 100 = Inr ()"
    using demo_hex [OF assms(2)] by (simp add: bind_values_def)
  then have st: "store_proposal demo_platform (U ''r1'') (U ''planner'') (U ''executor'') (U ''resource.read'') (U ''workspace/f'') (PDict []) dg 100
      sample_index = (Inr (), sample_index\<lparr>rl_proposals := [demo_row encoded dg]\<rparr>)"
    unfolding store_proposal_def eb
    by simp (rule transaction_succeeds; simp add: sample_index_def demo_row_def)
  obtain payload where pl: "request_payload demo_request = Inr payload"
    by (simp add: request_payload_def copy_mapping_def demo_request_def)
  with st eb assms(1) show ?thesis
    by (simp add: record_proposal_def demo_texts sbind_def on_kernel_def on_index_def szoom_def clock_now_def demo_runtime_def demo_at_def
        demo_world_def slift_def)
qed

text \<open>What follows a successful execution, under either handler.\<close>

lemma demo_settle:
  assumes F: "flight_verify demo_platform F = Inr (n, head)" "lg_faults F = []" "log_file F \<noteq> None" "0 \<le> n" "n < 1000" "hex_match 64 head"
    and i: "rl_ok i" "rl_faults i = []" "\<forall>r \<in> set (rl_decisions i). d_request_id r = U ''r1''"
    and w: "clk w = (\<lambda>_. 100)" and cap: "hex_match 64 cap" "hex_match 64 cap'"
    and dg: "request_digest demo_platform demo_request = Inr dg"
    and x: "x = executed_result (PStr cap') (PStr (sha256_hex demo_platform ''hi'')) (Some ''hi'')"
  shows "\<exists>d s'. settle_execution demo_platform demo_request [''COHERENCE_GATE_SATISFIED''] cap x \<lparr>kernel = w, flight_log = F, index = i\<rparr>
      = (Inr d, s') \<and> dc_executed d \<and> dc_state d = ALLOW"
    and "\<exists>d s'. settle_approved demo_platform demo_request [''COHERENCE_GATE_SATISFIED''] operator signature cap x \<lparr>kernel = w, flight_log = F, index = i\<rparr>
      = (Inr d, s') \<and> dc_executed d \<and> dc_state d = ALLOW"
proof -
  let ?E = demo_platform and ?u = "\<lparr>kernel = w, flight_log = F, index = i\<rparr>" and ?codes = "[''COHERENCE_GATE_SATISFIED'']"
  have hx: "list_all is_scalar h" "str_valid h" "length h = 64" if "hex_match 64 h" for h using demo_hex [OF that] by simp_all
  have xs: "success x" "output_digest x = PStr (sha256_hex ?E ''hi'')" by (simp_all add: x executed_result_def)
  obtain payload where pl: "request_payload demo_request = Inr payload"
    by (simp add: request_payload_def copy_mapping_def demo_request_def)
  obtain cb where cb: "canonicalize ?E (PList (map pstr ?codes)) = Inr cb" using demo_codes by blast
  have st: "\<exists>v. store ?E (U ''r1'') ALLOW ?codes (PStr cap) True (output_digest x) h (?u\<lparr>kernel := w\<lparr>ticks := t\<rparr>, flight_log := F'\<rparr>) = (Inr (), v)"
    if "hex_match 64 h" for h t F'
    using demo_store [of "?u\<lparr>kernel := w\<lparr>ticks := t\<rparr>, flight_log := F'\<rparr>" "U ''r1''" h ?codes cb, where st = ALLOW
        and cap = "PStr cap" and exec = True and outd = "output_digest x"] i w hx(2) [OF that] cb by auto
  have fl: "\<exists>h F'. flight ?E ev d ?u = (Inr h, ?u\<lparr>kernel := w\<lparr>ticks := ticks w + 1\<rparr>, flight_log := F'\<rparr>) \<and> hex_match 64 h"
    if "wf_keys (PDict (mk_dict d))" "vok 1 (PDict (mk_dict d))" "nodes (PDict (mk_dict d)) \<le> 1000"
      "scalars (PDict (mk_dict d))" "jbound (PDict (mk_dict d)) \<le> 10000" "ev \<noteq> []" "length ev \<le> 100" for ev d
    using demo_flight_step [OF F that, of ?u] w by auto
  note doc = demo_request_def demo_doc_simps xs(2) hx [OF cap(1)] hx [OF sha256_hex_match [OF platform_ok_demo]] scalars_U
  let ?d1 = "[(''request_id'', request_id demo_request), (''capability_id'', PStr cap), (''output_digest'', output_digest x)]"
  have "\<exists>h F'. flight ?E ''DECISION_ALLOW'' ?d1 ?u = (Inr h, ?u\<lparr>kernel := w\<lparr>ticks := ticks w + 1\<rparr>, flight_log := F'\<rparr>) \<and> hex_match 64 h"
    by (rule fl) (simp_all add: doc)
  then obtain h F' v where f: "flight ?E ''DECISION_ALLOW'' ?d1 ?u = (Inr h, ?u\<lparr>kernel := w\<lparr>ticks := ticks w + 1\<rparr>, flight_log := F'\<rparr>)"
    and s: "store ?E (U ''r1'') ALLOW ?codes (PStr cap) True (output_digest x) h (?u\<lparr>kernel := w\<lparr>ticks := ticks w + 1\<rparr>, flight_log := F'\<rparr>) = (Inr (), v)"
    using st by metis
  then show "\<exists>d s'. settle_execution ?E demo_request ?codes cap x ?u = (Inr d, s') \<and> dc_executed d \<and> dc_state d = ALLOW"
    unfolding settle_execution_def Let_def using xs pl dg
    by (simp add: sbind_def demo_texts decided_def slift_def sret_def)
  let ?d2 = "[(''request_id'', request_id demo_request), (''decision'', pstr ''APPROVE''), (''capability_id'', PStr cap),
      (''executed'', PBool (success x)), (''output_digest'', output_digest x)]"
  have "\<exists>h F'. flight ?E ''HUMAN_EXECUTION'' ?d2 ?u = (Inr h, ?u\<lparr>kernel := w\<lparr>ticks := ticks w + 1\<rparr>, flight_log := F'\<rparr>) \<and> hex_match 64 h"
    by (rule fl) (simp_all add: doc)
  then obtain h F' v where f: "flight ?E ''HUMAN_EXECUTION'' ?d2 ?u = (Inr h, ?u\<lparr>kernel := w\<lparr>ticks := ticks w + 1\<rparr>, flight_log := F'\<rparr>)"
    and s: "store ?E (U ''r1'') ALLOW ?codes (PStr cap) True (output_digest x) h (?u\<lparr>kernel := w\<lparr>ticks := ticks w + 1\<rparr>, flight_log := F'\<rparr>) = (Inr (), v)"
    using st by metis
  then show "\<exists>d s'. settle_approved ?E demo_request ?codes operator signature cap x ?u = (Inr d, s') \<and> dc_executed d \<and> dc_state d = ALLOW"
    unfolding settle_approved_def Let_def using xs pl dg
    by (simp add: sbind_def demo_texts decided_def slift_def sret_def by_human_def)
qed

lemma demo_propose:
  obtains s d s' where "propose demo_platform demo_builtins (demo_pipeline default_runtime_policy) demo_proposal s = (Inr d, s')"
    and "dc_executed d" and "dc_state d = ALLOW"
proof -
  obtain e env F where e: "\<forall>La Lf. current_epoch demo_platform (ed_public demo_platform ''k'') (sec (demo_world e La Lf)) = (Inr 1, sec (demo_world e La Lf))"
    and env: "verify_ledger demo_platform (ed_public demo_platform ''a'') (demo_ledger_at env) = Inr (0, GENESIS_HASH)"
    and F: "flight_verify demo_platform F = Inr (0, GENESIS_HASH)" "lg_faults F = []" "log_file F \<noteq> None"
    by (rule demo_pieces)
  let ?E = demo_platform and ?P = "demo_pipeline default_runtime_policy" and ?codes = "[''COHERENCE_GATE_SATISFIED'']"
  let ?s = "demo_runtime e env F sample_index"
  obtain dec where ev: "evaluate ?E (saxp ?P) demo_request SAFE_CONTEXT = Inr dec"
    and dec: "result dec = ''TEN_XEITO''" "reason_codes dec = ?codes"
    and dg: "request_digest ?E demo_request = Inr (d_request_digest dec)" "hex_match 64 (d_request_digest dec)"
    unfolding demo_pipeline_def pipeline_init_def default_saxp_def pipeline.simps by (rule demo_evaluate [OF demo_passes_safe])
  obtain encoded where rec: "record_proposal ?E demo_request ?s
      = (Inr (), \<lparr>kernel = demo_at e env 1 0, flight_log = F, index = sample_index\<lparr>rl_proposals := [demo_row encoded (d_request_digest dec)]\<rparr>\<rparr>)"
    using demo_recorded [OF dg] by blast
  let ?i = "sample_index\<lparr>rl_proposals := [demo_row encoded (d_request_digest dec)]\<rparr>"
  have i: "rl_ok ?i" "rl_faults ?i = []" "\<forall>r \<in> set (rl_decisions ?i). d_request_id r = U ''r1''" by (simp_all add: sample_index_def)
  obtain r raw cap where r: "issue_capability ?E demo_authority demo_request PNone (Context SAFE_CONTEXT) (demo_at e env 1 0) = (Inr r, demo_at e env 2 1)"
    "envelope r = Some raw" "i_capability_id r = Some cap" and cap: "hex_match 64 cap"
    and ex: "\<forall>m. \<exists>cap' w'. execute ?E demo_executor raw demo_request (demo_at e env m 1)
         = (Inr (executed_result (PStr cap') (PStr (sha256_hex ?E ''hi'')) (Some ''hi'')), w')
         \<and> hex_match 64 cap' \<and> clk w' = (\<lambda>_. 100)"
    using demo_grant [OF demo_passes_safe e env, of 1] unfolding one_add_one by blast
  let ?v = "\<lparr>kernel = demo_at e env 2 1, flight_log = F, index = ?i\<rparr>"
  have iss: "issue_capability ?E (authority ?P) demo_request PNone NoContext (demo_at e env 1 0) = (Inr r, demo_at e env 2 1)"
    using r(1) by (simp add: demo_issue_eq(1) [OF demo_safe_context])
  let ?d = "[(''request_id'', request_id demo_request), (''capability_id'', PStr cap),
        (''action'', action demo_request), (''resource'', resource demo_request)]"
  have "\<exists>h F'. flight ?E ''CAPABILITY_ISSUED'' ?d ?v
      = (Inr h, ?v\<lparr>kernel := (kernel ?v)\<lparr>ticks := ticks (kernel ?v) + 1\<rparr>, flight_log := F'\<rparr>)
    \<and> flight_verify ?E F' = Inr (0 + 1, h) \<and> lg_faults F' = [] \<and> log_file F' \<noteq> None \<and> hex_match 64 h"
    by (rule demo_flight_step [OF F _ _ genesis_hex])
      (use demo_hex [OF cap] scalars_U in \<open>simp_all add: demo_request_def demo_doc_simps demo_at_def demo_world_def\<close>)
  then obtain h F1 where f1: "flight ?E ''CAPABILITY_ISSUED'' ?d ?v = (Inr h, \<lparr>kernel = demo_at e env 3 1, flight_log = F1, index = ?i\<rparr>)"
    and F1: "flight_verify ?E F1 = Inr (1, h)" "lg_faults F1 = []" "log_file F1 \<noteq> None" "hex_match 64 h"
    by (auto simp: demo_at_def)
  obtain cap' w' where x: "execute ?E demo_executor raw demo_request (demo_at e env 3 1)
         = (Inr (executed_result (PStr cap') (PStr (sha256_hex ?E ''hi'')) (Some ''hi'')), w')" "clk w' = (\<lambda>_. 100)" "hex_match 64 cap'"
    using ex by blast
  have "(0 :: int) \<le> 1" "(1 :: int) < 1000" by simp_all
  from demo_settle(1) [OF F1(1-3) this F1(4) i x(2) cap x(3) dg(1) refl] obtain d s' where
    settle: "settle_execution ?E demo_request ?codes cap (executed_result (PStr cap') (PStr (sha256_hex ?E ''hi'')) (Some ''hi''))
      \<lparr>kernel = w', flight_log = F1, index = ?i\<rparr> = (Inr d, s')" and d: "dc_executed d" "dc_state d = ALLOW" by blast
  have run: "run_capability ?E ?P demo_request ?codes raw cap ?v = (Inr d, s')"
    unfolding run_capability_def using f1 x(1) settle
    by (simp add: sbind_def on_kernel_def szoom_def demo_pipeline_def pipeline_init_def)
  have "issue_and_execute ?E demo_builtins ?P demo_request ?codes \<lparr>kernel = demo_at e env 1 0, flight_log = F, index = ?i\<rparr> = (Inr d, s')"
    unfolding issue_and_execute_def using iss r(2,3) run by (simp add: sbind_def scatch_def on_kernel_def szoom_def sret_def)
  with rec ev dec have "propose ?E demo_builtins ?P demo_proposal ?s = (Inr d, s')"
    unfolding propose_def demo_request_of
    by (simp add: demo_proposal_def field_def py_str_def pstr_def sbind_def slift_def scatch_def demo_pipeline_def pipeline_init_def
        demo_safe_context)
  with that d show ?thesis by blast
qed

text \<open>A stored proposal that waits for a human, and its approval.\<close>

definition demo_waiting :: "bytes \<Rightarrow> bytes \<Rightarrow> ustr \<Rightarrow> runtime_ledger" where
  "demo_waiting encoded cb dg = sample_index\<lparr>rl_proposals := [demo_row encoded dg],
     rl_decisions := [\<lparr>d_decision_id = U ''r1'', d_request_id = U ''r1'', d_state = U ''REQUIRE_HUMAN'', d_reason_codes = cb,
       d_capability_id = PNone, d_executed = False, d_output_digest = PNone, d_flight_hash = [], d_created_at = 100\<rparr>]\<rparr>"

lemma demo_gate:
  assumes encoded: "canonicalize demo_platform (PDict []) = Inr encoded"
    and cb: "canonicalize demo_platform (PList (map pstr [''COHERENCE_GATE_SATISFIED''])) = Inr cb"
    and s: "index s = demo_waiting encoded cb dg"
  obtains stored where "request_of demo_builtins stored = Inr demo_request"
    and "\<forall>act. human_gate demo_platform demo_builtins (U ''r1'') act s = act stored s"
proof -
  let ?E = demo_platform and ?i = "demo_waiting encoded cb dg"
  have p: "parse_canonical ?E encoded = Inr (PDict [])"
    using canonical.dec_enc [OF platform_ok_demo encoded] by (simp add: canon_def)
  obtain v where q: "parse_canonical ?E cb = Inr v" using canonical.dec_enc [OF platform_ok_demo cb] by blast
  have i: "rl_ok ?i" "rl_faults ?i = []" by (simp_all add: demo_waiting_def sample_index_def)
  obtain stored where d: "proposal_dict ?E (demo_row encoded dg) = Inr stored" and r: "request_of demo_builtins stored = Inr demo_request"
    by (simp add: proposal_dict_def p demo_row_def request_of_def demo_request_def field_def py_str_def dict_of_def pstr_def)
  have "rl_translate ''cannot read proposal'' (transaction (
       sbind (slift (bind_values [U ''r1''] 0)) (\<lambda>_. sget (\<lambda>s. find (\<lambda>r. p_request_id r = U ''r1'') (rl_proposals s))))) ?i
      = (Inr (Some (demo_row encoded dg)), ?i)"
    by (rule transaction_succeeds [OF i]) (simp add: bind_values_def demo_waiting_def demo_row_def)
  then have 1: "on_index (proposal ?E (U ''r1'')) s = (Inr (Some stored), s)"
    by (simp add: proposal_def sbind_def d on_index_def szoom_def s [symmetric] slift_def)
  have "rl_translate ''cannot read decisions'' (transaction (sget rl_decisions)) ?i = (Inr (rl_decisions ?i), ?i)"
    by (rule transaction_succeeds [OF i]) simp
  then have "\<exists>rows. decisions ?E ?i = (Inr [rows], ?i) \<and> dval rows ''request_id'' = PStr (U ''r1'') \<and> dval rows ''state'' = pstr ''REQUIRE_HUMAN''"
    by (simp add: decisions_def sbind_def demo_waiting_def decision_dict_def q pstr_def)
  then obtain row where row: "decisions ?E ?i = (Inr [row], ?i)" "dval row ''request_id'' = PStr (U ''r1'')" "dval row ''state'' = pstr ''REQUIRE_HUMAN''"
    by blast
  then have 2: "decision_state_of ?E (U ''r1'') s = (Inr (pstr ''REQUIRE_HUMAN''), s)"
    by (simp add: decision_state_of_def sbind_def on_index_def szoom_def s [symmetric])
  have "human_gate ?E demo_builtins (U ''r1'') act s = act stored s" for act
    using 1 2 by (simp add: human_gate_def sbind_def)
  with that r show ?thesis by blast
qed

lemma demo_human_record:
  assumes F: "flight_verify demo_platform F = Inr (0, GENESIS_HASH)" "lg_faults F = []" "log_file F \<noteq> None"
    and i: "rl_ok i" "rl_faults i = []" "rl_human i = []" and s: "s = demo_runtime e env F i" and choice: "choice = ''APPROVE'' \<or> choice = ''DENY''"
  shows "\<exists>h F' row. human_record demo_platform (demo_pipeline p) (U ''r1'') stored choice (pstr ''op'') s
      = (Inr ([], h, 100), \<lparr>kernel = demo_at e env 2 0, flight_log = F', index = i\<lparr>rl_human := [row]\<rparr>\<rparr>)
    \<and> flight_verify demo_platform F' = Inr (1, h) \<and> lg_faults F' = [] \<and> log_file F' \<noteq> None \<and> hex_match 64 h"
proof -
  let ?E = demo_platform and ?v = "\<lparr>kernel = demo_at e env 1 0, flight_log = F, index = i\<rparr>"
  let ?d = "[(''request_id'', PStr (U ''r1'')), (''operator'', pstr ''op''), (''decision'', pstr choice), (''signature'', PStr [])]"
  have sv: "str_valid []" "list_all is_scalar []" by (simp_all add: str_valid_def)
  have "\<exists>h F'. flight ?E ''HUMAN_DECISION'' ?d ?v
      = (Inr h, ?v\<lparr>kernel := (kernel ?v)\<lparr>ticks := ticks (kernel ?v) + 1\<rparr>, flight_log := F'\<rparr>)
    \<and> flight_verify ?E F' = Inr (0 + 1, h) \<and> lg_faults F' = [] \<and> log_file F' \<noteq> None \<and> hex_match 64 h"
    by (rule demo_flight_step [OF F _ _ genesis_hex])
      (use scalars_U sv choice in \<open>auto simp: demo_doc_simps demo_at_def demo_world_def\<close>)
  then obtain h F1 where f1: "flight ?E ''HUMAN_DECISION'' ?d ?v = (Inr h, \<lparr>kernel = demo_at e env 2 0, flight_log = F1, index = i\<rparr>)"
    and F1: "flight_verify ?E F1 = Inr (1, h)" "lg_faults F1 = []" "log_file F1 \<noteq> None" "hex_match 64 h"
    by (auto simp: demo_at_def)
  let ?row = "\<lparr>h_action_id = U ''human-'' @ U ''r1'', h_request_id = U ''r1'', h_operator = U ''op'', h_decision = U choice, h_signature = [],
    h_flight_hash = h, h_created_at = 100\<rparr>"
  have "str_valid (U ''human-'' @ U ''r1'')" using str_valid_U [of "''human-r1''"] by (simp add: U_def)
  then have st: "store_human_action (U ''human-'' @ U ''r1'') (U ''r1'') (pstr ''op'') choice [] h 100 i = (Inr (), i\<lparr>rl_human := [?row]\<rparr>)"
    unfolding store_human_action_def
    by (intro transaction_succeeds [OF i(1,2)]) (use demo_hex [OF F1(4)] sv i(3) in \<open>simp add: bind_values_def text_param_def pstr_def\<close>)
  have "sign_human ?E (demo_pipeline p) stored choice (pstr ''op'') s = (Inr [], s)"
    by (simp add: sign_human_def demo_pipeline_def pipeline_init_def)
  with f1 st s have "human_record ?E (demo_pipeline p) (U ''r1'') stored choice (pstr ''op'') s
      = (Inr ([], h, 100), \<lparr>kernel = demo_at e env 2 0, flight_log = F1, index = i\<lparr>rl_human := [?row]\<rparr>\<rparr>)"
    by (simp add: human_record_def sbind_def on_kernel_def on_index_def szoom_def clock_now_def demo_runtime_def demo_at_def demo_world_def)
  with F1 show ?thesis by blast
qed

lemma demo_approve:
  obtains s d s' where "human_approve demo_platform demo_builtins (demo_pipeline default_runtime_policy) (U ''r1'') (pstr ''op'') s = (Inr d, s')"
    and "dc_executed d" and "dc_state d = ALLOW"
proof -
  obtain e env F where e: "\<forall>La Lf. current_epoch demo_platform (ed_public demo_platform ''k'') (sec (demo_world e La Lf)) = (Inr 1, sec (demo_world e La Lf))"
    and env: "verify_ledger demo_platform (ed_public demo_platform ''a'') (demo_ledger_at env) = Inr (0, GENESIS_HASH)"
    and F: "flight_verify demo_platform F = Inr (0, GENESIS_HASH)" "lg_faults F = []" "log_file F \<noteq> None"
    by (rule demo_pieces)
  let ?E = demo_platform and ?P = "demo_pipeline default_runtime_policy" and ?codes = "[''COHERENCE_GATE_SATISFIED'']"
  obtain dec where ev: "evaluate ?E (saxp ?P) demo_request SAFE_CONTEXT = Inr dec"
    and dec: "reason_codes dec = ?codes" and dg: "request_digest ?E demo_request = Inr (d_request_digest dec)"
    unfolding demo_pipeline_def pipeline_init_def default_saxp_def pipeline.simps by (rule demo_evaluate [OF demo_passes_safe])
  obtain encoded where encoded: "canonicalize ?E (PDict []) = Inr encoded"
    using canonicalize_demo [of "PDict []"] by (auto simp: demo_doc_simps)
  obtain cb where cb: "canonicalize ?E (PList (map pstr ?codes)) = Inr cb" using demo_codes by blast
  let ?i = "demo_waiting encoded cb (d_request_digest dec)"
  let ?s = "demo_runtime e env F ?i"
  have i: "rl_ok ?i" "rl_faults ?i = []" "rl_human ?i = []" by (simp_all add: demo_waiting_def sample_index_def)
  have si: "index ?s = ?i" by (simp add: demo_runtime_def)
  obtain stored where rq: "request_of demo_builtins stored = Inr demo_request"
    and gate: "\<forall>act. human_gate ?E demo_builtins (U ''r1'') act ?s = act stored ?s"
    by (rule demo_gate [OF encoded cb si])
  have a: "''APPROVE'' = ''APPROVE'' \<or> ''APPROVE'' = ''DENY''" by simp
  from demo_human_record [OF F i refl a, where e = e and env = env and p = default_runtime_policy and stored = stored] obtain h F1 row where
    hr: "human_record ?E ?P (U ''r1'') stored ''APPROVE'' (pstr ''op'') ?s
      = (Inr ([], h, 100), \<lparr>kernel = demo_at e env 2 0, flight_log = F1, index = ?i\<lparr>rl_human := [row]\<rparr>\<rparr>)"
    and F1: "flight_verify ?E F1 = Inr (1, h)" "lg_faults F1 = []" "log_file F1 \<noteq> None" "hex_match 64 h" by blast
  obtain r raw cap where r: "issue_capability ?E demo_authority demo_request PNone (Context SAFE_CONTEXT) (demo_at e env 2 0) = (Inr r, demo_at e env (2 + 1) 1)"
    "envelope r = Some raw" "i_capability_id r = Some cap" and cap: "hex_match 64 cap"
    and ex: "\<forall>m. \<exists>cap' w'. execute ?E demo_executor raw demo_request (demo_at e env m 1)
         = (Inr (executed_result (PStr cap') (PStr (sha256_hex ?E ''hi'')) (Some ''hi'')), w')
         \<and> hex_match 64 cap' \<and> clk w' = (\<lambda>_. 100)"
    using demo_grant [OF demo_passes_safe e env, of 2] by blast
  obtain cap' w' where x: "execute ?E demo_executor raw demo_request (demo_at e env (2 + 1) 1)
         = (Inr (executed_result (PStr cap') (PStr (sha256_hex ?E ''hi'')) (Some ''hi'')), w')" "clk w' = (\<lambda>_. 100)" "hex_match 64 cap'"
    using ex by blast
  let ?j = "?i\<lparr>rl_human := [row]\<rparr>"
  have j: "rl_ok ?j" "rl_faults ?j = []" "\<forall>r \<in> set (rl_decisions ?j). d_request_id r = U ''r1''"
    by (simp_all add: demo_waiting_def sample_index_def)
  have "(0 :: int) \<le> 1" "(1 :: int) < 1000" by simp_all
  from demo_settle(2) [OF F1(1-3) this F1(4) j x(2) cap x(3) dg refl] obtain d s' where
    settle: "settle_approved ?E demo_request ?codes (pstr ''op'') [] cap (executed_result (PStr cap') (PStr (sha256_hex ?E ''hi'')) (Some ''hi''))
      \<lparr>kernel = w', flight_log = F1, index = ?j\<rparr> = (Inr d, s')" and d: "dc_executed d" "dc_state d = ALLOW" by blast
  have "issue_and_execute_human ?E demo_builtins ?P demo_request ?codes (pstr ''op'') [] SAFE_CONTEXT
      \<lparr>kernel = demo_at e env 2 0, flight_log = F1, index = ?j\<rparr> = (Inr d, s')"
    unfolding issue_and_execute_human_def sbind_def scatch_def on_kernel_def szoom_def
    using r settle x(1) by (simp add: demo_issue_eq(2) sret_def demo_pipeline_def [THEN arg_cong [where f = executor]] pipeline_init_def)
  with hr ev dec have "human_approve ?E demo_builtins ?P (U ''r1'') (pstr ''op'') ?s = (Inr d, s')"
    unfolding human_approve_def gate [rule_format] by (simp add: rq sbind_def slift_def resolved_context_def)
  with that d show ?thesis by blast
qed

section \<open>Decisions and their rows\<close>

text \<open>The row that the ledger holds is the decision that was returned.\<close>

definition agrees :: "platform \<Rightarrow> decision \<Rightarrow> decision_row \<Rightarrow> bool" where
  "agrees E d row \<longleftrightarrow> d_state row = U (state_value (dc_state d)) \<and> canonicalize E (codes_value (dc_codes d)) = Inr (d_reason_codes row)
     \<and> d_capability_id row = opt_str (dc_capability_id d) \<and> d_executed row = dc_executed d
     \<and> d_output_digest row = dc_output_digest d \<and> dc_flight_hash d = Some (d_flight_hash row)"

definition on_record :: "platform \<Rightarrow> ustr \<Rightarrow> decision \<Rightarrow> runtime \<Rightarrow> bool" where
  "on_record E rid d s \<longleftrightarrow> dc_state d \<noteq> INDETERMINATE \<and> (dc_executed d \<longleftrightarrow> dc_state d = ALLOW)
     \<and> (\<exists>row. settled (abs_index (index s)) rid = Some row \<and> agrees E d row)"

lemma store_recorded:
  assumes "store E rid st codes cap exec outd fh s = (Inr u, s')"
  shows "\<exists>row. settled (abs_index (index s')) rid = Some row \<and> d_state row = U (state_value st)
    \<and> canonicalize E (codes_value codes) = Inr (d_reason_codes row) \<and> d_capability_id row = cap \<and> d_executed row = exec
    \<and> d_output_digest row = outd \<and> d_flight_hash row = fh"
proof -
  from assms obtain t i i' where "store_decision E rid rid (U (state_value st)) codes cap exec outd fh t i = (Inr u, i')" "index s' = i'"
    by (auto simp: store_def sbind_ok on_run_ok)
  then show ?thesis
    by (elim store_decision_ok) (simp add: spec_decide_def codes_value_def)
qed

lemma refuse_recorded:
  assumes "refuse E ev st bound codes s = (Inr d, s')" "st \<noteq> ALLOW" "st \<noteq> INDETERMINATE"
  shows "on_record E (text_of (request_id bound)) d s'"
proof -
  from assms obtain fh v u where "store E (text_of (request_id bound)) st codes PNone False PNone fh v = (Inr u, s')"
    and "\<exists>payload dg. d = Decision_of st payload dg codes (Some fh)"
    by (auto simp: refuse_def sbind_ok decided_ok)
  from store_recorded [OF this(1)] this(2) assms(2,3) show ?thesis
    by (auto simp: on_record_def agrees_def opt_str_def)
qed

lemma deny_issue_failure_recorded:
  assumes "deny_issue_failure E B bound codes e s = (Inr d, s')"
  shows "on_record E (text_of (request_id bound)) d s'"
proof -
  from assms obtain fh v u where "store E (text_of (request_id bound)) DENY (codes @ [error_code (exn_kind_of e)]) PNone False PNone fh v = (Inr u, s')"
    and "\<exists>payload dg. d = Decision_of DENY payload dg (codes @ [error_code (exn_kind_of e)]) (Some fh)"
    by (auto simp: deny_issue_failure_def sbind_ok decided_ok Let_def)
  from store_recorded [OF this(1)] this(2) show ?thesis
    by (auto simp: on_record_def agrees_def opt_str_def)
qed

lemma settle_recorded:
  assumes "settle_execution E bound codes cap x s = (Inr d, s')"
  shows "on_record E (text_of (request_id bound)) d s'"
proof (cases "success x")
  case True
  with assms obtain fh v u where "store E (text_of (request_id bound)) ALLOW codes (PStr cap) True (output_digest x) fh v = (Inr u, s')"
    and "\<exists>payload dg. d = (Decision_of ALLOW payload dg codes (Some fh))\<lparr>dc_capability_id := Some cap, dc_executed := True, dc_output_digest := output_digest x\<rparr>"
    by (auto simp: settle_execution_def sbind_ok decided_ok Let_def)
  from store_recorded [OF this(1)] this(2) show ?thesis
    by (auto simp: on_record_def agrees_def opt_str_def)
next
  case False
  with assms obtain fh v u where "store E (text_of (request_id bound)) DENY codes (PStr cap) False PNone fh v = (Inr u, s')"
    and "\<exists>payload dg. d = (Decision_of DENY payload dg codes (Some fh))\<lparr>dc_capability_id := Some cap\<rparr>"
    by (auto simp: settle_execution_def sbind_ok decided_ok Let_def)
  from store_recorded [OF this(1)] this(2) show ?thesis
    by (auto simp: on_record_def agrees_def opt_str_def)
qed

lemma issue_recorded:
  assumes "issue_and_execute E B P bound codes s = (Inr d, s')"
  shows "on_record E (text_of (request_id bound)) d s'"
  using assms unfolding issue_and_execute_def
proof (cases rule: sbind_cases)
  case (ok attempt v)
  then consider e where "deny_issue_failure E B bound codes e v = (Inr d, s')" | "refuse E ''DECISION_DENY'' DENY bound codes v = (Inr d, s')"
    | env cap where "run_capability E P bound codes env cap v = (Inr d, s')"
    by (auto split: sum.splits option.splits)
  then show ?thesis
  proof cases
    case 3
    then show ?thesis by (auto simp: run_capability_def sbind_ok intro: settle_recorded)
  qed (auto intro: refuse_recorded deny_issue_failure_recorded)
qed simp

lemma request_of_id: "request_of B d = Inr bound \<Longrightarrow> field B d ''request_id'' = Inr rid \<Longrightarrow> request_id bound = PStr rid"
  by (auto simp: request_of_def rbind_eq_Inr_iff)

section \<open>The life of a runtime\<close>

text \<open>
  What happens to a runtime: the handlers, under any pipeline, and everything that does not write the
  runtime ledger (clocks, keys, files, the kernel's own stores).
\<close>

inductive run_step :: "platform \<Rightarrow> builtins \<Rightarrow> runtime \<Rightarrow> runtime \<Rightarrow> bool" for E B where
  proposed: "propose E B P request s = (r, s') \<Longrightarrow> run_step E B s s'"
| approved: "human_approve E B P rid operator s = (r, s') \<Longrightarrow> run_step E B s s'"
| denied: "human_deny E B P rid operator s = (r, s') \<Longrightarrow> run_step E B s s'"
| listed: "pending E s = (r, s') \<Longrightarrow> run_step E B s s'"
| outside: "index s' = index s \<Longrightarrow> run_step E B s s'"

lemma run_step_grown: "run_step E B s s' \<Longrightarrow> run_grown s s'"
proof (induction rule: run_step.induct)
  case (listed s r s')
  have "keeps run_grown (pending E)" unfolding pending_def by (intro keeps_intro preorder_run_grown)
  from keepsD [OF this listed] show ?case .
qed (auto dest: keepsD [OF run_grown_propose] keepsD [OF run_grown_human(1)] keepsD [OF run_grown_human(2)] simp: run_grown_def)

lemma run_steps_grown: "(run_step E B)\<^sup>*\<^sup>* s s' \<Longrightarrow> run_grown s s'"
proof (induction rule: rtranclp_induct)
  case base
  show ?case by (simp add: run_grown_def)
next
  case (step s1 s2)
  from step.IH run_step_grown [OF step(2)] show ?case
    using preorder_run_grown unfolding preorder_rel_def transp_def by blast
qed

lemma human_recorded_closes:
  assumes "human_recorded E P rid stored choice operator i i'" "grown i' i2"
  shows "\<not> human_recorded E P' rid stored' choice' operator' i2 i3"
proof
  assume "human_recorded E P' rid stored' choice' operator' i2 i3"
  then have "acted_on (abs_index i2) (U ''human-'' @ rid) = None" by (simp add: human_recorded_def)
  moreover obtain row where "acted_on (abs_index i') (U ''human-'' @ rid) = Some row" using assms(1) by (auto simp: human_recorded_def)
  ultimately show False using grown_acted_on [OF assms(2)] by (force simp: map_le_def dom_def)
qed

text \<open>
  A human decision comes to be recorded: in the state \<open>s\<close> the proposal is stored, its last decision is
  REQUIRE_HUMAN, it is a request, and signing, the flight recorder and storing the row all succeed.
  Nothing is said about what the handler does afterwards or how it ends.
\<close>

definition human_decided :: "platform \<Rightarrow> builtins \<Rightarrow> pipeline \<Rightarrow> ustr \<Rightarrow> string \<Rightarrow> pyval \<Rightarrow> runtime \<Rightarrow> bool" where
  "human_decided E B P rid choice operator s \<longleftrightarrow> (\<exists>stored bound u v x w.
     on_index (proposal E rid) s = (Inr (Some stored), u)
     \<and> decision_state_of E rid u = (Inr (pstr (state_value REQUIRE_HUMAN)), v)
     \<and> request_of B stored = Inr bound
     \<and> human_record E P rid stored choice operator v = (Inr x, w))"

lemma human_decided_steps:
  assumes "human_decided E B P rid choice operator s"
  obtains stored bound u v signature fh now w where "on_index (proposal E rid) s = (Inr (Some stored), u)"
    and "decision_state_of E rid u = (Inr (pstr (state_value REQUIRE_HUMAN)), v)" and "request_of B stored = Inr bound"
    and "human_record E P rid stored choice operator v = (Inr (signature, fh, now), w)"
    and "human_recorded E P rid stored choice operator (index s) (index w)"
proof -
  from assms obtain stored bound u v signature fh now w where p: "on_index (proposal E rid) s = (Inr (Some stored), u)"
    and c: "decision_state_of E rid u = (Inr (pstr (state_value REQUIRE_HUMAN)), v)"
    and b: "request_of B stored = Inr bound" and h: "human_record E P rid stored choice operator v = (Inr (signature, fh, now), w)"
    unfolding human_decided_def by auto
  have "same_tables (index s) (index u)" using p same_tables_reads(1) [THEN keepsD] by (auto simp: on_run_ok)
  moreover have "same_tables (index u) (index v)"
    using c same_tables_reads(2) [THEN keepsD] by (auto simp: decision_state_of_def sbind_ok on_run_ok)
  ultimately have "same_tables (index s) (index v)" by (simp add: same_tables_def)
  from human_recorded_mono [OF human_record_ok [OF h] this] show thesis
    using that p c b h preorder_grown by (auto simp: preorder_rel_def reflp_def)
qed

lemma human_decided_recorded:
  assumes d: "human_decided E B P rid choice operator s"
    and run: "choice = ''APPROVE'' \<and> human_approve E B P rid operator s = (r, s') \<or> choice = ''DENY'' \<and> human_deny E B P rid operator s = (r, s')"
  shows "\<exists>stored. human_recorded E P rid stored choice operator (index s) (index s')"
proof -
  from d obtain stored bound u v signature fh now w where st: "on_index (proposal E rid) s = (Inr (Some stored), u)"
    "decision_state_of E rid u = (Inr (pstr (state_value REQUIRE_HUMAN)), v)" "request_of B stored = Inr bound"
    "human_record E P rid stored choice operator v = (Inr (signature, fh, now), w)"
    and rec: "human_recorded E P rid stored choice operator (index s) (index w)" by (rule human_decided_steps)
  have gate: "human_gate E B rid act s = act stored v" for act using st(1,2) by (simp add: human_gate_def sbind_def)
  have "run_grown w s'"
  proof (use run in \<open>elim disjE conjE\<close>)
    assume a: "choice = ''APPROVE''" "human_approve E B P rid operator s = (r, s')"
    let ?tail = "sbind (slift (evaluate E (saxp P) bound (resolved_context (rt_policy P)))) (\<lambda>dec.
        issue_and_execute_human E B P bound (reason_codes dec) operator signature (resolved_context (rt_policy P)))"
    have "keeps run_grown ?tail" by (intro keeps_intro preorder_run_grown)
    moreover from a st(3,4) have "?tail w = (r, s')" by (simp add: human_approve_def gate sbind_def [of "human_record _ _ _ _ _ _"] Let_def)
    ultimately show ?thesis by (rule keepsD)
  next
    assume a: "choice = ''DENY''" "human_deny E B P rid operator s = (r, s')"
    let ?tail = "sbind (on_index (store_decision E rid rid (U (state_value DENY)) [''HUMAN_DENIED''] PNone False PNone fh now)) (\<lambda>_.
     sbind (decided E DENY bound [''HUMAN_DENIED''] (Some fh)) (\<lambda>d. sret (by_human operator ''DENY'' signature d)))"
    have "keeps run_grown ?tail" by (intro keeps_intro preorder_run_grown)
    moreover from a st(3,4) have "?tail w = (r, s')" by (simp add: human_deny_def gate sbind_def [of "human_record _ _ _ _ _ _"] Let_def)
    ultimately show ?thesis by (rule keepsD)
  qed
  then have "grown (index w) (index s')" by (simp add: run_grown_def)
  from human_recorded_mono [OF rec _ this] show ?thesis by (auto simp: same_tables_def)
qed

text \<open>An approval that acted was recorded, and so was a denial that returned as a human decision.\<close>

lemma acted_decided:
  assumes acted: "acted s r s'" and run: "human_approve E B P rid operator s = (r, s')"
  shows "human_decided E B P rid ''APPROVE'' operator s"
  using run unfolding human_approve_def
proof (cases rule: human_gate_cases)
  case closed
  with acted show ?thesis by blast
next
  case (opened stored v)
  have a: "acted v r s'" using acted opened(3) by (simp add: acted_def tree_def)
  obtain bound where b: "request_of B stored = Inr bound" and
    m: "sbind (human_record E P rid stored ''APPROVE'' operator) (\<lambda>(signature, _, _).
     let resolved = resolved_context (rt_policy P) in
     sbind (slift (evaluate E (saxp P) bound resolved)) (\<lambda>dec.
     issue_and_execute_human E B P bound (reason_codes dec) operator signature resolved)) v = (r, s')"
    by (rule acted_slift [OF a opened(1)])
  obtain x w where "human_record E P rid stored ''APPROVE'' operator v = (Inr x, w)"
    by (rule acted_sbind [OF a m idle_more(4)])
  with b opened(5) show ?thesis unfolding human_decided_def by blast
qed

lemma denied_decided:
  assumes run: "human_deny E B P rid operator s = (Inr d, s')" and d: "dc_human_decision d \<noteq> None"
  shows "human_decided E B P rid ''DENY'' operator s"
  using run unfolding human_deny_def
proof (cases rule: human_gate_cases)
  case closed
  from closed(3) have "dc_human_decision d = None" by simp
  with d show ?thesis by simp
next
  case (opened stored v)
  from opened(1) [unfolded sbind_ok] obtain bound v1 x w where "slift (request_of B stored) v = (Inr bound, v1)"
    "human_record E P rid stored ''DENY'' operator v1 = (Inr x, w)"
    by (elim exE conjE) (rule that)
  then have "request_of B stored = Inr bound" "human_record E P rid stored ''DENY'' operator v = (Inr x, w)" by (simp_all add: slift_def)
  with opened(5) show ?thesis unfolding human_decided_def by blast
qed

section \<open>Properties\<close>

text \<open>
  C2: A proposal is not authority. If submitting a proposal changes anything in the resource tree, or
  returns a decision that says it executed, then the proposal is a well-formed request that the runtime
  policy calls safe (an allowed, non-sensitive action under an allowed prefix, in neither of the modes
  that deny everything or refer everything to a human), it is stored under its identifier, and the change
  was made by one call of the executor under an envelope which the authority issued for this very
  request; a decision that claims an execution had a successful one. So a sensitive action is
  never executed by a proposal.
\<close>

theorem propose_gated:
  assumes "saxp P = default_saxp" and "propose E B P request s = (r, s')" and "acted s r s'"
  shows "\<exists>bound. request_of B request = Inr bound \<and> policy_safe (rt_policy P) bound
    \<and> proposed (abs_index (index s')) (text_of (request_id bound)) \<noteq> None \<and> granted E P bound NoContext s r s'"
  using acted_propose [OF assms(3,2,1)] by blast

theorem propose_gated_witness:
  "\<exists>s d s'. propose demo_platform demo_builtins (demo_pipeline default_runtime_policy) demo_proposal s = (Inr d, s')
     \<and> dc_executed d \<and> policy_safe default_runtime_policy demo_request"
proof -
  obtain s d s' where p: "propose demo_platform demo_builtins (demo_pipeline default_runtime_policy) demo_proposal s = (Inr d, s')"
    "dc_executed d" "dc_state d = ALLOW" by (rule demo_propose)
  have "saxp (demo_pipeline default_runtime_policy) = default_saxp" "rt_policy (demo_pipeline default_runtime_policy) = default_runtime_policy"
    by (simp_all add: demo_pipeline_def pipeline_init_def)
  with propose_gated [OF this(1) p(1)] p demo_request_of show ?thesis by (auto simp: acted_def)
qed

text \<open>
  C21: Submitting is total and on record. Once a proposal has an identifier, submitting it returns a
  decision, whatever the world does; the decision says that something was executed exactly when its
  state is ALLOW; an ALLOW, DENY or REQUIRE_HUMAN decision is what the ledger's row for the request
  holds (state, reasons, capability, execution, output digest and flight hash); every failure in
  between is an INDETERMINATE decision with one code and no capability.
\<close>

theorem propose_recorded:
  assumes rid: "field B request ''request_id'' = Inr rid" and err: "\<And>e. request_of B request = Inl e \<Longrightarrow> request_error e"
  shows "\<exists>d s'. propose E B P request s = (Inr d, s') \<and> (dc_executed d \<longleftrightarrow> dc_state d = ALLOW)
    \<and> (dc_state d \<noteq> INDETERMINATE \<longrightarrow> (\<exists>row. settled (abs_index (index s')) rid = Some row \<and> agrees E d row))
    \<and> (dc_state d = INDETERMINATE \<longrightarrow> (\<exists>code. dc_codes d = [code]) \<and> dc_capability_id d = None)"
proof -
  obtain r s' where run: "propose E B P request s = (r, s')" by fastforce
  have ind: ?thesis if i: "indeterminate E B rid e v = (r, s')" for e v
  proof -
    from i obtain fo where "r = Inr (Decision_of INDETERMINATE (PDict (mk_dict [(''request_id'', PStr rid)])) [] [exn_code e] fo)"
      by (rule indeterminate_result)
    with run show ?thesis by simp
  qed
  show ?thesis
  proof (cases "request_of B request")
    case (Inl e)
    with run err rid have "indeterminate E B rid e s = (r, s')" by (simp add: propose_def)
    then show ?thesis by (rule ind)
  next
    case (Inr bound)
    from request_of_id [OF Inr rid] have id: "text_of (request_id bound) = rid" by (simp add: text_of_def)
    have "\<exists>m. scatch any_exn (indeterminate E B rid) m s = (r, s') \<and> (\<forall>d v. m s = (Inr d, v) \<longrightarrow> on_record E rid d v)"
    proof (intro exI conjI allI impI)
      show "scatch any_exn (indeterminate E B rid)
           (sbind (record_proposal E bound) (\<lambda>_.
            sbind (slift (context_for (rt_policy P) bound)) (\<lambda>context.
            sbind (slift (evaluate E (saxp P) bound context)) (\<lambda>dec.
            let codes = reason_codes dec in
            if result dec = result_value NON_TEN_XEITO then refuse E ''DECISION_DENY'' DENY bound codes
            else if result dec = result_value REQUIRE_XEITO then refuse E ''DECISION_REQUIRE_HUMAN'' REQUIRE_HUMAN bound codes
            else issue_and_execute E B P bound codes)))) s = (r, s')"
        using run rid Inr by (simp add: propose_def sbind_def slift_def)
    next
      fix d v
      assume "sbind (record_proposal E bound) (\<lambda>_.
            sbind (slift (context_for (rt_policy P) bound)) (\<lambda>context.
            sbind (slift (evaluate E (saxp P) bound context)) (\<lambda>dec.
            let codes = reason_codes dec in
            if result dec = result_value NON_TEN_XEITO then refuse E ''DECISION_DENY'' DENY bound codes
            else if result dec = result_value REQUIRE_XEITO then refuse E ''DECISION_REQUIRE_HUMAN'' REQUIRE_HUMAN bound codes
            else issue_and_execute E B P bound codes))) s = (Inr d, v)"
      then have "on_record E (text_of (request_id bound)) d v"
        by (auto simp: sbind_ok Let_def split: if_splits intro: refuse_recorded issue_recorded)
      then show "on_record E rid d v" by (simp add: id)
    qed
    then obtain m where m: "scatch any_exn (indeterminate E B rid) m s = (r, s')" "\<forall>d v. m s = (Inr d, v) \<longrightarrow> on_record E rid d v"
      by blast
    from m(1) show ?thesis
    proof (cases rule: scatch_cases)
      case (ok d)
      with m(2) run show ?thesis by (auto simp: on_record_def)
    next
      case (handled e v)
      then show ?thesis using ind by blast
    qed simp
  qed
qed

theorem propose_recorded_witness:
  "\<exists>s d s' row. propose demo_platform demo_builtins (demo_pipeline default_runtime_policy) demo_proposal s = (Inr d, s')
     \<and> dc_state d = ALLOW \<and> settled (abs_index (index s')) (U ''r1'') = Some row \<and> d_executed row"
proof -
  obtain s d s' where p: "propose demo_platform demo_builtins (demo_pipeline default_runtime_policy) demo_proposal s = (Inr d, s')"
    "dc_executed d" "dc_state d = ALLOW" by (rule demo_propose)
  have f: "field demo_builtins demo_proposal ''request_id'' = Inr (U ''r1'')"
    by (simp add: field_def demo_proposal_def py_str_def pstr_def)
  have "request_of demo_builtins demo_proposal = Inl e \<Longrightarrow> request_error e" for e by (simp add: demo_request_of)
  from propose_recorded [OF f this, of demo_platform "demo_pipeline default_runtime_policy" s] p show ?thesis
    by (auto simp: agrees_def)
qed


text \<open>
  C3: The human gate. If an approval changes anything in the resource tree, or returns a decision that
  says it executed, then the ledger held this proposal with a decision row that requires a human, no
  human had acted on it, the executor ran the stored request (not the operator's words) under an
  envelope that the authority issued for it in the resolved context, and the ledger now holds the
  human action with its operator, signed over request, digest, decision and time when a key is
  configured. A denial never changes the tree and never executes; one that returns as a human decision
  has recorded the action and a row that denies the request.
\<close>

theorem human_gate_sound:
  "(human_approve E B P rid operator s = (r, s') \<and> acted s r s' \<longrightarrow>
      (\<exists>stored bound. awaiting E B rid s stored \<and> request_of B stored = Inr bound
        \<and> human_recorded E P rid stored ''APPROVE'' operator (index s) (index s') \<and> granted E P bound (Context SAFE_CONTEXT) s r s'))
    \<and> (human_deny E B P rid operator s = (r, s') \<longrightarrow>
      tree s' = tree s \<and> \<not> acted s r s' \<and> (\<forall>d. r = Inr d \<longrightarrow> dc_human_decision d \<noteq> None \<longrightarrow>
        (\<exists>stored row. awaiting E B rid s stored \<and> human_recorded E P rid stored ''DENY'' operator (index s) (index s')
          \<and> settled (abs_index (index s')) rid = Some row \<and> d_state row = U ''DENY'' \<and> \<not> d_executed row)))"
proof (intro conjI impI, elim conjE)
  assume run: "human_approve E B P rid operator s = (r, s')" and act: "acted s r s'"
  show "\<exists>stored bound. awaiting E B rid s stored \<and> request_of B stored = Inr bound
        \<and> human_recorded E P rid stored ''APPROVE'' operator (index s) (index s') \<and> granted E P bound (Context SAFE_CONTEXT) s r s'"
    by (rule acted_approve [OF act run]) blast
next
  assume "human_deny E B P rid operator s = (r, s')"
  note * = deny_cases [OF this]
  from * show "tree s' = tree s" by (rule conjunct1)
  from * show "\<not> acted s r s'" by (elim conjE)
  from * show "\<forall>d. r = Inr d \<longrightarrow> dc_human_decision d \<noteq> None \<longrightarrow>
        (\<exists>stored row. awaiting E B rid s stored \<and> human_recorded E P rid stored ''DENY'' operator (index s) (index s')
          \<and> settled (abs_index (index s')) rid = Some row \<and> d_state row = U ''DENY'' \<and> \<not> d_executed row)" by (elim conjE)
qed

theorem human_gate_sound_witness:
  "\<exists>s d s'. human_approve demo_platform demo_builtins (demo_pipeline default_runtime_policy) (U ''r1'') (pstr ''op'') s = (Inr d, s')
     \<and> dc_executed d \<and> acted_on (abs_index (index s)) (U ''human-'' @ U ''r1'') = None
     \<and> acted_on (abs_index (index s')) (U ''human-'' @ U ''r1'') \<noteq> None"
proof -
  obtain s d s' where a: "human_approve demo_platform demo_builtins (demo_pipeline default_runtime_policy) (U ''r1'') (pstr ''op'') s = (Inr d, s')"
    "dc_executed d" by (rule demo_approve)
  then have "acted s (Inr d) s'" by (simp add: acted_def)
  from human_gate_sound [THEN conjunct1, rule_format, OF conjI, OF a(1) this] obtain stored where
    "human_recorded demo_platform (demo_pipeline default_runtime_policy) (U ''r1'') stored ''APPROVE'' (pstr ''op'') (index s) (index s')" by blast
  then show ?thesis using a by (auto simp: human_recorded_def)
qed

text \<open>
  C7: A human decision is final. Once an approval or a denial of a request has been recorded, however the
  handler then ended (refused, raised after recording, executed), its row stays: whatever proposals,
  approvals, denials and outside changes come later, under whatever pipeline and operator, the ledger
  holds the row of that choice for the request, no other decision of the request is ever recorded, and no
  approval of it acts: it leaves the tree as it is and returns nothing that says it executed.
\<close>

theorem human_final:
  assumes first: "human_decided E B P rid choice operator s"
    and ends: "choice = ''APPROVE'' \<and> human_approve E B P rid operator s = (r, s')
      \<or> choice = ''DENY'' \<and> human_deny E B P rid operator s = (r, s')"
    and run: "(run_step E B)\<^sup>*\<^sup>* s' t"
  shows "(\<exists>row. acted_on (abs_index (index t)) (U ''human-'' @ rid) = Some row \<and> h_request_id row = rid \<and> h_decision row = U choice)
    \<and> \<not> human_decided E B P' rid choice' operator' t
    \<and> (human_approve E B P' rid operator' t = (r', t') \<longrightarrow> \<not> acted t r' t')"
proof -
  obtain stored where rec: "human_recorded E P rid stored choice operator (index s) (index s')"
    using human_decided_recorded [OF first ends] by blast
  have g: "grown (index s') (index t)" using run_steps_grown [OF run] by (simp add: run_grown_def)
  have kept: "human_recorded E P rid stored choice operator (index s) (index t)"
    by (rule human_recorded_mono [OF rec _ g]) (simp add: same_tables_def)
  have closed: "\<not> human_recorded E P' rid stored' choice'' operator'' (index t) i" for stored' choice'' operator'' i
    by (rule human_recorded_closes [OF rec g])
  have "\<not> human_decided E B P' rid choice' operator' t"
  proof
    assume "human_decided E B P' rid choice' operator' t"
    then show False by (rule human_decided_steps) (use closed in blast)
  qed
  moreover have "\<not> acted t r' t'" if "human_approve E B P' rid operator' t = (r', t')"
  proof
    assume "acted t r' t'"
    then show False by (rule acted_approve [OF _ that]) (use closed in blast)
  qed
  moreover have "\<exists>row. acted_on (abs_index (index t)) (U ''human-'' @ rid) = Some row \<and> h_request_id row = rid \<and> h_decision row = U choice"
    using kept by (auto simp: human_recorded_def)
  ultimately show ?thesis by blast
qed

theorem human_final_witness:
  "\<exists>s d s' r' t'. human_approve demo_platform demo_builtins (demo_pipeline default_runtime_policy) (U ''r1'') (pstr ''op'') s = (Inr d, s')
     \<and> human_decided demo_platform demo_builtins (demo_pipeline default_runtime_policy) (U ''r1'') ''APPROVE'' (pstr ''op'') s
     \<and> (\<exists>row. acted_on (abs_index (index s')) (U ''human-r1'') = Some row)
     \<and> human_approve demo_platform demo_builtins (demo_pipeline default_runtime_policy) (U ''r1'') (pstr ''op'') s' = (r', t')
     \<and> tree t' = tree s'"
proof -
  let ?P = "demo_pipeline default_runtime_policy"
  obtain s d s' where a: "human_approve demo_platform demo_builtins ?P (U ''r1'') (pstr ''op'') s = (Inr d, s')"
    "dc_executed d" by (rule demo_approve)
  then have "acted s (Inr d) s'" by (simp add: acted_def)
  from acted_decided [OF this a(1)] have d: "human_decided demo_platform demo_builtins ?P (U ''r1'') ''APPROVE'' (pstr ''op'') s" .
  obtain r' t' where b: "human_approve demo_platform demo_builtins ?P (U ''r1'') (pstr ''op'') s' = (r', t')" by fastforce
  have "''APPROVE'' = ''APPROVE'' \<and> human_approve demo_platform demo_builtins ?P (U ''r1'') (pstr ''op'') s = (Inr d, s')
      \<or> ''APPROVE'' = ''DENY'' \<and> human_deny demo_platform demo_builtins ?P (U ''r1'') (pstr ''op'') s = (Inr d, s')"
    using a(1) by blast
  note f = human_final [OF d this rtranclp.rtrancl_refl]
  have "U ''human-'' @ U ''r1'' = U ''human-r1''" by (simp add: U_def)
  with f [THEN conjunct1] have "\<exists>row. acted_on (abs_index (index s')) (U ''human-r1'') = Some row" by metis
  moreover have "\<not> acted s' r' t'" using f [THEN conjunct2, THEN conjunct2] b by blast
  then have "tree t' = tree s'" by (simp add: acted_def)
  ultimately show ?thesis using a(1) b d by blast
qed

end
