(* ===== verification/Contracts.thy ===== *)
theory Contracts
  imports Json Platform
begin

text \<open>
  \<^verbatim>\<open>orchestrator/tcb/contracts.py\<close>: the reader of the two contract files, a line-oriented subset of
  YAML, with what the source uses of Python's text functions.
\<close>

section \<open>Text\<close>

text \<open>\<^verbatim>\<open>c.isspace()\<close>, as \<^verbatim>\<open>str.strip\<close> uses it, and the line boundaries of \<^verbatim>\<open>str.splitlines\<close>.\<close>

definition py_space :: "nat \<Rightarrow> bool" where
  "py_space c \<longleftrightarrow> (9 \<le> c \<and> c \<le> 13) \<or> (28 \<le> c \<and> c \<le> 32) \<or> c = 133 \<or> c = 160 \<or> c = 5760 \<or> (8192 \<le> c \<and> c \<le> 8202)
     \<or> c = 8232 \<or> c = 8233 \<or> c = 8239 \<or> c = 8287 \<or> c = 12288"

definition line_break :: "nat \<Rightarrow> bool" where
  "line_break c \<longleftrightarrow> (10 \<le> c \<and> c \<le> 13) \<or> (28 \<le> c \<and> c \<le> 30) \<or> c = 133 \<or> c = 8232 \<or> c = 8233"

definition lstrip :: "ustr \<Rightarrow> ustr" where
  "lstrip s = dropWhile py_space s"

definition strip :: "ustr \<Rightarrow> ustr" where
  "strip s = rev (dropWhile py_space (rev (lstrip s)))"

text \<open>Text mode reads \<^verbatim>\<open>\r\n\<close> and a lone \<^verbatim>\<open>\r\<close> as \<^verbatim>\<open>\n\<close>.\<close>

fun newlines :: "ustr \<Rightarrow> ustr" where
  "newlines [] = []"
| "newlines [c] = [if c = 13 then 10 else c]"
| "newlines (c # d # s) = (if c = 13 then 10 # newlines (if d = 10 then s else d # s) else c # newlines (d # s))"

text \<open>No line after a final boundary; \<^verbatim>\<open>\r\n\<close> is one boundary.\<close>

function splitlines :: "ustr \<Rightarrow> ustr list" where
  "splitlines s =
     (if s = [] then []
      else takeWhile (\<lambda>c. \<not> line_break c) s #
        (case dropWhile (\<lambda>c. \<not> line_break c) s of
           [] \<Rightarrow> []
         | c # t \<Rightarrow> splitlines (if c = 13 \<and> startswith t [10] then drop 1 t else t)))"
  by pat_completeness auto
termination
proof (relation "measure length", simp)
  fix s :: ustr and c t
  assume "dropWhile (\<lambda>c. \<not> line_break c) s = c # t"
  then have "length (c # t) \<le> length s" by (metis length_dropWhile_le)
  then have "length t < length s" "length (drop 1 t) < length s" by auto
  then show "(if c = 13 \<and> startswith t [10] then drop 1 t else t, s) \<in> measure length" by simp
qed

declare splitlines.simps [simp del]

text \<open>\<^verbatim>\<open>s.split(sep, 1)\<close> when \<^verbatim>\<open>sep\<close> occurs.\<close>

fun split_once :: "ustr \<Rightarrow> ustr \<Rightarrow> (ustr \<times> ustr) option" where
  "split_once sep [] = None"
| "split_once sep (c # s) =
     (if startswith (c # s) sep then Some ([], drop (length sep) (c # s))
      else map_option (\<lambda>(a, b). (c # a, b)) (split_once sep s))"

section \<open>Values\<close>

text \<open>
  Of the standard library's literals the model reads ASCII numerals and quoted strings without
  backslashes or inner quotes; \<open>other_literal\<close> stands for \<^verbatim>\<open>ast.literal_eval\<close> on every other text,
  \<open>other_digit\<close> and \<open>other_int\<close> for \<^verbatim>\<open>str.isdigit\<close> and \<^verbatim>\<open>int\<close> outside ASCII. \<open>float_is\<close> compares
  a float, given by its numeral, with an integer, and \<open>other_same\<close> compares values when one is a float.
\<close>

record literals =
  other_literal :: "ustr \<Rightarrow> pyval res"
  other_digit :: "nat \<Rightarrow> bool"
  other_int :: "ustr \<Rightarrow> pyval res"
  float_is :: "string \<Rightarrow> int \<Rightarrow> bool"
  other_same :: "pyval \<Rightarrow> pyval \<Rightarrow> bool"

definition rt_err :: "string \<Rightarrow> 'a res" where
  "rt_err t = Inl (Exn RuntimeError t)"

definition plain_char :: "nat \<Rightarrow> nat \<Rightarrow> bool" where
  "plain_char q c \<longleftrightarrow> c \<noteq> q \<and> c \<noteq> 92 \<and> c \<noteq> 0 \<and> c \<noteq> 10 \<and> c \<noteq> 13"

definition literal_eval :: "literals \<Rightarrow> ustr \<Rightarrow> pyval res" where
  "literal_eval L raw =
     (let q = hd raw; body = butlast (tl raw) in
      if 2 \<le> length raw \<and> last raw = q \<and> list_all (plain_char q) body then Inr (PStr body) else other_literal L raw)"

definition is_digit_in :: "literals \<Rightarrow> nat \<Rightarrow> bool" where
  "is_digit_in L c \<longleftrightarrow> (if c < 128 then is_digit c else other_digit L c)"

definition int_of_text :: "literals \<Rightarrow> ustr \<Rightarrow> pyval res" where
  "int_of_text L s =
     (if list_all (\<lambda>c. c < 128) s then
        if max_int_digits < length s then Inl (Exn ValueError ''integer string conversion'') else Inr (PInt (int (digits_val s)))
      else other_int L s)"

definition contract_value :: "literals \<Rightarrow> ustr \<Rightarrow> pyval res" where
  "contract_value L text =
     (let raw = strip text in
      if raw = [] then rt_err ''Empty contract value''
      else if hd raw = 34 \<or> hd raw = 39 then
        rbind (literal_eval L raw) (\<lambda>v. case v of PStr s \<Rightarrow> Inr v | _ \<Rightarrow> rt_err ''Quoted contract value must be a string'')
      else if raw = U ''null'' then Inr PNone
      else if raw = U ''true'' \<or> raw = U ''false'' then Inr (PBool (raw = U ''true''))
      else if list_all (is_digit_in L) raw then int_of_text L raw
      else Inr (PStr raw))"

text \<open>\<^verbatim>\<open>path.read_text(encoding="utf-8")\<close> of the given bytes, then the lines that are neither blank nor comments.\<close>

definition read_text :: "bytes \<Rightarrow> ustr res" where
  "read_text data = rmap newlines (utf8_decode data)"

definition contract_lines :: "bytes \<Rightarrow> ustr list res" where
  "contract_lines data =
     rbind (read_text data) (\<lambda>text.
     if 9 \<in> set text \<or> 13 \<in> set text then rt_err ''Unsupported whitespace''
     else Inr (filter (\<lambda>line. strip line \<noteq> [] \<and> \<not> startswith (lstrip line) (U ''#'')) (splitlines text)))"

text \<open>\<^verbatim>\<open>len(values) != len(set(values))\<close>: a bool is the integer it equals.\<close>

fun norm_bool :: "pyval \<Rightarrow> pyval" where
  "norm_bool (PBool b) = PInt (of_bool b)"
| "norm_bool v = v"

definition repeats :: "pyval list \<Rightarrow> bool" where
  "repeats vs \<longleftrightarrow> \<not> distinct (map norm_bool vs)"

text \<open>The items of a list field: the lines that start with the given prefix.\<close>

fun contract_items :: "literals \<Rightarrow> ustr \<Rightarrow> ustr list \<Rightarrow> (pyval list \<times> ustr list) res" where
  "contract_items L item [] = Inr ([], [])"
| "contract_items L item (line # lines) =
     (if startswith line item then
        (case split_once (U ''-'') line of
           None \<Rightarrow> Inl (Exn OutOfFuel ''a line that starts with the prefix has a dash'')
         | Some (_, raw) \<Rightarrow>
             rbind (contract_value L raw) (\<lambda>v.
             rbind (contract_items L item lines) (\<lambda>(vs, rest). Inr (v # vs, rest))))
      else Inr ([], line # lines))"

lemma contract_items_shorter: "contract_items L item lines = Inr (vs, rest) \<Longrightarrow> length rest \<le> length lines"
proof (induction lines arbitrary: vs)
  case (Cons line lines)
  then show ?case
    by (force split: if_splits option.splits simp: rbind_eq_Inr_iff)
qed simp

text \<open>
  The fields of a block, added to \<open>acc\<close>: \<open>malformed\<close> refuses a line, \<open>tag\<close> names the error. A field
  without a value on its line is a list of one or more different values.
\<close>

function contract_fields :: "literals \<Rightarrow> (ustr \<Rightarrow> bool) \<Rightarrow> (ustr \<Rightarrow> ustr) \<Rightarrow> ustr \<Rightarrow> string \<Rightarrow> pydict \<Rightarrow> ustr list \<Rightarrow> pydict res" where
  "contract_fields L malformed trim item tag acc [] = Inr acc"
| "contract_fields L malformed trim item tag acc (line # lines) =
     (if malformed line then rt_err (''Malformed '' @ tag @ '' line'')
      else (case split_once (U '':'') (trim line) of
         None \<Rightarrow> Inl (Exn ValueError ''not enough values to unpack'')
       | Some (key, raw) \<Rightarrow>
           if map_of acc (KStr key) \<noteq> None then rt_err (''Duplicate '' @ tag @ '' field'')
           else if strip raw \<noteq> [] then
             rbind (contract_value L raw) (\<lambda>v. contract_fields L malformed trim item tag (acc @ [(KStr key, v)]) lines)
           else
             (case contract_items L item lines of
                Inl e \<Rightarrow> Inl e
              | Inr (vs, rest) \<Rightarrow>
                  if vs = [] \<or> repeats vs then rt_err (''Invalid '' @ tag @ '' list'')
                  else contract_fields L malformed trim item tag (acc @ [(KStr key, PList vs)]) rest)))"
  by pat_completeness auto
termination
  by (relation "measure (\<lambda>(_, _, _, _, _, _, lines). length lines)") (auto dest: contract_items_shorter)

section \<open>The two contracts\<close>

text \<open>\<^verbatim>\<open>_ID.fullmatch(v)\<close>\<close>

definition is_id :: "ustr \<Rightarrow> bool" where
  "is_id s \<longleftrightarrow> (case s of [] \<Rightarrow> False
     | c # t \<Rightarrow> 65 \<le> c \<and> c \<le> 90 \<and> list_all (\<lambda>d. 65 \<le> d \<and> d \<le> 90 \<or> 48 \<le> d \<and> d \<le> 57 \<or> d = 95) t)"

definition id_match :: "pyval \<Rightarrow> bool res" where
  "id_match v = (case v of PStr s \<Rightarrow> Inr (is_id s) | _ \<Rightarrow> Inl (Exn TypeError ''expected string''))"

text \<open>\<^verbatim>\<open>for x in v\<close> on a value of a contract: a string iterates over its characters.\<close>

definition py_iter :: "pyval \<Rightarrow> pyval list res" where
  "py_iter v =
     (case v of
        PList vs \<Rightarrow> Inr vs
      | PStr s \<Rightarrow> Inr (map (\<lambda>c. PStr [c]) s)
      | _ \<Rightarrow> Inl (Exn TypeError ''object is not iterable''))"

fun check_ids :: "pyval list \<Rightarrow> unit res" where
  "check_ids [] = Inr ()"
| "check_ids (v # vs) = rbind (id_match v) (\<lambda>ok. if \<not> ok then rt_err ''Invalid gate id'' else check_ids vs)"

definition check_gate_ids :: "pydict \<Rightarrow> unit res" where
  "check_gate_ids d = rbind (py_iter (dval d ''required_gates'')) check_ids"

definition phase_start :: "ustr \<Rightarrow> bool" where
  "phase_start line = startswith line (U ''  - id: '')"

text \<open>The blocks that \<open>phase_start\<close> lines open; what precedes the first is dropped.\<close>

fun phase_blocks :: "ustr list \<Rightarrow> ustr list list" where
  "phase_blocks [] = []"
| "phase_blocks (line # lines) =
     (if phase_start line then (line # takeWhile (\<lambda>l. \<not> phase_start l) lines) # phase_blocks lines else phase_blocks lines)"

definition block_id :: "literals \<Rightarrow> ustr list \<Rightarrow> pyval res" where
  "block_id L block =
     (case split_once (U '':'') (hd block) of
        None \<Rightarrow> Inl (Exn OutOfFuel ''a phase line has a colon'')
      | Some (_, raw) \<Rightarrow> contract_value L raw)"

fun phase_matches :: "literals \<Rightarrow> ustr \<Rightarrow> ustr list list \<Rightarrow> ustr list list res" where
  "phase_matches L phase_id [] = Inr []"
| "phase_matches L phase_id (block # blocks) =
     rbind (block_id L block) (\<lambda>current.
     rbind (phase_matches L phase_id blocks) (\<lambda>ms. Inr (if current = PStr phase_id then block # ms else ms)))"

definition malformed_phase :: "ustr \<Rightarrow> bool" where
  "malformed_phase line \<longleftrightarrow> \<not> startswith line (U ''    '') \<or> startswith line (U ''      '') \<or> 58 \<notin> set line"

definition PHASE_KEYS :: "string list" where
  "PHASE_KEYS = [''id'', ''name'', ''next'', ''max_attempts'', ''agent'', ''prompt'', ''required_gates'', ''allowed_paths'']"

definition load_phase :: "literals \<Rightarrow> ustr \<Rightarrow> bytes \<Rightarrow> pydict res" where
  "load_phase L phase_id data =
     rbind (contract_lines data) (\<lambda>lines.
     let blocks = phase_blocks lines in
     if blocks = [] then rt_err ''No phases found''
     else rbind (phase_matches L phase_id blocks) (\<lambda>ms.
     if length ms \<noteq> 1 then rt_err ''Expected exactly one phase''
     else rbind (contract_fields L malformed_phase strip (U ''      - '') ''phase'' [(kw ''id'', PStr phase_id)] (tl (hd ms))) (\<lambda>d.
     if \<not> has_keys d PHASE_KEYS then rt_err ''Unexpected phase schema''
     else if \<not> is_id phase_id then rt_err ''Invalid phase id''
     else rbind (check_gate_ids d) (\<lambda>_. Inr d))))"

definition malformed_acceptance :: "ustr \<Rightarrow> bool" where
  "malformed_acceptance line \<longleftrightarrow> startswith line (U '' '') \<or> 58 \<notin> set line"

definition load_acceptance :: "literals \<Rightarrow> bytes \<Rightarrow> pydict res" where
  "load_acceptance L data =
     rbind (contract_lines data) (\<lambda>lines.
     rbind (contract_fields L malformed_acceptance (\<lambda>line. line) (U ''  - '') ''acceptance'' [] lines) (\<lambda>d.
     if \<not> has_keys d [''version'', ''required_gates'', ''all_required''] then rt_err ''Unexpected acceptance schema''
     else if dval d ''all_required'' \<noteq> PBool True then rt_err ''all_required must be true''
     else rbind (check_gate_ids d) (\<lambda>_. Inr d)))"

end
