(* ===== verification/Workspace.thy ===== *)
theory Workspace
  imports Decision Contracts
begin

text \<open>
  \<^verbatim>\<open>runtime/workspace.py\<close>: the home of a runtime on disk, the keys it generates once and loads
  ever after, and the wiring of the authority, the verifier, the executor and the pipeline over them.
  Paths are fixed, so each file of the home is a field of the state; \<^verbatim>\<open>chmod\<close> has no counterpart here.
\<close>

section \<open>The home\<close>

text \<open>
  The runtime's stores, the files of the key directory, and a stream of freshly generated private
  keys. \<open>key_faults\<close> lists, one entry per key file written, how the write went: it may write fewer
  bytes than asked, which the code does not look at, or fail before or after the bytes are there.
\<close>

datatype key_fault = KeyWritten | KeyShort nat | KeyFails | KeySyncFails

record home =
  stores :: runtime
  key_files :: "ustr \<Rightarrow> bytes option"
  new_keys :: "nat \<Rightarrow> bytes"
  generated :: nat
  key_faults :: "key_fault list"

type_synonym 'a home_op = "(home, 'a) op"

definition on_stores :: "'a run \<Rightarrow> 'a home_op" where
  "on_stores = szoom stores (\<lambda>s h. h\<lparr>stores := s\<rparr>)"

definition key_path :: "ustr \<Rightarrow> ustr" where
  "key_path name = name @ U ''.key''"

definition pub_path :: "ustr \<Rightarrow> ustr" where
  "pub_path name = name @ U ''.pub''"

text \<open>\<^verbatim>\<open>directory.mkdir(parents=True, exist_ok=True)\<close> below the sandbox; \<open>dir_link\<close> says whether a link leads to a directory.\<close>

definition make_dir :: "(ustr \<Rightarrow> bool) \<Rightarrow> ustr \<Rightarrow> unit fs" where
  "make_dir dir_link name =
     sbind (sget (\<lambda>s. node_at s [name])) (\<lambda>n.
     case n of
       None \<Rightarrow> smodify (set_node [name] (Some (Dir Map.empty)))
     | Some (Dir m) \<Rightarrow> sret ()
     | Some (Link t) \<Rightarrow> if dir_link t then sret () else sraise (Exn FileExistsError ''mkdir'')
     | Some _ \<Rightarrow> sraise (Exn FileExistsError ''mkdir''))"

definition ensure_dirs :: "(ustr \<Rightarrow> bool) \<Rightarrow> unit home_op" where
  "ensure_dirs dir_link =
     sbind (on_stores (on_kernel (on_files (make_dir dir_link (U ''files''))))) (\<lambda>_.
     on_stores (on_kernel (on_files (make_dir dir_link (U ''records'')))))"

definition initialized :: "home \<Rightarrow> bool" where
  "initialized h \<longleftrightarrow> key_files h (key_path (U ''authority'')) \<noteq> None"

section \<open>Keys\<close>

definition generate_private_key :: "bytes home_op" where
  "generate_private_key h = (Inr (new_keys h (generated h)), h\<lparr>generated := generated h + 1\<rparr>)"

definition next_key_fault :: "key_fault home_op" where
  "next_key_fault h = (Inr (case key_faults h of [] \<Rightarrow> KeyWritten | f # _ \<Rightarrow> f), h\<lparr>key_faults := tl (key_faults h)\<rparr>)"

definition put_key_file :: "ustr \<Rightarrow> bytes \<Rightarrow> unit home_op" where
  "put_key_file path data = smodify (\<lambda>h. h\<lparr>key_files := (key_files h)(path \<mapsto> data)\<rparr>)"

text \<open>\<^verbatim>\<open>os.open(path, O_WRONLY | O_CREAT | O_EXCL)\<close>, one \<^verbatim>\<open>os.write\<close> and \<^verbatim>\<open>os.fsync\<close>.\<close>

definition write_key :: "ustr \<Rightarrow> bytes \<Rightarrow> unit home_op" where
  "write_key path raw =
     sbind next_key_fault (\<lambda>f.
     case f of
       KeyWritten \<Rightarrow> put_key_file path raw
     | KeyShort n \<Rightarrow> put_key_file path (take n raw)
     | KeyFails \<Rightarrow> sbind (put_key_file path []) (\<lambda>_. sraise (Exn OSError ''write''))
     | KeySyncFails \<Rightarrow> sbind (put_key_file path raw) (\<lambda>_. sraise (Exn OSError ''fsync'')))"

definition load_or_generate_key :: "ustr \<Rightarrow> bytes home_op" where
  "load_or_generate_key name =
     sbind (sget (\<lambda>h. key_files h (key_path name))) (\<lambda>found.
     case found of
       Some raw \<Rightarrow>
         if length raw \<noteq> 32 then sraise (Exn ValueError ''corrupt key'') else slift (load_private_key raw)
     | None \<Rightarrow>
         sbind generate_private_key (\<lambda>key.
         sbind (write_key (key_path name) key) (\<lambda>_. sret key)))"

definition write_identity :: "platform \<Rightarrow> ustr \<Rightarrow> bytes \<Rightarrow> unit home_op" where
  "write_identity E name key = put_key_file (pub_path name) (map char_of (key_id E (ed_public E key) @ [10]))"

definition read_identity :: "ustr \<Rightarrow> ustr home_op" where
  "read_identity name =
     sbind (sget (\<lambda>h. key_files h (pub_path name))) (\<lambda>found.
     case found of
       None \<Rightarrow> sraise (Exn FileNotFoundError ''identity'')
     | Some data \<Rightarrow> slift (rmap strip (read_text data)))"

definition identity_of :: "pydict home_op" where
  "identity_of =
     sbind (read_identity (U ''authority'')) (\<lambda>auth.
     sbind (read_identity (U ''audit'')) (\<lambda>aud.
     sbind (read_identity (U ''operator'')) (\<lambda>oper.
     sret (mk_dict [(''authority'', PStr auth), (''audit'', PStr aud), (''operator'', PStr oper)]))))"

section \<open>The runtime\<close>

text \<open>The authority, the verifier and the ledgers of a bundle are those of its pipeline.\<close>

record runtime_bundle =
  b_pipeline :: pipeline
  b_workdir :: ustr
  b_identity :: pydict

text \<open>The security state is opened, and gets its first epoch when it has none that reads.\<close>

definition state_of_runtime :: "platform \<Rightarrow> bytes \<Rightarrow> unit sec" where
  "state_of_runtime E key =
     sbind (state_init (PInt 1)) (\<lambda>_.
     scatch any_exn (\<lambda>_. initialize_epoch E (PInt 1) key)
       (sbind (current_epoch E (ed_public E key)) (\<lambda>_. sret ())))"

definition effective_policy :: "runtime_config \<Rightarrow> runtime_policy \<Rightarrow> authority_policy" where
  "effective_policy config p =
     \<lparr>ap_policy_id = ap_policy_id default_policy,
      allowed_actions = SANDBOX_ACTIONS @ rp_allowed_actions p, allowed_principals = [U ''planner''],
      allowed_audiences = [U ''executor''], allowed_resource_prefixes = rp_prefixes p,
      default_ttl_seconds = ttl_seconds config, policy_maximum_ttl = 300\<rparr>"

definition runtime_authority :: "platform \<Rightarrow> runtime_config \<Rightarrow> runtime_policy \<Rightarrow> bytes \<Rightarrow> capability_authority" where
  "runtime_authority E config p key =
     \<lparr>issuer = U ''runtime-authority'', private_key = key, state_public_key = ed_public E key,
      context_provider = (\<lambda>request. rmap Context (context_for p request)), evaluator = default_saxp,
      policy = effective_policy config p\<rparr>"

definition runtime_executor :: "platform \<Rightarrow> bytes \<Rightarrow> bytes \<Rightarrow> capability_executor" where
  "runtime_executor E key audit_private =
     \<lparr>executor_id = U ''executor'',
      verifier = \<lparr>public_key = ed_public E key, epoch_public_key = ed_public E key, maximum_ttl_seconds = 300,
                  clock_skew_seconds = 5\<rparr>,
      audit_key = ed_public E audit_private, audit_signer = Some audit_private,
      failure_key = ed_public E audit_private, failure_signer = Some audit_private\<rparr>"

text \<open>Everything after the keys and the identity files.\<close>

definition open_stores :: "platform \<Rightarrow> runtime_config \<Rightarrow> runtime_policy \<Rightarrow> bytes \<Rightarrow> bytes \<Rightarrow> bytes \<Rightarrow> runtime_bundle home_op" where
  "open_stores E config p authority_private audit_private operator_private =
     sbind (on_stores (on_kernel (on_sec (state_of_runtime E authority_private)))) (\<lambda>_.
     sbind (sget (\<lambda>h. fs_root (files (kernel (stores h))))) (\<lambda>root.
     sbind (slift (guard_init root)) (\<lambda>_.
     sbind (slift (validate_policy (effective_policy config p))) (\<lambda>_.
     sbind (slift (authority_init (runtime_authority E config p authority_private))) (\<lambda>A.
     let X = runtime_executor E authority_private audit_private in
     sbind (on_stores (on_kernel (on_audit (ledger_init E (audit_key X) (audit_signer X))))) (\<lambda>_.
     sbind (on_stores (on_kernel (on_failures (ledger_init E (failure_key X) (failure_signer X))))) (\<lambda>_.
     sbind (on_stores (on_flight (flight_init E))) (\<lambda>_.
     sbind (on_stores (on_index rl_ensure_schema)) (\<lambda>_.
     sbind identity_of (\<lambda>ident.
     sret \<lparr>b_pipeline = pipeline_init A X p (Some operator_private), b_workdir = workdir config,
           b_identity = ident\<rparr>))))))))))"

definition create_runtime :: "platform \<Rightarrow> runtime_config \<Rightarrow> runtime_policy \<Rightarrow> runtime_bundle home_op" where
  "create_runtime E config p =
     sbind (load_or_generate_key (U ''authority'')) (\<lambda>authority_private.
     sbind (load_or_generate_key (U ''audit'')) (\<lambda>audit_private.
     sbind (load_or_generate_key (U ''operator'')) (\<lambda>operator_private.
     sbind (write_identity E (U ''authority'') authority_private) (\<lambda>_.
     sbind (write_identity E (U ''audit'') audit_private) (\<lambda>_.
     sbind (write_identity E (U ''operator'') operator_private) (\<lambda>_.
     open_stores E config p authority_private audit_private operator_private))))))"

text \<open>\<^verbatim>\<open>Workspace(config).create_runtime()\<close>\<close>

definition open_runtime :: "platform \<Rightarrow> (ustr \<Rightarrow> bool) \<Rightarrow> runtime_config \<Rightarrow> runtime_policy \<Rightarrow> runtime_bundle home_op" where
  "open_runtime E dir_link config p = sbind (ensure_dirs dir_link) (\<lambda>_. create_runtime E config p)"

section \<open>Reading a bundle\<close>

definition verify_audit :: "platform \<Rightarrow> runtime_bundle \<Rightarrow> (int \<times> ustr) run" where
  "verify_audit E b = on_kernel (on_audit (verify_integrity E (audit_key (executor (b_pipeline b)))))"

definition verify_failures :: "platform \<Rightarrow> runtime_bundle \<Rightarrow> (int \<times> ustr) run" where
  "verify_failures E b = on_kernel (on_failures (verify_integrity E (failure_key (executor (b_pipeline b)))))"

definition verify_flight :: "platform \<Rightarrow> (int \<times> ustr) run" where
  "verify_flight E = on_flight (flight_verify_integrity E)"

definition bundle_status :: "platform \<Rightarrow> runtime_bundle \<Rightarrow> pydict run" where
  "bundle_status E b =
     sbind (on_kernel (on_sec (current_epoch E (state_public_key (authority (b_pipeline b)))))) (\<lambda>epoch.
     sbind (on_kernel (on_sec nonce_count)) (\<lambda>nonces.
     sbind (verify_audit E b) (\<lambda>(_, audit_head).
     sbind (verify_flight E) (\<lambda>(_, flight_head).
     sbind (on_index (decisions E)) (\<lambda>ds.
     sbind (on_index human_actions) (\<lambda>hs.
     sret (mk_dict [(''workdir'', PStr (b_workdir b)), (''version'', pstr ''0.3.0''), (''epoch'', PInt epoch),
       (''nonce_count'', PInt (int nonces)), (''audit_head'', PStr audit_head), (''flight_head'', PStr flight_head),
       (''decision_count'', PInt (int (length ds))), (''human_action_count'', PInt (int (length hs))),
       (''identity'', PDict (b_identity b))])))))))"

end
