(* ===== verification/Json_Pretty.thy ===== *)
theory Json_Pretty
  imports Json
begin

text \<open>
  Two more ways in which the standard library's \<^verbatim>\<open>json\<close> module writes: \<^verbatim>\<open>ensure_ascii=True\<close>, and
  \<^verbatim>\<open>indent=2\<close>. What is written with an indent is read back by the reader of the theory Json.
\<close>

section \<open>Writing\<close>

text \<open>\<^verbatim>\<open>ensure_ascii=True\<close>: the encoder without it differs only in the characters it leaves as they are.\<close>

definition hex4_of :: "nat \<Rightarrow> ustr" where
  "hex4_of u = [92, 117, hex_digit (u div 4096 mod 16), hex_digit (u div 256 mod 16), hex_digit (u div 16 mod 16), hex_digit (u mod 16)]"

definition ascii_char :: "nat \<Rightarrow> ustr" where
  "ascii_char c =
     (if c < 127 then [c] else if c < 0x10000 then hex4_of c
      else hex4_of (0xD800 + (c - 0x10000) div 0x400) @ hex4_of (0xDC00 + (c - 0x10000) mod 0x400))"

definition dumps_ascii :: "pyval \<Rightarrow> bytes" where
  "dumps_ascii v = map char_of (concat (map ascii_char (dumps (sort_keys v))))"

text \<open>\<^verbatim>\<open>json.dump(\<dots>, indent=2, sort_keys=True)\<close> on sorted values: one member to a line.\<close>

definition pad :: "nat \<Rightarrow> ustr" where
  "pad n = 10 # replicate (2 * n) 32"

fun pretty :: "nat \<Rightarrow> pyval \<Rightarrow> ustr"
and pretty_elems :: "nat \<Rightarrow> pyval list \<Rightarrow> ustr"
and pretty_members :: "nat \<Rightarrow> pydict \<Rightarrow> ustr" where
  "pretty n (PList xs) = (if xs = [] then U ''[]'' else 91 # pad (Suc n) @ pretty_elems (Suc n) xs @ pad n @ [93])"
| "pretty n (PDict d) = (if d = [] then U ''{}'' else 123 # pad (Suc n) @ pretty_members (Suc n) d @ pad n @ [125])"
| "pretty n v = dumps v"
| "pretty_elems n [] = []"
| "pretty_elems n (x # xs) = pretty n x @ (if xs = [] then [] else 44 # pad n @ pretty_elems n xs)"
| "pretty_members n [] = []"
| "pretty_members n ((k, x) # d) =
     json_str (key_str k) @ U '': '' @ pretty n x @ (if d = [] then [] else 44 # pad n @ pretty_members n d)"

definition dump_pretty :: "pyval \<Rightarrow> bytes" where
  "dump_pretty v = map char_of (concat (map ascii_char (pretty 0 (sort_keys v))))"

section \<open>Reading what was written with an indent\<close>

lemma ascii_id: "\<forall>c \<in> set s. c < 127 \<Longrightarrow> concat (map ascii_char s) = s"
  by (induction s) (simp_all add: ascii_char_def)

lemma skip_ws_pad [simp]: "skip_ws (pad n @ r) = skip_ws r"
  by (induction n) (simp_all add: pad_def skip_ws_def is_ws_def)

lemma delim_pad [simp]: "delim (pad n @ r)"
  by (simp add: pad_def)

lemma pretty_Cons:
  assumes "json_ok v"
  obtains c r where "pretty n v = c # r" "\<not> is_ws c" "c \<noteq> 93" "c \<noteq> 125"
proof -
  have "\<exists>c r. pretty n v = c # r \<and> \<not> is_ws c \<and> c \<noteq> 93 \<and> c \<noteq> 125"
  proof (cases v)
    case (PInt i)
    then show ?thesis using int_str_Cons [of i] by (auto simp: is_ws_def is_digit_def)
  qed (use assms in \<open>auto simp: U_def is_ws_def json_str_def\<close>)
  with that show thesis by blast
qed

lemma skip_ws_pretty: "json_ok v \<Longrightarrow> skip_ws (pretty n v @ r) = pretty n v @ r"
  by (erule pretty_Cons [of _ n]) (simp add: skip_ws_def)

lemma jvalue_flat:
  assumes "hooks_ok H" "pretty k v = dumps v" "json_ok v" "delim r" "2 * length (pretty k v) \<le> n"
  shows "jvalue H n (pretty k v @ r) = Inr (v, r)"
  using jvalue_dumps [OF assms(1,3,4), of n] assms(2,5) by simp

lemma jvalue_pretty_all:
  assumes H: "hooks_ok H"
  shows "json_ok v \<Longrightarrow> delim r \<Longrightarrow> 2 * length (pretty k v) \<le> n \<Longrightarrow> jvalue H n (pretty k v @ r) = Inr (v, r)"
    and "list_all json_ok xs \<Longrightarrow> xs \<noteq> [] \<Longrightarrow> 2 * length (pretty_elems k xs) + 1 \<le> n \<Longrightarrow>
      jelems H n (pretty_elems k xs @ pad l @ 93 # r) = Inr (xs, r)"
    and "list_all (\<lambda>(k, v). key_ok k \<and> json_ok v) d \<Longrightarrow> d \<noteq> [] \<Longrightarrow> 2 * length (pretty_members k d) + 1 \<le> n \<Longrightarrow>
      jmembers H n (pretty_members k d @ pad l @ 125 # r) = Inr (str_items d, r)"
proof (induction k v and k xs and k d arbitrary: n r and n r l and n r l
    rule: pretty_pretty_elems_pretty_members.induct)
  case (1 k xs)
  show ?case
  proof (cases "xs = []")
    case True
    with "1.prems"(3) obtain m where "n = Suc m" by (cases n) (auto simp: U_def)
    with True show ?thesis by (simp add: U_def)
  next
    case False
    then obtain x ys where xs: "xs = x # ys" by (cases xs) auto
    from "1.prems"(3) False obtain m where m: "n = Suc m" by (cases n) auto
    from xs "1.prems" have "json_ok x" by simp
    then obtain c t where c: "pretty (Suc k) x = c # t" "\<not> is_ws c" "c \<noteq> 93" by (rule pretty_Cons)
    have "jelems H m (pretty_elems (Suc k) xs @ pad k @ 93 # r) = Inr (xs, r)"
      using "1.prems" False m by (intro "1.IH") auto
    with c xs m show ?thesis by (simp add: skip_ws_def [of "c # s" for s])
  qed
next
  case (2 k d)
  show ?case
  proof (cases "d = []")
    case True
    with "2.prems"(3) obtain m where "n = Suc m" by (cases n) (auto simp: U_def)
    with True H show ?thesis by (simp add: U_def hooks_ok_def)
  next
    case False
    then obtain q x ys where d: "d = (q, x) # ys" by (cases d) auto
    from "2.prems"(3) False obtain m where m: "n = Suc m" by (cases n) auto
    have ok: "list_all (\<lambda>(k, v). key_ok k \<and> json_ok v) d" "distinct (map fst d)"
      using "2.prems"(1) by auto
    have "jmembers H m (pretty_members (Suc k) d @ pad k @ 125 # r) = Inr (str_items d, r)"
      using "2.prems" False m by (intro "2.IH") auto
    moreover have "on_pairs H (str_items d) = Inr (PDict d)"
      using H distinct_str_items [OF ok] str_items_inv [OF ok(1)] by (simp add: hooks_ok_def)
    ultimately show ?thesis using d m by (simp add: json_str_def)
  qed
next
  case "3_1"
  then show ?case using jvalue_dumps [OF H, of PNone] by simp
next
  case "3_2"
  then show ?case by (intro jvalue_flat [OF H]) simp_all
next
  case "3_3"
  then show ?case by (intro jvalue_flat [OF H]) simp_all
next
  case "3_4"
  then show ?case by (intro jvalue_flat [OF H]) simp_all
next
  case "3_5"
  then show ?case by simp
next
  case 4
  then show ?case by simp
next
  case (5 k x xs)
  then obtain m where m: "n = Suc m" by (cases n) auto
  show ?case
  proof (cases "xs = []")
    case True
    have "jvalue H m (pretty k x @ pad l @ 93 # r) = Inr (x, pad l @ 93 # r)"
      using 5 m True by (intro "5.IH"(1)) auto
    with True m show ?thesis by simp
  next
    case False
    then obtain y ys where xs: "xs = y # ys" by (cases xs) auto
    have 1: "jvalue H m (pretty k x @ 44 # pad k @ pretty_elems k xs @ pad l @ 93 # r)
        = Inr (x, 44 # pad k @ pretty_elems k xs @ pad l @ 93 # r)"
      using 5 m False by (intro "5.IH"(1)) auto
    have 2: "jelems H m (pretty_elems k xs @ pad l @ 93 # r) = Inr (xs, r)"
      using 5 m False by (intro "5.IH"(2)) auto
    have 3: "skip_ws (pretty_elems k xs @ pad l @ 93 # r) = pretty_elems k xs @ pad l @ 93 # r"
      using skip_ws_pretty [of y] "5.prems"(1) xs by simp
    show ?thesis using 1 2 3 False m by simp
  qed
next
  case 6
  then show ?case by simp
next
  case (7 k q x d)
  then obtain m where m: "n = Suc m" by (cases n) auto
  have x: "json_ok x" using "7.prems"(1) by simp
  have colon: "skip_ws (U '': '' @ s) = U '': '' @ s" "skip_ws (32 # s) = skip_ws s" for s
    by (simp_all add: U_def skip_ws_def is_ws_def)
  show ?case
  proof (cases "d = []")
    case True
    have "jvalue H m (pretty k x @ pad l @ 125 # r) = Inr (x, pad l @ 125 # r)"
      using 7 m True by (intro "7.IH"(1)) auto
    with True m x show ?thesis by (simp add: json_str_def skip_ws_pretty colon) (simp add: U_def colon skip_ws_pretty)
  next
    case False
    then obtain q' y ys where d: "d = (q', y) # ys" by (cases d) auto
    have 1: "jvalue H m (pretty k x @ 44 # pad k @ pretty_members k d @ pad l @ 125 # r)
        = Inr (x, 44 # pad k @ pretty_members k d @ pad l @ 125 # r)"
      using 7 m False by (intro "7.IH"(1)) auto
    have 2: "jmembers H m (pretty_members k d @ pad l @ 125 # r) = Inr (str_items d, r)"
      using 7 m False by (intro "7.IH"(2)) auto
    have 3: "skip_ws (pretty_members k d @ pad l @ 125 # r) = pretty_members k d @ pad l @ 125 # r"
      using d by (simp add: skip_ws_json_str)
    show ?thesis using 1 2 3 False m x by (simp add: json_str_def colon skip_ws_pretty) (simp add: U_def colon skip_ws_pretty)
  qed
qed

lemma loads_pretty:
  assumes "hooks_ok H" "json_ok v"
  shows "loads H (pretty 0 v @ [10]) = Inr v"
proof -
  obtain c r where c: "pretty 0 v = c # r" using assms(2) by (rule pretty_Cons)
  have "c \<noteq> 0xFEFF"
  proof (cases v)
    case (PInt i)
    then show ?thesis using int_str_Cons [of i] c by (auto simp: is_digit_def)
  qed (use c assms(2) in \<open>auto simp: U_def json_str_def split: if_splits\<close>)
  moreover have "jvalue H (2 * length (pretty 0 v @ [10]) + 2) (pretty 0 v @ [10]) = Inr (v, [10])"
    by (intro jvalue_pretty_all(1) assms) simp_all
  moreover have "skip_ws (pretty 0 v @ [10]) = pretty 0 v @ [10]" using assms(2) by (rule skip_ws_pretty)
  ultimately show ?thesis by (simp add: loads_def c skip_ws_def is_ws_def)
qed

end
