(* ===== verification/Html.thy ===== *)
theory Html
  imports Workspace Json_Pretty
begin

text \<open>
  The pages of \<^verbatim>\<open>runtime/web.py\<close>: the escaping of text, the page frame and the markup of each
  view, as functions of the rows and numbers they show. The handlers that fetch those are in the
  theory Web. A constant of the source that spans lines is the list of its lines.
\<close>

section \<open>Escaping\<close>

text \<open>\<^verbatim>\<open>html.escape(s)\<close>, with quotes.\<close>

definition escape_char :: "nat \<Rightarrow> ustr" where
  "escape_char c =
     (if c = 38 then U ''&amp;'' else if c = 60 then U ''&lt;'' else if c = 62 then U ''&gt;''
      else if c = 34 then U ''&quot;'' else if c = 39 then U ''&#x27;'' else [c])"

definition html_escape :: "ustr \<Rightarrow> ustr" where
  "html_escape s = concat (map escape_char s)"

text \<open>\<^verbatim>\<open>html.escape\<close> of a value of any type: only a string has the method it calls.\<close>

definition escape_value :: "pyval \<Rightarrow> ustr res" where
  "escape_value v = (case v of PStr s \<Rightarrow> Inr (html_escape s) | _ \<Rightarrow> Inl (Exn AttributeError ''replace''))"

definition escape_str :: "builtins \<Rightarrow> pyval \<Rightarrow> ustr res" where
  "escape_str B v = rmap html_escape (py_str B v)"

text \<open>\<^verbatim>\<open>", ".join(v)\<close>\<close>

fun text_items :: "pyval list \<Rightarrow> ustr list res" where
  "text_items [] = Inr []"
| "text_items (v # vs) =
     (case v of PStr s \<Rightarrow> rmap (Cons s) (text_items vs) | _ \<Rightarrow> Inl (Exn TypeError ''expected str instance''))"

fun comma_list :: "ustr list \<Rightarrow> ustr" where
  "comma_list [] = []"
| "comma_list [s] = s"
| "comma_list (s # ss) = s @ U '', '' @ comma_list ss"

definition join_values :: "pyval \<Rightarrow> ustr res" where
  "join_values v = rmap comma_list (rbind (py_iter v) text_items)"

definition text_lines :: "string list \<Rightarrow> ustr" where
  "text_lines ls = join_with 10 (map U ls)"

text \<open>\<^verbatim>\<open>json.dumps(v, sort_keys=True)\<close> with the default separators; no float reaches it.\<close>

fun spaced :: "pyval \<Rightarrow> ustr"
and spaced_elems :: "pyval list \<Rightarrow> ustr"
and spaced_members :: "pydict \<Rightarrow> ustr" where
  "spaced (PList xs) = 91 # spaced_elems xs @ [93]"
| "spaced (PDict d) = 123 # spaced_members d @ [125]"
| "spaced v = dumps v"
| "spaced_elems [] = []"
| "spaced_elems (x # xs) = spaced x @ (if xs = [] then [] else U '', '' @ spaced_elems xs)"
| "spaced_members [] = []"
| "spaced_members ((k, x) # d) =
     json_str (key_str k) @ U '': '' @ spaced x @ (if d = [] then [] else U '', '' @ spaced_members d)"

definition json_dumps :: "pyval \<Rightarrow> ustr" where
  "json_dumps v = concat (map ascii_char (spaced (sort_keys v)))"

definition json_dumps_indented :: "pyval \<Rightarrow> ustr" where
  "json_dumps_indented v = concat (map ascii_char (pretty 0 (sort_keys v)))"

section \<open>The frame\<close>

definition page_head :: ustr where
  "page_head = text_lines [''<!doctype html>'',
     ''<html lang=\"en\"><head><meta charset=\"utf-8\"><title>'']"

definition page_style :: ustr where
  "page_style = text_lines [''</title>'',
     ''<style>'',
     ''body { font-family: ui-monospace, Menlo, monospace; margin: 2rem; background: #0f1115; color: #e6e6e6; }'',
     ''a { color: #7cc4ff; } code { background: #1a1d24; padding: 0.1rem 0.3rem; }'',
     ''table { border-collapse: collapse; width: 100%; } td, th { border: 1px solid #2a2f3a; padding: 0.4rem; text-align: left; }'',
     ''pre { background: #1a1d24; padding: 0.8rem; overflow: auto; }'',
     ''input, select, textarea { background: #1a1d24; color: #e6e6e6; border: 1px solid #2a2f3a; padding: 0.3rem; }'',
     ''.badge { display: inline-block; padding: 0.1rem 0.5rem; border-radius: 3px; font-weight: bold; }'',
     ''.allowed { background: #173d23; } .denied { background: #3d1717; }'',
     ''.human { background: #3d3217; } .indet { background: #2a2a2a; }'',
     ''</style></head><body><h1>'']"

definition page :: "ustr \<Rightarrow> ustr \<Rightarrow> ustr" where
  "page title body = page_head @ title @ page_style @ title @ U ''</h1>'' @ body @ U ''</body></html>''"

definition badge_style :: "ustr \<Rightarrow> string" where
  "badge_style st =
     (if st = U ''ALLOW'' then ''allowed'' else if st = U ''DENY'' then ''denied''
      else if st = U ''REQUIRE_HUMAN'' then ''human'' else ''indet'')"

definition badge :: "ustr \<Rightarrow> ustr" where
  "badge st = U ''<span class=\"badge '' @ U (badge_style st) @ U ''\">'' @ html_escape st @ U ''</span>''"

definition badge_value :: "pyval \<Rightarrow> ustr res" where
  "badge_value v =
     (case v of
        PStr s \<Rightarrow> Inr (badge s)
      | _ \<Rightarrow> if hashable v then Inl (Exn AttributeError ''replace'') else Inl (Exn TypeError ''unhashable type''))"

section \<open>Status\<close>

definition sorted_actuators :: "actuator list" where
  "sorted_actuators = sort_key a_action ACTUATORS"

fun status_rows :: "builtins \<Rightarrow> pydict \<Rightarrow> ustr res" where
  "status_rows B [] = Inr []"
| "status_rows B ((k, v) # d) =
     rbind (escape_str B v) (\<lambda>text.
     rmap (\<lambda>rows. U ''<tr><td>'' @ html_escape (key_str k) @ U ''</td><td>'' @ text @ U ''</td></tr>'' @ rows)
       (status_rows B d))"

definition actuator_rows :: ustr where
  "actuator_rows = concat (map (\<lambda>a.
     U ''<tr><td><code>'' @ html_escape (a_action a) @ U ''</code></td><td>'' @ html_escape (namespace a)
     @ U ''</td><td>'' @ html_escape (U (description a)) @ U ''</td></tr>'') sorted_actuators)"

definition state_count :: "pydict list \<Rightarrow> ustr \<Rightarrow> nat" where
  "state_count rows st = length (filter (\<lambda>row. dval row ''state'' = PStr st) rows)"

definition state_rows :: "pydict list \<Rightarrow> ustr" where
  "state_rows rows = concat (map (\<lambda>st.
     U ''<tr><td>'' @ badge st @ U ''</td><td>'' @ int_str (int (state_count rows st)) @ U ''</td></tr>'')
     (map U [''ALLOW'', ''DENY'', ''REQUIRE_HUMAN'', ''INDETERMINATE'']))"

definition status_body :: "builtins \<Rightarrow> pydict \<Rightarrow> pydict list \<Rightarrow> ustr res" where
  "status_body B st ds =
     rmap (\<lambda>rows.
       text_lines ['''', ''<p><a href=\"/propose\">Submit a proposal</a> ''] @ [183] @ U '' <a href=\"/human-gate\">Human gate</a> ''
       @ [183] @ text_lines ['''', ''<a href=\"/flight-recorder\">Flight recorder</a> ''] @ [183]
       @ text_lines ['' <a href=\"/evidence\">Evidence</a></p>'', ''<h2>System status</h2>'', ''<table>'']
       @ rows
       @ text_lines [''</table>'', ''<h2>Decision states</h2>'', ''<table><tr><th>State</th><th>Count</th></tr>'']
       @ state_rows ds
       @ text_lines [''</table>'', ''<h2>Governed actuators (closed registry)</h2>'',
           ''<table><tr><th>Action</th><th>Namespace</th><th>Description</th></tr>'']
       @ actuator_rows
       @ text_lines [''</table>'', ''''])
     (status_rows B st)"

section \<open>The proposal form\<close>

definition form_options :: ustr where
  "form_options = concat (map (\<lambda>a.
     U ''<option value=\"'' @ html_escape (a_action a) @ U ''\">'' @ html_escape (a_action a) @ U ''</option>'') sorted_actuators)"

definition propose_form_body :: ustr where
  "propose_form_body =
     text_lines ['''', ''<p><a href=\"/\">Status</a> ''] @ [183]
     @ text_lines ['' <a href=\"/human-gate\">Human gate</a></p>'',
         ''<h2>Submit a proposal</h2>'',
         ''<p><strong>Proposal is not authority.</strong> This form records data only. No side effect'',
         ''happens unless the kernel issues a scoped capability and the executor runs it.</p>'',
         ''<form action=\"/api/propose\" method=\"post\" id=\"propose\">'',
         ''<table>'',
         ''<tr><td>request_id</td><td><input name=\"request_id\" value=\"req-1\" /></td></tr>'',
         ''<tr><td>principal</td><td><input name=\"principal\" value=\"planner\" /></td></tr>'',
         ''<tr><td>audience</td><td><input name=\"audience\" value=\"executor\" /></td></tr>'',
         ''<tr><td>action</td><td><select name=\"action\">'']
     @ form_options
     @ text_lines [''</select></td></tr>'',
         ''<tr><td>resource</td><td><input name=\"resource\" value=\"files/note.txt\" /></td></tr>'',
         ''<tr><td>parameters</td><td><textarea name=\"parameters\" rows=\"6\" cols=\"60\">{\"content_b64\": \"SGVsbG8sIE1HSyEK\"}</textarea></td></tr>'',
         ''</table>'',
         ''<button type=\"submit\">Submit proposal</button>'',
         ''</form>'',
         ''<pre id=\"result\"></pre>'',
         ''<script>'',
         ''const form = document.getElementById(\"propose\");'',
         ''form.addEventListener(\"submit\", async (event) => {'',
         ''  event.preventDefault();'',
         ''  const data = Object.fromEntries(new FormData(form));'',
         ''  try { data.parameters = JSON.parse(data.parameters); } catch (e) { data.parameters = {}; }'',
         ''  const response = await fetch(\"/api/propose\", { method: \"POST\", headers: {\"Content-Type\": \"application/json\"}, body: JSON.stringify(data) });'',
         ''  const result = await response.json();'',
         ''  document.getElementById(\"result\").textContent = JSON.stringify(result, null, 2);'',
         ''});'',
         ''</script>'',
         '''']"

section \<open>The human gate\<close>

definition gate_button :: "ustr \<Rightarrow> string \<Rightarrow> ustr" where
  "gate_button rid choice =
     U ''<button onclick='decide(\"'' @ html_escape rid @ U ''\",\"'' @ U choice @ U ''\")'>'' @ U choice @ U ''</button>''"

definition gate_row :: "ustr \<Rightarrow> ustr \<Rightarrow> ustr \<Rightarrow> ustr \<Rightarrow> ustr" where
  "gate_row rid act res codes =
     U ''<tr><td>'' @ html_escape rid @ U ''</td><td><code>'' @ html_escape act @ U ''</code></td><td><code>''
     @ html_escape res @ U ''</code></td><td>'' @ html_escape codes @ U ''</td><td>''
     @ gate_button rid ''APPROVE'' @ U '' '' @ gate_button rid ''DENY'' @ U ''</td></tr>''"

definition gate_empty :: ustr where
  "gate_empty = U ''<p>No proposals currently require human review.</p>''"

definition gate_body :: "ustr \<Rightarrow> ustr" where
  "gate_body rows =
     text_lines ['''', ''<h2>Pending human decisions</h2>'',
       ''<table><tr><th>Request</th><th>Action</th><th>Resource</th><th>Reason</th><th>Decision</th></tr>'', '''']
     @ rows
     @ text_lines [''</table>'',
       ''<pre id=\"result\"></pre>'',
       ''<script>'',
       ''async function decide(requestId, decision) {'',
       ''  const operator = prompt(\"Operator identity:\");'',
       ''  if (!operator) return;'',
       ''  const response = await fetch(\"/api/human-gate/\" + requestId, {'',
       ''    method: \"POST\",'',
       ''    headers: {\"Content-Type\": \"application/json\"},'',
       ''    body: JSON.stringify({ decision, operator }),'',
       ''  });'',
       ''  const result = await response.json();'',
       ''  document.getElementById(\"result\").textContent = JSON.stringify(result, null, 2);'',
       ''  location.reload();'',
       ''}'',
       ''</script>'',
       '''']"

section \<open>Decisions, events, evidence\<close>

definition proposal_table :: "pydict \<Rightarrow> ustr res" where
  "proposal_table p =
     rbind (escape_value (dval p ''request_id'')) (\<lambda>rid.
     rbind (escape_value (dval p ''principal'')) (\<lambda>prin.
     rbind (escape_value (dval p ''audience'')) (\<lambda>aud.
     rbind (escape_value (dval p ''action'')) (\<lambda>act.
     rbind (escape_value (dval p ''resource'')) (\<lambda>res.
     rbind (escape_value (dval p ''request_digest'')) (\<lambda>dg.
     Inr (U ''<table><tr><td>request_id</td><td><code>'' @ rid
       @ U ''</code></td></tr><tr><td>principal</td><td>'' @ prin
       @ U ''</td></tr><tr><td>audience</td><td>'' @ aud
       @ U ''</td></tr><tr><td>action</td><td><code>'' @ act
       @ U ''</code></td></tr><tr><td>resource</td><td><code>'' @ res
       @ U ''</code></td></tr><tr><td>request_digest</td><td><code>'' @ dg @ U ''</code></td></tr></table>'')))))))"

fun decision_rows :: "pydict list \<Rightarrow> ustr res" where
  "decision_rows [] = Inr []"
| "decision_rows (row # rows) =
     rbind (badge_value (dval row ''state'')) (\<lambda>b.
     rmap (\<lambda>rest. U ''<h3>Decision '' @ b @ U ''</h3><pre>'' @ html_escape (json_dumps_indented (PDict row)) @ U ''</pre>'' @ rest)
       (decision_rows rows))"

definition event_row :: "builtins \<Rightarrow> pydict \<Rightarrow> ustr res" where
  "event_row B event =
     rbind (field B event ''seq'') (\<lambda>n.
     rbind (case dget event ''event_type'' of None \<Rightarrow> Inl (Exn KeyError ''event_type'') | Some v \<Rightarrow> escape_value v) (\<lambda>ty.
     rbind (case dget event ''data'' of None \<Rightarrow> Inl (Exn KeyError ''data'') | Some v \<Rightarrow> Inr (html_escape (json_dumps v))) (\<lambda>data.
     Inr (U ''<tr><td>'' @ n @ U ''</td><td>'' @ ty @ U ''</td><td><code>'' @ data @ U ''</code></td></tr>''))))"

fun event_rows :: "builtins \<Rightarrow> pydict list \<Rightarrow> ustr res" where
  "event_rows B [] = Inr []"
| "event_rows B (e # es) = rbind (event_row B e) (\<lambda>row. rmap (append row) (event_rows B es))"

definition chain_summary :: "int \<times> ustr \<Rightarrow> ustr" where
  "chain_summary c = int_str (fst c) @ U '' records '' @ [183] @ U '' head <code>'' @ take 16 (snd c) @ [8230]"

definition flight_body :: "int \<times> ustr \<Rightarrow> ustr \<Rightarrow> ustr" where
  "flight_body c rows =
     text_lines ['''', ''<h2>Flight recorder</h2>'', ''<p>Records: ''] @ int_str (fst c) @ U '' '' @ [183] @ U '' head <code>''
     @ take 16 (snd c) @ [8230]
     @ text_lines [''</code> (integrity verified)</p>'', ''<table><tr><th>Seq</th><th>Event</th><th>Data</th></tr>'']
     @ rows @ text_lines [''</table>'', '''']"

definition integrity_failure_body :: "ustr \<Rightarrow> ustr \<Rightarrow> ustr" where
  "integrity_failure_body class_name said =
     U ''<h2>Evidence</h2><p><strong>Integrity verification failed.</strong></p><pre>'' @ html_escape class_name @ U '': ''
     @ html_escape said @ U ''</pre>''"

definition evidence_body ::
    "int \<times> ustr \<Rightarrow> int \<times> ustr \<Rightarrow> int \<times> ustr \<Rightarrow> ustr \<Rightarrow> ustr \<Rightarrow> ustr \<Rightarrow> ustr \<Rightarrow> ustr" where
  "evidence_body audit failed events epoch nonces authority_id counted =
     text_lines ['''', ''<h2>Evidence</h2>'', ''<h3>Integrity</h3>'', ''<table>'', ''<tr><td>Audit ledger</td><td>'']
     @ chain_summary audit @ text_lines [''</code></td></tr>'', ''<tr><td>Failure ledger</td><td>'']
     @ chain_summary failed @ text_lines [''</code></td></tr>'', ''<tr><td>Flight recorder</td><td>'']
     @ chain_summary events @ text_lines [''</code></td></tr>'', ''<tr><td>Authorization epoch</td><td>'']
     @ epoch @ text_lines [''</td></tr>'', ''<tr><td>Consumed nonces (single-use capabilities)</td><td>'']
     @ nonces @ text_lines [''</td></tr>'', ''<tr><td>Authority</td><td><code>'']
     @ authority_id @ text_lines [''</code></td></tr>'', ''</table>'', ''<h3>Sandbox workspace</h3>'', ''<ul>'',
         ''<li><a href=\"/evidence\">files/</a> ''] @ [8212] @ U '' ''
     @ counted @ text_lines [''</li>'', ''</ul>'', '''']"

definition counted_text :: "nat \<Rightarrow> nat \<Rightarrow> ustr" where
  "counted_text file_count record_count =
     int_str (int file_count) @ U '' file(s), '' @ int_str (int record_count) @ U '' record(s)''"

end
