(* ===== verification/Trust.thy ===== *)
theory Trust
  imports Contracts Json_Pretty Resource
begin

text \<open>
  \<^verbatim>\<open>orchestrator/tcb/trust.py\<close> and \<^verbatim>\<open>orchestrator/tcb/core.py\<close>: the anchored manifest of protected
  files and the phase state with its hash.
\<close>

section \<open>The working tree\<close>

text \<open>
  What the scripts see at a path relative to the working directory: a regular file, a symbolic link
  with the file its target resolves to, or something else. Two spellings of a path are not identified;
  the scripts only open the paths they name themselves and those the caller passes.
\<close>

datatype entry = Regular bytes | Symlink "bytes option" | Irregular

type_synonym tree = "ustr \<Rightarrow> entry option"

definition is_symlink :: "tree \<Rightarrow> ustr \<Rightarrow> bool" where
  "is_symlink t p = (case t p of Some (Symlink _) \<Rightarrow> True | _ \<Rightarrow> False)"

definition is_file :: "tree \<Rightarrow> ustr \<Rightarrow> bool" where
  "is_file t p = (case t p of Some (Regular _) \<Rightarrow> True | Some (Symlink (Some _)) \<Rightarrow> True | _ \<Rightarrow> False)"

definition read_bytes :: "tree \<Rightarrow> ustr \<Rightarrow> bytes res" where
  "read_bytes t p =
     (case t p of
        Some (Regular data) \<Rightarrow> Inr data
      | Some (Symlink (Some data)) \<Rightarrow> Inr data
      | Some Irregular \<Rightarrow> Inl (Exn OSError ''open'')
      | _ \<Rightarrow> Inl (Exn FileNotFoundError ''open''))"

definition read_utf8 :: "tree \<Rightarrow> ustr \<Rightarrow> ustr res" where
  "read_utf8 t p = rbind (read_bytes t p) read_text"

section \<open>Protected files\<close>

definition MANIFEST_PATH :: ustr where
  "MANIFEST_PATH = U ''contracts/ROOT_MANIFEST.sha256''"

definition REQUIRED_PROTECTED_PATHS :: "ustr list" where
  "REQUIRED_PROTECTED_PATHS = map U
     [''.github/workflows/bootstrap-core.yml'', ''.github/workflows/mgk-protected-gates.yml'', ''candidate_adapter.py'',
      ''contracts/FUNCTIONAL_ACCEPTANCE.yaml'', ''contracts/INVARIANTS.yaml'', ''contracts/MGK-FUNCTIONAL-ACCEPTANCE.yaml'',
      ''contracts/PHASES.yaml'', ''contracts/ROOT_OF_TRUST'', ''exam_hypothesis_profile.py'', ''gates/protected/requirements.lock'',
      ''gates/protected/run_gates.py'', ''gates/protected/run_mgk_candidate.py'', ''gates/protected/test_f00.py'',
      ''gates/protected/test_invariants.py'', ''gates/protected/verify_bootstrap_cleanup.py'', ''independent_exam/FROZEN.sha256'',
      ''independent_exam/tools/check_frozen.py'', ''orchestrator/tcb/check_candidate.py'', ''orchestrator/tcb/check_gates.py'',
      ''orchestrator/tcb/contracts.py'', ''orchestrator/tcb/core.py'', ''orchestrator/tcb/make_attestation.py'',
      ''orchestrator/tcb/trust.py'', ''orchestrator/tcb/verify_patch.py'', ''redteam/SHA256SUMS'',
      ''redteam/candidate_attack_adapter.py'', ''redteam/validate_artifacts.py'']"

definition sha256_file :: "platform \<Rightarrow> tree \<Rightarrow> ustr \<Rightarrow> ustr res" where
  "sha256_file E t p = rmap (sha256_hex E) (read_bytes t p)"

definition ascii_decode :: "bytes \<Rightarrow> ustr res" where
  "ascii_decode data =
     (if list_all (\<lambda>c. (of_char c :: nat) < 128) data then Inr (U data) else Inl (Exn UnicodeError ''ascii''))"

type_synonym manifest = "(ustr \<times> ustr) list"

definition manifest_line :: "manifest \<Rightarrow> ustr \<Rightarrow> manifest res" where
  "manifest_line entries line =
     (case split_once (U ''  '') line of
        None \<Rightarrow> rt_err ''Malformed root manifest line''
      | Some (dg, relative) \<Rightarrow>
          if \<not> hex_match 64 dg then rt_err ''Malformed root manifest line''
          else if startswith relative (U ''/'') \<or> posix_parts relative = [] \<or> list_ex dotty (posix_parts relative) then
            rt_err ''Unsafe root manifest path''
          else if map_of entries relative \<noteq> None \<or> (entries \<noteq> [] \<and> relative \<le> fst (last entries)) then
            rt_err ''Root manifest paths must be unique and sorted''
          else Inr (entries @ [(relative, dg)]))"

fun manifest_lines :: "manifest \<Rightarrow> ustr list \<Rightarrow> manifest res" where
  "manifest_lines entries [] = Inr entries"
| "manifest_lines entries (line # lines) = rbind (manifest_line entries line) (\<lambda>entries. manifest_lines entries lines)"

definition load_manifest :: "tree \<Rightarrow> manifest res" where
  "load_manifest t =
     (if is_symlink t MANIFEST_PATH \<or> \<not> is_file t MANIFEST_PATH then rt_err ''Root manifest missing or not a regular file''
      else
        rbind (read_bytes t MANIFEST_PATH) (\<lambda>data.
        rbind (rmap newlines (ascii_decode data)) (\<lambda>text.
        rbind (manifest_lines [] (splitlines text)) (\<lambda>entries.
        if set (map fst entries) \<noteq> set REQUIRED_PROTECTED_PATHS then rt_err ''Root manifest coverage mismatch''
        else Inr entries))))"

fun check_protected :: "platform \<Rightarrow> tree \<Rightarrow> manifest \<Rightarrow> unit res" where
  "check_protected E t [] = Inr ()"
| "check_protected E t ((relative, expected) # entries) =
     (case t relative of
        None \<Rightarrow> rt_err ''Protected path missing or symlinked''
      | Some (Symlink _) \<Rightarrow> rt_err ''Protected path missing or symlinked''
      | Some Irregular \<Rightarrow> rt_err ''Protected path is not a regular file''
      | Some (Regular data) \<Rightarrow>
          if sha256_hex E data \<noteq> expected then rt_err ''Protected path hash mismatch'' else check_protected E t entries)"

text \<open>\<open>anchor\<close> is the value of the environment variable, empty when it is not set.\<close>

definition verify_protected_tree :: "platform \<Rightarrow> ustr \<Rightarrow> tree \<Rightarrow> unit res" where
  "verify_protected_tree E anchor t =
     (if \<not> hex_match 64 anchor then rt_err ''MGK_ROOT_MANIFEST_SHA256 is missing or invalid''
      else
        rbind (sha256_file E t MANIFEST_PATH) (\<lambda>actual.
        if actual \<noteq> anchor then rt_err ''Root manifest hash mismatch''
        else rbind (load_manifest t) (check_protected E t)))"

section \<open>The phase state\<close>

definition STATE_PATH :: ustr where
  "STATE_PATH = U ''orchestrator/tcb/state.json''"

definition STATE_KEYS :: "string list" where
  "STATE_KEYS = [''version'', ''phase'', ''attempts'', ''phases_done'', ''hash'']"

text \<open>\<^verbatim>\<open>json.loads\<close> with its defaults: a float keeps its numeral, the last of equal keys wins.\<close>

definition plain_hooks :: jhooks where
  "plain_hooks =
     \<lparr>on_float = (\<lambda>s. Inr (POther (map char_of s))), on_const = (\<lambda>s. Inr (POther (map char_of s))),
      on_pairs = (\<lambda>ps. Inr (PDict (foldl (\<lambda>d (k, v). AList.update (KStr k) v d) [] ps)))\<rparr>"

definition compute_state_hash :: "platform \<Rightarrow> pydict \<Rightarrow> ustr" where
  "compute_state_hash E state = sha256_hex E (dumps_ascii (PDict (dpop state ''hash'')))"

text \<open>\<^verbatim>\<open>set(v) == {names}\<close> and \<^verbatim>\<open>v[key]\<close> on a document of any type.\<close>

definition has_names :: "pyval \<Rightarrow> string list \<Rightarrow> bool res" where
  "has_names v names =
     (case v of
        PDict d \<Rightarrow> Inr (has_keys d names)
      | PList vs \<Rightarrow> if list_all hashable vs then Inr (set vs = set (map pstr names)) else Inl (Exn TypeError ''unhashable type'')
      | PStr s \<Rightarrow> Inr (set (map (\<lambda>c. PStr [c]) s) = set (map pstr names))
      | _ \<Rightarrow> Inl (Exn TypeError ''object is not iterable''))"

definition subscript :: "pyval \<Rightarrow> string \<Rightarrow> pyval res" where
  "subscript v k =
     (case v of
        PDict d \<Rightarrow> (case dget d k of None \<Rightarrow> Inl (Exn KeyError k) | Some x \<Rightarrow> Inr x)
      | _ \<Rightarrow> Inl (Exn TypeError ''indices''))"

definition type_is_int :: "pyval \<Rightarrow> bool" where
  "type_is_int v = (case v of PInt _ \<Rightarrow> True | _ \<Rightarrow> False)"

definition is_str :: "pyval \<Rightarrow> bool" where
  "is_str v = (case v of PStr _ \<Rightarrow> True | _ \<Rightarrow> False)"

definition expected_done :: "(pyval \<times> pyval) list" where
  "expected_done = [(pstr ''F00'', PList []), (pstr ''DONE'', PList [pstr ''F00''])]"

definition check_state :: "platform \<Rightarrow> pydict \<Rightarrow> pydict res" where
  "check_state E d =
     (let version = dval d ''version''; attempts = dval d ''attempts''; finished = dval d ''phases_done''; phase = dval d ''phase'';
          given = dval d ''hash'' in
      if \<not> (type_is_int version \<and> py_eq_int version 1) then rt_err ''Invalid state version''
      else if (case attempts of PInt n \<Rightarrow> n < 0 | _ \<Rightarrow> True) then rt_err ''Invalid state attempts''
      else (case finished of
          PList items \<Rightarrow>
            if \<not> list_all is_str items then rt_err ''Invalid phases_done''
            else if \<not> distinct items then rt_err ''Duplicate phase in phases_done''
            else if \<not> hashable phase then Inl (Exn TypeError ''unhashable type'')
            else if map_of expected_done phase \<noteq> Some finished then rt_err ''Invalid phase transition state''
            else if given \<noteq> PStr (compute_state_hash E d) then rt_err ''State hash mismatch or missing hash''
            else Inr d
        | _ \<Rightarrow> rt_err ''Invalid phases_done''))"

definition verify_state :: "platform \<Rightarrow> tree \<Rightarrow> pydict res" where
  "verify_state E t =
     rbind (read_utf8 t STATE_PATH) (\<lambda>text.
     rbind (loads plain_hooks text) (\<lambda>state.
     rbind (has_names state STATE_KEYS) (\<lambda>ok.
     if \<not> ok then rt_err ''Invalid state schema''
     else (case state of PDict d \<Rightarrow> check_state E d | _ \<Rightarrow> Inl (Exn TypeError ''indices'')))))"

section \<open>Advancing the phase\<close>

text \<open>
  Every file system call that changes something can fail; \<open>Some n\<close> in the script of faults makes the
  next one raise, a write after its first \<open>n\<close> bytes. \<open>next_temp\<close> is the name that \<^verbatim>\<open>mkstemp\<close> picks and
  \<open>git_index\<close> the index of the repository, whatever git makes of it.
\<close>

record 'g tcb =
  repo :: tree
  next_temp :: ustr
  tcb_faults :: "nat option list"
  git_index :: 'g

type_synonym ('g, 'a) tcb_op = "('g tcb, 'a) op"

definition sees :: "(tree \<Rightarrow> 'a res) \<Rightarrow> ('g, 'a) tcb_op" where
  "sees f s = (f (repo s), s)"

definition fs_call :: "(nat option \<Rightarrow> tree \<Rightarrow> tree) \<Rightarrow> ('g, unit) tcb_op" where
  "fs_call f s =
     (case tcb_faults s of
        Some n # rest \<Rightarrow> (Inl (Exn OSError ''call''), s\<lparr>repo := f (Some n) (repo s), tcb_faults := rest\<rparr>)
      | _ \<Rightarrow> (Inr (), s\<lparr>repo := f None (repo s), tcb_faults := tl (tcb_faults s)\<rparr>))"

definition effect :: "(tree \<Rightarrow> tree) \<Rightarrow> ('g, unit) tcb_op" where
  "effect f = fs_call (\<lambda>fault t. if fault = None then f t else t)"

text \<open>\<^verbatim>\<open>try: m finally: h\<close>\<close>

definition sfinally :: "('w, 'a) op \<Rightarrow> ('w, unit) op \<Rightarrow> ('w, 'a) op" where
  "sfinally m h s = (case m s of (r, s') \<Rightarrow> (case h s' of (Inl e, s'') \<Rightarrow> (Inl e, s'') | (Inr u, s'') \<Rightarrow> (r, s'')))"

definition json_text :: "pydict \<Rightarrow> bytes" where
  "json_text d = dump_pretty (PDict d) @ [CHR 0x0A]"

definition mkstemp :: "('g, ustr) tcb_op" where
  "mkstemp s =
     (if repo s (next_temp s) \<noteq> None then (Inl (Exn FileExistsError ''mkstemp''), s)
      else sbind (effect (\<lambda>t. t(next_temp s \<mapsto> Regular []))) (\<lambda>_. sret (next_temp s)) s)"

definition write_temp :: "ustr \<Rightarrow> bytes \<Rightarrow> ('g, unit) tcb_op" where
  "write_temp temporary data =
     fs_call (\<lambda>fault t. t(temporary \<mapsto> Regular (case fault of None \<Rightarrow> data | Some n \<Rightarrow> take n data)))"

definition replace_file :: "ustr \<Rightarrow> ustr \<Rightarrow> ('g, unit) tcb_op" where
  "replace_file temporary target = effect (\<lambda>t. if temporary = target then t else (t(target := t temporary))(temporary := None))"

definition remove_temp :: "ustr \<Rightarrow> ('g, unit) tcb_op" where
  "remove_temp temporary s =
     (if repo s temporary \<noteq> None then effect (\<lambda>t. t(temporary := None)) s else (Inr (), s))"

text \<open>Making the directory and the temporary file, the write with its fsync, and the replacement.\<close>

definition atomic_write :: "ustr \<Rightarrow> bytes \<Rightarrow> ('g, unit) tcb_op" where
  "atomic_write target data =
     sbind (effect (\<lambda>t. t)) (\<lambda>_.
     sbind mkstemp (\<lambda>temporary.
     sfinally (sbind (write_temp temporary data) (\<lambda>_. replace_file temporary target)) (remove_temp temporary)))"

definition atomic_write_state :: "pydict \<Rightarrow> ('g, unit) tcb_op" where
  "atomic_write_state state = atomic_write STATE_PATH (json_text state)"

definition advanced :: "platform \<Rightarrow> pydict \<Rightarrow> pydict" where
  "advanced E state =
     (let d = dset (dset (dset state ''phases_done'' (PList [pstr ''F00''])) ''phase'' (pstr ''DONE'')) ''attempts'' (PInt 0)
      in dset d ''hash'' (PStr (compute_state_hash E d)))"

definition advance_state :: "platform \<Rightarrow> ustr \<Rightarrow> ('g, pydict) tcb_op" where
  "advance_state E anchor =
     sbind (sees (verify_protected_tree E anchor)) (\<lambda>_.
     sbind (sees (verify_state E)) (\<lambda>state.
     if dval state ''phase'' \<noteq> pstr ''F00'' then sraise (Exn RuntimeError ''Cannot advance phase'')
     else sbind (atomic_write_state (advanced E state)) (\<lambda>_. sees (verify_state E))))"

end
