(* ===== verification/Web.thy ===== *)
theory Web
  imports Html Trust
begin

text \<open>
  \<^verbatim>\<open>runtime/web.py\<close>: the handler of the local web server, from the request line, the headers and the
  body to the response. A handler runs as one operation; the server's threads, its sockets and the
  methods other than GET and POST are the standard library's. An exception that leaves the handler
  closes the connection without a response.
\<close>

section \<open>Requests and responses\<close>

record http_request =
  hr_path :: ustr
  hr_origin :: "ustr option"
  hr_referer :: "ustr option"
  hr_length :: "ustr option"
  hr_body :: bytes

record http_response =
  rs_status :: nat
  rs_content_type :: string
  rs_body :: bytes

text \<open>
  The address the server is bound to, the class name of an exception, numerals outside ASCII, whether
  a symbolic link in a directory leads to a regular file, and the regular files behind a link.
\<close>

record web_env =
  server_host :: ustr
  server_port :: int
  class_name :: "exn \<Rightarrow> ustr"
  numerals :: literals
  link_is_file :: "ustr \<Rightarrow> bool"
  linked_files :: "ustr \<Rightarrow> nat res"

definition respond_json :: "pyval \<Rightarrow> nat \<Rightarrow> http_response" where
  "respond_json payload st = \<lparr>rs_status = st, rs_content_type = ''application/json'', rs_body = map char_of (json_dumps payload)\<rparr>"

definition respond_html :: "ustr \<Rightarrow> ustr \<Rightarrow> nat \<Rightarrow> http_response res" where
  "respond_html body title st =
     rmap (\<lambda>encoded. \<lparr>rs_status = st, rs_content_type = ''text/html; charset=utf-8'', rs_body = encoded\<rparr>)
       (utf8_encode (page title body))"

definition default_title :: ustr where
  "default_title = U ''MGK Governance Runtime''"

definition errors_json :: "(string \<times> pyval) list \<Rightarrow> nat \<Rightarrow> http_response" where
  "errors_json members st = respond_json (PDict (mk_dict members)) st"

section \<open>Reading the request\<close>

text \<open>\<^verbatim>\<open>int(text)\<close>: white space around it, a sign, digits with single underscores between them.\<close>

definition int_digits :: "ustr \<Rightarrow> ustr option" where
  "int_digits t =
     (let groups = split_on 95 t in
      if list_all (\<lambda>g. g \<noteq> [] \<and> list_all is_digit g) groups then Some (concat groups) else None)"

definition py_int :: "literals \<Rightarrow> ustr \<Rightarrow> int res" where
  "py_int L text =
     (let t = strip text; signed = (t \<noteq> [] \<and> (hd t = 43 \<or> hd t = 45)); body = (if signed then tl t else t) in
      if \<not> list_all (\<lambda>c. c < 128) t then
        rbind (other_int L t) (\<lambda>v. case v of PInt i \<Rightarrow> Inr i | _ \<Rightarrow> value_err ''invalid literal for int()'')
      else
        (case int_digits body of
           None \<Rightarrow> value_err ''invalid literal for int()''
         | Some ds \<Rightarrow>
             if max_int_digits < length ds then value_err ''integer string conversion''
             else Inr (if signed \<and> hd t = 45 then - int (digits_val ds) else int (digits_val ds))))"

text \<open>
  \<^verbatim>\<open>json.loads\<close> of bytes: the encoding is guessed from the byte order mark or the zero bytes, and
  lone surrogates pass.
\<close>

definition utf8_next_pass :: "bytes \<Rightarrow> (nat \<times> bytes) option" where
  "utf8_next_pass bs =
     (case utf8_next bs of
        Some x \<Rightarrow> Some x
      | None \<Rightarrow>
          (case bs of
             b1 # b2 # b3 # r \<Rightarrow>
               if b1 = CHR 0xED \<and> is_cont b2 \<and> is_cont b3 then Some (0xD000 + cont_bits b2 * 64 + cont_bits b3, r) else None
           | _ \<Rightarrow> None))"

lemma utf8_next_pass_shorter: "utf8_next_pass bs = Some (c, r) \<Longrightarrow> length r < length bs"
  by (auto simp: utf8_next_pass_def split: option.splits list.splits if_splits dest: utf8_next_shorter)

function utf8_pass :: "bytes \<Rightarrow> ustr option" where
  "utf8_pass bs =
     (if bs = [] then Some []
      else case utf8_next_pass bs of None \<Rightarrow> None | Some (c, r) \<Rightarrow> map_option (Cons c) (utf8_pass r))"
  by pat_completeness auto
termination
  by (relation "measure length") (auto dest: utf8_next_pass_shorter)

declare utf8_pass.simps [simp del]

text \<open>Numbers of \<open>n\<close> bytes each; a rest of fewer bytes is an error.\<close>

function byte_units :: "nat \<Rightarrow> bool \<Rightarrow> bytes \<Rightarrow> nat list option" where
  "byte_units n little bs =
     (if bs = [] then Some []
      else if n = 0 \<or> length bs < n then None
      else map_option (Cons (foldl (\<lambda>a b. a * 256 + of_char b) 0 (if little then rev (take n bs) else take n bs)))
             (byte_units n little (drop n bs)))"
  by pat_completeness auto
termination
  by (relation "measure (\<lambda>(n, little, bs). length bs)") auto

declare byte_units.simps [simp del]

fun join_surrogates :: "nat list \<Rightarrow> ustr" where
  "join_surrogates (u # v # us) =
     (if 0xD800 \<le> u \<and> u < 0xDC00 \<and> 0xDC00 \<le> v \<and> v < 0xE000
      then (0x10000 + (u - 0xD800) * 0x400 + (v - 0xDC00)) # join_surrogates us
      else u # join_surrogates (v # us))"
| "join_surrogates us = us"

definition utf16 :: "bool \<Rightarrow> bytes \<Rightarrow> ustr option" where
  "utf16 little bs = map_option join_surrogates (byte_units 2 little bs)"

definition utf32 :: "bool \<Rightarrow> bytes \<Rightarrow> ustr option" where
  "utf32 little bs =
     (case byte_units 4 little bs of
        None \<Rightarrow> None
      | Some us \<Rightarrow> if list_all (\<lambda>u. u \<le> 0x10FFFF) us then Some us else None)"

definition decode_detected :: "bytes \<Rightarrow> ustr option" where
  "decode_detected b =
     (let z = (\<lambda>i. b ! i = CHR 0x00) in
      if startswith b [CHR 0x00, CHR 0x00, CHR 0xFE, CHR 0xFF] then utf32 False (drop 4 b)
      else if startswith b [CHR 0xFF, CHR 0xFE, CHR 0x00, CHR 0x00] then utf32 True (drop 4 b)
      else if startswith b [CHR 0xFE, CHR 0xFF] then utf16 False (drop 2 b)
      else if startswith b [CHR 0xFF, CHR 0xFE] then utf16 True (drop 2 b)
      else if startswith b [CHR 0xEF, CHR 0xBB, CHR 0xBF] then utf8_pass (drop 3 b)
      else if 4 \<le> length b \<and> z 0 then (if z 1 then utf32 False b else utf16 False b)
      else if 4 \<le> length b \<and> z 1 then (if z 2 \<and> z 3 then utf32 True b else utf16 True b)
      else if length b = 2 \<and> z 0 then utf16 False b
      else if length b = 2 \<and> z 1 then utf16 True b
      else utf8_pass b)"

definition loads_bytes :: "bytes \<Rightarrow> pyval res" where
  "loads_bytes b =
     (case decode_detected b of
        None \<Rightarrow> Inl (Exn UnicodeError ''decode'')
      | Some s \<Rightarrow> loads plain_hooks s)"

definition read_body :: "literals \<Rightarrow> http_request \<Rightarrow> pydict res" where
  "read_body L rq =
     rbind (case hr_length rq of None \<Rightarrow> Inr 0 | Some t \<Rightarrow> if t = [] then Inr 0 else py_int L t) (\<lambda>n.
     if n \<le> 0 then Inr []
     else
       (case loads_bytes (take (nat n) (hr_body rq)) of
          Inl e \<Rightarrow> if exn_kind_of e = JSONDecodeError then Inr [] else Inl e
        | Inr (PDict d) \<Rightarrow> Inr d
        | Inr _ \<Rightarrow> Inr []))"

definition own_origin :: "web_env \<Rightarrow> ustr" where
  "own_origin N = U ''http://'' @ server_host N @ U '':'' @ int_str (server_port N)"

definition origin_allowed :: "web_env \<Rightarrow> http_request \<Rightarrow> bool" where
  "origin_allowed N rq =
     (case hr_origin rq of
        Some origin \<Rightarrow> origin = own_origin N
      | None \<Rightarrow> (case hr_referer rq of Some referer \<Rightarrow> startswith referer (own_origin N) | None \<Rightarrow> True))"

text \<open>\<^verbatim>\<open>self.path.split("?", 1)[0]\<close> and \<^verbatim>\<open>s.removeprefix(p)\<close>\<close>

definition url_path :: "http_request \<Rightarrow> ustr" where
  "url_path rq = takeWhile (\<lambda>c. c \<noteq> 63) (hr_path rq)"

definition remove_prefix :: "ustr \<Rightarrow> ustr \<Rightarrow> ustr" where
  "remove_prefix s p = (if startswith s p then drop (length p) s else s)"

section \<open>Pages\<close>

definition status_page :: "platform \<Rightarrow> builtins \<Rightarrow> runtime_bundle \<Rightarrow> http_response run" where
  "status_page E B b =
     sbind (bundle_status E b) (\<lambda>stat.
     sbind (on_index (decisions E)) (\<lambda>ds.
     slift (rbind (status_body B stat ds) (\<lambda>body. respond_html body default_title 200))))"

definition propose_form :: "http_response res" where
  "propose_form = respond_html propose_form_body default_title 200"

fun gate_rows :: "platform \<Rightarrow> pydict list \<Rightarrow> ustr run" where
  "gate_rows E [] = sret []"
| "gate_rows E (row # rows) =
     sbind (slift (case dval row ''request_id'' of PStr r \<Rightarrow> Inr r | _ \<Rightarrow> Inl (Exn TypeError ''binding parameter''))) (\<lambda>rid.
     sbind (on_index (proposal E rid)) (\<lambda>found.
     case found of
       None \<Rightarrow> sraise (Exn TypeError ''NoneType object is not subscriptable'')
     | Some p \<Rightarrow>
         sbind (slift (rbind (escape_value (dval p ''action'')) (\<lambda>_. escape_value (dval p ''resource'')))) (\<lambda>_.
         sbind (slift (join_values (dval row ''reason_codes''))) (\<lambda>codes.
         sbind (gate_rows E rows) (\<lambda>rest.
         sret (gate_row rid (text_of (dval p ''action'')) (text_of (dval p ''resource'')) codes @ rest))))))"

definition human_gate_page :: "platform \<Rightarrow> http_response run" where
  "human_gate_page E =
     sbind (pending E) (\<lambda>rows.
     if rows = [] then slift (respond_html gate_empty default_title 200)
     else sbind (gate_rows E rows) (\<lambda>text. slift (respond_html (gate_body text) default_title 200)))"

definition not_found_page :: "string \<Rightarrow> http_response res" where
  "not_found_page body = respond_html (U body) (U ''404'') 404"

definition decision_page :: "platform \<Rightarrow> ustr \<Rightarrow> http_response run" where
  "decision_page E path =
     (let rid = remove_prefix path (U ''/decision/'') in
      sbind (on_index (proposal E rid)) (\<lambda>found.
      sbind (on_index (decisions E)) (\<lambda>ds.
      let rows = filter (\<lambda>row. dval row ''request_id'' = PStr rid) ds in
      if found = None \<and> rows = [] then slift (not_found_page ''<p>Decision not found.</p>'')
      else
        slift (rbind (case found of None \<Rightarrow> Inr [] | Some p \<Rightarrow> proposal_table p) (\<lambda>table_text.
               rbind (decision_rows rows) (\<lambda>text.
               respond_html (U ''<h2>Proposal '' @ html_escape rid @ U ''</h2>'' @ table_text @ text)
                 (U ''Decision '' @ rid) 200))))))"

fun load_events :: "bytes list \<Rightarrow> pydict list res" where
  "load_events [] = Inr []"
| "load_events (l # ls) =
     rbind (loads_bytes l) (\<lambda>v.
     case v of PDict d \<Rightarrow> rmap (Cons d) (load_events ls) | _ \<Rightarrow> Inl (Exn TypeError ''indices''))"

definition flight_page :: "platform \<Rightarrow> builtins \<Rightarrow> http_response run" where
  "flight_page E B =
     sbind (verify_flight E) (\<lambda>summary.
     sbind (on_flight (sget log_file)) (\<lambda>content.
     case content of
       None \<Rightarrow> sraise (Exn FileNotFoundError ''flight'')
     | Some raw \<Rightarrow>
         slift (rbind (load_events (lines_of raw)) (\<lambda>events.
                rbind (event_rows B (take 200 (rev events))) (\<lambda>rows.
                respond_html (flight_body summary rows) default_title 200)))))"

definition verify_all :: "platform \<Rightarrow> runtime_bundle \<Rightarrow> ((int \<times> ustr) \<times> (int \<times> ustr) \<times> (int \<times> ustr)) run" where
  "verify_all E b =
     sbind (verify_audit E b) (\<lambda>audit.
     sbind (verify_failures E b) (\<lambda>failed.
     sbind (verify_flight E) (\<lambda>events. sret (audit, failed, events))))"

definition is_regular :: "web_env \<Rightarrow> fsnode \<Rightarrow> bool" where
  "is_regular N n = (case n of File data \<Rightarrow> True | Link t \<Rightarrow> link_is_file N t | _ \<Rightarrow> False)"

definition count_in :: "web_env \<Rightarrow> fsnode option \<Rightarrow> nat res" where
  "count_in N n =
     (case n of
        None \<Rightarrow> Inr 0
      | Some (Dir m) \<Rightarrow> Inr (card {p. \<exists>x. m p = Some x \<and> is_regular N x})
      | Some (Link t) \<Rightarrow> linked_files N t
      | Some _ \<Rightarrow> Inl (Exn OSError ''not a directory''))"

definition count_files :: "web_env \<Rightarrow> ustr run" where
  "count_files N =
     sbind (on_kernel (on_files (sget (\<lambda>s. (node_at s [U ''files''], node_at s [U ''records'']))))) (\<lambda>(fs, rs).
     slift (rbind (count_in N fs) (\<lambda>f. rmap (counted_text f) (count_in N rs))))"

definition evidence_page :: "platform \<Rightarrow> builtins \<Rightarrow> web_env \<Rightarrow> runtime_bundle \<Rightarrow> http_response run" where
  "evidence_page E B N b =
     sbind (scatch any_exn (\<lambda>e. sret (Inl e)) (sbind (verify_all E b) (\<lambda>v. sret (Inr v)))) (\<lambda>verified.
     case verified of
       Inl e \<Rightarrow>
         slift (respond_html (integrity_failure_body (class_name N e) (str_exn B e))
           (U ''Evidence '' @ [8212] @ U '' integrity failure'') 500)
     | Inr (audit, failed, events) \<Rightarrow>
         sbind (bundle_status E b) (\<lambda>stat.
         sbind (slift (field B stat ''epoch'')) (\<lambda>epoch.
         sbind (slift (field B stat ''nonce_count'')) (\<lambda>nonces.
         sbind (slift (rbind (subscript (PDict (b_identity b)) ''authority'') (py_str B))) (\<lambda>auth.
         sbind (count_files N) (\<lambda>counted.
         slift (respond_html (evidence_body audit failed events epoch nonces auth counted) default_title 200)))))))"

definition chain_json :: "int \<times> ustr \<Rightarrow> pyval" where
  "chain_json c = PDict (mk_dict [(''count'', PInt (fst c)), (''head'', PStr (snd c))])"

definition evidence_json :: "platform \<Rightarrow> web_env \<Rightarrow> runtime_bundle \<Rightarrow> http_response run" where
  "evidence_json E N b =
     sbind (scatch any_exn (\<lambda>e. sret (Inl e)) (sbind (verify_all E b) (\<lambda>v. sret (Inr v)))) (\<lambda>verified.
     case verified of
       Inl e \<Rightarrow>
         sret (errors_json [(''state'', pstr (state_value INDETERMINATE)), (''error'', pstr ''integrity verification failed''),
           (''detail'', PStr (class_name N e))] 500)
     | Inr (audit, failed, events) \<Rightarrow>
         sbind (bundle_status E b) (\<lambda>stat.
         sret (errors_json [(''audit'', chain_json audit), (''failures'', chain_json failed),
           (''flight'', chain_json events), (''status'', PDict stat)] 200)))"

section \<open>Routes\<close>

definition do_GET :: "platform \<Rightarrow> builtins \<Rightarrow> web_env \<Rightarrow> runtime_bundle \<Rightarrow> http_request \<Rightarrow> http_response run" where
  "do_GET E B N b rq =
     (let path = url_path rq in
      if path = U ''/'' \<or> path = U ''/api/status'' then status_page E B b
      else if path = U ''/propose'' then slift propose_form
      else if path = U ''/human-gate'' then human_gate_page E
      else if path = U ''/flight-recorder'' then flight_page E B
      else if path = U ''/evidence'' then evidence_page E B N b
      else if path = U ''/api/evidence'' then evidence_json E N b
      else if path = U ''/api/health'' then
        sret (errors_json [(''status'', pstr ''ok''), (''version'', pstr ''0.3.0'')] 200)
      else if startswith path (U ''/decision/'') then decision_page E path
      else slift (not_found_page ''<p>Not found. Try <a href='/'>/</a>.</p>''))"

definition internal_failure :: http_response where
  "internal_failure = errors_json [(''state'', pstr (state_value INDETERMINATE)), (''error'', pstr ''internal failure'')] 500"

text \<open>A decision of the pipeline, or the answer to whatever it raised.\<close>

definition answer_decision :: "decision run \<Rightarrow> http_response run" where
  "answer_decision m =
     sbind (scatch any_exn (\<lambda>_. sret None) (sbind m (\<lambda>d. sret (Some d)))) (\<lambda>answer.
     case answer of None \<Rightarrow> sret internal_failure | Some d \<Rightarrow> sret (respond_json (PDict (to_dict d)) 200))"

definition api_propose :: "platform \<Rightarrow> builtins \<Rightarrow> web_env \<Rightarrow> runtime_bundle \<Rightarrow> http_request \<Rightarrow> http_response run" where
  "api_propose E B N b rq =
     sbind (slift (read_body (numerals N) rq)) (\<lambda>req.
     case validate_actuation req of
       Inl e \<Rightarrow>
         if is_value_error e then sret (errors_json [(''state'', pstr ''DENY''), (''error'', PStr (str_exn B e))] 400)
         else sraise e
     | Inr _ \<Rightarrow> answer_decision (propose E B (b_pipeline b) req))"

definition api_human :: "platform \<Rightarrow> builtins \<Rightarrow> web_env \<Rightarrow> runtime_bundle \<Rightarrow> ustr \<Rightarrow> http_request \<Rightarrow> http_response run" where
  "api_human E B N b path rq =
     (let rest = remove_prefix path (U ''/api/human-gate/'') in
      if 47 \<in> set rest then sret (errors_json [(''error'', pstr ''not found'')] 404)
      else
        sbind (slift (read_body (numerals N) rq)) (\<lambda>body.
        let choice = dval body ''decision''; operator = override body ''operator'' (pstr ''operator'') in
        if \<not> hashable choice then sraise (Exn TypeError ''unhashable type'')
        else if choice = pstr ''APPROVE'' then answer_decision (human_approve E B (b_pipeline b) rest operator)
        else if choice = pstr ''DENY'' then answer_decision (human_deny E B (b_pipeline b) rest operator)
        else sret (errors_json [(''error'', pstr ''decision must be APPROVE or DENY'')] 400)))"

definition do_POST :: "platform \<Rightarrow> builtins \<Rightarrow> web_env \<Rightarrow> runtime_bundle \<Rightarrow> http_request \<Rightarrow> http_response run" where
  "do_POST E B N b rq =
     (if \<not> origin_allowed N rq
      then sret (errors_json [(''state'', pstr ''DENY''), (''error'', pstr ''cross-origin request rejected'')] 403)
      else
        let path = url_path rq in
        if path = U ''/api/propose'' then api_propose E B N b rq
        else if startswith path (U ''/api/human-gate/'') then api_human E B N b path rq
        else sret (errors_json [(''error'', pstr ''not found'')] 404))"

end
