(* ===== verification/Trust_Facts.thy ===== *)
theory Trust_Facts
  imports Trust
begin

text \<open>
  What the trust anchor pins down, and the life of the phase state: the two verified states, the one
  step between them, and what interrupted writes leave behind.
\<close>

section \<open>Lines\<close>

lemma splitlines_Nil [simp]: "splitlines [] = []"
  by (simp add: splitlines.simps)

lemma splitlines_line:
  assumes "\<forall>c \<in> set l. \<not> line_break c"
  shows "splitlines (l @ 10 # s) = l # splitlines s"
proof -
  have "takeWhile (\<lambda>c. \<not> line_break c) (l @ 10 # s) = l" "dropWhile (\<lambda>c. \<not> line_break c) (l @ 10 # s) = 10 # s"
    using assms by (simp_all add: takeWhile_append2 dropWhile_append2 line_break_def)
  then show ?thesis by (simp add: splitlines.simps [of "l @ 10 # s"])
qed

lemma splitlines_lines:
  "\<forall>l \<in> set ls. \<forall>c \<in> set l. \<not> line_break c \<Longrightarrow> splitlines (concat (map (\<lambda>l. l @ [10]) ls)) = ls"
  by (induction ls) (simp_all add: splitlines_line)

lemma newlines_id: "13 \<notin> set s \<Longrightarrow> newlines s = s"
  by (induction s rule: newlines.induct) auto

lemma split_once_at: "c \<notin> set a \<Longrightarrow> split_once (c # sep) (a @ c # sep @ b) = Some (a, b)"
  by (induction a) auto

lemma utf8_ascii: "\<forall>c \<in> set s. c < 128 \<Longrightarrow> utf8_decode (map char_of s) = Inr s"
proof -
  assume s: "\<forall>c \<in> set s. c < 128"
  then have "concat (map utf8_char s) = map char_of s" by (induction s) (simp_all add: utf8_char_def)
  moreover have "list_all is_scalar s" using s by (auto simp: list_all_iff is_scalar_def is_surrogate_def)
  ultimately have "utf8_encode s = Inr (map char_of s)" by (simp add: utf8_encode_def)
  then show ?thesis by (rule utf8_decode_encode)
qed

lemma read_text_ascii: "\<forall>c \<in> set s. c < 128 \<and> c \<noteq> 13 \<Longrightarrow> read_text (map char_of s) = Inr s"
  by (subst read_text_def, subst utf8_ascii) (auto intro!: newlines_id)

section \<open>The protected tree\<close>

text \<open>The manifest that a file's content states.\<close>

definition manifest_of :: "bytes \<Rightarrow> manifest res" where
  "manifest_of data =
     rbind (rmap newlines (ascii_decode data)) (\<lambda>text.
     rbind (manifest_lines [] (splitlines text)) (\<lambda>entries.
     if set (map fst entries) \<noteq> set REQUIRED_PROTECTED_PATHS then rt_err ''Root manifest coverage mismatch'' else Inr entries))"

lemma check_protected_ok:
  "check_protected E t entries = Inr () \<longleftrightarrow> (\<forall>(p, h) \<in> set entries. \<exists>data. t p = Some (Regular data) \<and> sha256_hex E data = h)"
  by (induction E t entries rule: check_protected.induct) (auto simp: rt_err_def split: option.splits entry.splits)

lemma load_manifest_ok:
  "load_manifest t = Inr entries \<longleftrightarrow> (\<exists>data. t MANIFEST_PATH = Some (Regular data) \<and> manifest_of data = Inr entries)"
  by (auto simp: load_manifest_def manifest_of_def is_symlink_def is_file_def read_bytes_def rt_err_def
      split: option.splits entry.splits)

lemma verify_protected_ok:
  "verify_protected_tree E anchor t = Inr () \<longleftrightarrow> hex_match 64 anchor \<and> (\<exists>data entries. t MANIFEST_PATH = Some (Regular data)
     \<and> sha256_hex E data = anchor \<and> manifest_of data = Inr entries \<and> check_protected E t entries = Inr ())"
  by (auto simp: verify_protected_tree_def sha256_file_def read_bytes_def load_manifest_ok rt_err_def rbind_eq_Inr_iff rmap_eq_Inr_iff)

lemma manifest_of_paths: "manifest_of data = Inr entries \<Longrightarrow> fst ` set entries = set REQUIRED_PROTECTED_PATHS"
  by (auto simp: manifest_of_def rt_err_def rbind_eq_Inr_iff split: if_splits)

text \<open>
  What the anchor pins down: two trees that verify under one anchor hold one manifest and one content
  at every protected path, unless the two manifests or the two contents at that path are a collision.
\<close>

lemma protected_pinned:
  assumes "verify_protected_tree E anchor t = Inr ()" "verify_protected_tree E anchor t' = Inr ()"
  shows "\<exists>m m'. t MANIFEST_PATH = Some (Regular m) \<and> t' MANIFEST_PATH = Some (Regular m') \<and> (collides E m m' \<or> m = m'
    \<and> (\<forall>p \<in> set REQUIRED_PROTECTED_PATHS. \<exists>x y. t p = Some (Regular x) \<and> t' p = Some (Regular y) \<and> (x = y \<or> collides E x y)))"
proof -
  from assms(1) obtain m es where m: "t MANIFEST_PATH = Some (Regular m)" "sha256_hex E m = anchor" "manifest_of m = Inr es"
    "check_protected E t es = Inr ()" by (auto simp: verify_protected_ok)
  from assms(2) obtain m' es' where m': "t' MANIFEST_PATH = Some (Regular m')" "sha256_hex E m' = anchor" "manifest_of m' = Inr es'"
    "check_protected E t' es' = Inr ()" by (auto simp: verify_protected_ok)
  from m m' have "m = m' \<or> collides E m m'" by (simp flip: same_digest)
  moreover have "\<exists>x y. t p = Some (Regular x) \<and> t' p = Some (Regular y) \<and> (x = y \<or> collides E x y)"
    if "m = m'" "p \<in> set REQUIRED_PROTECTED_PATHS" for p
  proof -
    from that(2) manifest_of_paths [OF m(3)] obtain h where h: "(p, h) \<in> set es" by force
    with m(3,4) m'(3,4) that(1) obtain x y where "t p = Some (Regular x)" "sha256_hex E x = h"
      "t' p = Some (Regular y)" "sha256_hex E y = h"
      by (fastforce simp: check_protected_ok)
    with same_digest [of E x y] show ?thesis by simp
  qed
  ultimately show ?thesis using m(1) m'(1) by blast
qed

section \<open>Writing a file\<close>

text \<open>An atomic write either has replaced the target, or has left it and everything but its temporary file.\<close>

lemma effect_cases:
  assumes "effect f s = (r, s')"
  shows "next_temp s' = next_temp s \<and> git_index s' = git_index s
    \<and> (r = Inr () \<and> repo s' = f (repo s) \<or> (\<exists>e. r = Inl e) \<and> repo s' = repo s)"
  using assms by (auto simp: effect_def fs_call_def split: list.splits option.splits)

lemma write_temp_cases:
  assumes "write_temp p data s = (r, s')"
  shows "next_temp s' = next_temp s \<and> git_index s' = git_index s
    \<and> (r = Inr () \<and> repo s' = (repo s)(p \<mapsto> Regular data) \<or> (\<exists>e n. r = Inl e \<and> repo s' = (repo s)(p \<mapsto> Regular (take n data))))"
  using assms by (auto simp: write_temp_def fs_call_def split: list.splits option.splits)

lemma remove_temp_cases:
  assumes "remove_temp p s = (r, s')"
  shows "next_temp s' = next_temp s \<and> git_index s' = git_index s \<and> (\<forall>q. q \<noteq> p \<longrightarrow> repo s' q = repo s q)
    \<and> (repo s p = None \<longrightarrow> r = Inr () \<and> repo s' = repo s)"
  using assms effect_cases [of "\<lambda>t. t(p := None)" s r s'] by (auto simp: remove_temp_def split: if_splits)

lemma mkstemp_cases:
  assumes "mkstemp s = (r, s')"
  shows "next_temp s' = next_temp s \<and> git_index s' = git_index s
    \<and> (r = Inr (next_temp s) \<and> repo s (next_temp s) = None \<and> repo s' = (repo s)(next_temp s \<mapsto> Regular [])
       \<or> (\<exists>e. r = Inl e) \<and> repo s' = repo s)"
proof (cases "repo s (next_temp s)")
  case None
  with assms have "sbind (effect (\<lambda>t. t(next_temp s \<mapsto> Regular []))) (\<lambda>_. sret (next_temp s)) s = (r, s')"
    by (simp add: mkstemp_def)
  then show ?thesis
    by (cases rule: sbind_cases) (use None in \<open>auto dest!: effect_cases\<close>)
qed (use assms in \<open>auto simp: mkstemp_def\<close>)

lemma write_replace_cases:
  assumes "sbind (write_temp p data) (\<lambda>_. replace_file p target) s = (r, s')" "p \<noteq> target"
  shows "next_temp s' = next_temp s \<and> git_index s' = git_index s \<and> (\<forall>q. q \<noteq> p \<longrightarrow> q \<noteq> target \<longrightarrow> repo s' q = repo s q)
    \<and> (r = Inr () \<and> repo s' = (repo s)(p := None, target \<mapsto> Regular data) \<or> (\<exists>e. r = Inl e) \<and> repo s' target = repo s target)"
  using assms(1)
proof (cases rule: sbind_cases)
  case (err e)
  with write_temp_cases [OF err(1)] assms(2) show ?thesis by auto
next
  case (ok u v)
  have w: "next_temp v = next_temp s" "git_index v = git_index s" "repo v = (repo s)(p \<mapsto> Regular data)"
    using write_temp_cases [OF ok(1)] by auto
  have "next_temp s' = next_temp v \<and> git_index s' = git_index v
    \<and> (r = Inr () \<and> repo s' = ((repo v)(target := repo v p))(p := None) \<or> (\<exists>e. r = Inl e) \<and> repo s' = repo v)"
    using effect_cases [OF ok(2) [unfolded replace_file_def]] assms(2) by simp
  with w assms(2) show ?thesis by (auto simp: fun_upd_twist)
qed

lemma atomic_write_cases:
  assumes run: "atomic_write target data s = (r, s')" and target: "next_temp s = target \<longrightarrow> repo s target \<noteq> None"
  shows "git_index s' = git_index s \<and> (\<forall>p. p \<noteq> target \<longrightarrow> p \<noteq> next_temp s \<longrightarrow> repo s' p = repo s p)
    \<and> (r = Inr () \<and> repo s (next_temp s) = None \<and> repo s' = (repo s)(target \<mapsto> Regular data)
       \<or> (\<exists>e. r = Inl e) \<and> repo s' target = repo s target)"
  using run [unfolded atomic_write_def]
proof (cases rule: sbind_cases)
  case (err e)
  with effect_cases [OF err(1)] show ?thesis by auto
next
  case (ok u v)
  have v: "next_temp v = next_temp s" "git_index v = git_index s" "repo v = repo s" using effect_cases [OF ok(1)] by auto
  from ok(2) show ?thesis
  proof (cases rule: sbind_cases)
    case (err e)
    with mkstemp_cases [OF err(1)] v show ?thesis by auto
  next
    case (ok p v1)
    have p: "p = next_temp s" "repo s p = None" "git_index v1 = git_index s" "repo v1 = (repo s)(p \<mapsto> Regular [])"
      using mkstemp_cases [OF ok(1)] v by auto
    with target have ne: "p \<noteq> target" by auto
    obtain r2 v2 where w: "sbind (write_temp p data) (\<lambda>_. replace_file p target) v1 = (r2, v2)" by fastforce
    obtain r3 v3 where c: "remove_temp p v2 = (r3, v3)" by fastforce
    have s': "s' = v3" "r = r2 \<or> (\<exists>e. r = Inl e \<and> r3 = Inl e)"
      using ok(2) w c by (auto simp: sfinally_def split: sum.splits)
    note W = write_replace_cases [OF w ne] and C = remove_temp_cases [OF c]
    show ?thesis
    proof (cases "r2 = Inr ()")
      case True
      then have t: "repo v2 = (repo s)(p := None, target \<mapsto> Regular data)" using W p(4) by (auto simp: fun_upd_def)
      then have "repo v2 p = None" using ne by simp
      with C have "r3 = Inr ()" "repo v3 = repo v2" by auto
      moreover have "(repo s)(p := None, target \<mapsto> Regular data) = (repo s)(target \<mapsto> Regular data)"
        using p(2) by (simp add: fun_upd_idem)
      moreover have "r = Inr ()"
        using ok(2) w c True calculation(1) by (simp add: sfinally_def)
      ultimately show ?thesis using W C t s'(1) p by auto
    next
      case False
      then have "(\<exists>e. r2 = Inl e) \<and> repo v2 target = repo s target" using W p(4) ne by auto
      moreover have "\<exists>e. r = Inl e" using s'(2) calculation by auto
      ultimately show ?thesis using W C s'(1) p ne by auto
    qed
  qed
qed

section \<open>The phase state\<close>

lemma update_new: "k \<notin> fst ` set d \<Longrightarrow> AList.update k v d = d @ [(k, v)]"
  by (induction d) auto

lemma hooks_ok_plain: "hooks_ok plain_hooks"
proof -
  have "foldl (\<lambda>d (k, v). AList.update (KStr k) v d) acc ps = acc @ map (\<lambda>(k, v). (KStr k, v)) ps"
    if "distinct (map fst ps)" "KStr ` fst ` set ps \<inter> fst ` set acc = {}" for acc and ps :: "(ustr \<times> pyval) list"
    using that
  proof (induction ps arbitrary: acc)
    case (Cons q ps)
    obtain k v where q: "q = (k, v)" by (cases q)
    have "AList.update (KStr k) v acc = acc @ [(KStr k, v)]"
      using Cons.prems(2) q by (intro update_new) simp
    moreover have "KStr ` fst ` set ps \<inter> fst ` set (acc @ [(KStr k, v)]) = {}"
      using Cons.prems q by auto
    ultimately show ?case using Cons q by simp
  qed simp
  then show ?thesis by (simp add: hooks_ok_def plain_hooks_def)
qed

lemma distinct_plain: "on_pairs plain_hooks ps = Inr (PDict d) \<Longrightarrow> distinct (map fst d)"
proof -
  have "distinct (map fst acc) \<Longrightarrow> distinct (map fst (foldl (\<lambda>d (k, v). AList.update (KStr k) v d) acc ps))" for acc :: pydict
    by (induction ps arbitrary: acc) (auto simp: distinct_update)
  moreover assume "on_pairs plain_hooks ps = Inr (PDict d)"
  ultimately show ?thesis by (auto simp: plain_hooks_def)
qed

lemma plain_other:
  "on_float plain_hooks s = Inr (POther (map char_of s))" "on_const plain_hooks s = Inr (POther (map char_of s))"
  by (simp_all add: plain_hooks_def)

lemma junsigned_no_dict: "junsigned plain_hooks neg t \<noteq> Inr (PDict d, r)"
proof (cases t)
  case (Cons c q)
  obtain frac r1 where f: "scan_frac (if c = 48 then q else dropWhile is_digit q) = (frac, r1)" by fastforce
  obtain expo r2 where e: "scan_exp r1 = (expo, r2)" by fastforce
  have if_neq: "(if b then x else y) \<noteq> z" if "x \<noteq> z" "y \<noteq> z" for b and x y z :: "(pyval \<times> ustr) res" using that by simp
  show ?thesis
    unfolding junsigned_def Cons list.case Let_def f e prod.case
    by (intro if_neq) (simp_all only: plain_other jerr_def rbind_Inr sum.simps prod.simps pyval.distinct, simp_all)
qed (simp add: junsigned_def jerr_def)

lemma jnumber_no_dict: "jnumber plain_hooks s \<noteq> Inr (PDict d, r)"
  by (simp add: jnumber_def junsigned_no_dict)

text \<open>A dictionary that the reader returns has no key twice.\<close>

lemma loads_dict_distinct:
  assumes "loads plain_hooks s = Inr (PDict d)"
  shows "distinct (map fst d)"
proof -
  from assms obtain rest where j: "jvalue plain_hooks (Suc (2 * length s + 1)) (skip_ws s) = Inr (PDict d, rest)"
    by (auto simp: loads_def jerr_def rbind_eq_Inr_iff simp del: jvalue.simps split: if_splits)
  obtain c q where s: "skip_ws s = c # q" using j by (cases "skip_ws s") (simp_all add: jerr_def)
  have "c = 123"
  proof (rule ccontr)
    assume "c \<noteq> 123"
    with j s show False
      by (cases "c = 34"; cases "c = 91") (auto simp: rbind_eq_Inr_iff jerr_def jnumber_no_dict plain_other
          simp del: startswith.simps jelems.simps split: if_split_asm list.split_asm)
  qed
  with j s have "\<exists>ps. on_pairs plain_hooks ps = Inr (PDict d)"
    by (auto simp: rbind_eq_Inr_iff jerr_def simp del: jmembers.simps split: list.split_asm if_split_asm)
  then show ?thesis using distinct_plain by blast
qed

text \<open>The members of a dictionary with known keys, in the order in which they are written.\<close>

definition members :: "pydict \<Rightarrow> string list \<Rightarrow> pydict" where
  "members d ks = map (\<lambda>k. (kw k, sort_keys (dval d k))) ks"

lemma sort_members:
  assumes d: "distinct (map fst d)" and keys: "has_keys d ks" and sorted: "sorted (map U ks)" "distinct ks"
  shows "sort_keys (PDict d) = PDict (members d ks)"
proof -
  let ?f = "\<lambda>kv :: pykey \<times> pyval. key_str (fst kv)"
  let ?d = "map (\<lambda>(k, v). (k, sort_keys v)) d"
  have dval: "v = dval d k" if "(kw k, v) \<in> set d" for k v
    using that d by (simp add: dval_def dget_def)
  have fst_d: "fst ` set d = kw ` set ks" using keys by (simp add: has_keys_iff)
  have eq: "set ?d = set (members d ks)"
  proof (intro set_eqI iffI)
    fix kv assume "kv \<in> set ?d"
    then obtain k v where "(k, v) \<in> set d" "kv = (k, sort_keys v)" by auto
    moreover then obtain k' where "k' \<in> set ks" "k = kw k'" using fst_d by force
    ultimately show "kv \<in> set (members d ks)" using dval by (auto simp: members_def)
  next
    fix kv assume "kv \<in> set (members d ks)"
    then obtain k where k: "k \<in> set ks" "kv = (kw k, sort_keys (dval d k))" by (auto simp: members_def)
    then obtain v where "(kw k, v) \<in> set d" using fst_d by (metis (no_types, lifting) image_iff prod.collapse)
    with k dval show "kv \<in> set ?d" by force
  qed
  have dist_m: "distinct (map ?f (members d ks))" using sorted(2) by (simp add: members_def o_def kw_def distinct_map inj_on_def)
  have sort_m: "sorted (map ?f (members d ks))" using sorted(1) by (simp add: members_def o_def kw_def)
  have inj: "inj_on ?f (set ?d)"
  proof (rule inj_onI)
    fix x y assume x: "x \<in> set ?d" and y: "y \<in> set ?d" and xy: "?f x = ?f y"
    from x y eq obtain a b where "fst x = kw a" "fst y = kw b" by (auto simp: members_def)
    with xy have "fst x = fst y" by (simp add: kw_def)
    moreover have "distinct (map fst ?d)" using d by (simp add: o_def case_prod_unfold)
    ultimately show "x = y" using x y by (metis eq_key_imp_eq_value prod.collapse)
  qed
  have "distinct (map fst ?d)" using d by (simp add: o_def case_prod_unfold)
  then have "distinct ?d" by (simp only: distinct_map)
  then have dist_s: "distinct (map ?f (sort_key ?f ?d))"
    using inj by (simp add: distinct_map)
  have "sort_key ?f ?d = members d ks"
    by (rule map_sorted_distinct_set_unique [of ?f]) (use inj eq dist_s dist_m sort_m in \<open>simp_all\<close>)
  then show ?thesis by simp
qed

text \<open>What a verified state says.\<close>

lemma verify_state_ok:
  assumes "verify_state E t = Inr d"
  shows "distinct (map fst d) \<and> has_keys d STATE_KEYS \<and> check_state E d = Inr d"
proof -
  from assms obtain doc v where v: "loads plain_hooks doc = Inr v" "has_names v STATE_KEYS = Inr True"
    "(case v of PDict d \<Rightarrow> check_state E d | _ \<Rightarrow> Inl (Exn TypeError ''indices'')) = Inr d"
    by (auto simp: verify_state_def rbind_eq_Inr_iff rt_err_def split: if_splits)
  from v(3) obtain d' where d': "v = PDict d'" "check_state E d' = Inr d" by (cases v) auto
  moreover from d'(2) have "d' = d" by (auto simp: check_state_def Let_def rt_err_def split: if_splits pyval.splits)
  ultimately show ?thesis using v loads_dict_distinct by (auto simp: has_names_def)
qed

lemma check_state_ok:
  "check_state E d = Inr d \<longleftrightarrow> dval d ''version'' = PInt 1 \<and> (\<exists>n \<ge> 0. dval d ''attempts'' = PInt n)
     \<and> (dval d ''phase'' = pstr ''F00'' \<and> dval d ''phases_done'' = PList []
        \<or> dval d ''phase'' = pstr ''DONE'' \<and> dval d ''phases_done'' = PList [pstr ''F00''])
     \<and> dval d ''hash'' = PStr (compute_state_hash E d)" (is "?L \<longleftrightarrow> ?R")
proof
  assume ?L
  then obtain items where c: "type_is_int (dval d ''version'')" "py_eq_int (dval d ''version'') 1"
    "\<not> (case dval d ''attempts'' of PInt n \<Rightarrow> n < 0 | _ \<Rightarrow> True)" "dval d ''phases_done'' = PList items"
    "map_of expected_done (dval d ''phase'') = Some (PList items)" "dval d ''hash'' = PStr (compute_state_hash E d)"
    by (auto simp: check_state_def Let_def rt_err_def split: if_splits pyval.splits)
  then have "dval d ''version'' = PInt 1" "\<exists>n \<ge> 0. dval d ''attempts'' = PInt n"
    by (auto simp: type_is_int_def split: pyval.splits)
  with c(4-6) show ?R by (auto simp: expected_done_def split: if_splits)
next
  assume ?R
  then show ?L
    by (elim conjE disjE exE) (simp_all add: check_state_def Let_def type_is_int_def expected_done_def is_str_def hashable_def pstr_def)
qed

text \<open>The members of a state are written in one order, so its hash and its text depend only on the values.\<close>

definition WRITTEN :: "string list" where
  "WRITTEN = [''attempts'', ''hash'', ''phase'', ''phases_done'', ''version'']"

lemma sorted_written: "sorted (map U WRITTEN)" "distinct WRITTEN" "sorted (map U (removeAll ''hash'' WRITTEN))"
  by (simp_all add: WRITTEN_def U_def)

lemma has_keys_written: "has_keys d STATE_KEYS \<longleftrightarrow> has_keys d WRITTEN"
  by (auto simp: has_keys_iff STATE_KEYS_def WRITTEN_def)

lemma distinct_dset: "distinct (map fst d) \<Longrightarrow> distinct (map fst (dset d k v))"
  by (simp add: dset_def distinct_update)

lemma dval_dset [simp]: "dval (dset d k v) k' = (if k' = k then v else dval d k')"
  by (simp add: dval_def)

lemma dval_dpop [simp]: "dval (dpop d k) k' = (if k' = k then PNone else dval d k')"
  by (simp add: dval_def)

lemma has_keys_dset: "has_keys d ks \<Longrightarrow> k \<in> set ks \<Longrightarrow> has_keys (dset d k v) ks"
  by (auto simp: has_keys_iff dset_def dom_update)

lemma has_keys_dpop: "has_keys d ks \<Longrightarrow> has_keys (dpop d k) (removeAll k ks)"
proof -
  have "fst ` set (dpop d k) = fst ` set d - {kw k}" by (auto simp: dpop_def)
  moreover assume "has_keys d ks"
  ultimately show ?thesis by (auto simp: has_keys_iff)
qed

lemma distinct_dpop: "distinct (map fst d) \<Longrightarrow> distinct (map fst (dpop d k))"
  by (induction d) (auto simp: dpop_def)

lemma state_hash_members:
  assumes "distinct (map fst d)" "has_keys d WRITTEN"
  shows "compute_state_hash E d = sha256_hex E (map char_of (concat (map ascii_char (dumps
    (PDict (members (dpop d ''hash'') (removeAll ''hash'' WRITTEN)))))))"
  using sort_members [OF distinct_dpop [OF assms(1)] has_keys_dpop [OF assms(2)] sorted_written(3)] sorted_written(2)
  by (simp add: compute_state_hash_def dumps_ascii_def distinct_removeAll)

lemma members_cong: "(\<And>k. k \<in> set ks \<Longrightarrow> dval d k = dval d' k) \<Longrightarrow> members d ks = members d' ks"
  by (simp add: members_def)

section \<open>Documents that are written and read back\<close>

lemma hex_string:
  assumes "list_all is_hex h"
  shows "\<forall>c \<in> set h. 32 \<le> c \<and> c < 127"
  using assms by (auto simp: list_all_iff is_hex_def)

text \<open>Values whose strings hold printable ASCII characters only.\<close>

fun printable :: "pyval \<Rightarrow> bool" where
  "printable (PStr s) = list_all (\<lambda>c. 32 \<le> c \<and> c < 127) s"
| "printable (PList xs) = list_all printable xs"
| "printable (PDict d) = list_all (\<lambda>(k, v). list_all (\<lambda>c. 32 \<le> c \<and> c < 127) (key_str k) \<and> printable v) d"
| "printable (POther t) = False"
| "printable v = True"

definition shown :: "nat \<Rightarrow> bool" where
  "shown c \<longleftrightarrow> c = 10 \<or> 32 \<le> c \<and> c < 127"

lemma shown_json_str: "list_all (\<lambda>c. 32 \<le> c \<and> c < 127) s \<Longrightarrow> \<forall>c \<in> set (json_str s). shown c"
proof (induction s)
  case Nil
  show ?case by (simp add: json_str_def shown_def)
next
  case (Cons c s)
  then have "32 \<le> c" "c < 127" by simp_all
  then have "\<forall>d \<in> set (esc_char c). shown d" by (simp add: esc_char_def shown_def)
  with Cons show ?case by (auto simp: json_str_def)
qed

lemma shown_int: "c \<in> set (int_str i) \<Longrightarrow> shown c"
  by (auto simp: int_str_def shown_def split: if_splits dest!: nat_digits_range)

lemma shown_pad: "\<forall>c \<in> set (pad n). shown c"
  by (simp add: pad_def shown_def)

lemma shown_pretty:
  shows "printable v \<Longrightarrow> \<forall>c \<in> set (pretty n v). shown c"
    and "list_all printable xs \<Longrightarrow> \<forall>c \<in> set (pretty_elems n xs). shown c"
    and "list_all (\<lambda>(k, v). list_all (\<lambda>c. 32 \<le> c \<and> c < 127) (key_str k) \<and> printable v) d \<Longrightarrow> \<forall>c \<in> set (pretty_members n d). shown c"
proof (induction n v and n xs and n d rule: pretty_pretty_elems_pretty_members.induct)
  case (1 n xs)
  then show ?case using shown_pad by (auto simp: U_def shown_def)
next
  case (2 n d)
  then show ?case using shown_pad by (auto simp: U_def shown_def)
next
  case "3_1"
  then show ?case by (simp add: U_def shown_def)
next
  case "3_2"
  then show ?case by (simp add: U_def shown_def)
next
  case "3_3"
  then show ?case using shown_int by simp
next
  case "3_4"
  then show ?case using shown_json_str by simp
next
  case (7 n k x d)
  then show ?case using shown_json_str [of "key_str k"] shown_pad [of n] by (auto simp: U_def shown_def)
qed (use shown_pad in \<open>auto simp: shown_def\<close>)

lemma read_printable:
  assumes "\<forall>c \<in> set s. shown c"
  shows "read_text (map char_of (concat (map ascii_char s)) @ [CHR 0x0A]) = Inr (s @ [10])"
proof -
  have "concat (map ascii_char s) = s" by (rule ascii_id) (use assms in \<open>force simp: shown_def\<close>)
  moreover have "read_text (map char_of (s @ [10])) = Inr (s @ [10])"
    by (rule read_text_ascii) (use assms in \<open>force simp: shown_def\<close>)
  moreover have "CHR 0x0A = char_of (10 :: nat)" by code_simp
  ultimately show ?thesis by (simp only: list.map map_append)
qed

lemma read_json_text:
  assumes "sort_keys (PDict d) = PDict d'" "printable (PDict d')" "json_ok (PDict d')" "read_bytes t p = Inr (json_text d)"
  shows "rbind (read_utf8 t p) (loads plain_hooks) = Inr (PDict d')"
proof -
  have "read_utf8 t p = Inr (pretty 0 (PDict d') @ [10])"
    using assms(1,4) read_printable [OF shown_pretty(1) [OF assms(2)]]
    by (simp add: read_utf8_def json_text_def dump_pretty_def del: pretty.simps)
  then show ?thesis using loads_pretty [OF hooks_ok_plain assms(3)] by simp
qed

text \<open>The two states, at the start of a phase.\<close>

definition phase_doc :: "bool \<Rightarrow> ustr \<Rightarrow> pydict" where
  "phase_doc finished h = mk_dict [(''attempts'', PInt 0), (''hash'', PStr h), (''phase'', pstr (if finished then ''DONE'' else ''F00'')),
     (''phases_done'', PList (if finished then [pstr ''F00''] else [])), (''version'', PInt 1)]"

lemma one_small: "(1 :: int) < 10 ^ max_int_digits"
  by (rule one_less_power) (simp_all add: max_int_digits_def)

lemma json_ok_phase: "json_ok (PDict (phase_doc finished h))"
  using one_small by (simp add: phase_doc_def pstr_def kw_def)

lemma printable_phase: "list_all is_hex h \<Longrightarrow> printable (PDict (phase_doc finished h))"
  using hex_string [of h] by (simp add: phase_doc_def pstr_def kw_def U_def list_all_iff)

lemma verify_phase:
  assumes d: "distinct (map fst d)" "has_keys d WRITTEN" and c: "check_state E d = Inr d"
    and p: "dval d ''phase'' = pstr (if finished then ''DONE'' else ''F00'')"
    and a: "dval d ''attempts'' = PInt 0" and s: "t STATE_PATH = Some (Regular (json_text d))"
  shows "verify_state E t = Inr (phase_doc finished (compute_state_hash E d))"
proof -
  let ?h = "compute_state_hash E d"
  let ?m = "phase_doc finished ?h"
  have vals: "dval d ''version'' = PInt 1" "dval d ''phases_done'' = PList (if finished then [pstr ''F00''] else [])"
    "dval d ''hash'' = PStr ?h"
    using c p by (auto simp: check_state_ok)
  have m: "members d WRITTEN = ?m"
    using vals p a by (simp add: members_def WRITTEN_def phase_doc_def pstr_def)
  have h: "list_all is_hex ?h" by (simp add: compute_state_hash_def sha256_hex_def hex_of_bytes_is_hex)
  have "rbind (read_utf8 t STATE_PATH) (loads plain_hooks) = Inr (PDict ?m)"
    using sort_members [OF d sorted_written(1,2)] m s
    by (intro read_json_text printable_phase h json_ok_phase) (simp_all add: read_bytes_def)
  then obtain doc where doc: "read_utf8 t STATE_PATH = Inr doc" "loads plain_hooks doc = Inr (PDict ?m)"
    by (auto simp: rbind_eq_Inr_iff)
  have k: "has_keys ?m STATE_KEYS" "distinct (map fst ?m)"
    by (simp_all add: phase_doc_def has_keys_iff STATE_KEYS_def insert_commute)
  have "members (dpop ?m ''hash'') (removeAll ''hash'' WRITTEN) = members (dpop d ''hash'') (removeAll ''hash'' WRITTEN)"
    using vals p a by (intro members_cong) (auto simp: WRITTEN_def phase_doc_def pstr_def)
  then have "compute_state_hash E ?m = ?h"
    using state_hash_members [of ?m E] state_hash_members [OF d] k by (simp add: has_keys_written)
  then have "check_state E ?m = Inr ?m"
    unfolding check_state_ok by (simp add: phase_doc_def)
  with k doc show ?thesis by (simp add: verify_state_def has_names_def)
qed

lemma advanced_ok:
  assumes "verify_state E t = Inr d" "dval d ''phase'' = pstr ''F00''"
  shows "distinct (map fst (advanced E d)) \<and> has_keys (advanced E d) WRITTEN \<and> check_state E (advanced E d) = Inr (advanced E d)
    \<and> dval (advanced E d) ''phase'' = pstr ''DONE'' \<and> dval (advanced E d) ''attempts'' = PInt 0"
proof -
  from verify_state_ok [OF assms(1)] have d: "distinct (map fst d)" "has_keys d WRITTEN" "check_state E d = Inr d"
    by (simp_all add: has_keys_written)
  let ?d = "dset (dset (dset d ''phases_done'' (PList [pstr ''F00''])) ''phase'' (pstr ''DONE'')) ''attempts'' (PInt 0)"
  have a: "advanced E d = dset ?d ''hash'' (PStr (compute_state_hash E ?d))" by (simp add: advanced_def Let_def)
  have k: "distinct (map fst ?d)" "has_keys ?d WRITTEN"
    using d(1,2) by (simp_all add: distinct_dset has_keys_dset WRITTEN_def)
  then have k': "distinct (map fst (advanced E d))" "has_keys (advanced E d) WRITTEN"
    by (simp_all add: a distinct_dset has_keys_dset WRITTEN_def)
  have "members (dpop (advanced E d) ''hash'') (removeAll ''hash'' WRITTEN) = members (dpop ?d ''hash'') (removeAll ''hash'' WRITTEN)"
    by (intro members_cong) (auto simp: a)
  then have "compute_state_hash E (advanced E d) = compute_state_hash E ?d"
    by (simp add: state_hash_members [OF k] state_hash_members [OF k'])
  moreover have "dval d ''version'' = PInt 1" using d(3) by (simp add: check_state_ok)
  ultimately have "check_state E (advanced E d) = Inr (advanced E d)"
    unfolding check_state_ok by (simp add: a)
  with k' show ?thesis by (simp add: a)
qed

section \<open>Advancing\<close>

lemma advance_cases:
  assumes run: "advance_state E anchor s = (r, s')"
  shows "git_index s' = git_index s \<and> (\<forall>p. p \<noteq> STATE_PATH \<longrightarrow> p \<noteq> next_temp s \<longrightarrow> repo s' p = repo s p)
    \<and> ((\<exists>d old. r = Inr d \<and> verify_protected_tree E anchor (repo s) = Inr () \<and> verify_state E (repo s) = Inr old
          \<and> dval old ''phase'' = pstr ''F00'' \<and> verify_state E (repo s') = Inr d \<and> d = phase_doc True (compute_state_hash E (advanced E old))
          \<and> repo s' (next_temp s) = None)
       \<or> (\<exists>e. r = Inl e) \<and> repo s' STATE_PATH = repo s STATE_PATH)"
  using run [unfolded advance_state_def]
proof (cases rule: sbind_cases)
  case (err e)
  then show ?thesis by (auto simp: sees_def)
next
  case (ok u v)
  then have v: "v = s" "verify_protected_tree E anchor (repo s) = Inr ()" by (auto simp: sees_def)
  from ok(2) show ?thesis
  proof (cases rule: sbind_cases)
    case (err e)
    with v show ?thesis by (auto simp: sees_def)
  next
    case (ok old v1)
    then have old: "v1 = s" "verify_state E (repo s) = Inr old" using v by (auto simp: sees_def)
    show ?thesis
    proof (cases "dval old ''phase'' = pstr ''F00''")
      case False
      with ok(2) old v show ?thesis by auto
    next
      case True
      with ok(2) old have w: "sbind (atomic_write_state (advanced E old)) (\<lambda>_. sees (verify_state E)) s = (r, s')" by simp
      have st: "repo s STATE_PATH \<noteq> None"
        using old(2) by (cases "repo s STATE_PATH") (auto simp: verify_state_def read_utf8_def read_bytes_def)
      note A = advanced_ok [OF old(2) True]
      from w show ?thesis
      proof (cases rule: sbind_cases)
        case (err e)
        from atomic_write_cases [OF err(1) [unfolded atomic_write_state_def] impI [OF st]] err(2) show ?thesis by auto
      next
        case (ok u v2)
        have r2: "git_index v2 = git_index s" "repo v2 = (repo s)(STATE_PATH \<mapsto> Regular (json_text (advanced E old)))"
          using atomic_write_cases [OF ok(1) [unfolded atomic_write_state_def] impI [OF st]] by auto
        have s': "s' = v2" "r = verify_state E (repo v2)" using ok(2) by (auto simp: sees_def)
        have fresh: "repo s (next_temp s) = None"
          using atomic_write_cases [OF ok(1) [unfolded atomic_write_state_def] impI [OF st]] by auto
        have "verify_state E (repo v2) = Inr (phase_doc True (compute_state_hash E (advanced E old)))"
          using A by (intro verify_phase) (simp_all add: r2)
        with s' r2 v old True fresh st show ?thesis by auto
      qed
    qed
  qed
qed

end
