(* ===== verification/Web_Facts.thy ===== *)
theory Web_Facts
  imports Web Trust_Facts Governance "HOL-Library.Sublist"
begin

text \<open>
  What a request can do: reading changes no store, and a request that changes anything passed the
  check of its headers and went through the pipeline. Text is shown escaped.
\<close>

section \<open>Escaped text\<close>

text \<open>The five entities, decoded as a browser decodes them.\<close>

definition entities :: "(ustr \<times> nat) list" where
  "entities = [(U ''&amp;'', 38), (U ''&lt;'', 60), (U ''&gt;'', 62), (U ''&quot;'', 34), (U ''&#x27;'', 39)]"

function decode_entities :: "ustr \<Rightarrow> ustr" where
  "decode_entities [] = []"
| "decode_entities (c # s) =
     (case find (\<lambda>(e, _). startswith (c # s) e) entities of
        Some (e, d) \<Rightarrow> d # decode_entities (drop (length e - 1) s)
      | None \<Rightarrow> c # decode_entities s)"
  by pat_completeness auto
termination
  by (relation "measure length") auto

lemma escape_Nil [simp]: "html_escape [] = []"
  by (simp add: html_escape_def)

lemma escape_Cons [simp]: "html_escape (c # s) = escape_char c @ html_escape s"
  by (simp add: html_escape_def)

lemma decode_escape: "decode_entities (html_escape s) = s"
proof (induction s)
  case (Cons c s)
  then show ?case
    by (auto simp: escape_char_def entities_def U_def)
qed simp

lemma escape_plain: "c \<in> set (html_escape s) \<Longrightarrow> c \<notin> {60, 62, 34, 39}"
  by (induction s) (auto simp: escape_char_def U_def split: if_splits)

section \<open>Reading changes nothing\<close>

text \<open>Everything is as it was, except which database transactions are still to fail.\<close>

definition undisturbed :: "runtime \<Rightarrow> runtime \<Rightarrow> bool" where
  "undisturbed s s' \<longleftrightarrow> same_db (sec (kernel s)) (sec (kernel s')) \<and> same_tables (index s) (index s')
     \<and> flight_log s' = flight_log s \<and> audit_ledger (kernel s') = audit_ledger (kernel s)
     \<and> failure_ledger (kernel s') = failure_ledger (kernel s) \<and> files (kernel s') = files (kernel s)"

lemma preorder_undisturbed [simp]: "preorder_rel undisturbed"
  using preorder_same_db preorder_same_tables
  by (auto simp: preorder_rel_def reflp_def transp_def undisturbed_def)

lemma same_tables_refl [simp]: "same_tables i i"
  by (simp add: same_tables_def)

lemma undisturbed_basic [keeps_intro]:
  "keeps same_db m \<Longrightarrow> keeps undisturbed (on_kernel (on_sec m))"
  "keeps same_tables i \<Longrightarrow> keeps undisturbed (on_index i)"
  "keeps undisturbed (verify_audit E b)" "keeps undisturbed (verify_failures E b)" "keeps undisturbed (verify_flight E)"
  "keeps undisturbed (on_flight (sget g))" "keeps undisturbed (on_kernel (on_files (sget h)))"
  by (auto simp: keeps_def undisturbed_def on_kernel_def on_sec_def on_index_def on_flight_def on_audit_def on_failures_def
      on_files_def verify_audit_def verify_failures_def verify_flight_def verify_integrity_def flight_verify_integrity_def
      szoom_def sget_def split: prod.splits) (metis snd_conv)+

lemma same_nonce_count [keeps_intro]: "keeps same_db nonce_count"
proof (rule keepsI)
  fix s r s' assume "nonce_count s = (r, s')"
  then show "same_db s s'"
    unfolding nonce_count_def
  proof (cases rule: sbind_cases)
    case (err e)
    then show ?thesis using keepsD [OF same_integrity_check] by blast
  next
    case (ok u s1)
    then have s1: "same_db s s1" "db_header s1 \<noteq> None" using keepsD [OF same_integrity_check ok(1)]
      by (auto simp: integrity_check_ok sound_def)
    have "keeps same_db (\<lambda>s. if db_tables s then (Inr (length (consumed_nonces s)), s) else db_error s)"
      by (simp add: keeps_def db_error_def sraise_def)
    with translate_state [OF ok(2)] with_connect_same s1 same_db_trans show ?thesis by blast
  qed
qed

lemma undisturbed_status [keeps_intro]: "keeps undisturbed (bundle_status E b)"
  unfolding bundle_status_def by (intro keeps_intro preorder_undisturbed)

lemma undisturbed_gate_rows [keeps_intro]: "keeps undisturbed (gate_rows E rows)"
proof (induction rows)
  case Nil
  then show ?case by (simp add: keeps_intro)
next
  case (Cons row rows)
  then show ?case unfolding gate_rows.simps by (intro keeps_intro preorder_undisturbed)
qed

lemma undisturbed_pages [keeps_intro]:
  "keeps undisturbed (status_page E B b)" "keeps undisturbed (human_gate_page E)" "keeps undisturbed (decision_page E path)"
  "keeps undisturbed (flight_page E B)" "keeps undisturbed (verify_all E b)"
  unfolding status_page_def human_gate_page_def pending_def decision_page_def flight_page_def verify_all_def Let_def
  by (intro keeps_intro preorder_undisturbed)+

lemma undisturbed_evidence [keeps_intro]:
  "keeps undisturbed (evidence_page E B N b)" "keeps undisturbed (evidence_json E N b)"
  unfolding evidence_page_def evidence_json_def count_files_def
  by (intro keeps_intro preorder_undisturbed allI impI | simp split: sum.split)+

lemma undisturbed_GET: "keeps undisturbed (do_GET E B N b rq)"
  unfolding do_GET_def Let_def by (intro keeps_intro preorder_undisturbed)


section \<open>Posting\<close>










section \<open>A sample request\<close>





definition demo_choice :: pydict where
  "demo_choice = mk_dict [(''decision'', pstr ''APPROVE''), (''operator'', pstr ''op'')]"

definition demo_env :: web_env where
  "demo_env = \<lparr>server_host = U ''127.0.0.1'', server_port = 8787, class_name = (\<lambda>e. []),
     numerals = \<lparr>other_literal = (\<lambda>_. rt_err ''literal''), other_digit = (\<lambda>_. False), other_int = (\<lambda>_. rt_err ''integer''),
       float_is = (\<lambda>_ _. False), other_same = (\<lambda>_ _. False)\<rparr>,
     link_is_file = (\<lambda>_. False), linked_files = (\<lambda>_. Inr 0)\<rparr>"

definition demo_bundle :: runtime_bundle where
  "demo_bundle = \<lparr>b_pipeline = demo_pipeline default_runtime_policy, b_workdir = U ''/home'', b_identity = []\<rparr>"

definition demo_post :: http_request where
  "demo_post = \<lparr>hr_path = U ''/api/human-gate/r1'', hr_origin = Some (U ''http://127.0.0.1:8787''), hr_referer = None,
     hr_length = Some (U ''999''), hr_body = json_text demo_choice\<rparr>"




definition demo_get :: http_request where
  "demo_get = demo_post\<lparr>hr_path := U ''/api/evidence?x=1'', hr_length := None, hr_body := []\<rparr>"

lemma demo_get_runs:
  obtains s resp s' where "do_GET demo_platform demo_builtins demo_env demo_bundle demo_get s = (Inr resp, s')" and "rs_status resp = 200"
    and "flight_verify demo_platform (flight_log s) = Inr (0, GENESIS_HASH)"
proof -
  obtain e env F where e: "\<forall>La Lf. current_epoch demo_platform (ed_public demo_platform ''k'') (sec (demo_world e La Lf)) = (Inr 1, sec (demo_world e La Lf))"
    and env: "verify_ledger demo_platform (ed_public demo_platform ''a'') (demo_ledger_at env) = Inr (0, GENESIS_HASH)"
    and F: "flight_verify demo_platform F = Inr (0, GENESIS_HASH)"
    by (rule demo_pieces)
  let ?s = "demo_runtime e env F sample_index"
  have k: "audit_ledger (kernel ?s) = demo_ledger_at env" "failure_ledger (kernel ?s) = demo_ledger_at env" "flight_log ?s = F"
    "index ?s = sample_index" "sec (kernel ?s) = sec (demo_world e La Lf)" for La Lf
    by (simp_all add: demo_runtime_def demo_at_def demo_world_def)
  have keys: "audit_key (executor (b_pipeline demo_bundle)) = ed_public demo_platform ''a''"
    "failure_key (executor (b_pipeline demo_bundle)) = ed_public demo_platform ''a''"
    "state_public_key (authority (b_pipeline demo_bundle)) = ed_public demo_platform ''k''"
    by (simp_all add: demo_bundle_def demo_pipeline_def pipeline_init_def demo_executor_def demo_authority_def)
  have va: "verify_all demo_platform demo_bundle ?s = (Inr ((0, GENESIS_HASH), (0, GENESIS_HASH), (0, GENESIS_HASH)), ?s)"
    using env F by (simp add: verify_all_def verify_audit_def verify_failures_def verify_flight_def verify_integrity_def
        flight_verify_integrity_def sbind_def on_kernel_def on_audit_def on_failures_def on_flight_def szoom_def k keys sret_def)
  have "\<exists>stat s'. bundle_status demo_platform demo_bundle ?s = (Inr stat, s')"
  proof -
    have ep: "current_epoch demo_platform (ed_public demo_platform ''k'') (sec (kernel ?s)) = (Inr 1, sec (kernel ?s))"
      using e k(5) by simp
    have snd: "sound (sec (kernel ?s))" "db_faults (sec (kernel ?s)) = []"
      by (simp_all add: demo_runtime_def demo_at_def demo_world_def demo_state_def sound_def)
    then have "integrity_check (sec (kernel ?s)) = (Inr (), next_tx (sec (kernel ?s)))" by (simp add: integrity_check_ok)
    then have "\<exists>n t. nonce_count (sec (kernel ?s)) = (Inr n, t)"
      using snd by (auto simp: nonce_count_def sbind_def with_connect_ok sound_def)
    then obtain n t where nc: "nonce_count (sec (kernel ?s)) = (Inr n, t)" by blast
    obtain ds hs i1 i2 where i: "decisions demo_platform sample_index = (Inr ds, i1)" "human_actions i1 = (Inr hs, i2)"
      by (simp add: decisions_def human_actions_def sbind_def rl_translate_def scatch_def transaction_def sample_index_def sget_def slift_def sret_def)
    show ?thesis
      using ep nc env F i
      by (simp add: bundle_status_def sbind_def on_kernel_def on_sec_def szoom_def keys k verify_audit_def verify_flight_def
          on_audit_def on_flight_def verify_integrity_def flight_verify_integrity_def on_index_def sret_def)
  qed
  then obtain stat s' where st: "bundle_status demo_platform demo_bundle ?s = (Inr stat, s')" by blast
  let ?resp = "errors_json [(''audit'', chain_json (0, GENESIS_HASH)), (''failures'', chain_json (0, GENESIS_HASH)),
           (''flight'', chain_json (0, GENESIS_HASH)), (''status'', PDict stat)] 200"
  have "url_path demo_get = U ''/api/evidence''" by (simp add: url_path_def demo_get_def demo_post_def U_def)
  then have "do_GET demo_platform demo_builtins demo_env demo_bundle demo_get ?s = (Inr ?resp, s')"
    using va st by (simp add: do_GET_def evidence_json_def sbind_def scatch_def sret_def)
  moreover have "rs_status ?resp = 200" by (simp add: errors_json_def respond_json_def)
  moreover have "flight_verify demo_platform (flight_log ?s) = Inr (0, GENESIS_HASH)" unfolding k by (rule F)
  ultimately show thesis by (rule that)
qed

section \<open>Properties\<close>

text \<open>What a page shows of a chain, and of a value.\<close>

definition chain_row :: "string \<Rightarrow> int \<times> ustr \<Rightarrow> ustr" where
  "chain_row label c = U (''<tr><td>'' @ label @ ''</td><td>'') @ int_str (fst c) @ U '' records '' @ [183] @ U '' head <code>''
     @ take 16 (snd c) @ [8230] @ U ''</code></td></tr>''"

definition value_row :: "string \<Rightarrow> ustr \<Rightarrow> ustr" where
  "value_row label v = U (''<tr><td>'' @ label @ ''</td><td>'') @ v @ U ''</td></tr>''"

definition recorder_line :: "int \<times> ustr \<Rightarrow> ustr" where
  "recorder_line c = U ''<p>Records: '' @ int_str (fst c) @ U '' '' @ [183] @ U '' head <code>'' @ take 16 (snd c) @ [8230]
     @ U ''</code> (integrity verified)</p>''"

definition page_shows :: "http_response \<Rightarrow> ustr list \<Rightarrow> bool" where
  "page_shows resp texts \<longleftrightarrow> (\<exists>t. utf8_decode (rs_body resp) = Inr t \<and> (\<forall>x \<in> set texts. sublist x t))"

lemma sublist_concat: "xs \<in> set xss \<Longrightarrow> sublist xs (concat xss)"
  by (auto simp: sublist_def dest!: split_list) blast

lemma shows_concat:
  assumes "respond_html body title st = Inr resp" "body = concat xss" "set texts \<subseteq> set xss"
  shows "page_shows resp texts \<and> rs_status resp = st"
proof -
  have r: "utf8_decode (rs_body resp) = Inr (page title body)" "rs_status resp = st"
    using assms(1) by (auto simp: respond_html_def rmap_eq_Inr_iff utf8_decode_encode)
  have "sublist body (page title body)"
    using sublist_concat [of body "[page_head @ title @ page_style @ title @ U ''</h1>'', body, U ''</body></html>'']"]
    by (simp add: page_def)
  then have "sublist x (page title body)" if "x \<in> set texts" for x
    using that assms(2,3) sublist_concat [of x xss] sublist_order.order_trans by blast
  with r show ?thesis by (auto simp: page_shows_def)
qed

lemma evidence_rows:
  "\<exists>p s. evidence_body audit failed events epoch nonces auth counted = concat [p, chain_row ''Audit ledger'' audit, [10],
     chain_row ''Failure ledger'' failed, [10], chain_row ''Flight recorder'' events, [10], value_row ''Authorization epoch'' epoch, [10],
     value_row ''Consumed nonces (single-use capabilities)'' nonces, s]"
  unfolding evidence_body_def chain_row_def value_row_def chain_summary_def text_lines_def
  by (rule exI [of _ "text_lines ['''', ''<h2>Evidence</h2>'', ''<h3>Integrity</h3>'', ''<table>'', '''']"])
     (simp add: text_lines_def U_def)

lemma recorder_rows: "\<exists>p s. flight_body c rows = concat [p, recorder_line c, s]"
  unfolding flight_body_def recorder_line_def text_lines_def
  by (rule exI [of _ "text_lines ['''', ''<h2>Flight recorder</h2>'', '''']"]) (simp add: text_lines_def U_def)

text \<open>The three chains of a state, each verified under the keys of the bundle.\<close>

definition chains_verified :: "platform \<Rightarrow> runtime_bundle \<Rightarrow> runtime \<Rightarrow> int \<times> ustr \<Rightarrow> int \<times> ustr \<Rightarrow> int \<times> ustr \<Rightarrow> bool" where
  "chains_verified E b s audit failed events \<longleftrightarrow>
     verify_ledger E (audit_key (executor (b_pipeline b))) (audit_ledger (kernel s)) = Inr audit
     \<and> verify_ledger E (failure_key (executor (b_pipeline b))) (failure_ledger (kernel s)) = Inr failed
     \<and> flight_verify E (flight_log s) = Inr events"

lemma verify_all_ok: "verify_all E b s = (Inr (audit, failed, events), s1) \<longleftrightarrow> s1 = s \<and> chains_verified E b s audit failed events"
  by (cases audit; cases failed; cases events) (auto simp: verify_all_def sbind_ok verify_audit_def verify_failures_def verify_flight_def verify_integrity_def
      flight_verify_integrity_def on_run_ok on_ok chains_verified_def)

lemma verified_ok:
  "scatch any_exn (\<lambda>e. sret (Inl e)) (sbind (verify_all E b) (\<lambda>v. sret (Inr v))) s = (Inr (Inr (audit, failed, events)), s1)
     \<longleftrightarrow> s1 = s \<and> chains_verified E b s audit failed events"
  unfolding verify_all_ok [symmetric] by (auto simp: scatch_def sbind_def sret_def split: prod.splits sum.splits)

text \<open>The epoch and the number of consumed nonces that the status is made of.\<close>

lemma bundle_status_ok:
  assumes "bundle_status E b s = (Inr stat, s')"
  obtains epoch nonces where "fst (current_epoch E (state_public_key (authority (b_pipeline b))) (sec (kernel s))) = Inr epoch"
    and "nonces = length (consumed_nonces (sec (kernel s)))"
    and "dget stat ''epoch'' = Some (PInt epoch)" and "dget stat ''nonce_count'' = Some (PInt (int nonces))"
proof -
  from assms obtain epoch s1 n s2 where e: "current_epoch E (state_public_key (authority (b_pipeline b))) (sec (kernel s)) = (Inr epoch, s1)"
    and n: "nonce_count s1 = (Inr n, s2)"
    and st: "dget stat ''epoch'' = Some (PInt epoch)" "dget stat ''nonce_count'' = Some (PInt (int n))"
    by (auto simp: bundle_status_def sbind_ok on_run_ok on_ok split: prod.splits)
  have "consumed_nonces s1 = consumed_nonces (sec (kernel s))" using same_dbD [OF keepsD [OF current_epoch_same e]] by simp
  moreover have "n = length (consumed_nonces s1)"
  proof -
    from n obtain t where t: "sound s1" "t = next_tx s1"
      and c: "with_connect (\<lambda>s. if db_tables s then (Inr (length (consumed_nonces s)), s) else db_error s) t = (Inr n, s2)"
      by (auto simp: nonce_count_def sbind_ok translate_db_def integrity_check_ok scatch_ok state_err_def sraise_def)
    from t have "db_header t \<noteq> None" by (simp add: sound_def)
    with c t(2) show ?thesis by (auto simp: with_connect_ok db_error_def sraise_def split: if_splits)
  qed
  ultimately show thesis using that e st by simp
qed

lemma evidence_json_shown:
  assumes "evidence_json E N b s = (Inr resp, s')" "rs_status resp = 200"
  shows "\<exists>audit failed events stat. chains_verified E b s audit failed events \<and> bundle_status E b s = (Inr stat, s')
    \<and> resp = respond_json (PDict (mk_dict [(''audit'', chain_json audit), (''failures'', chain_json failed),
          (''flight'', chain_json events), (''status'', PDict stat)])) 200"
proof -
  from assms(1) obtain v s1 where 1: "scatch any_exn (\<lambda>e. sret (Inl e)) (sbind (verify_all E b) (\<lambda>v. sret (Inr v))) s = (Inr v, s1)"
    and 2: "(case v of Inl e \<Rightarrow>
         sret (errors_json [(''state'', pstr (state_value INDETERMINATE)), (''error'', pstr ''integrity verification failed''),
           (''detail'', PStr (class_name N e))] 500)
     | Inr (audit, failed, events) \<Rightarrow>
         sbind (bundle_status E b) (\<lambda>stat.
         sret (errors_json [(''audit'', chain_json audit), (''failures'', chain_json failed),
           (''flight'', chain_json events), (''status'', PDict stat)] 200))) s1 = (Inr resp, s')"
    unfolding evidence_json_def sbind_ok by blast
  then obtain audit failed events where v: "v = Inr (audit, failed, events)"
    using assms(2) by (cases v) (auto simp: errors_json_def respond_json_def)
  with 1 have "s1 = s" "chains_verified E b s audit failed events" by (simp_all add: verified_ok)
  moreover from 2 v this(1) obtain stat where "bundle_status E b s = (Inr stat, s')"
    "resp = errors_json [(''audit'', chain_json audit), (''failures'', chain_json failed),
           (''flight'', chain_json events), (''status'', PDict stat)] 200" by (auto simp: sbind_ok)
  ultimately show ?thesis unfolding errors_json_def by blast
qed

lemma evidence_page_shown:
  assumes "evidence_page E B N b s = (Inr resp, s')" "rs_status resp = 200"
  shows "\<exists>audit failed events epoch. chains_verified E b s audit failed events
    \<and> fst (current_epoch E (state_public_key (authority (b_pipeline b))) (sec (kernel s))) = Inr epoch
    \<and> page_shows resp [chain_row ''Audit ledger'' audit, chain_row ''Failure ledger'' failed, chain_row ''Flight recorder'' events,
         value_row ''Authorization epoch'' (int_str epoch),
         value_row ''Consumed nonces (single-use capabilities)'' (int_str (int (length (consumed_nonces (sec (kernel s))))))]"
proof -
  from assms(1) obtain v s1 where 1: "scatch any_exn (\<lambda>e. sret (Inl e)) (sbind (verify_all E b) (\<lambda>v. sret (Inr v))) s = (Inr v, s1)"
    and 2: "(case v of Inl e \<Rightarrow>
         slift (respond_html (integrity_failure_body (class_name N e) (str_exn B e))
           (U ''Evidence '' @ [8212] @ U '' integrity failure'') 500)
     | Inr (audit, failed, events) \<Rightarrow>
         sbind (bundle_status E b) (\<lambda>stat.
         sbind (slift (field B stat ''epoch'')) (\<lambda>epoch.
         sbind (slift (field B stat ''nonce_count'')) (\<lambda>nonces.
         sbind (slift (rbind (subscript (PDict (b_identity b)) ''authority'') (py_str B))) (\<lambda>auth.
         sbind (count_files N) (\<lambda>counted.
         slift (respond_html (evidence_body audit failed events epoch nonces auth counted) default_title 200))))))) s1 = (Inr resp, s')"
    unfolding evidence_page_def sbind_ok by blast
  then obtain audit failed events where v: "v = Inr (audit, failed, events)"
    using assms(2) by (cases v) (auto simp: respond_html_def rmap_eq_Inr_iff slift_def)
  with 1 have s1: "s1 = s" "chains_verified E b s audit failed events" by (simp_all add: verified_ok)
  from 2 v s1 obtain stat s2 epoch nonces auth counted where st: "bundle_status E b s = (Inr stat, s2)"
    and f: "field B stat ''epoch'' = Inr epoch" "field B stat ''nonce_count'' = Inr nonces"
    and r: "respond_html (evidence_body audit failed events epoch nonces auth counted) default_title 200 = Inr resp"
    by (auto simp: sbind_ok slift_def)
  from st obtain n k where n: "fst (current_epoch E (state_public_key (authority (b_pipeline b))) (sec (kernel s))) = Inr n"
    "k = length (consumed_nonces (sec (kernel s)))" "dget stat ''epoch'' = Some (PInt n)" "dget stat ''nonce_count'' = Some (PInt (int k))"
    by (rule bundle_status_ok)
  with f have "epoch = int_str n" "nonces = int_str (int k)" by (simp_all add: field_def py_str_def split: if_splits)
  moreover obtain p q where "evidence_body audit failed events epoch nonces auth counted = concat [p, chain_row ''Audit ledger'' audit, [10],
     chain_row ''Failure ledger'' failed, [10], chain_row ''Flight recorder'' events, [10], value_row ''Authorization epoch'' epoch, [10],
     value_row ''Consumed nonces (single-use capabilities)'' nonces, q]" using evidence_rows by metis
  ultimately have "page_shows resp [chain_row ''Audit ledger'' audit, chain_row ''Failure ledger'' failed, chain_row ''Flight recorder'' events,
         value_row ''Authorization epoch'' (int_str n),
         value_row ''Consumed nonces (single-use capabilities)'' (int_str (int (length (consumed_nonces (sec (kernel s))))))]"
    using n(2) by (intro shows_concat [OF r, THEN conjunct1]) (assumption, simp)
  with s1(2) n(1) show ?thesis by blast
qed

lemma flight_page_shown:
  assumes "flight_page E B s = (Inr resp, s')"
  shows "\<exists>c. flight_verify E (flight_log s) = Inr c \<and> page_shows resp [recorder_line c]"
proof -
  from assms obtain c raw events rows where c: "flight_verify E (flight_log s) = Inr c"
    and r: "respond_html (flight_body c rows) default_title 200 = Inr resp"
    by (auto simp: flight_page_def sbind_ok verify_flight_def flight_verify_integrity_def on_run_ok on_ok slift_def rbind_eq_Inr_iff
        split: option.splits)
  obtain p q where "flight_body c rows = concat [p, recorder_line c, q]" using recorder_rows by metis
  with shows_concat [OF r this, of "[recorder_line c]"] c show ?thesis by auto
qed

text \<open>C22: a GET request changes no store, on any path and whatever fails in it: the resources, both ledgers, the flight recorder,
  the security database and the tables of the runtime ledger are as they were. The evidence, as a document or as a page, is
  answered with 200 only when the audit ledger, the failure ledger and the flight recorder all verify. The document then holds
  their counts and heads and the status of the bundle; the page reads, decoded, with one row for each of the three chains giving
  its count and the first 16 digits of its head, and rows for the current epoch and the number of consumed nonces. The flight
  recorder's page is shown only when the recorder verifies, with its count and head.\<close>

theorem get_changes_nothing:
  assumes run: "do_GET E B N b rq s = (r, s')"
  shows "undisturbed s s'
    \<and> (\<forall>resp. r = Inr resp \<and> rs_status resp = 200 \<longrightarrow>
        (url_path rq = U ''/api/evidence'' \<longrightarrow>
          (\<exists>audit failed events stat. chains_verified E b s audit failed events \<and> bundle_status E b s = (Inr stat, s')
            \<and> resp = respond_json (PDict (mk_dict [(''audit'', chain_json audit), (''failures'', chain_json failed),
                (''flight'', chain_json events), (''status'', PDict stat)])) 200))
        \<and> (url_path rq = U ''/evidence'' \<longrightarrow>
          (\<exists>audit failed events epoch. chains_verified E b s audit failed events
            \<and> fst (current_epoch E (state_public_key (authority (b_pipeline b))) (sec (kernel s))) = Inr epoch
            \<and> page_shows resp [chain_row ''Audit ledger'' audit, chain_row ''Failure ledger'' failed, chain_row ''Flight recorder'' events,
                 value_row ''Authorization epoch'' (int_str epoch),
                 value_row ''Consumed nonces (single-use capabilities)'' (int_str (int (length (consumed_nonces (sec (kernel s))))))]))
        \<and> (url_path rq = U ''/flight-recorder'' \<longrightarrow>
          (\<exists>c. flight_verify E (flight_log s) = Inr c \<and> page_shows resp [recorder_line c])))"
proof (intro conjI allI impI; (elim conjE)?)
  show "undisturbed s s'" by (rule keepsD [OF undisturbed_GET run])
next
  fix resp assume r: "r = Inr resp" "rs_status resp = 200"
  note go = run [unfolded do_GET_def Let_def r(1)]
  show "\<exists>audit failed events stat. chains_verified E b s audit failed events \<and> bundle_status E b s = (Inr stat, s')
      \<and> resp = respond_json (PDict (mk_dict [(''audit'', chain_json audit), (''failures'', chain_json failed),
          (''flight'', chain_json events), (''status'', PDict stat)])) 200" if "url_path rq = U ''/api/evidence''"
    using go that by (intro evidence_json_shown r(2)) simp
  show "\<exists>audit failed events epoch. chains_verified E b s audit failed events
      \<and> fst (current_epoch E (state_public_key (authority (b_pipeline b))) (sec (kernel s))) = Inr epoch
      \<and> page_shows resp [chain_row ''Audit ledger'' audit, chain_row ''Failure ledger'' failed, chain_row ''Flight recorder'' events,
           value_row ''Authorization epoch'' (int_str epoch),
           value_row ''Consumed nonces (single-use capabilities)'' (int_str (int (length (consumed_nonces (sec (kernel s))))))]"
    if "url_path rq = U ''/evidence''"
    using go that by (intro evidence_page_shown r(2)) simp
  show "\<exists>c. flight_verify E (flight_log s) = Inr c \<and> page_shows resp [recorder_line c]" if "url_path rq = U ''/flight-recorder''"
    using go that by (intro flight_page_shown) simp
qed

text \<open>The check of a referer looks at its first characters only, so the page of another host can pass it.\<close>

lemma foreign_referer_passes:
  "origin_allowed demo_env (demo_post\<lparr>hr_origin := None, hr_referer := Some (U ''http://127.0.0.1:8787.example/'')\<rparr>)"
  by (simp add: origin_allowed_def own_origin_def demo_env_def startswith_iff int_str_def nat_digits.simps U_def)



theorem get_changes_nothing_witness:
  "\<exists>s resp s'. do_GET demo_platform demo_builtins demo_env demo_bundle demo_get s = (Inr resp, s') \<and> rs_status resp = 200
     \<and> undisturbed s s' \<and> (\<exists>audit failed. chains_verified demo_platform demo_bundle s audit failed (0, GENESIS_HASH))"
proof -
  obtain s resp s' where r: "do_GET demo_platform demo_builtins demo_env demo_bundle demo_get s = (Inr resp, s')" "rs_status resp = 200"
    "flight_verify demo_platform (flight_log s) = Inr (0, GENESIS_HASH)" by (rule demo_get_runs)
  have u: "url_path demo_get = U ''/api/evidence''" by (simp add: url_path_def demo_get_def demo_post_def U_def)
  from get_changes_nothing [OF r(1)] u r(2) have "undisturbed s s'"
    "\<exists>audit failed events. chains_verified demo_platform demo_bundle s audit failed events" by blast+
  moreover from this(2) r(3) have "\<exists>audit failed. chains_verified demo_platform demo_bundle s audit failed (0, GENESIS_HASH)"
    by (auto simp: chains_verified_def)
  ultimately show ?thesis using r(1,2) by blast
qed

end
