(* ===== verification/Server.thy ===== *)
theory Server
  imports Web
begin

text \<open>
  \<^verbatim>\<open>runtime/server.py\<close>: the life of the server process. \<open>start\<close> spawns it and polls its health, \<open>stop\<close>
  signals it and polls whether it is gone, each until a deadline on a clock that may do anything; the
  loops are partial functions, for which the theory Server_Facts shows that they return. \<open>doctor\<close>
  opens the runtime and checks every store.
\<close>

section \<open>The machine\<close>

text \<open>
  The two files that name the process, and what the operating system answers: the clock (in
  milliseconds) at each reading, the \<open>n\<close>th signal sent, which may depend on the process and the
  signal, the body of the health endpoint at the \<open>n\<close>th probe of a port, each write or removal of one
  of the two files, and the process that is spawned. The machine keeps which signals were sent to
  which process and which ports were probed, oldest first. Reading a file that is there does not fail.
\<close>

datatype kill_answer = Delivered | NoProcess | KillRaises exn

text \<open>A write may fail when the file is opened, or when it is already truncated and some bytes are written.\<close>

datatype file_answer = FileOk | OpenRaises exn | WriteRaises nat exn

record machine =
  dwelling :: home
  pid_file :: "bytes option"
  port_file :: "bytes option"
  file_answers :: "nat \<Rightarrow> file_answer"
  file_calls :: nat
  clock_of :: "nat \<Rightarrow> int"
  readings :: nat
  kill_answers :: "nat \<Rightarrow> int \<Rightarrow> int \<Rightarrow> kill_answer"
  sent :: "(int \<times> int) list"
  health_answers :: "nat \<Rightarrow> int \<Rightarrow> bytes res"
  probed :: "int list"
  spawn_answer :: "int res"

type_synonym 'a machine_op = "(machine, 'a) op"

definition time_ms :: "int machine_op" where
  "time_ms m = (Inr (clock_of m (readings m)), m\<lparr>readings := readings m + 1\<rparr>)"

text \<open>\<^verbatim>\<open>os.kill(pid, signal)\<close>; \<open>NoProcess\<close> is \<^verbatim>\<open>ProcessLookupError\<close>\<close>

definition SIGTERM :: int where
  "SIGTERM = 15"

definition os_kill :: "int \<Rightarrow> int \<Rightarrow> kill_answer machine_op" where
  "os_kill pid signal m = (Inr (kill_answers m (length (sent m)) pid signal), m\<lparr>sent := sent m @ [(pid, signal)]\<rparr>)"

text \<open>\<^verbatim>\<open>urlopen(f"http://127.0.0.1:{port}/api/health")\<close> and reading the response\<close>

definition fetch_health :: "int \<Rightarrow> bytes machine_op" where
  "fetch_health portno m = (health_answers m (length (probed m)) portno, m\<lparr>probed := probed m @ [portno]\<rparr>)"

definition read_number :: "literals \<Rightarrow> (machine \<Rightarrow> bytes option) \<Rightarrow> int machine_op" where
  "read_number L f =
     sbind (sget f) (\<lambda>found.
     case found of
       None \<Rightarrow> sraise (Exn FileNotFoundError ''open'')
     | Some data \<Rightarrow> slift (rbind (read_text data) (py_int L)))"

definition number_line :: "int \<Rightarrow> bytes" where
  "number_line i = map char_of (int_str i @ [10])"

text \<open>\<^verbatim>\<open>path.write_text(data)\<close> and \<^verbatim>\<open>path.unlink(missing_ok=True)\<close> on one of the two files\<close>

type_synonym file_put = "(bytes option \<Rightarrow> bytes option) \<Rightarrow> machine \<Rightarrow> machine"

definition next_file :: "machine \<Rightarrow> machine" where
  "next_file m = m\<lparr>file_calls := file_calls m + 1\<rparr>"

definition write_text :: "file_put \<Rightarrow> bytes \<Rightarrow> unit machine_op" where
  "write_text upd data m =
     (case file_answers m (file_calls m) of
        FileOk \<Rightarrow> (Inr (), upd (\<lambda>_. Some data) (next_file m))
      | OpenRaises e \<Rightarrow> (Inl e, next_file m)
      | WriteRaises n e \<Rightarrow> (Inl e, upd (\<lambda>_. Some (take n data)) (next_file m)))"

definition unlink :: "file_put \<Rightarrow> unit machine_op" where
  "unlink upd m =
     (case file_answers m (file_calls m) of
        FileOk \<Rightarrow> (Inr (), upd (\<lambda>_. None) (next_file m))
      | OpenRaises e \<Rightarrow> (Inl e, next_file m)
      | WriteRaises n e \<Rightarrow> (Inl e, next_file m))"

section \<open>Status\<close>

definition not_running :: pydict where
  "not_running = mk_dict [(''status'', pstr ''not_running'')]"

definition running_at :: "int \<Rightarrow> int \<Rightarrow> pydict" where
  "running_at pid portno = mk_dict [(''status'', pstr ''running''), (''pid'', PInt pid), (''host'', pstr ''127.0.0.1''), (''port'', PInt portno)]"

fun merge_health :: "pydict \<Rightarrow> pydict \<Rightarrow> pydict" where
  "merge_health payload [] = payload"
| "merge_health payload ((k, v) # d) =
     merge_health (if k = kw ''status'' then payload else AList.update k v payload) d"

definition runtime_status :: "literals \<Rightarrow> pydict machine_op" where
  "runtime_status L =
     sbind (sget (\<lambda>m. pid_file m = None \<or> port_file m = None)) (\<lambda>absent.
     if absent then sret not_running
     else
       sbind (read_number L port_file) (\<lambda>port.
       sbind (scatch any_exn (\<lambda>_. sret None)
          (sbind (fetch_health port) (\<lambda>raw. sbind (slift (rbind (utf8_decode raw) (loads plain_hooks))) (\<lambda>v. sret (Some v))))) (\<lambda>health.
       case health of
         None \<Rightarrow> sret (mk_dict [(''status'', pstr ''not_running''), (''port'', PInt port)])
       | Some v \<Rightarrow>
           sbind (read_number L pid_file) (\<lambda>pid.
           case v of
             PDict d \<Rightarrow> sret (merge_health (running_at pid port) d)
           | _ \<Rightarrow> sraise (Exn AttributeError ''items'')))))"

section \<open>Stopping\<close>

text \<open>\<open>None\<close> is a loop that never returns. The sleep between two rounds is part of what the clock does.\<close>

partial_function (option) stop_loop :: "int \<Rightarrow> int \<Rightarrow> machine \<Rightarrow> (unit res \<times> machine) option" where
  "stop_loop pid deadline m =
     (if clock_of m (readings m) < deadline then
        (case os_kill pid 0 (m\<lparr>readings := readings m + 1\<rparr>) of
           (Inr Delivered, m1) \<Rightarrow> stop_loop pid deadline m1
         | (Inr NoProcess, m1) \<Rightarrow> Some (Inr (), m1)
         | (Inr (KillRaises e), m1) \<Rightarrow> Some (Inl e, m1)
         | (Inl e, m1) \<Rightarrow> Some (Inl e, m1))
      else Some (Inr (), m\<lparr>readings := readings m + 1\<rparr>))"

definition send_term :: "int \<Rightarrow> unit machine_op" where
  "send_term pid = sbind (os_kill pid SIGTERM) (\<lambda>a. case a of KillRaises e \<Rightarrow> sraise e | _ \<Rightarrow> sret ())"

definition forget_process :: "unit machine_op" where
  "forget_process = sbind (unlink pid_file_update) (\<lambda>_. unlink port_file_update)"

definition stopped :: pydict where
  "stopped = mk_dict [(''status'', pstr ''stopped'')]"

definition stop :: "literals \<Rightarrow> machine \<Rightarrow> (pydict res \<times> machine) option" where
  "stop L m =
     (if pid_file m = None then Some (Inr not_running, m)
      else
        (case sbind (read_number L pid_file) (\<lambda>pid. sbind (send_term pid) (\<lambda>_. sbind time_ms (\<lambda>now. sret (pid, now)))) m of
           (Inl e, m1) \<Rightarrow> Some (Inl e, m1)
         | (Inr (pid, now), m1) \<Rightarrow>
             (case stop_loop pid (now + 10000) m1 of
                None \<Rightarrow> None
              | Some (Inl e, m2) \<Rightarrow> Some (Inl e, m2)
              | Some (Inr _, m2) \<Rightarrow> Some (sbind forget_process (\<lambda>_. sret stopped) m2))))"

section \<open>Starting\<close>

definition healthy :: "int \<Rightarrow> pydict \<Rightarrow> bool" where
  "healthy pid current \<longleftrightarrow> dval current ''status'' = pstr ''running'' \<and> py_eq_int (dval current ''pid'') pid"

partial_function (option) start_loop :: "literals \<Rightarrow> int \<Rightarrow> int \<Rightarrow> machine \<Rightarrow> (pydict option res \<times> machine) option" where
  "start_loop L pid deadline m =
     (if clock_of m (readings m) < deadline then
        (case runtime_status L (m\<lparr>readings := readings m + 1\<rparr>) of
           (Inl e, m1) \<Rightarrow> Some (Inl e, m1)
         | (Inr current, m1) \<Rightarrow> if healthy pid current then Some (Inr (Some current), m1) else start_loop L pid deadline m1)
      else Some (Inr None, m\<lparr>readings := readings m + 1\<rparr>))"

definition on_dwelling :: "'a home_op \<Rightarrow> 'a machine_op" where
  "on_dwelling = szoom dwelling (\<lambda>h m. m\<lparr>dwelling := h\<rparr>)"

text \<open>\<^verbatim>\<open>subprocess.Popen\<close> with its log file, and the two files that name the process.\<close>

definition spawn_server :: "runtime_config \<Rightarrow> int machine_op" where
  "spawn_server config =
     sbind (\<lambda>m. (spawn_answer m, m)) (\<lambda>pid.
     sbind (write_text pid_file_update (number_line pid)) (\<lambda>_.
     sbind (write_text port_file_update (number_line (port config))) (\<lambda>_.
     sret pid)))"

definition start :: "literals \<Rightarrow> (ustr \<Rightarrow> bool) \<Rightarrow> runtime_config \<Rightarrow> machine \<Rightarrow> (pydict res \<times> machine) option" where
  "start L dir_link config m =
     (case sbind (on_dwelling (ensure_dirs dir_link)) (\<lambda>_. sbind (spawn_server config) (\<lambda>pid. sbind time_ms (\<lambda>now. sret (pid, now)))) m of
        (Inl e, m1) \<Rightarrow> Some (Inl e, m1)
      | (Inr (pid, now), m1) \<Rightarrow>
          (case start_loop L pid (now + 15000) m1 of
             None \<Rightarrow> None
           | Some (Inl e, m2) \<Rightarrow> Some (Inl e, m2)
           | Some (Inr None, m2) \<Rightarrow> Some (Inl (Exn RuntimeError ''runtime failed to become healthy''), m2)
           | Some (Inr (Some health), m2) \<Rightarrow> Some (Inr health, m2)))"

section \<open>The doctor\<close>

text \<open>One check: what it is called, what the finding says, and the step that must not raise.\<close>

type_synonym findings = "(string \<times> bool) list \<times> ustr list"

definition run_check :: "builtins \<Rightarrow> string \<Rightarrow> string \<Rightarrow> 'a home_op \<Rightarrow> findings \<Rightarrow> findings home_op" where
  "run_check B name label m acc =
     (case acc of (checks, found) \<Rightarrow>
        scatch any_exn (\<lambda>e. sret (checks @ [(name, False)], found @ [U label @ str_exn B e]))
          (sbind m (\<lambda>_. sret (checks @ [(name, True)], found))))"

definition verdict_text :: "bool \<Rightarrow> pyval" where
  "verdict_text ok = pstr (if ok then ''PASS'' else ''FAIL'')"

definition doctor_report :: "bool \<Rightarrow> findings \<Rightarrow> pydict" where
  "doctor_report ok acc = mk_dict [(''status'', verdict_text ok),
     (''checks'', PDict (mk_dict (map (\<lambda>(k, b). (k, verdict_text b)) (fst acc)))), (''findings'', PList (map PStr (snd acc)))]"

definition check_actuators :: "findings \<Rightarrow> findings" where
  "check_actuators acc =
     (let ok = length ACTUATOR_ACTIONS = 5 in
      (fst acc @ [(''actuator_registry'', ok)],
       snd acc @ (if ok then [] else [U ''actuator registry does not contain the closed five-actuator set''])))"

definition doctor_stores :: "platform \<Rightarrow> builtins \<Rightarrow> runtime_bundle \<Rightarrow> findings \<Rightarrow> findings home_op" where
  "doctor_stores E B b acc =
     sbind (run_check B ''audit_integrity'' ''audit integrity: '' (on_stores (verify_audit E b)) acc) (\<lambda>acc.
     sbind (run_check B ''failure_ledger_integrity'' ''failure ledger integrity: '' (on_stores (verify_failures E b)) acc) (\<lambda>acc.
     sbind (run_check B ''flight_integrity'' ''flight integrity: '' (on_stores (verify_flight E)) acc) (\<lambda>acc.
     run_check B ''state_integrity'' ''state integrity: '' (on_stores (on_kernel (on_sec integrity_check))) acc)))"

definition doctor :: "platform \<Rightarrow> builtins \<Rightarrow> (ustr \<Rightarrow> bool) \<Rightarrow> runtime_config \<Rightarrow> pydict home_op" where
  "doctor E B dir_link config =
     sbind (ensure_dirs dir_link) (\<lambda>_.
     sbind (sget initialized) (\<lambda>ready.
     let checks = [(''workspace_initialized'', ready)] in
     if \<not> ready then sret (doctor_report False (checks, [U ''runtime workspace is not initialized; run mgk start first'']))
     else
       sbind (scatch any_exn (\<lambda>e. sret (Inl e)) (sbind (create_runtime E config default_runtime_policy) (\<lambda>b. sret (Inr b)))) (\<lambda>opened.
       case opened of
         Inl e \<Rightarrow> sret (doctor_report False (checks @ [(''epoch_initialized'', False)], [U ''runtime state error: '' @ str_exn B e]))
       | Inr b \<Rightarrow>
           sbind (doctor_stores E B b (checks @ [(''epoch_initialized'', True)], [])) (\<lambda>acc.
           let acc = check_actuators acc in
           sret (doctor_report (snd acc = []) acc)))))"

end
