(* ===== verification/Workspace_Facts.thy ===== *)
theory Workspace_Facts
  imports Workspace Trust_Facts Governance
begin

text \<open>The keys of a runtime are generated once: what opening it writes, and what it reads back.\<close>

section \<open>Key files\<close>

lemma paths_differ [simp]: "key_path a \<noteq> pub_path b" "pub_path b \<noteq> key_path a" "key_path a = key_path b \<longleftrightarrow> a = b"
  "pub_path a = pub_path b \<longleftrightarrow> a = b"
proof -
  have "last (key_path a) \<noteq> last (pub_path b)" by (simp add: key_path_def pub_path_def U_def)
  then show "key_path a \<noteq> pub_path b" "pub_path b \<noteq> key_path a" by metis+
qed (simp_all add: key_path_def pub_path_def)

definition keeps_keys :: "home \<Rightarrow> home \<Rightarrow> bool" where
  "keeps_keys h h' \<longleftrightarrow> (\<forall>name raw. key_files h (key_path name) = Some raw \<longrightarrow> key_files h' (key_path name) = Some raw)"

lemma preorder_keeps_keys [simp]: "preorder_rel keeps_keys"
  by (auto simp: preorder_rel_def reflp_def transp_def keeps_keys_def)

lemma keeps_keys_basic [keeps_intro]:
  "keeps keeps_keys (on_stores m)" "keeps keeps_keys (write_identity E name key)" "keeps keeps_keys (load_or_generate_key name)"
proof -
  show "keeps keeps_keys (on_stores m)" "keeps keeps_keys (write_identity E name key)"
    by (auto simp: keeps_def keeps_keys_def on_stores_def szoom_def write_identity_def put_key_file_def smodify_def split: prod.splits)
  show "keeps keeps_keys (load_or_generate_key name)"
    by (auto simp: keeps_def keeps_keys_def load_or_generate_key_def generate_private_key_def write_key_def next_key_fault_def
        put_key_file_def op_defs split: option.splits key_fault.splits list.splits)
qed

lemma keeps_keys_identity [keeps_intro]: "keeps keeps_keys (read_identity name)" "keeps keeps_keys identity_of"
  unfolding identity_of_def read_identity_def by (intro keeps_intro preorder_keeps_keys)+

lemma keeps_keys_open [keeps_intro]: "keeps keeps_keys (open_stores E config p ak uk ok)"
  unfolding open_stores_def Let_def by (intro keeps_intro preorder_keeps_keys)

lemma keeps_keys_create: "keeps keeps_keys (create_runtime E config p)"
  unfolding create_runtime_def by (intro keeps_intro preorder_keeps_keys)

lemma load_key_ok:
  assumes "load_or_generate_key name h = (Inr key, h')" "key_faults h = []"
  shows "key_files h' (key_path name) = Some key \<and> key_faults h' = []
    \<and> (case key_files h (key_path name) of Some raw \<Rightarrow> key = raw \<and> length raw = 32 \<and> h' = h | None \<Rightarrow> key = new_keys h (generated h))"
  using assms
  by (auto simp: load_or_generate_key_def generate_private_key_def write_key_def next_key_fault_def put_key_file_def op_defs
      load_private_key_def split: option.splits if_splits)

text \<open>The keys that a bundle works with.\<close>

definition bundle_keys :: "runtime_bundle \<Rightarrow> bytes \<times> bytes option \<times> bytes option" where
  "bundle_keys b = (private_key (authority (b_pipeline b)), audit_signer (executor (b_pipeline b)), operator_key (b_pipeline b))"

definition wired :: "platform \<Rightarrow> runtime_bundle \<Rightarrow> bool" where
  "wired E b \<longleftrightarrow> (\<exists>ak uk ok. bundle_keys b = (ak, Some uk, Some ok)
     \<and> state_public_key (authority (b_pipeline b)) = ed_public E ak
     \<and> public_key (verifier (executor (b_pipeline b))) = ed_public E ak
     \<and> epoch_public_key (verifier (executor (b_pipeline b))) = ed_public E ak
     \<and> audit_key (executor (b_pipeline b)) = ed_public E uk
     \<and> failure_key (executor (b_pipeline b)) = ed_public E uk \<and> failure_signer (executor (b_pipeline b)) = Some uk)"

lemma open_stores_bundle:
  assumes "open_stores E config p ak uk ok h = (Inr b, h')"
  shows "bundle_keys b = (ak, Some uk, Some ok) \<and> wired E b"
proof -
  from assms obtain A ident where "authority_init (runtime_authority E config p ak) = Inr A"
    and b: "b = \<lparr>b_pipeline = pipeline_init A (runtime_executor E ak uk) p (Some ok), b_workdir = workdir config, b_identity = ident\<rparr>"
    by (auto simp: open_stores_def Let_def sbind_ok)
  then have "A = runtime_authority E config p ak" by (auto simp: authority_init_def rbind_eq_Inr_iff split: if_splits)
  with b show ?thesis
    by (simp add: bundle_keys_def wired_def pipeline_init_def runtime_authority_def runtime_executor_def)
qed

text \<open>Without a failing write, the keys of the bundle are those on disk.\<close>

lemma create_runtime_keys:
  assumes run: "create_runtime E config p h = (Inr b, h')" and f: "key_faults h = []"
  shows "wired E b \<and> (\<exists>ak uk ok. bundle_keys b = (ak, Some uk, Some ok) \<and> key_files h' (key_path (U ''authority'')) = Some ak
    \<and> key_files h' (key_path (U ''audit'')) = Some uk \<and> key_files h' (key_path (U ''operator'')) = Some ok)"
proof -
  from run obtain ak uk ok h1 h2 h3 h4 where k: "load_or_generate_key (U ''authority'') h = (Inr ak, h1)"
    "load_or_generate_key (U ''audit'') h1 = (Inr uk, h2)" "load_or_generate_key (U ''operator'') h2 = (Inr ok, h3)"
    and w: "sbind (write_identity E (U ''authority'') ak) (\<lambda>_. sbind (write_identity E (U ''audit'') uk) (\<lambda>_.
       sbind (write_identity E (U ''operator'') ok) (\<lambda>_. open_stores E config p ak uk ok))) h3 = (Inr b, h')"
    unfolding create_runtime_def sbind_ok [of "load_or_generate_key n" for n] by blast
  have rest: "keeps keeps_keys (sbind (write_identity E (U ''authority'') ak) (\<lambda>_. sbind (write_identity E (U ''audit'') uk) (\<lambda>_.
       sbind (write_identity E (U ''operator'') ok) (\<lambda>_. open_stores E config p ak uk ok))))"
    by (intro keeps_intro preorder_keeps_keys)
  have 1: "key_files h1 (key_path (U ''authority'')) = Some ak" "key_faults h1 = []" using load_key_ok [OF k(1) f] by simp_all
  have 2: "key_files h2 (key_path (U ''audit'')) = Some uk" "key_faults h2 = []" using load_key_ok [OF k(2) 1(2)] by simp_all
  have 3: "key_files h3 (key_path (U ''operator'')) = Some ok" using load_key_ok [OF k(3) 2(2)] by simp
  have s: "keeps_keys h1 h2" "keeps_keys h2 h3" using keepsD [OF keeps_keys_basic(3) k(2)] keepsD [OF keeps_keys_basic(3) k(3)] .
  have t: "keeps_keys h3 h'" by (rule keepsD [OF rest w])
  from w obtain v where "open_stores E config p ak uk ok v = (Inr b, h')" by (auto simp: sbind_ok)
  from open_stores_bundle [OF this] 1 2 3 s t show ?thesis by (simp add: keeps_keys_def)
qed

section \<open>The stores\<close>

definition enrolled :: "security_state \<Rightarrow> bytes \<Rightarrow> bool" where
  "enrolled s raw \<longleftrightarrow> db_header s \<noteq> None \<and> db_tables s \<and> metadata s ''epoch_envelope'' = Some raw"

definition keeps_epoch :: "security_state \<Rightarrow> security_state \<Rightarrow> bool" where
  "keeps_epoch s s' \<longleftrightarrow> (\<forall>raw. enrolled s raw \<longrightarrow> enrolled s' raw)"

lemma preorder_keeps_epoch [simp]: "preorder_rel keeps_epoch"
  by (auto simp: preorder_rel_def reflp_def transp_def keeps_epoch_def)

lemma keeps_epoch_with_connect [keeps_intro]:
  assumes "keeps keeps_epoch m"
  shows "keeps keeps_epoch (with_connect m)"
proof (rule keepsI)
  fix s r s' assume run: "with_connect m s = (r, s')"
  show "keeps_epoch s s'"
  proof (cases "db_header s = None")
    case True
    then show ?thesis by (simp add: keeps_epoch_def enrolled_def)
  next
    case False
    show ?thesis
    proof (cases r)
      case (Inl e)
      with with_connect_err [OF False] run show ?thesis by (fastforce simp: keeps_epoch_def enrolled_def)
    next
      case (Inr x)
      with run have "m (next_tx s) = (Inr x, s')" by (simp add: with_connect_ok [OF False])
      from keepsD [OF assms this] show ?thesis by (simp only: keeps_epoch_def enrolled_def next_tx_simps)
    qed
  qed
qed

lemma keeps_epoch_basic [keeps_intro]:
  "keeps keeps_epoch (select_metadata k)" "keeps keeps_epoch (insert_metadata k v)" "keeps keeps_epoch (state_err msg)"
  by (auto simp: keeps_def keeps_epoch_def enrolled_def select_metadata_def insert_metadata_def state_err_def db_error_def op_defs)

lemma keeps_epoch_translate [keeps_intro]: "keeps keeps_epoch m \<Longrightarrow> keeps keeps_epoch (translate_db t m)"
  unfolding translate_db_def by (intro keeps_intro preorder_keeps_epoch) simp

lemma keeps_epoch_ops [keeps_intro]:
  "keeps keeps_epoch integrity_check" "keeps keeps_epoch (current_epoch E p)" "keeps keeps_epoch (initialize_epoch E n k)"
  "keeps keeps_epoch (state_init n)"
  unfolding integrity_check_def current_epoch_def initialize_epoch_def state_init_def ensure_schema_def
  by (intro keeps_intro preorder_keeps_epoch keeps_smodify; simp add: keeps_epoch_def enrolled_def)+

lemma keeps_epoch_open [keeps_intro]:
  "keeps keeps_epoch (state_of_runtime E key)" "keeps retains (state_of_runtime E key)"
  unfolding state_of_runtime_def by (intro keeps_intro preorder_keeps_epoch preorder_retains)+

text \<open>Files of a ledger that are there stay as they are.\<close>

definition keeps_files :: "ledger \<Rightarrow> ledger \<Rightarrow> bool" where
  "keeps_files L L' \<longleftrightarrow> (log_file L \<noteq> None \<longrightarrow> log_file L' = log_file L) \<and> (checkpoint_file L \<noteq> None \<longrightarrow> checkpoint_file L' = checkpoint_file L)"

lemma keeps_files_init [keeps_intro]: "keeps keeps_files (ledger_init E p k)" "keeps keeps_files (flight_init E)"
proof -
  show "keeps keeps_files (ledger_init E p k)"
  proof (rule keepsI)
    fix L r L' assume "ledger_init E p k L = (r, L')"
    then show "keeps_files L L'"
      by (cases "log_file L = None \<and> checkpoint_file L = None")
        (auto simp: keeps_files_def ledger_init_def sbind_def sget_def slift_def sret_def sraise_def verify_integrity_def audit_err_def
          split: if_splits sum.splits)
  qed
  show "keeps keeps_files (flight_init E)"
  proof (rule keepsI)
    fix L r L' assume "flight_init E L = (r, L')"
    then show "keeps_files L L'"
      by (cases "log_file L = None \<and> checkpoint_file L = None")
        (auto simp: keeps_files_def flight_init_def sbind_def sget_def slift_def sret_def sraise_def flight_verify_integrity_def audit_err_def
          split: if_splits sum.splits)
  qed
qed

text \<open>What an opening of the runtime never loses.\<close>

definition held :: "home \<Rightarrow> home \<Rightarrow> bool" where
  "held h h' \<longleftrightarrow> keeps_keys h h' \<and> keeps_epoch (sec (kernel (stores h))) (sec (kernel (stores h')))
     \<and> retains (sec (kernel (stores h))) (sec (kernel (stores h')))
     \<and> keeps_files (audit_ledger (kernel (stores h))) (audit_ledger (kernel (stores h')))
     \<and> keeps_files (failure_ledger (kernel (stores h))) (failure_ledger (kernel (stores h')))
     \<and> keeps_files (flight_log (stores h)) (flight_log (stores h'))
     \<and> abs_index (index (stores h')) = abs_index (index (stores h))
     \<and> files (kernel (stores h')) = files (kernel (stores h))"

lemma held_refl [simp]: "held h h"
  by (simp add: held_def keeps_keys_def keeps_epoch_def retains_def keeps_files_def)

lemma preorder_held [simp]: "preorder_rel held"
  unfolding preorder_rel_def
proof
  show "reflp held" by (simp add: reflp_def)
  show "transp held"
    unfolding transp_def held_def keeps_keys_def keeps_epoch_def retains_def keeps_files_def by (intro allI impI) simp
qed

lemma held_basic [keeps_intro]:
  "keeps keeps_epoch m \<Longrightarrow> keeps retains m \<Longrightarrow> keeps held (on_stores (on_kernel (on_sec m)))"
  "keeps keeps_files l \<Longrightarrow> keeps held (on_stores (on_kernel (on_audit l)))"
  "keeps keeps_files l \<Longrightarrow> keeps held (on_stores (on_kernel (on_failures l)))"
  "keeps keeps_files l \<Longrightarrow> keeps held (on_stores (on_flight l))"
  "keeps held (on_stores (on_index rl_ensure_schema))"
  "keeps held (write_identity E name key)" "keeps held (load_or_generate_key name)" "keeps held (read_identity name)"
proof -
  have move: "keeps held (on_stores m)" if "\<And>s r s' h. m s = (r, s') \<Longrightarrow> held (h\<lparr>stores := s\<rparr>) (h\<lparr>stores := s'\<rparr>)" for m :: "'x run"
  proof (rule keepsI)
    fix h r h' assume "on_stores m h = (r, h')"
    then obtain s' where "m (stores h) = (r, s')" "h' = h\<lparr>stores := s'\<rparr>" by (auto simp: on_stores_def szoom_eq)
    with that [of "stores h" r s' h] show "held h h'" by simp
  qed
  have eqs: "keeps_keys (h\<lparr>stores := s\<rparr>) (h\<lparr>stores := s'\<rparr>)" "keeps_epoch x x" "retains x x" "keeps_files L L" for h s s' x L
    by (simp_all add: keeps_keys_def keeps_epoch_def retains_def keeps_files_def)
  show "keeps held (on_stores (on_kernel (on_sec m)))" if "keeps keeps_epoch m" "keeps retains m"
    by (rule move) (auto simp: held_def eqs on_run_ok on_ok dest: keepsD [OF that(1)] keepsD [OF that(2)])
  show "keeps held (on_stores (on_kernel (on_audit l)))" if "keeps keeps_files l"
    by (rule move) (auto simp: held_def eqs on_run_ok on_ok dest: keepsD [OF that])
  show "keeps held (on_stores (on_kernel (on_failures l)))" if "keeps keeps_files l"
    by (rule move) (auto simp: held_def eqs on_run_ok on_ok dest: keepsD [OF that])
  show "keeps held (on_stores (on_flight l))" if "keeps keeps_files l"
    by (rule move) (auto simp: held_def eqs on_run_ok on_ok dest: keepsD [OF that])
  show "keeps held (on_stores (on_index rl_ensure_schema))"
    by (rule move) (auto simp: held_def eqs on_run_ok on_ok dest: rl_ensure_schema_abs)
  have "keeps (\<lambda>h h'. stores h' = stores h) (write_identity E name key)" "keeps (\<lambda>h h'. stores h' = stores h) (load_or_generate_key name)"
    "keeps (\<lambda>h h'. stores h' = stores h) (read_identity name)"
    by (auto simp: keeps_def write_identity_def load_or_generate_key_def generate_private_key_def write_key_def next_key_fault_def
        read_identity_def put_key_file_def op_defs split: option.splits key_fault.splits list.splits)
  then show "keeps held (write_identity E name key)" "keeps held (load_or_generate_key name)" "keeps held (read_identity name)"
    using keeps_keys_basic(2,3) keeps_keys_identity(1) unfolding keeps_def held_def by (simp_all add: eqs)
qed

lemma held_create: "keeps held (create_runtime E config p)"
  unfolding create_runtime_def open_stores_def identity_of_def Let_def by (intro keeps_intro preorder_held)


text \<open>The stores that a bundle works with verify.\<close>

definition verified_stores :: "platform \<Rightarrow> runtime_bundle \<Rightarrow> runtime \<Rightarrow> bool" where
  "verified_stores E b s \<longleftrightarrow> is_ok (verify_ledger E (audit_key (executor (b_pipeline b))) (audit_ledger (kernel s)))
     \<and> is_ok (verify_ledger E (failure_key (executor (b_pipeline b))) (failure_ledger (kernel s)))
     \<and> is_ok (flight_verify E (flight_log s)) \<and> sound (sec (kernel s))"

section \<open>A sample home\<close>

definition demo_key :: bytes where
  "demo_key = replicate 32 CHR ''k''"

definition demo_sandbox :: fsys where
  "demo_sandbox = \<lparr>fs_root = Dir (Map.empty(U ''files'' \<mapsto> Dir Map.empty, U ''records'' \<mapsto> Dir Map.empty)), io = []\<rparr>"

definition demo_home :: "(ustr \<Rightarrow> bytes option) \<Rightarrow> bytes \<Rightarrow> ledger \<Rightarrow> ledger \<Rightarrow> home" where
  "demo_home ks raw La F = \<lparr>stores = \<lparr>kernel = (demo_world raw La La)\<lparr>files := demo_sandbox\<rparr>, flight_log = F, index = sample_index\<rparr>,
     key_files = ks, new_keys = (\<lambda>n. demo_key), generated = 0, key_faults = []\<rparr>"

definition demo_config :: runtime_config where
  "demo_config = \<lparr>workdir = U ''/w'', port = 8787, host = U ''127.0.0.1'', ttl_seconds = 60, cfg_epoch = 1\<rparr>"

text \<open>Every key is the sample key or not there yet; the identities in \<open>P\<close> have been written.\<close>

definition demo_fit :: "runtime \<Rightarrow> ustr set \<Rightarrow> home \<Rightarrow> bool" where
  "demo_fit s P h \<longleftrightarrow> stores h = s \<and> key_faults h = [] \<and> new_keys h = (\<lambda>n. demo_key)
     \<and> (\<forall>n. key_files h (key_path n) \<in> {None, Some demo_key})
     \<and> (\<forall>n \<in> P. key_files h (pub_path n) = Some (map char_of (key_id demo_platform (ed_public demo_platform demo_key) @ [10])))"

lemma demo_load:
  assumes "demo_fit s P h"
  obtains h' where "load_or_generate_key name h = (Inr demo_key, h')" "demo_fit s P h'"
proof -
  have l: "length demo_key = 32" by (simp add: demo_key_def)
  from assms have known: "key_files h (key_path name) = None \<or> key_files h (key_path name) = Some demo_key" by (simp add: demo_fit_def)
  have "\<exists>h'. load_or_generate_key name h = (Inr demo_key, h') \<and> demo_fit s P h'"
  proof (cases "key_files h (key_path name)")
    case None
    with assms show ?thesis
      by (auto simp: demo_fit_def load_or_generate_key_def generate_private_key_def write_key_def next_key_fault_def put_key_file_def op_defs)
  next
    case (Some raw)
    with assms known show ?thesis by (simp add: load_or_generate_key_def op_defs load_private_key_def l)
  qed
  then show thesis using that by blast
qed

lemma demo_write_identity:
  assumes "demo_fit s P h"
  obtains h' where "write_identity demo_platform name demo_key h = (Inr (), h')" "demo_fit s (insert name P) h'"
proof -
  from assms have "\<exists>h'. write_identity demo_platform name demo_key h = (Inr (), h') \<and> demo_fit s (insert name P) h'"
    by (auto simp: demo_fit_def write_identity_def put_key_file_def smodify_def)
  then show thesis using that by blast
qed

lemma demo_identity:
  assumes "demo_fit s P h" "{U ''authority'', U ''audit'', U ''operator''} \<subseteq> P"
  obtains ident where "identity_of h = (Inr ident, h)"
proof -
  have pub: "read_text (map char_of (key_id E k @ [10])) = Inr (key_id E k @ [10])" for E k
  proof (rule read_text_ascii)
    have "list_all is_hex (sha256_hex E k)" by (simp add: sha256_hex_def hex_of_bytes_is_hex)
    then show "\<forall>c \<in> set (key_id E k @ [10]). c < 128 \<and> c \<noteq> 13" by (auto simp: key_id_def U_def list_all_iff is_hex_def)
  qed
  from assms have "read_identity name h = (Inr (strip (key_id demo_platform (ed_public demo_platform demo_key) @ [10])), h)"
    if "name \<in> {U ''authority'', U ''audit'', U ''operator''}" for name
    using that pub by (auto simp: read_identity_def op_defs rmap_def demo_fit_def)
  then show thesis using that by (simp add: identity_of_def sbind_def sret_def)
qed

lemma sbind_step: "m s = (Inr x, s') \<Longrightarrow> f x s' = r \<Longrightarrow> sbind m f s = r"
  by (simp add: sbind_def)

lemma demo_open:
  obtains raw La F where "\<And>h. demo_fit (stores (demo_home Map.empty raw La F)) {} h \<Longrightarrow>
    \<exists>b h'. create_runtime demo_platform demo_config default_runtime_policy h = (Inr b, h') \<and> stores h' = stores h
      \<and> verified_stores demo_platform b (stores h')"
proof -
  obtain raw where e: "current_epoch demo_platform (ed_public demo_platform demo_key)
      (demo_state\<lparr>metadata := [''schema_version'' \<mapsto> SCHEMA_VERSION, ''epoch_envelope'' \<mapsto> raw]\<rparr>)
      = (Inr 1, demo_state\<lparr>metadata := [''schema_version'' \<mapsto> SCHEMA_VERSION, ''epoch_envelope'' \<mapsto> raw]\<rparr>)"
    by (rule demo_epoch)
  obtain env where env: "verify_ledger demo_platform (ed_public demo_platform demo_key) (demo_ledger_at env) = Inr (0, GENESIS_HASH)"
    using empty_ledger [OF platform_ok_demo] unfolding demo_ledger_at_def by metis
  obtain F where F: "flight_verify demo_platform F = Inr (0, GENESIS_HASH)" "log_file F \<noteq> None"
    by (rule demo_pieces)
  then have ck: "checkpoint_file F \<noteq> None"
    by (auto simp: flight_verify_def flight_load_checkpoint_def audit_wrap_def rbind_eq_Inr_iff split: option.splits)
  define s where "s = stores (demo_home Map.empty raw (demo_ledger_at env) F)"
  have st: "state_of_runtime demo_platform demo_key (sec (demo_world raw La Lf)) = (Inr (), sec (demo_world raw La Lf))" for La Lf
    using e by (simp add: state_of_runtime_def state_init_def ensure_schema_def translate_db_def with_connect_def select_metadata_def
        op_defs demo_world_def demo_state_def)
  have li: "ledger_init demo_platform (ed_public demo_platform demo_key) p (demo_ledger_at env) = (Inr (0, GENESIS_HASH), demo_ledger_at env)" for p
    using env by (simp add: ledger_init_def op_defs verify_integrity_def) (simp add: demo_ledger_at_def)
  have fi: "flight_init demo_platform F = (Inr (0, GENESIS_HASH), F)"
    using F ck by (auto simp: flight_init_def op_defs flight_verify_integrity_def)
  have rl: "rl_ensure_schema sample_index = (Inr (), sample_index)"
    by (simp add: rl_ensure_schema_def rl_translate_def transaction_def op_defs sample_index_def)
  have au: "authority_init (runtime_authority demo_platform demo_config default_runtime_policy demo_key)
      = Inr (runtime_authority demo_platform demo_config default_runtime_policy demo_key)"
    "validate_policy (effective_policy demo_config default_runtime_policy) = Inr ()"
    by (simp_all add: authority_init_def runtime_authority_def ident_match_def is_alnum_def ident_char_def U_def validate_policy_def
        effective_policy_def default_policy_def demo_config_def default_runtime_policy_def SANDBOX_ACTIONS_def)
  let ?X = "runtime_executor demo_platform demo_key demo_key"
  have keys: "audit_key ?X = ed_public demo_platform demo_key" "failure_key ?X = ed_public demo_platform demo_key"
    by (simp_all add: runtime_executor_def)
  have o: "\<exists>b. open_stores demo_platform demo_config default_runtime_policy demo_key demo_key demo_key h = (Inr b, h)
      \<and> verified_stores demo_platform b s"
    if h: "demo_fit s P h" "{U ''authority'', U ''audit'', U ''operator''} \<subseteq> P" for P h
  proof -
    from h(1) have sh: "stores h = s" by (simp add: demo_fit_def)
    have same: "on_stores (on_kernel (on_sec (state_of_runtime demo_platform demo_key))) h = (Inr (), h)"
      "on_stores (on_kernel (on_audit (ledger_init demo_platform (ed_public demo_platform demo_key) p))) h = (Inr (0, GENESIS_HASH), h)"
      "on_stores (on_kernel (on_failures (ledger_init demo_platform (ed_public demo_platform demo_key) p))) h = (Inr (0, GENESIS_HASH), h)"
      "on_stores (on_flight (flight_init demo_platform)) h = (Inr (0, GENESIS_HASH), h)"
      "on_stores (on_index rl_ensure_schema) h = (Inr (), h)" for p
      using st [of "demo_ledger_at env" "demo_ledger_at env"] li fi rl sh
      by (cases h; simp add: on_stores_def on_kernel_def on_sec_def on_audit_def on_failures_def on_flight_def on_index_def szoom_def
          demo_home_def demo_world_def s_def)+
    have root: "sget (\<lambda>h. fs_root (files (kernel (stores h)))) h = (Inr (fs_root demo_sandbox), h)" "guard_init (fs_root demo_sandbox) = Inr ()"
      by (simp_all add: sget_def sh s_def guard_init_def demo_home_def demo_world_def demo_sandbox_def)
    obtain ident where ident: "identity_of h = (Inr ident, h)" by (rule demo_identity [OF h])
    let ?b = "\<lparr>b_pipeline =
      pipeline_init (runtime_authority demo_platform demo_config default_runtime_policy demo_key) ?X default_runtime_policy (Some demo_key),
      b_workdir = workdir demo_config, b_identity = ident\<rparr>"
    have "open_stores demo_platform demo_config default_runtime_policy demo_key demo_key demo_key h = (Inr ?b, h)"
      unfolding open_stores_def Let_def keys
      apply (rule sbind_step, rule same(1))
      apply (rule sbind_step, rule root(1))
      apply (simp only: root(2) au sbind_simps)
      apply (rule sbind_step, rule same(2))
      apply (rule sbind_step, rule same(3))
      apply (rule sbind_step, rule same(4))
      apply (rule sbind_step, rule same(5))
      apply (rule sbind_step, rule ident)
      apply (simp add: sret_def)
      done
    moreover have "verified_stores demo_platform ?b s"
      using env F by (simp add: verified_stores_def s_def demo_home_def demo_world_def pipeline_init_def keys sound_def demo_state_def)
    ultimately show ?thesis by blast
  qed
  have "\<exists>b h'. create_runtime demo_platform demo_config default_runtime_policy h = (Inr b, h') \<and> stores h' = s
      \<and> verified_stores demo_platform b s" if fit: "demo_fit s {} h" for h
  proof -
    obtain h1 where 1: "load_or_generate_key (U ''authority'') h = (Inr demo_key, h1)" "demo_fit s {} h1" by (rule demo_load [OF fit])
    obtain h2 where 2: "load_or_generate_key (U ''audit'') h1 = (Inr demo_key, h2)" "demo_fit s {} h2" by (rule demo_load [OF 1(2)])
    obtain h3 where 3: "load_or_generate_key (U ''operator'') h2 = (Inr demo_key, h3)" "demo_fit s {} h3" by (rule demo_load [OF 2(2)])
    obtain h4 where 4: "write_identity demo_platform (U ''authority'') demo_key h3 = (Inr (), h4)" "demo_fit s {U ''authority''} h4"
      by (rule demo_write_identity [OF 3(2)])
    obtain h5 where 5: "write_identity demo_platform (U ''audit'') demo_key h4 = (Inr (), h5)" "demo_fit s {U ''audit'', U ''authority''} h5"
      by (rule demo_write_identity [OF 4(2)])
    obtain h6 where 6: "write_identity demo_platform (U ''operator'') demo_key h5 = (Inr (), h6)"
      "demo_fit s {U ''operator'', U ''audit'', U ''authority''} h6"
      by (rule demo_write_identity [OF 5(2)])
    obtain b where b: "open_stores demo_platform demo_config default_runtime_policy demo_key demo_key demo_key h6 = (Inr b, h6)"
      "verified_stores demo_platform b s"
      using o [OF 6(2)] by auto
    have "create_runtime demo_platform demo_config default_runtime_policy h = (Inr b, h6)"
      unfolding create_runtime_def
      by (rule sbind_step, rule 1(1), rule sbind_step, rule 2(1), rule sbind_step, rule 3(1), rule sbind_step, rule 4(1),
          rule sbind_step, rule 5(1), rule sbind_step, rule 6(1), rule b(1))
    with b(2) 6(2) show ?thesis by (auto simp: demo_fit_def)
  qed
  then show thesis using that unfolding s_def by (metis demo_fit_def)
qed

section \<open>Property\<close>

text \<open>C13: opening a runtime, with whatever configuration and policy and however it fails, loses nothing that its home holds: no key
  file changes, nor the signed epoch, nor any consumed nonce; both ledgers and the flight recorder keep their files, the runtime
  ledger keeps its tables and the resources are as they were. When no write of a key file fails, the bundle's authority, verifier,
  security state, ledgers and human gate work with matching halves of the keys on disk, and every later opening of the home, as
  long as the key files are kept, works with the same keys.\<close>

theorem runtime_reopens:
  assumes run: "create_runtime E config p h = (r, h')"
  shows "held h h' \<and> (\<forall>b. r = Inr b \<longrightarrow> key_faults h = [] \<longrightarrow> wired E b
    \<and> (\<forall>config' p' h2 b2 h3. keeps_keys h' h2 \<longrightarrow> key_faults h2 = [] \<longrightarrow> create_runtime E config' p' h2 = (Inr b2, h3)
         \<longrightarrow> bundle_keys b2 = bundle_keys b))"
proof (intro conjI allI impI)
  show "held h h'" by (rule keepsD [OF held_create run])
  fix b assume b: "r = Inr b" "key_faults h = []"
  note first = create_runtime_keys [OF run [unfolded b(1)] b(2)]
  then show "wired E b" by blast
  fix config' p' h2 b2 h3 assume k: "keeps_keys h' h2" and "key_faults h2 = []" and again: "create_runtime E config' p' h2 = (Inr b2, h3)"
  from create_runtime_keys [OF this(3,2)] first keepsD [OF keeps_keys_create again] k show "bundle_keys b2 = bundle_keys b"
    by (auto simp: keeps_keys_def)
qed

theorem runtime_reopens_witness:
  "\<exists>h b h'. create_runtime demo_platform demo_config default_runtime_policy h = (Inr b, h') \<and> key_faults h = [] \<and> wired demo_platform b"
proof -
  obtain raw La F where o: "\<And>h. demo_fit (stores (demo_home Map.empty raw La F)) {} h \<Longrightarrow>
    \<exists>b h'. create_runtime demo_platform demo_config default_runtime_policy h = (Inr b, h') \<and> stores h' = stores h
      \<and> verified_stores demo_platform b (stores h')"
    by (rule demo_open) blast
  let ?h = "demo_home Map.empty raw La F"
  have "demo_fit (stores ?h) {} ?h" by (simp add: demo_fit_def demo_home_def)
  from o [OF this] obtain b h' where c: "create_runtime demo_platform demo_config default_runtime_policy ?h = (Inr b, h')" by blast
  moreover have "key_faults ?h = []" by (simp add: demo_home_def)
  ultimately show ?thesis using runtime_reopens [OF c] by blast
qed

end
