(* ===== verification/Server_Facts.thy ===== *)
theory Server_Facts
  imports Server Workspace_Facts Trust_Facts Web_Facts
begin

text \<open>The polling loops return once the clock has passed their deadline, and what the doctor's PASS means.\<close>

section \<open>Polling\<close>



section \<open>Stopping\<close>










section \<open>Starting\<close>





text \<open>The comparison of the two pids is no check on who answered: a document without a pid passes it.\<close>

lemma any_answer_passes: "\<forall>k v. (k, v) \<in> set doc \<longrightarrow> k \<noteq> kw ''pid'' \<Longrightarrow> healthy pid (merge_health (running_at pid portno) doc)"
proof -
  assume "\<forall>k v. (k, v) \<in> set doc \<longrightarrow> k \<noteq> kw ''pid''"
  then have "dget (merge_health p doc) ''status'' = dget p ''status'' \<and> dget (merge_health p doc) ''pid'' = dget p ''pid''" for p
  proof (induction doc arbitrary: p)
    case (Cons kv doc)
    obtain k v where kv: "kv = (k, v)" by fastforce
    with Cons.prems have "k \<noteq> kw ''pid''" by auto
    with Cons kv show ?case by (auto simp: dget_def update_conv')
  qed simp
  then show ?thesis by (simp add: healthy_def dval_def running_at_def pstr_def py_eq_int_def)
qed








section \<open>The doctor\<close>

lemma run_check_step:
  "\<exists>x s' acc'. m s = (x, s') \<and> run_check B name label m acc s = (Inr acc', s') \<and> (snd acc' = [] \<longrightarrow> snd acc = [] \<and> is_ok x)"
  by (cases "m s"; cases "fst (m s)") (auto simp: run_check_def op_defs split: prod.splits)

lemma store_checks:
  "on_stores (verify_audit E b) h = (x, h') \<longleftrightarrow> h' = h \<and> x = verify_ledger E (audit_key (executor (b_pipeline b))) (audit_ledger (kernel (stores h)))"
  "on_stores (verify_failures E b) h = (y, h') \<longleftrightarrow> h' = h \<and> y = verify_ledger E (failure_key (executor (b_pipeline b))) (failure_ledger (kernel (stores h)))"
  "on_stores (verify_flight E) h = (z, h') \<longleftrightarrow> h' = h \<and> z = flight_verify E (flight_log (stores h))"
  by (auto simp: on_stores_def verify_audit_def verify_failures_def verify_flight_def szoom_eq on_run_ok on_ok verify_integrity_def
      flight_verify_integrity_def)

lemma doctor_stores_facts:
  assumes run: "doctor_stores E B b acc h = (r, h')"
  shows "\<exists>acc'. r = Inr acc' \<and> held h h' \<and> (snd acc' = [] \<longrightarrow> snd acc = [] \<and> verified_stores E b (stores h'))"
proof -
  let ?i = "on_stores (on_kernel (on_sec integrity_check))"
  have i: "keeps held ?i"
    by (rule held_basic(1)) (intro keeps_intro)+
  have kept: "audit_ledger (kernel (stores w')) = audit_ledger (kernel (stores w)) \<and> failure_ledger (kernel (stores w')) = failure_ledger (kernel (stores w))
      \<and> flight_log (stores w') = flight_log (stores w) \<and> (x = Inr () \<longrightarrow> sound (sec (kernel (stores w'))))" if "?i w = (x, w')" for w w' x
    using that by (auto simp: on_stores_def szoom_eq on_run_ok on_ok integrity_check_ok)
  obtain x1 s1 a1 where 1: "on_stores (verify_audit E b) h = (x1, s1)"
    "run_check B ''audit_integrity'' ''audit integrity: '' (on_stores (verify_audit E b)) acc h = (Inr a1, s1)"
    "snd a1 = [] \<longrightarrow> snd acc = [] \<and> is_ok x1"
    using run_check_step by blast
  obtain x2 s2 a2 where 2: "on_stores (verify_failures E b) s1 = (x2, s2)"
    "run_check B ''failure_ledger_integrity'' ''failure ledger integrity: '' (on_stores (verify_failures E b)) a1 s1 = (Inr a2, s2)"
    "snd a2 = [] \<longrightarrow> snd a1 = [] \<and> is_ok x2"
    using run_check_step by blast
  obtain x3 s3 a3 where 3: "on_stores (verify_flight E) s2 = (x3, s3)"
    "run_check B ''flight_integrity'' ''flight integrity: '' (on_stores (verify_flight E)) a2 s2 = (Inr a3, s3)"
    "snd a3 = [] \<longrightarrow> snd a2 = [] \<and> is_ok x3"
    using run_check_step by blast
  obtain x4 s4 a4 where 4: "?i s3 = (x4, s4)"
    "run_check B ''state_integrity'' ''state integrity: '' ?i a3 s3 = (Inr a4, s4)"
    "snd a4 = [] \<longrightarrow> snd a3 = [] \<and> is_ok x4"
    using run_check_step by blast
  have "doctor_stores E B b acc h = (Inr a4, s4)"
    unfolding doctor_stores_def by (rule sbind_step, rule 1(2), rule sbind_step, rule 2(2), rule sbind_step, rule 3(2), rule 4(2))
  with run have r: "r = Inr a4" "h' = s4" by simp_all
  have same: "s1 = h" "s2 = h" "s3 = h" using 1(1) 2(1) 3(1) by (simp_all add: store_checks)
  have "snd acc = [] \<and> verified_stores E b (stores h')" if "snd a4 = []"
    using that 1 2 3 4 kept [OF 4(1)] same r by (auto simp: store_checks verified_stores_def is_ok_iff)
  with keepsD [OF i 4(1)] same r show ?thesis by blast
qed

text \<open>C23: the doctor answers, and what its PASS means. Only preparing the directories can make it raise. When it answers PASS the
  workspace was initialized, the runtime opened over it, and in the home as it is afterwards both ledgers, the flight recorder and
  the security state verify under the keys of that runtime; apart from the directories nothing that the home held is lost.\<close>

theorem doctor_pass:
  assumes run: "doctor E B dir_link config h = (r, h')"
  shows "\<exists>x h0. ensure_dirs dir_link h = (x, h0) \<and> (case r of
      Inl e \<Rightarrow> x = Inl e
    | Inr d \<Rightarrow> x = Inr () \<and> held h0 h' \<and> (dval d ''status'' = pstr ''PASS'' \<longrightarrow> initialized h0
        \<and> (\<exists>b h1. create_runtime E config default_runtime_policy h0 = (Inr b, h1) \<and> verified_stores E b (stores h'))))"
proof -
  obtain x h0 where e: "ensure_dirs dir_link h = (x, h0)" by fastforce
  have fail: "dval (doctor_report False a) ''status'' \<noteq> pstr ''PASS''" for a
    by (simp add: doctor_report_def verdict_text_def dval_def U_def)
  have ok: "dval (doctor_report ok a) ''status'' = pstr ''PASS'' \<longleftrightarrow> ok" for ok a
    by (simp add: doctor_report_def verdict_text_def dval_def U_def)
  show ?thesis
  proof (cases x)
    case (Inl y)
    with e run show ?thesis by (auto simp: doctor_def sbind_def)
  next
    case (Inr u)
    show ?thesis
    proof (cases "initialized h0")
      case False
      with e Inr run fail show ?thesis by (auto simp: doctor_def sbind_def sget_def sret_def Let_def)
    next
      case ready: True
      obtain y h1 where c: "create_runtime E config default_runtime_policy h0 = (y, h1)" by fastforce
      have h1: "held h0 h1" by (rule keepsD [OF held_create c])
      show ?thesis
      proof (cases y)
        case (Inl z)
        with e Inr ready c run h1 fail show ?thesis by (auto simp: doctor_def op_defs Let_def)
      next
        case y: (Inr b)
        let ?acc = "([(''workspace_initialized'', True)] @ [(''epoch_initialized'', True)], []) :: findings"
        obtain z h2 where s: "doctor_stores E B b ?acc h1 = (z, h2)" by fastforce
        from doctor_stores_facts [OF s] obtain acc where acc: "z = Inr acc" "held h1 h2"
          "snd acc = [] \<longrightarrow> verified_stores E b (stores h2)" by auto
        from e Inr ready c y s acc(1) run have r: "r = Inr (doctor_report (snd (check_actuators acc) = []) (check_actuators acc))" "h' = h2"
          by (auto simp: doctor_def op_defs Let_def)
        have "held h0 h2" using h1 acc(2) preorder_held by (metis preorder_rel_def transpD)
        moreover have "snd (check_actuators acc) = [] \<longrightarrow> snd acc = []" by (auto simp: check_actuators_def Let_def split: if_splits)
        ultimately show ?thesis using e Inr ready c y acc r by (auto simp: ok)
      qed
    qed
  qed
qed


theorem doctor_pass_witness:
  "\<exists>h d h'. doctor demo_platform demo_builtins (\<lambda>_. False) demo_config h = (Inr d, h') \<and> dval d ''status'' = pstr ''PASS''
    \<and> (\<exists>b. verified_stores demo_platform b (stores h'))"
proof -
  obtain raw La F where o: "\<And>h. demo_fit (stores (demo_home Map.empty raw La F)) {} h \<Longrightarrow>
    \<exists>b h'. create_runtime demo_platform demo_config default_runtime_policy h = (Inr b, h') \<and> stores h' = stores h
      \<and> verified_stores demo_platform b (stores h')"
    by (rule demo_open) blast
  define h where "h = demo_home (\<lambda>p. Some demo_key) raw La F"
  have "demo_fit (stores (demo_home Map.empty raw La F)) {} h" by (simp add: demo_fit_def demo_home_def h_def)
  from o [OF this] obtain b h1 where c: "create_runtime demo_platform demo_config default_runtime_policy h = (Inr b, h1)"
    and v: "stores h1 = stores h" "verified_stores demo_platform b (stores h1)" by blast
  have e: "ensure_dirs (\<lambda>_. False) h = (Inr (), h)"
    by (simp add: ensure_dirs_def make_dir_def op_defs on_stores_def on_kernel_def on_files_def szoom_def node_at_def h_def
        demo_home_def demo_sandbox_def)
  have ready: "initialized h" by (simp add: initialized_def h_def demo_home_def)
  have i: "integrity_check (sec (kernel (stores h1))) = (Inr (), sec (kernel (stores h1)))"
    using v by (simp add: integrity_check_ok verified_stores_def h_def demo_home_def demo_world_def demo_state_def next_tx_def)
  have s: "doctor_stores demo_platform demo_builtins b ([(''workspace_initialized'', True), (''epoch_initialized'', True)], []) h1
      = (Inr ([(''workspace_initialized'', True), (''epoch_initialized'', True), (''audit_integrity'', True),
           (''failure_ledger_integrity'', True), (''flight_integrity'', True), (''state_integrity'', True)], []), h1)"
    using v(2) i
    by (auto simp: doctor_stores_def run_check_def op_defs store_checks verified_stores_def is_ok_iff on_stores_def on_kernel_def
        on_sec_def szoom_def verify_audit_def verify_failures_def verify_flight_def on_audit_def on_failures_def on_flight_def
        verify_integrity_def flight_verify_integrity_def)
  obtain d where d: "doctor demo_platform demo_builtins (\<lambda>_. False) demo_config h = (Inr d, h1)" "dval d ''status'' = pstr ''PASS''"
    using e ready c s
    by (simp add: doctor_def op_defs Let_def doctor_report_def verdict_text_def dval_def check_actuators_def ACTUATOR_ACTIONS_def)
  from doctor_pass [OF d(1)] d e show ?thesis by auto
qed

end
