(* ===== verification/Gates.thy ===== *)
theory Gates
  imports Trust
begin

text \<open>
  The remaining scripts of \<^verbatim>\<open>orchestrator/tcb/\<close>: \<^verbatim>\<open>check_candidate.py\<close>, \<^verbatim>\<open>check_gates.py\<close>,
  \<^verbatim>\<open>verify_patch.py\<close> and \<^verbatim>\<open>make_attestation.py\<close>, with what they use of \<^verbatim>\<open>fnmatch\<close>.
\<close>

section \<open>Git\<close>

text \<open>
  The git commands that the scripts run, by what they print or return; a command that cannot be run,
  or fails where the script asks for success, raises. Only \<open>git apply --cached\<close> and \<open>git reset\<close> change the index.
\<close>

record 'g git =
  rev_parse :: "string \<Rightarrow> 'g \<Rightarrow> ustr res"
  diff_quiet :: "'g \<Rightarrow> int res"
  apply_check :: "ustr \<Rightarrow> tree \<Rightarrow> 'g \<Rightarrow> int res"
  apply_cached :: "ustr \<Rightarrow> tree \<Rightarrow> 'g \<Rightarrow> unit res \<times> 'g"
  changed_names :: "'g \<Rightarrow> bytes res"
  ls_stage :: "ustr \<Rightarrow> 'g \<Rightarrow> bytes res"
  reset_mixed :: "'g \<Rightarrow> unit res \<times> 'g"
  porcelain :: "tree \<Rightarrow> 'g \<Rightarrow> ustr res"

definition asks :: "('g \<Rightarrow> 'a res) \<Rightarrow> ('g, 'a) tcb_op" where
  "asks f s = (f (git_index s), s)"

definition runs :: "(tree \<Rightarrow> 'g \<Rightarrow> 'a res \<times> 'g) \<Rightarrow> ('g, 'a) tcb_op" where
  "runs f s = (case f (repo s) (git_index s) of (r, g) \<Rightarrow> (r, s\<lparr>git_index := g\<rparr>))"

section \<open>Candidate metadata\<close>

definition sha_match :: "pyval \<Rightarrow> nat \<Rightarrow> bool res" where
  "sha_match v least =
     (case v of PStr s \<Rightarrow> Inr (least \<le> length s \<and> length s \<le> 64 \<and> list_all is_hex s) | _ \<Rightarrow> Inl (Exn TypeError ''expected string''))"

definition document :: "tree \<Rightarrow> ustr \<Rightarrow> pyval res" where
  "document t p = rbind (read_utf8 t p) (loads plain_hooks)"

definition check_candidate :: "platform \<Rightarrow> 'g git \<Rightarrow> ustr \<Rightarrow> ustr \<Rightarrow> bool \<Rightarrow> tree \<Rightarrow> 'g \<Rightarrow> pyval res" where
  "check_candidate E G metadata_file patch_file require_base_head t g =
     rbind (document t metadata_file) (\<lambda>metadata.
     rbind (has_names metadata [''BASE_SHA'', ''PATCH_SHA256'', ''PHASE'']) (\<lambda>ok.
     if \<not> ok then rt_err ''Invalid build metadata schema''
     else
       rbind (subscript metadata ''BASE_SHA'') (\<lambda>base.
       rbind (sha_match base 40) (\<lambda>base_ok.
       rbind (if \<not> base_ok then Inr False else rbind (subscript metadata ''PATCH_SHA256'') (\<lambda>patch. sha_match patch 64)) (\<lambda>both_ok.
       if \<not> both_ok then rt_err ''Invalid digest in build metadata''
       else
         rbind (subscript metadata ''PHASE'') (\<lambda>phase.
         if phase \<noteq> pstr ''F00'' then rt_err ''Unexpected phase in build metadata''
         else
           rbind (rmap strip (rev_parse G ''HEAD'' g)) (\<lambda>head.
           if require_base_head \<and> base \<noteq> PStr head then rt_err ''Base mismatch''
           else
             rbind (sha256_file E t patch_file) (\<lambda>actual.
             rbind (subscript metadata ''PATCH_SHA256'') (\<lambda>patch.
             if patch \<noteq> PStr actual then rt_err ''Patch digest mismatch'' else Inr metadata)))))))))"

section \<open>Gate results\<close>

definition py_same :: "literals \<Rightarrow> pyval \<Rightarrow> pyval \<Rightarrow> bool" where
  "py_same L a b =
     (case (a, b) of
        (POther _, _) \<Rightarrow> other_same L a b
      | (_, POther _) \<Rightarrow> other_same L a b
      | _ \<Rightarrow> norm_bool a = norm_bool b)"

definition is_one :: "literals \<Rightarrow> pyval \<Rightarrow> bool" where
  "is_one L v = (case v of POther t \<Rightarrow> float_is L t 1 | _ \<Rightarrow> py_eq_int v 1)"

type_synonym statuses = "(pyval \<times> pyval) list"

definition gate_item :: "literals \<Rightarrow> statuses \<Rightarrow> pyval \<Rightarrow> statuses res" where
  "gate_item L acc item =
     rbind (has_names item [''gate_id'', ''status'', ''evidence'']) (\<lambda>ok.
     if \<not> ok then rt_err ''Invalid gate result item''
     else
       rbind (subscript item ''gate_id'') (\<lambda>gate.
       if \<not> hashable gate then Inl (Exn TypeError ''unhashable type'')
       else if list_ex (\<lambda>(k, _). py_same L gate k) acc then rt_err ''Duplicate gate id''
       else
         rbind (subscript item ''status'') (\<lambda>status.
         if \<not> hashable status then Inl (Exn TypeError ''unhashable type'')
         else
           rbind (subscript item ''evidence'') (\<lambda>evidence.
           if status \<noteq> pstr ''PASS'' \<and> status \<noteq> pstr ''FAIL'' \<or> \<not> is_str evidence then rt_err ''Invalid gate status''
           else Inr (acc @ [(gate, status)])))))"

fun gate_items :: "literals \<Rightarrow> statuses \<Rightarrow> pyval list \<Rightarrow> statuses res" where
  "gate_items L acc [] = Inr acc"
| "gate_items L acc (item # items) = rbind (gate_item L acc item) (\<lambda>acc. gate_items L acc items)"

definition ACCEPTANCE_PATH :: ustr where
  "ACCEPTANCE_PATH = U ''contracts/FUNCTIONAL_ACCEPTANCE.yaml''"

definition check_results :: "literals \<Rightarrow> pyval \<Rightarrow> tree \<Rightarrow> unit res" where
  "check_results L results t =
     (case results of
        PList items \<Rightarrow>
          rbind (gate_items L [] items) (\<lambda>statuses.
          rbind (read_bytes t ACCEPTANCE_PATH) (\<lambda>data.
          rbind (load_acceptance L data) (\<lambda>acceptance.
          rbind (py_iter (dval acceptance ''required_gates'')) (\<lambda>required.
          if set (map fst statuses) \<noteq> set required then rt_err ''Gate result set does not match functional acceptance''
          else if \<not> list_all (\<lambda>gate. map_of statuses gate = Some (pstr ''PASS'')) required then rt_err ''Required gates failed''
          else Inr ()))))
      | _ \<Rightarrow> rt_err ''Gate results must be a list'')"

definition check_gates :: "literals \<Rightarrow> ustr \<Rightarrow> ustr option \<Rightarrow> tree \<Rightarrow> unit res" where
  "check_gates L results_file required_subject t =
     rbind (document t results_file) (\<lambda>doc.
     rbind (has_names doc [''schema_version'', ''subject'', ''results'']) (\<lambda>ok.
     if \<not> ok then rt_err ''Invalid gate-results schema''
     else
       rbind (subscript doc ''schema_version'') (\<lambda>version.
       rbind (subscript doc ''subject'') (\<lambda>subject.
       if \<not> is_one L version \<or> \<not> is_str subject then rt_err ''Invalid gate-results metadata''
       else
         rbind (sha_match subject 40) (\<lambda>subject_ok.
         if \<not> subject_ok then rt_err ''Gate-results subject must be a commit or SHA-256 digest''
         else if required_subject \<noteq> None \<and> subject \<noteq> PStr (the required_subject) then rt_err ''Gate-results subject mismatch''
         else
           rbind (subscript doc ''results'') (\<lambda>results.
           check_results L results t))))))"

section \<open>Path patterns\<close>

text \<open>
  \<^verbatim>\<open>fnmatch.translate\<close>: the text between brackets is a list of characters and ranges, empty ranges
  dropped; a leading \<^verbatim>\<open>!\<close> negates, also when it only comes first because a range was dropped.
\<close>

datatype class_item = Single nat | Range nat nat

fun class_items :: "ustr \<Rightarrow> class_item list" where
  "class_items [] = []"
| "class_items [c] = [Single c]"
| "class_items [c, d] = [Single c, Single d]"
| "class_items (c # d # e # s) = (if d = 45 then Range c e # class_items s else Single c # class_items (d # e # s))"

definition class_of :: "ustr \<Rightarrow> class_item list" where
  "class_of stuff =
     filter (\<lambda>item. case item of Single _ \<Rightarrow> True | Range lo hi \<Rightarrow> lo \<le> hi)
       (case stuff of [] \<Rightarrow> [] | c # s \<Rightarrow> if c = 33 then Single 33 # class_items s else class_items stuff)"

fun in_item :: "nat \<Rightarrow> class_item \<Rightarrow> bool" where
  "in_item x (Single c) = (x = c)"
| "in_item x (Range lo hi) = (lo \<le> x \<and> x \<le> hi)"

definition in_class :: "ustr \<Rightarrow> nat \<Rightarrow> bool" where
  "in_class stuff x =
     (case class_of stuff of
        Single c # items \<Rightarrow> if c = 33 then \<not> list_ex (in_item x) items else list_ex (in_item x) (Single c # items)
      | Range lo hi # items \<Rightarrow>
          if lo = 33 then \<not> list_ex (in_item x) (Single 45 # Single hi # items) else list_ex (in_item x) (Range lo hi # items)
      | [] \<Rightarrow> False)"

datatype glob_item = Literal nat | AnyChar | AnyText | Class ustr

text \<open>The text of a class: up to the first \<^verbatim>\<open>]\<close> that is not its first character, or first after \<^verbatim>\<open>!\<close>.\<close>

definition class_end :: "ustr \<Rightarrow> (ustr \<times> ustr) option" where
  "class_end s =
     (let n = (if startswith s [33] then 1 else 0); n = (if startswith (drop n s) [93] then n + 1 else n);
          tail = drop n s; inner = takeWhile (\<lambda>c. c \<noteq> 93) tail in
      if length inner = length tail then None else Some (take n s @ inner, drop (Suc (length inner)) tail))"

lemma class_end_shorter: "class_end s = Some (stuff, rest) \<Longrightarrow> length rest \<le> length s"
  by (auto simp: class_end_def Let_def split: if_splits)

function glob_items :: "ustr \<Rightarrow> glob_item list" where
  "glob_items [] = []"
| "glob_items (c # s) =
     (if c = 42 then AnyText # glob_items s
      else if c = 63 then AnyChar # glob_items s
      else if c = 91 then
        (case class_end s of None \<Rightarrow> Literal 91 # glob_items s | Some (stuff, rest) \<Rightarrow> Class stuff # glob_items rest)
      else Literal c # glob_items s)"
  by pat_completeness auto
termination
  by (relation "measure length") (auto dest: class_end_shorter)

fun glob_match :: "glob_item list \<Rightarrow> ustr \<Rightarrow> bool" where
  "glob_match [] s = (s = [])"
| "glob_match (AnyText # ps) [] = glob_match ps []"
| "glob_match (AnyText # ps) (c # s) = (glob_match ps (c # s) \<or> glob_match (AnyText # ps) s)"
| "glob_match (AnyChar # ps) s = (case s of [] \<Rightarrow> False | _ # s \<Rightarrow> glob_match ps s)"
| "glob_match (Literal c # ps) s = (case s of [] \<Rightarrow> False | d # s \<Rightarrow> d = c \<and> glob_match ps s)"
| "glob_match (Class stuff # ps) s = (case s of [] \<Rightarrow> False | d # s \<Rightarrow> in_class stuff d \<and> glob_match ps s)"

definition fnmatchcase :: "ustr \<Rightarrow> ustr \<Rightarrow> bool" where
  "fnmatchcase name pattern = glob_match (glob_items pattern) name"

section \<open>Patches\<close>

definition MAX_PATCH_BYTES :: nat where
  "MAX_PATCH_BYTES = 1024 * 1024"

definition MAX_CHANGED_PATHS :: nat where
  "MAX_CHANGED_PATHS = 32"

definition PHASES_PATH :: ustr where
  "PHASES_PATH = U ''contracts/PHASES.yaml''"

definition safe_path :: "ustr \<Rightarrow> bool" where
  "safe_path relative \<longleftrightarrow> posix_parts relative \<noteq> [] \<and> \<not> startswith relative (U ''/'') \<and> 92 \<notin> set relative
     \<and> \<not> list_ex dotty (posix_parts relative)"

text \<open>\<^verbatim>\<open>any(fnmatch.fnmatchcase(relative, pattern) for pattern in patterns)\<close> on a contract's value.\<close>

fun allowed_path :: "ustr \<Rightarrow> pyval list \<Rightarrow> bool res" where
  "allowed_path relative [] = Inr False"
| "allowed_path relative (v # vs) =
     (case v of
        PStr pattern \<Rightarrow> if fnmatchcase relative pattern then Inr True else allowed_path relative vs
      | _ \<Rightarrow> Inl (Exn TypeError ''expected string''))"

definition staged_mode :: "'g git \<Rightarrow> ustr \<Rightarrow> 'g \<Rightarrow> ustr option res" where
  "staged_mode G relative g =
     rbind (ls_stage G relative g) (\<lambda>output.
     if output = [] then Inr None
     else
       (case filter (\<lambda>r. r \<noteq> []) (split_on CHR 0x00 output) of
          [rec] \<Rightarrow>
            (case split_on CHR 0x09 rec of
               header # staged # rest \<Rightarrow>
                 rbind (utf8_decode (join_with CHR 0x09 (staged # rest))) (\<lambda>path.
                 if path \<noteq> relative then rt_err ''Staged path mismatch''
                 else rmap Some (ascii_decode (hd (split_on CHR 0x20 header))))
             | _ \<Rightarrow> Inl (Exn ValueError ''not enough values to unpack''))
        | _ \<Rightarrow> rt_err ''Ambiguous staged path''))"

fun decode_all :: "bytes list \<Rightarrow> ustr list res" where
  "decode_all [] = Inr []"
| "decode_all (b # bs) = rbind (utf8_decode b) (\<lambda>s. rmap ((#) s) (decode_all bs))"

fun check_paths :: "'g git \<Rightarrow> pyval \<Rightarrow> ustr list \<Rightarrow> 'g \<Rightarrow> unit res" where
  "check_paths G patterns [] g = Inr ()"
| "check_paths G patterns (relative # paths) g =
     rbind (if safe_path relative then rbind (py_iter patterns) (allowed_path relative) else Inr False) (\<lambda>ok.
     if \<not> ok then rt_err ''Path not allowed by phase''
     else
       rbind (staged_mode G relative g) (\<lambda>mode.
       if mode \<noteq> None \<and> mode \<noteq> Some (U ''100644'') then rt_err ''Forbidden staged file mode''
       else check_paths G patterns paths g))"

definition check_patch_file :: "ustr \<Rightarrow> tree \<Rightarrow> unit res" where
  "check_patch_file patch t =
     (case t patch of
        Some (Regular data) \<Rightarrow>
          if data = [] then rt_err ''Patch is empty or not regular''
          else if MAX_PATCH_BYTES < length data then rt_err ''Patch exceeds size limit'' else Inr ()
      | _ \<Rightarrow> rt_err ''Patch is missing or not a regular file'')"

definition stage_patch :: "'g git \<Rightarrow> pyval \<Rightarrow> ustr \<Rightarrow> ('g, unit) tcb_op" where
  "stage_patch G patterns patch =
     sbind (runs (\<lambda>t g. (apply_check G patch t g, g))) (\<lambda>code.
     if code \<noteq> 0 then sraise (Exn RuntimeError ''Patch not applicable'')
     else
       sbind (runs (apply_cached G patch)) (\<lambda>_.
       sbind (asks (changed_names G)) (\<lambda>raw.
       sbind (slift (decode_all (filter (\<lambda>b. b \<noteq> []) (split_on CHR 0x00 raw)))) (\<lambda>paths.
       if paths = [] \<or> MAX_CHANGED_PATHS < length paths \<or> \<not> distinct paths then sraise (Exn RuntimeError ''Invalid changed-path set'')
       else asks (check_paths G patterns paths)))))"

definition verify_patch :: "platform \<Rightarrow> literals \<Rightarrow> 'g git \<Rightarrow> ustr \<Rightarrow> ustr \<Rightarrow> ('g, unit) tcb_op" where
  "verify_patch E L G anchor patch =
     sbind (sees (verify_protected_tree E anchor)) (\<lambda>_.
     sbind (sees (verify_state E)) (\<lambda>state.
     sbind (sees (\<lambda>t. rbind (read_bytes t PHASES_PATH) (load_phase L (case dval state ''phase'' of PStr p \<Rightarrow> p | _ \<Rightarrow> [])))) (\<lambda>phase.
     sbind (sees (check_patch_file patch)) (\<lambda>_.
     sbind (asks (diff_quiet G)) (\<lambda>code.
     if code \<noteq> 0 then sraise (Exn RuntimeError ''Git index is not clean before patch verification'')
     else sfinally (stage_patch G (dval phase ''allowed_paths'') patch) (runs (\<lambda>t. reset_mixed G)))))))"

section \<open>Attestation\<close>

text \<open>\<open>run_id\<close> and \<open>attempt\<close> are the two workflow variables, \<^verbatim>\<open>local\<close> when they are not set.\<close>

definition attestation :: "pyval \<Rightarrow> pydict \<Rightarrow> ustr \<Rightarrow> ustr \<Rightarrow> ustr \<Rightarrow> ustr \<Rightarrow> ustr \<Rightarrow> ustr \<Rightarrow> pydict res" where
  "attestation metadata state commit tree_sha pre final run_id attempt =
     rbind (subscript metadata ''PHASE'') (\<lambda>phase.
     rbind (subscript metadata ''BASE_SHA'') (\<lambda>base.
     rbind (subscript metadata ''PATCH_SHA256'') (\<lambda>patch.
     Inr (mk_dict
       [(''schema_version'', PInt 1), (''phase'', phase), (''base_sha'', base), (''patch_sha256'', patch),
        (''candidate_commit_sha'', PStr commit), (''candidate_tree_sha'', PStr tree_sha),
        (''state_sha256'', dval state ''hash''), (''pre_gate_results_sha256'', PStr pre),
        (''final_gate_results_sha256'', PStr final), (''workflow_run_id'', PStr run_id),
        (''workflow_run_attempt'', PStr attempt), (''human_authorization_required'', PBool True),
        (''automated_merge'', PBool False)]))))"

definition subject_of :: "pyval \<Rightarrow> ustr option" where
  "subject_of v = (case v of PStr s \<Rightarrow> Some s | _ \<Rightarrow> None)"

definition make_attestation ::
    "platform \<Rightarrow> literals \<Rightarrow> 'g git \<Rightarrow> ustr \<Rightarrow> ustr \<Rightarrow> ustr \<Rightarrow> ustr \<Rightarrow> ustr \<Rightarrow> ustr \<Rightarrow> ustr \<Rightarrow> ('g, pydict) tcb_op" where
  "make_attestation E L G metadata_file patch_file pre_file final_file output run_id attempt s =
     sbind (sees (\<lambda>t. check_candidate E G metadata_file patch_file False t (git_index s))) (\<lambda>metadata.
     sbind (asks (\<lambda>g. rmap strip (rev_parse G ''HEAD'' g))) (\<lambda>commit.
     sbind (asks (\<lambda>g. rmap strip (rev_parse G ''HEAD^'' g))) (\<lambda>parent.
     sbind (asks (\<lambda>g. rmap strip (rev_parse G ''HEAD^{tree}'' g))) (\<lambda>tree_sha.
     sbind (sees (\<lambda>t. rbind (subscript metadata ''PATCH_SHA256'') (\<lambda>v. check_gates L pre_file (subject_of v) t))) (\<lambda>_.
     sbind (sees (check_gates L final_file (Some commit))) (\<lambda>_.
     sbind (slift (subscript metadata ''BASE_SHA'')) (\<lambda>base.
     if PStr parent \<noteq> base then sraise (Exn RuntimeError ''Candidate commit is not a single child of the verified base'')
     else
       sbind (sees (\<lambda>t. rmap strip (porcelain G t (git_index s)))) (\<lambda>dirty.
       if dirty \<noteq> [] then sraise (Exn RuntimeError ''Candidate workspace is not clean'')
       else
         sbind (sees (verify_state E)) (\<lambda>state.
         if dval state ''phase'' \<noteq> pstr ''DONE'' then sraise (Exn RuntimeError ''Candidate state is not DONE'')
         else
           sbind (sees (\<lambda>t. sha256_file E t pre_file)) (\<lambda>pre.
           sbind (sees (\<lambda>t. sha256_file E t final_file)) (\<lambda>final.
           sbind (slift (attestation metadata state commit tree_sha pre final run_id attempt)) (\<lambda>doc.
           sbind (atomic_write output (json_text doc)) (\<lambda>_. sret doc))))))))))))) s"

end
