(* ===== verification/Protected.thy ===== *)
theory Protected
  imports Gates
begin

text \<open>
  The gate scripts of \<^verbatim>\<open>gates/protected/\<close>: \<^verbatim>\<open>test_f00.py\<close>, \<^verbatim>\<open>test_invariants.py\<close>,
  \<^verbatim>\<open>run_gates.py\<close>, which writes the results that \<^verbatim>\<open>check_gates.py\<close> reads, and
  \<^verbatim>\<open>verify_bootstrap_cleanup.py\<close>.
\<close>

section \<open>Syntax trees\<close>

text \<open>What the gate looks at of the trees of Python's \<^verbatim>\<open>ast\<close> module.\<close>

datatype py_expr = StrConst ustr | OtherConst | NameExpr ustr | OtherExpr

record py_args =
  posonlyargs :: "ustr list"
  plain_args :: "ustr list"
  kwonlyargs :: "ustr list"
  arg_defaults :: "py_expr list"
  kw_defaults :: "py_expr option list"
  vararg :: "ustr option"
  kwarg :: "ustr option"

datatype py_stmt =
    ExprStmt py_expr
  | ReturnStmt "py_expr option"
  | FunctionStmt (is_async: bool) (fn_name: ustr) (decorator_list: "py_expr list") (type_params: "ustr list")
      (fn_returns: "py_expr option") (fn_args: py_args) (fn_body: "py_stmt list")
  | OtherStmt

text \<open>
  The environment of the scripts: the value of \<^verbatim>\<open>MGK_ROOT_MANIFEST_SHA256\<close>, the class name and the
  text of an exception, the names in \<^verbatim>\<open>src/generated\<close> when that is a directory, and \<^verbatim>\<open>ast.parse\<close>.
\<close>

record gate_env =
  env_anchor :: ustr
  exn_class :: "exn \<Rightarrow> ustr"
  exn_text :: "exn \<Rightarrow> ustr"
  generated_names :: "tree \<Rightarrow> ustr list option"
  parse_module :: "ustr \<Rightarrow> py_stmt list res"

section \<open>The generated module\<close>

definition without_docstring :: "py_stmt list \<Rightarrow> py_stmt list" where
  "without_docstring statements =
     (case statements of ExprStmt (StrConst s) # rest \<Rightarrow> rest | _ \<Rightarrow> statements)"

definition py_assert :: "bool \<Rightarrow> string \<Rightarrow> unit res" where
  "py_assert b msg = (if b then Inr () else Inl (Exn AssertionError msg))"

definition GENERATED :: ustr where
  "GENERATED = U ''src/generated''"

definition HELLO_PATH :: ustr where
  "HELLO_PATH = U ''src/generated/hello.py''"

definition KEEP_PATH :: ustr where
  "KEEP_PATH = U ''src/generated/.keep''"

definition no_args :: "py_args \<Rightarrow> bool" where
  "no_args args \<longleftrightarrow> posonlyargs args = [] \<and> plain_args args = [] \<and> kwonlyargs args = [] \<and> arg_defaults args = []
     \<and> kw_defaults args = [] \<and> vararg args = None \<and> kwarg args = None"

definition check_function :: "py_stmt \<Rightarrow> unit res" where
  "check_function s =
     (case s of
        FunctionStmt asynchronous name decorators params returned args body \<Rightarrow>
          rbind (py_assert (\<not> asynchronous) ''hello() must be synchronous'') (\<lambda>_.
          rbind (py_assert (name = U ''hello'' \<and> decorators = []) ''invalid hello() declaration'') (\<lambda>_.
          rbind (py_assert (params = []) ''generic hello() is forbidden'') (\<lambda>_.
          rbind (py_assert (returned = None \<or> returned = Some (NameExpr (U ''str'')))
                   ''hello() return annotation must be absent or str'') (\<lambda>_.
          rbind (py_assert (no_args args) ''hello() must take no arguments'') (\<lambda>_.
          let inner = without_docstring body in
          (case inner of
             [ReturnStmt value] \<Rightarrow>
               py_assert (value = Some (StrConst (U ''Hello, MGK!''))) ''hello() must return the exact expected string''
           | _ \<Rightarrow> py_assert False ''hello() must contain one return''))))))
      | _ \<Rightarrow> py_assert False ''hello.py must contain only hello()'')"

definition check_module :: "py_stmt list \<Rightarrow> unit res" where
  "check_module body =
     (case without_docstring body of
        [s] \<Rightarrow> check_function s
      | _ \<Rightarrow> py_assert False ''hello.py must contain only hello()'')"

definition test_hello_world :: "gate_env \<Rightarrow> tree \<Rightarrow> unit res" where
  "test_hello_world V t =
     rbind (py_assert (\<not> is_symlink t GENERATED \<and> generated_names V t \<noteq> None) ''generated directory missing or symlinked'') (\<lambda>_.
     rbind (py_assert (\<not> is_symlink t HELLO_PATH \<and> is_file t HELLO_PATH) ''hello.py must be a regular file'') (\<lambda>_.
     rbind (py_assert (\<not> is_symlink t KEEP_PATH \<and> is_file t KEEP_PATH) ''.keep must remain a regular file'') (\<lambda>_.
     rbind (read_bytes t KEEP_PATH) (\<lambda>kept.
     rbind (py_assert (kept = []) ''.keep must remain empty'') (\<lambda>_.
     rbind (py_assert (map_option sort (generated_names V t) = Some [U ''.keep'', U ''hello.py'']) ''F00 may only add hello.py'') (\<lambda>_.
     rbind (read_utf8 t HELLO_PATH) (\<lambda>source.
     rbind (utf8_encode source) (\<lambda>encoded.
     rbind (py_assert (length encoded \<le> 4096) ''hello.py exceeds size limit'') (\<lambda>_.
     rbind (parse_module V source) check_module)))))))))"

section \<open>The other gates\<close>

definition test_root_of_trust :: "platform \<Rightarrow> gate_env \<Rightarrow> tree \<Rightarrow> unit res" where
  "test_root_of_trust E V t = verify_protected_tree E (env_anchor V) t"

definition test_state_json :: "platform \<Rightarrow> tree \<Rightarrow> unit res" where
  "test_state_json E t =
     rbind (verify_state E t) (\<lambda>state.
     rbind (py_assert (dval state ''phase'' = pstr ''F00'' \<or> dval state ''phase'' = pstr ''DONE'') ''phase'') (\<lambda>_.
     py_assert (dval state ''phases_done'' = (if dval state ''phase'' = pstr ''F00'' then PList [] else PList [pstr ''F00'']))
       ''phases_done''))"

section \<open>Running the gates\<close>

definition gate_entry :: "string \<Rightarrow> bool \<Rightarrow> ustr \<Rightarrow> pydict" where
  "gate_entry gate ok said =
     mk_dict [(''gate_id'', pstr gate), (''status'', pstr (if ok then ''PASS'' else ''FAIL'')), (''evidence'', PStr said)]"

definition gate_result :: "gate_env \<Rightarrow> string \<Rightarrow> unit res \<Rightarrow> pydict" where
  "gate_result V gate r =
     (case r of
        Inr u \<Rightarrow> gate_entry gate True (U ''deterministic check passed'')
      | Inl e \<Rightarrow> gate_entry gate False (take 1000 (exn_class V e @ U '': '' @ exn_text V e)))"

definition gate_results :: "platform \<Rightarrow> gate_env \<Rightarrow> bool \<Rightarrow> tree \<Rightarrow> pydict list" where
  "gate_results E V scope_pass t =
     [gate_entry ''PATCH_SCOPE'' scope_pass (U (if scope_pass then ''verify_patch.py passed'' else ''patch scope not attested'')),
      gate_result V ''ROOT_INTEGRITY'' (test_root_of_trust E V t),
      gate_result V ''STATE_INTEGRITY'' (test_state_json E t),
      gate_result V ''F00_HELLO_WORLD'' (test_hello_world V t)]"

definition results_document :: "ustr \<Rightarrow> pydict list \<Rightarrow> pydict" where
  "results_document subject results =
     mk_dict [(''schema_version'', PInt 1), (''subject'', PStr subject), (''results'', PList (map PDict results))]"

definition run_gates :: "platform \<Rightarrow> gate_env \<Rightarrow> ustr \<Rightarrow> ustr \<Rightarrow> bool \<Rightarrow> ('g, bool) tcb_op" where
  "run_gates E V output subject scope_pass =
     sbind (sees (\<lambda>t. Inr (gate_results E V scope_pass t))) (\<lambda>results.
     sbind (atomic_write output (json_text (results_document subject results))) (\<lambda>_.
     sret (list_all (\<lambda>item. dval item ''status'' = pstr ''PASS'') results)))"

section \<open>Cleaning up the bootstrap\<close>

definition ONE_TIME_PATH :: ustr where
  "ONE_TIME_PATH = U ''.github/workflows/mgk-examiner-bootstrap.yml''"

text \<open>\<^verbatim>\<open>s.split()\<close>\<close>

function words_of :: "ustr \<Rightarrow> ustr list" where
  "words_of s =
     (let t = dropWhile py_space s in
      if t = [] then [] else takeWhile (\<lambda>c. \<not> py_space c) t # words_of (dropWhile (\<lambda>c. \<not> py_space c) t))"
  by pat_completeness auto
termination
proof (relation "measure length")
  show "wf (measure (length :: ustr \<Rightarrow> nat))" by simp
  fix s t :: ustr
  assume t: "t = dropWhile py_space s" "t \<noteq> []"
  then have "\<not> py_space (hd t)" using hd_dropWhile by blast
  then have "length (dropWhile (\<lambda>c. \<not> py_space c) t) < length t"
    using t(2) by (cases t) (simp_all add: le_imp_less_Suc length_dropWhile_le)
  moreover have "length t \<le> length s" unfolding t(1) by (rule length_dropWhile_le)
  ultimately show "(dropWhile (\<lambda>c. \<not> py_space c) t, s) \<in> measure length" by simp
qed

declare words_of.simps [simp del]

text \<open>One record of \<^verbatim>\<open>git ls-files -s -z\<close>: mode, object, stage, a tab and the path.\<close>

type_synonym tracked_files = "(ustr \<times> ustr \<times> ustr) list"

definition tracked_entry :: "tracked_files \<Rightarrow> bytes \<Rightarrow> tracked_files res" where
  "tracked_entry result raw =
     (let tab = CHR 0x09; metadata = takeWhile (\<lambda>b. b \<noteq> tab) raw; encoded_path = tl (dropWhile (\<lambda>b. b \<noteq> tab) raw) in
      if tab \<notin> set raw then Inl (Exn ValueError ''not enough values to unpack'')
      else
        rbind (ascii_decode metadata) (\<lambda>text.
        case words_of text of
          [mode, object_id, stage] \<Rightarrow>
            if stage \<noteq> U ''0'' then rt_err ''unmerged index entry''
            else
              rbind (utf8_decode encoded_path) (\<lambda>path.
              if map_of result path \<noteq> None then rt_err ''duplicate tracked path''
              else Inr (result @ [(path, mode, object_id)]))
        | _ \<Rightarrow> Inl (Exn ValueError ''values to unpack'')))"

fun tracked_entries :: "tracked_files \<Rightarrow> bytes list \<Rightarrow> tracked_files res" where
  "tracked_entries result [] = Inr result"
| "tracked_entries result (raw # raws) =
     (if raw = [] then tracked_entries result raws
      else rbind (tracked_entry result raw) (\<lambda>result. tracked_entries result raws))"

definition tracked :: "bytes \<Rightarrow> tracked_files res" where
  "tracked listing = tracked_entries [] (split_on CHR 0x00 listing)"

text \<open>A checkout, by what \<^verbatim>\<open>git ls-files\<close> and \<^verbatim>\<open>git status\<close> print in it; a command that fails raises.\<close>

record checkout =
  ls_files :: "bytes res"
  status_lines :: "bytes res"

definition clean :: "checkout \<Rightarrow> bool res" where
  "clean c = rmap (\<lambda>out. out = []) (status_lines c)"

definition cleanup_failures :: "checkout \<Rightarrow> checkout \<Rightarrow> string list res" where
  "cleanup_failures trusted candidate =
     rbind (rbind (ls_files trusted) tracked) (\<lambda>trusted_files.
     rbind (rbind (ls_files candidate) tracked) (\<lambda>candidate_files.
     let removed = map_of trusted_files ONE_TIME_PATH;
         expected = (map_of trusted_files)(ONE_TIME_PATH := None);
         missing = (if removed = None then [''trusted bootstrap workflow missing''] else []);
         differs = (if \<not> list_all (\<lambda>p. map_of candidate_files p = expected p) (map fst candidate_files @ map fst trusted_files)
                    then [''candidate differs by more than the authorized one-time deletion''] else []) in
     rbind (clean trusted) (\<lambda>trusted_clean.
     rbind (if \<not> trusted_clean then Inr False else clean candidate) (\<lambda>both_clean.
     Inr (missing @ differs @ (if both_clean then [] else [''checkout is not clean'']))))))"

definition cleanup_report :: "ustr \<Rightarrow> string list \<Rightarrow> pydict" where
  "cleanup_report candidate_sha failed =
     mk_dict [(''schema_version'', pstr ''mgk.bootstrap-cleanup.v1''), (''candidate_sha'', PStr candidate_sha),
       (''authorized_deletion'', PStr ONE_TIME_PATH), (''status'', pstr (if failed = [] then ''PASS'' else ''FAIL'')),
       (''failures'', PList (map pstr failed))]"

text \<open>Making the directory and writing the file, neither of them atomic.\<close>

definition write_report :: "ustr \<Rightarrow> pydict \<Rightarrow> ('g, unit) tcb_op" where
  "write_report output report = sbind (effect (\<lambda>t. t)) (\<lambda>_. write_temp output (json_text report))"

definition bootstrap_cleanup :: "checkout \<Rightarrow> checkout \<Rightarrow> ustr \<Rightarrow> ustr \<Rightarrow> ('g, bool) tcb_op" where
  "bootstrap_cleanup trusted candidate candidate_sha output =
     sbind (slift (cleanup_failures trusted candidate)) (\<lambda>failed.
     sbind (write_report output (cleanup_report candidate_sha failed)) (\<lambda>_.
     sret (failed = [])))"

end
