(* ===== verification/Candidate.thy ===== *)
theory Candidate
  imports Protected "HOL-Library.Sublist"
begin

text \<open>
  \<^verbatim>\<open>gates/protected/run_mgk_candidate.py\<close>: the examination of a candidate checkout, from what its
  four commands did to the report and the exit status. How the commands are put together is not
  modelled. A float in the red team's document is written back with the numeral it was read with.
\<close>

section \<open>Decoding with replacement\<close>

text \<open>
  \<^verbatim>\<open>b.decode("utf-8", "replace")\<close>: a sequence that breaks off or does not go on as it began is one
  replacement character.
\<close>

definition first_cont_ok :: "nat \<Rightarrow> char \<Rightarrow> bool" where
  "first_cont_ok lead b \<longleftrightarrow> is_cont b \<and> (lead = 0xE0 \<longrightarrow> 0xA0 \<le> (of_char b :: nat)) \<and> (lead = 0xED \<longrightarrow> (of_char b :: nat) < 0xA0)
     \<and> (lead = 0xF0 \<longrightarrow> 0x90 \<le> (of_char b :: nat)) \<and> (lead = 0xF4 \<longrightarrow> (of_char b :: nat) < 0x90)"

definition broken_length :: "bytes \<Rightarrow> nat" where
  "broken_length bs =
     (let lead = (of_char (hd bs) :: nat); rest = tl bs in
      if \<not> (0xE0 \<le> lead \<and> lead < 0xF5) then 1
      else if rest = [] \<or> \<not> first_cont_ok lead (hd rest) then 1
      else if lead < 0xF0 then 2
      else if tl rest = [] \<or> \<not> is_cont (hd (tl rest)) then 2
      else 3)"

function utf8_replace :: "bytes \<Rightarrow> ustr" where
  "utf8_replace bs =
     (if bs = [] then []
      else
        case utf8_next bs of
          Some (c, rest) \<Rightarrow> c # utf8_replace rest
        | None \<Rightarrow> 0xFFFD # utf8_replace (drop (broken_length bs) bs))"
  by pat_completeness auto
termination
proof (relation "measure length")
  fix bs :: bytes assume "bs \<noteq> []"
  moreover have "0 < broken_length bs" by (simp add: broken_length_def Let_def)
  ultimately show "(drop (broken_length bs) bs, bs) \<in> measure length" by simp
qed (auto dest: utf8_next_shorter)

declare utf8_replace.simps [simp del]

section \<open>The checks\<close>

text \<open>A command that ran: its exit status, none when it was stopped at its time limit, and its output.\<close>

record command_run =
  exit_status :: "int option"
  duration_ms :: int
  run_stdout :: bytes
  run_stderr :: bytes

definition last_part :: "nat \<Rightarrow> ustr \<Rightarrow> ustr" where
  "last_part n s = drop (length s - n) s"

definition check_entry :: "platform \<Rightarrow> string \<Rightarrow> command_run \<Rightarrow> pydict" where
  "check_entry E name c =
     mk_dict [(''name'', pstr name), (''status'', pstr (if exit_status c = Some 0 then ''PASS'' else ''FAIL'')),
       (''exit_code'', PInt (case exit_status c of None \<Rightarrow> 124 | Some code \<Rightarrow> code)),
       (''timed_out'', PBool (exit_status c = None)), (''duration_ms'', PInt (duration_ms c)),
       (''stdout_sha256'', PStr (sha256_hex E (run_stdout c))), (''stderr_sha256'', PStr (sha256_hex E (run_stderr c))),
       (''stdout_tail'', PStr (last_part 4000 (utf8_replace (run_stdout c)))),
       (''stderr_tail'', PStr (last_part 4000 (utf8_replace (run_stderr c))))]"

text \<open>
  The examination: the components of the two resolved paths, which of them are directories, the four
  commands, the file that the red team wrote and the anchored manifest.
\<close>

record examination =
  trusted_root :: "ustr list"
  candidate_root :: "ustr list"
  root_is_dir :: "ustr list \<Rightarrow> bool"
  candidate_tests :: command_run
  frozen_exam :: command_run
  red_team :: command_run
  h14_smoke :: command_run
  redteam_file :: "entry option"
  root_manifest :: "bytes res"

definition disjoint_roots :: "examination \<Rightarrow> bool" where
  "disjoint_roots X \<longleftrightarrow> \<not> prefix (trusted_root X) (candidate_root X) \<and> \<not> prefix (candidate_root X) (trusted_root X)"

definition redteam_document :: "examination \<Rightarrow> pyval option res" where
  "redteam_document X =
     (let t = [U ''redteam-results.json'' \<mapsto> the (redteam_file X)] in
      if redteam_file X = None \<or> \<not> is_file t (U ''redteam-results.json'') then Inr None
      else
        (case document t (U ''redteam-results.json'') of
           Inl e \<Rightarrow> if is_os_error e \<or> is_value_error e then Inr None else Inl e
         | Inr v \<Rightarrow> Inr (Some v)))"

definition redteam_passed :: "pyval option \<Rightarrow> bool" where
  "redteam_passed doc = (case doc of Some (PDict d) \<Rightarrow> dval d ''status'' = pstr ''PASS'' | _ \<Rightarrow> False)"

definition exam_checks :: "platform \<Rightarrow> examination \<Rightarrow> pyval option \<Rightarrow> pydict list" where
  "exam_checks E X doc =
     map (\<lambda>check. if \<not> redteam_passed doc \<and> dval check ''name'' = pstr ''independent_red_team''
                  then dset check ''status'' (pstr ''FAIL'') else check)
       [check_entry E ''candidate_tests'' (candidate_tests X), check_entry E ''independent_frozen_exam'' (frozen_exam X),
        check_entry E ''independent_red_team'' (red_team X), check_entry E ''h14_smoke'' (h14_smoke X)]"

definition checks_passed :: "pydict list \<Rightarrow> bool" where
  "checks_passed checks \<longleftrightarrow> list_all (\<lambda>check. dval check ''status'' = pstr ''PASS'') checks"

definition exam_report :: "platform \<Rightarrow> ustr \<Rightarrow> pyval option \<Rightarrow> bytes \<Rightarrow> pydict list \<Rightarrow> pydict" where
  "exam_report E candidate_sha doc manifest checks =
     mk_dict [(''schema_version'', pstr ''mgk.protected-gates.v1''), (''candidate_sha'', PStr candidate_sha),
       (''trusted_root_sha256'', PStr (sha256_hex E manifest)),
       (''status'', pstr (if checks_passed checks then ''PASS'' else ''FAIL'')),
       (''checks'', PList (map PDict checks)),
       (''redteam'', (case doc of
            Some (PDict d) \<Rightarrow> PDict (mk_dict (map (\<lambda>k. (k, dval d k)) [''status'', ''total'', ''passed'', ''failed'']))
          | _ \<Rightarrow> PNone))]"

definition examine_candidate :: "platform \<Rightarrow> examination \<Rightarrow> ustr \<Rightarrow> ustr \<Rightarrow> ('g, bool) tcb_op" where
  "examine_candidate E X candidate_sha output =
     (if \<not> root_is_dir X (trusted_root X) then sraise (Exn ValueError ''trusted root is not a directory'')
      else if \<not> root_is_dir X (candidate_root X) then sraise (Exn ValueError ''candidate root is not a directory'')
      else if \<not> disjoint_roots X then sraise (Exn ValueError ''trusted and candidate roots must be disjoint'')
      else
        sbind (slift (sha_match (PStr candidate_sha) 40)) (\<lambda>sha_ok.
        if \<not> sha_ok then sraise (Exn ValueError ''candidate SHA is invalid'')
        else
          sbind (slift (redteam_document X)) (\<lambda>doc.
          sbind (slift (root_manifest X)) (\<lambda>manifest.
          let checks = exam_checks E X doc in
          sbind (write_report output (exam_report E candidate_sha doc manifest checks)) (\<lambda>_.
          sret (checks_passed checks))))))"

end
