(* ===== verification/Gates_Facts.thy ===== *)
theory Gates_Facts
  imports Gates Trust_Facts
begin

text \<open>
  What the gate, patch and attestation scripts have established when they succeed, and the
  repository's own phase contract.
\<close>

section \<open>Contracts\<close>

lemma check_ids_ok: "check_ids vs = Inr () \<Longrightarrow> \<forall>v \<in> set vs. \<exists>s. v = PStr s \<and> is_id s"
  by (induction vs) (auto simp: rbind_eq_Inr_iff id_match_def rt_err_def split: if_splits pyval.splits)

lemma load_acceptance_ok:
  assumes "load_acceptance L data = Inr d"
  shows "has_keys d [''version'', ''required_gates'', ''all_required''] \<and> dval d ''all_required'' = PBool True
    \<and> (\<exists>gates. py_iter (dval d ''required_gates'') = Inr gates \<and> (\<forall>v \<in> set gates. \<exists>s. v = PStr s \<and> is_id s))"
  using assms
  by (auto simp: load_acceptance_def rbind_eq_Inr_iff rt_err_def check_gate_ids_def split: if_splits dest!: check_ids_ok)

section \<open>Gate results\<close>

definition gate_of :: "pyval \<Rightarrow> pyval" where
  "gate_of item = (case subscript item ''gate_id'' of Inl e \<Rightarrow> PNone | Inr v \<Rightarrow> v)"

definition status_of :: "pyval \<Rightarrow> pyval" where
  "status_of item = (case subscript item ''status'' of Inl e \<Rightarrow> PNone | Inr v \<Rightarrow> v)"

lemma py_same_str [simp]: "py_same L (PStr a) (PStr b) \<longleftrightarrow> a = b"
  by (simp add: py_same_def)

lemma gate_item_ok:
  "gate_item L acc item = Inr st \<Longrightarrow> st = acc @ [(gate_of item, status_of item)] \<and> (\<forall>(k, _) \<in> set acc. \<not> py_same L (gate_of item) k)"
  by (auto simp: gate_item_def rbind_eq_Inr_iff rt_err_def gate_of_def status_of_def list_ex_iff split: if_splits)

lemma distinct_strings:
  assumes "\<forall>(k, _) \<in> set acc. \<not> py_same L g k" "distinct (filter is_str (map fst acc))"
  shows "distinct (filter is_str (map fst acc @ [g]))"
proof (cases g)
  case (PStr s)
  with assms(1) have "g \<notin> set (map fst acc)" by force
  with assms(2) show ?thesis by simp
qed (use assms in \<open>simp_all add: is_str_def\<close>)

lemma gate_items_ok:
  assumes "gate_items L acc items = Inr st"
  shows "st = acc @ map (\<lambda>item. (gate_of item, status_of item)) items"
    and "distinct (filter is_str (map fst acc)) \<Longrightarrow> distinct (filter is_str (map fst st))"
proof -
  have "st = acc @ map (\<lambda>item. (gate_of item, status_of item)) items
      \<and> (distinct (filter is_str (map fst acc)) \<longrightarrow> distinct (filter is_str (map fst st)))"
    using assms
  proof (induction items arbitrary: acc)
    case (Cons item items)
    then obtain acc' where a: "gate_item L acc item = Inr acc'" "gate_items L acc' items = Inr st"
      by (auto simp: rbind_eq_Inr_iff)
    note g = gate_item_ok [OF a(1)]
    have "distinct (filter is_str (map fst acc)) \<longrightarrow> distinct (filter is_str (map fst acc'))"
      using g distinct_strings [of acc L "gate_of item"] by simp
    with Cons.IH [OF a(2)] have "distinct (filter is_str (map fst acc)) \<longrightarrow> distinct (filter is_str (map fst st))" by blast
    moreover have "st = acc @ map (\<lambda>item. (gate_of item, status_of item)) (item # items)"
      using conjunct1 [OF Cons.IH [OF a(2)]] g by simp
    ultimately show ?case by blast
  qed simp
  then show "st = acc @ map (\<lambda>item. (gate_of item, status_of item)) items"
    and "distinct (filter is_str (map fst acc)) \<Longrightarrow> distinct (filter is_str (map fst st))" by blast+
qed

text \<open>
  The results file is about the subject, and it has one item for each gate that the acceptance
  contract requires, no other item, and every status is \<^verbatim>\<open>PASS\<close>.
\<close>

definition gates_passed :: "literals \<Rightarrow> tree \<Rightarrow> ustr \<Rightarrow> ustr \<Rightarrow> bool" where
  "gates_passed L t file subject \<longleftrightarrow> (\<exists>d items data acceptance gates.
     document t file = Inr (PDict d) \<and> dval d ''subject'' = PStr subject \<and> dval d ''results'' = PList items
     \<and> read_bytes t ACCEPTANCE_PATH = Inr data \<and> load_acceptance L data = Inr acceptance
     \<and> py_iter (dval acceptance ''required_gates'') = Inr gates
     \<and> set (map gate_of items) = set gates \<and> distinct (map gate_of items) \<and> (\<forall>item \<in> set items. status_of item = pstr ''PASS''))"

lemma subscript_dict: "subscript v k = Inr x \<Longrightarrow> \<exists>d. v = PDict d \<and> dval d k = x"
  by (auto simp: subscript_def dval_def split: pyval.splits option.splits)

lemma check_gates_ok:
  assumes "check_gates L file required t = Inr ()"
  shows "\<exists>subject. gates_passed L t file subject \<and> (\<forall>s. required = Some s \<longrightarrow> subject = s)"
proof -
  from assms obtain doc subject results where
    doc: "document t file = Inr doc" "subscript doc ''subject'' = Inr subject" "is_str subject"
      "\<not> (required \<noteq> None \<and> subject \<noteq> PStr (the required))" "subscript doc ''results'' = Inr results"
    and rest: "check_results L results t = Inr ()"
    by (auto simp: check_gates_def rbind_eq_Inr_iff rt_err_def split: if_splits)
  then obtain items where items: "results = PList items" by (cases results) (simp_all add: check_results_def rt_err_def)
  from rest items obtain st data acc gates where
    st: "gate_items L [] items = Inr st" and data: "read_bytes t ACCEPTANCE_PATH = Inr data" "load_acceptance L data = Inr acc"
      "py_iter (dval acc ''required_gates'') = Inr gates" "set (map fst st) = set gates"
      "list_all (\<lambda>gate. map_of st gate = Some (pstr ''PASS'')) gates"
    by (auto simp: check_results_def rbind_eq_Inr_iff rt_err_def split: if_splits)
  obtain d where d: "doc = PDict d" "dval d ''subject'' = subject" "dval d ''results'' = PList items"
    using subscript_dict [OF doc(2)] subscript_dict [OF doc(5)] items by auto
  obtain sub where sub: "subject = PStr sub" using doc(3) by (auto simp: is_str_def split: pyval.splits)
  have st': "st = map (\<lambda>item. (gate_of item, status_of item)) items" using gate_items_ok(1) [OF st] by simp
  from load_acceptance_ok [OF data(2)] data(3) have strs: "\<forall>v \<in> set gates. is_str v" by (auto simp: is_str_def)
  with data(4) have "filter is_str (map fst st) = map fst st" by (simp add: filter_id_conv)
  with gate_items_ok(2) [OF st] have dist: "distinct (map fst st)" by simp
  have gates: "map fst st = map gate_of items" by (simp add: st')
  have "status_of item = pstr ''PASS''" if "item \<in> set items" for item
  proof -
    have "(gate_of item, status_of item) \<in> set st" using that by (simp add: st')
    moreover have "gate_of item \<in> set gates" using that data(4) gates by auto
    moreover then have "(gate_of item, pstr ''PASS'') \<in> set st" using data(5) dist by (auto simp: list_all_iff)
    ultimately show ?thesis using dist by (metis eq_key_imp_eq_value)
  qed
  then have "gates_passed L t file sub"
    unfolding gates_passed_def using doc(1) d sub data gates dist by metis
  with doc(4) sub show ?thesis by auto
qed

section \<open>Patches\<close>

lemma allowed_path_ok: "allowed_path p vs = Inr True \<Longrightarrow> \<exists>pattern. PStr pattern \<in> set vs \<and> fnmatchcase p pattern"
  by (induction vs) (auto split: pyval.splits if_splits)

text \<open>A changed path that the checks let through.\<close>

definition path_ok :: "'g git \<Rightarrow> pyval \<Rightarrow> 'g \<Rightarrow> ustr \<Rightarrow> bool" where
  "path_ok G patterns g p \<longleftrightarrow> safe_path p \<and> (\<exists>vs pattern. py_iter patterns = Inr vs \<and> PStr pattern \<in> set vs \<and> fnmatchcase p pattern)
     \<and> (staged_mode G p g = Inr None \<or> staged_mode G p g = Inr (Some (U ''100644'')))"

lemma check_paths_ok: "check_paths G patterns paths g = Inr () \<Longrightarrow> \<forall>p \<in> set paths. path_ok G patterns g p"
proof (induction paths)
  case (Cons p paths)
  then obtain mode where p: "safe_path p" "rbind (py_iter patterns) (allowed_path p) = Inr True"
    "staged_mode G p g = Inr mode" "mode = None \<or> mode = Some (U ''100644'')" "check_paths G patterns paths g = Inr ()"
    by (auto simp: rbind_eq_Inr_iff rt_err_def split: if_splits)
  from p(2) obtain vs where "py_iter patterns = Inr vs" "allowed_path p vs = Inr True" by (auto simp: rbind_eq_Inr_iff)
  with allowed_path_ok p Cons.IH show ?case by (fastforce simp: path_ok_def)
qed simp

definition patch_staged :: "'g git \<Rightarrow> pyval \<Rightarrow> ustr \<Rightarrow> tree \<Rightarrow> 'g \<Rightarrow> ustr list \<Rightarrow> 'g \<Rightarrow> bool" where
  "patch_staged G patterns patch t g paths g1 \<longleftrightarrow> apply_check G patch t g = Inr 0 \<and> apply_cached G patch t g = (Inr (), g1)
     \<and> (\<exists>raw. changed_names G g1 = Inr raw \<and> decode_all (filter (\<lambda>b. b \<noteq> []) (split_on CHR 0x00 raw)) = Inr paths)
     \<and> paths \<noteq> [] \<and> length paths \<le> 32 \<and> distinct paths \<and> (\<forall>p \<in> set paths. path_ok G patterns g1 p)"

lemma stage_patch_ok:
  assumes "stage_patch G patterns patch s = (Inr (), s')"
  shows "repo s' = repo s \<and> (\<exists>paths. patch_staged G patterns patch (repo s) (git_index s) paths (git_index s'))"
  using assms
  by (auto simp: stage_patch_def sbind_ok runs_def asks_def patch_staged_def MAX_CHANGED_PATHS_def
      split: if_splits prod.splits dest!: check_paths_ok)

lemma same_repo [keeps_intro]:
  "keeps (\<lambda>s s'. repo s' = repo s) (runs f)" "keeps (\<lambda>s s'. repo s' = repo s) (asks h)" "keeps (\<lambda>s s'. repo s' = repo s) (sees w)"
  by (auto simp: keeps_def runs_def asks_def sees_def split: prod.splits)

lemma same_repo_patch: "keeps (\<lambda>s s'. repo s' = repo s) (verify_patch E L G anchor patch)"
proof -
  have fin: "keeps R (sfinally m h)" if R: "preorder_rel R" and m: "keeps R m" and h: "keeps R h" for R m h
  proof (rule keepsI)
    fix s r s' assume "sfinally m h s = (r, s')"
    then obtain r1 s1 r2 where "m s = (r1, s1)" "h s1 = (r2, s')"
      by (auto simp: sfinally_def split: prod.splits sum.splits)
    with keepsD [OF m] keepsD [OF h] R show "R s s'" by (meson preorder_rel_def transpE)
  qed
  show ?thesis
    unfolding verify_patch_def stage_patch_def by (intro keeps_intro preorder_rel_same fin)
qed

lemma verify_patch_ok:
  assumes "verify_patch E L G anchor patch s = (Inr (), s')"
  shows "verify_protected_tree E anchor (repo s) = Inr () \<and> repo s' = repo s
    \<and> (\<exists>state phase_id data phase content paths g1. verify_state E (repo s) = Inr state \<and> dval state ''phase'' = PStr phase_id
      \<and> read_bytes (repo s) PHASES_PATH = Inr data \<and> load_phase L phase_id data = Inr phase
      \<and> repo s patch = Some (Regular content) \<and> content \<noteq> [] \<and> length content \<le> MAX_PATCH_BYTES
      \<and> diff_quiet G (git_index s) = Inr 0
      \<and> patch_staged G (dval phase ''allowed_paths'') patch (repo s) (git_index s) paths g1
      \<and> reset_mixed G g1 = (Inr (), git_index s'))"
proof -
  from assms obtain state data phase code where
    p: "verify_protected_tree E anchor (repo s) = Inr ()" "verify_state E (repo s) = Inr state"
      "read_bytes (repo s) PHASES_PATH = Inr data"
      "load_phase L (case dval state ''phase'' of PStr p \<Rightarrow> p | _ \<Rightarrow> []) data = Inr phase"
      "check_patch_file patch (repo s) = Inr ()" "diff_quiet G (git_index s) = Inr code" "code = 0"
    and f: "sfinally (stage_patch G (dval phase ''allowed_paths'') patch) (runs (\<lambda>t. reset_mixed G)) s = (Inr (), s')"
    by (auto simp: verify_patch_def sbind_ok sees_def asks_def rbind_eq_Inr_iff split: if_splits)
  from verify_state_ok [OF p(2)] obtain phase_id where id: "dval state ''phase'' = PStr phase_id"
    by (auto simp: check_state_ok pstr_def)
  from f obtain s1 g where st: "stage_patch G (dval phase ''allowed_paths'') patch s = (Inr (), s1)"
    "reset_mixed G (git_index s1) = (Inr (), g)" "s' = s1\<lparr>git_index := g\<rparr>"
    by (auto simp: sfinally_def runs_def split: prod.splits sum.splits)
  from stage_patch_ok [OF st(1)] obtain paths where
    "patch_staged G (dval phase ''allowed_paths'') patch (repo s) (git_index s) paths (git_index s1)" "repo s1 = repo s" by blast
  moreover obtain content where "repo s patch = Some (Regular content)" "content \<noteq> []" "length content \<le> MAX_PATCH_BYTES"
    using p(5) by (auto simp: check_patch_file_def rt_err_def split: option.splits entry.splits if_splits)
  ultimately show ?thesis using p id st by auto
qed

end
