(* ===== verification/Contracts_Facts.thy ===== *)
theory Contracts_Facts
  imports Trust_Facts
begin

text \<open>
  Contract files that are written field by field read as their fields: the general form of an
  acceptance contract, and the repository's own \<^verbatim>\<open>contracts/PHASES.yaml\<close>.
\<close>

section \<open>Contract files\<close>

text \<open>
  The fields of a contract: a scalar with the text after its colon, or a list with the text of each
  item after the item's prefix. \<open>field_ok\<close> says that the lines of a field read as the field.
\<close>

datatype contract_field = Scalar ustr ustr pyval | Items ustr "(ustr \<times> pyval) list"

fun field_lines :: "ustr \<Rightarrow> ustr \<Rightarrow> contract_field \<Rightarrow> ustr list" where
  "field_lines indent item (Scalar key raw v) = [indent @ key @ 58 # raw]"
| "field_lines indent item (Items key rows) = (indent @ key @ [58]) # map (\<lambda>(raw, v). item @ raw) rows"

fun field_value :: "contract_field \<Rightarrow> pykey \<times> pyval" where
  "field_value (Scalar key raw v) = (KStr key, v)"
| "field_value (Items key rows) = (KStr key, PList (map snd rows))"

definition item_ok :: "literals \<Rightarrow> ustr \<Rightarrow> ustr \<times> pyval \<Rightarrow> bool" where
  "item_ok L item row \<longleftrightarrow> (case split_once (U ''-'') (item @ fst row) of None \<Rightarrow> False | Some (_, raw) \<Rightarrow> contract_value L raw = Inr (snd row))"

fun field_ok :: "literals \<Rightarrow> (ustr \<Rightarrow> bool) \<Rightarrow> (ustr \<Rightarrow> ustr) \<Rightarrow> ustr \<Rightarrow> ustr \<Rightarrow> contract_field \<Rightarrow> bool" where
  "field_ok L malformed trim indent item (Scalar key raw v) =
     (let line = indent @ key @ 58 # raw in
      \<not> malformed line \<and> \<not> startswith line item \<and> split_once (U '':'') (trim line) = Some (key, raw)
      \<and> strip raw \<noteq> [] \<and> contract_value L raw = Inr v)"
| "field_ok L malformed trim indent item (Items key rows) =
     (let line = indent @ key @ [58] in
      \<not> malformed line \<and> \<not> startswith line item \<and> split_once (U '':'') (trim line) = Some (key, [])
      \<and> rows \<noteq> [] \<and> \<not> repeats (map snd rows) \<and> list_all (item_ok L item) rows)"

lemma contract_items_rows:
  assumes "list_all (item_ok L item) rows" "case lines of [] \<Rightarrow> True | line # _ \<Rightarrow> \<not> startswith line item"
  shows "contract_items L item (map (\<lambda>(raw, v). item @ raw) rows @ lines) = Inr (map snd rows, lines)"
  using assms(1)
proof (induction rows)
  case Nil
  with assms(2) show ?case by (cases lines) simp_all
next
  case (Cons row rows)
  then show ?case by (cases row) (auto simp: item_ok_def split: option.splits)
qed

lemma contract_fields_render:
  assumes "list_all (field_ok L malformed trim indent item) entries"
    and "distinct (map fst acc @ map (fst \<circ> field_value) entries)"
  shows "contract_fields L malformed trim item tag acc (concat (map (field_lines indent item) entries)) = Inr (acc @ map field_value entries)"
  using assms
proof (induction entries arbitrary: acc)
  case (Cons f entries)
  let ?rest = "concat (map (field_lines indent item) entries)"
  have next_line: "case ?rest of [] \<Rightarrow> True | line # _ \<Rightarrow> \<not> startswith line item"
  proof (cases entries)
    case (Cons g gs)
    with Cons.prems(1) show ?thesis by (cases g) (auto simp: Let_def)
  qed simp
  have IH: "contract_fields L malformed trim item tag (acc @ [field_value f]) ?rest = Inr (acc @ field_value f # map field_value entries)"
    using Cons.IH [of "acc @ [field_value f]"] Cons.prems by auto
  have new: "map_of acc (fst (field_value f)) = None" using Cons.prems(2) by (auto simp: map_of_eq_None_iff)
  show ?case
  proof (cases f)
    case (Scalar key raw v)
    with Cons.prems(1) IH new show ?thesis by (simp add: Let_def)
  next
    case (Items key rows)
    with Cons.prems(1) have f: "\<not> malformed (indent @ key @ [58])" "split_once (U '':'') (trim (indent @ key @ [58])) = Some (key, [])"
      "rows \<noteq> []" "\<not> repeats (map snd rows)" "list_all (item_ok L item) rows" by (simp_all add: Let_def)
    from contract_items_rows [OF f(5) next_line] f IH new Items show ?thesis by (simp add: strip_def lstrip_def)
  qed
qed simp

text \<open>An acceptance contract with the given gates.\<close>

definition acceptance_lines :: "ustr list \<Rightarrow> ustr list" where
  "acceptance_lines gates = [U ''version: 1.0'', U ''required_gates:''] @ map (\<lambda>g. U ''  - '' @ g) gates @ [U ''all_required: true'']"

definition acceptance_contract :: "ustr list \<Rightarrow> pydict" where
  "acceptance_contract gates = mk_dict [(''version'', pstr ''1.0''), (''required_gates'', PList (map PStr gates)), (''all_required'', PBool True)]"

lemma is_id_chars: "is_id g \<Longrightarrow> \<exists>c t. g = c # t \<and> 65 \<le> c \<and> c \<le> 90 \<and> (\<forall>d \<in> set g. 48 \<le> d \<and> d \<le> 95 \<and> \<not> py_space d)"
  by (cases g) (auto simp: is_id_def list_all_iff py_space_def)

lemma strip_id: "is_id g \<Longrightarrow> strip g = g" "is_id g \<Longrightarrow> strip (32 # g) = g" "is_id g \<Longrightarrow> lstrip (32 # 32 # 45 # 32 # g) = 45 # 32 # g"
proof -
  assume "is_id g"
  with is_id_chars obtain c t where g: "g = c # t" "\<forall>d \<in> set g. \<not> py_space d" by blast
  then have "dropWhile py_space (rev g) = rev g" by (metis dropWhile_eq_self_iff hd_in_set set_rev)
  with g show "strip g = g" "strip (32 # g) = g" "lstrip (32 # 32 # 45 # 32 # g) = 45 # 32 # g"
    by (auto simp: strip_def lstrip_def py_space_def)
qed

lemma contract_value_id:
  assumes "is_id g"
  shows "contract_value L (32 # g) = Inr (PStr g)"
proof -
  from assms is_id_chars obtain c t where g: "g = c # t" "65 \<le> c" "c \<le> 90" by blast
  then have "g \<noteq> U ''null''" "g \<noteq> U ''true''" "g \<noteq> U ''false''" "\<not> is_digit_in L c" "c \<noteq> 34" "c \<noteq> 39"
    by (auto simp: U_def is_digit_in_def is_digit_def)
  with g strip_id(2) [OF assms] show ?thesis by (simp add: contract_value_def)
qed

lemma lines_chars: "\<forall>l \<in> set ls. \<forall>c \<in> set l. P c \<Longrightarrow> P 10 \<Longrightarrow> \<forall>c \<in> set (concat (map (\<lambda>l. l @ [10]) ls)). P c"
  by auto

definition text_of_lines :: "ustr list \<Rightarrow> bytes" where
  "text_of_lines ls = map char_of (concat (map (\<lambda>l. l @ [10]) ls))"

text \<open>Lines of printable characters that are neither blank nor comments and end without white space.\<close>

definition plain_line :: "ustr \<Rightarrow> bool" where
  "plain_line l \<longleftrightarrow> list_all (\<lambda>c. 32 \<le> c \<and> c < 127) l
     \<and> (case lstrip l of [] \<Rightarrow> False | c # t \<Rightarrow> c \<noteq> 35 \<and> \<not> py_space (last (c # t)))"

lemma contract_lines_render:
  assumes plain: "list_all plain_line ls"
  shows "contract_lines (text_of_lines ls) = Inr ls"
proof -
  have assms: "\<forall>l \<in> set ls. (\<forall>c \<in> set l. 32 \<le> c \<and> c < 127) \<and> (\<exists>c t. lstrip l = c # t \<and> c \<noteq> 35 \<and> \<not> py_space (last (c # t)))"
  proof
    fix l assume "l \<in> set ls"
    with plain have "plain_line l" by (simp add: list_all_iff)
    then show "(\<forall>c \<in> set l. 32 \<le> c \<and> c < 127) \<and> (\<exists>c t. lstrip l = c # t \<and> c \<noteq> 35 \<and> \<not> py_space (last (c # t)))"
      by (cases "lstrip l") (simp_all add: plain_line_def list_all_iff)
  qed
  have c: "\<forall>l \<in> set ls. \<forall>c \<in> set l. \<not> line_break c" using assms by (force simp: line_break_def)
  have "read_text (text_of_lines ls) = Inr (concat (map (\<lambda>l. l @ [10]) ls))"
    unfolding text_of_lines_def by (rule read_text_ascii, rule lines_chars) (use assms in force)+
  moreover have "\<forall>c \<in> set (concat (map (\<lambda>l. l @ [10]) ls)). c \<noteq> 9 \<and> c \<noteq> 13"
    by (rule lines_chars) (use assms in force)+
  moreover have "strip l \<noteq> [] \<and> \<not> startswith (lstrip l) (U ''#'')" if "l \<in> set ls" for l
  proof -
    from assms that obtain c t where l: "lstrip l = c # t" "c \<noteq> 35" "\<not> py_space (last (c # t))" by blast
    then have "dropWhile py_space (rev (c # t)) = rev (c # t)"
      by (metis dropWhile_eq_self_iff hd_rev)
    with l show ?thesis by (simp add: strip_def U_def)
  qed
  then have "filter (\<lambda>line. strip line \<noteq> [] \<and> \<not> startswith (lstrip line) (U ''#'')) ls = ls" by (simp add: filter_id_conv)
  ultimately show ?thesis unfolding contract_lines_def by (auto simp: splitlines_lines [OF c])
qed

lemma acceptance_lines_plain:
  assumes "\<forall>g \<in> set gates. is_id g" "l \<in> set (acceptance_lines gates)"
  shows "plain_line l"
proof -
  consider "l = U ''version: 1.0''" | "l = U ''required_gates:''" | "l = U ''all_required: true''" | g where "g \<in> set gates" "l = U ''  - '' @ g"
    using assms(2) by (auto simp: acceptance_lines_def)
  then show ?thesis
  proof cases
    case 4
    with assms(1) have g: "is_id g" by blast
    from is_id_chars [OF g] have "\<forall>d \<in> set g. 48 \<le> d \<and> d \<le> 95 \<and> \<not> py_space d" "g \<noteq> []" by auto
    with 4 strip_id(3) [OF g] show ?thesis by (auto simp: plain_line_def list_all_iff U_def)
  qed (simp_all add: plain_line_def U_def lstrip_def py_space_def)
qed

definition acceptance_fields :: "ustr list \<Rightarrow> contract_field list" where
  "acceptance_fields gates = [Scalar (U ''version'') (U '' 1.0'') (pstr ''1.0''), Items (U ''required_gates'') (map (\<lambda>g. (g, PStr g)) gates),
     Scalar (U ''all_required'') (U '' true'') (PBool True)]"

lemma acceptance_fields_ok:
  assumes "gates \<noteq> []" "distinct gates" "\<forall>g \<in> set gates. is_id g"
  shows "list_all (field_ok L malformed_acceptance (\<lambda>line. line) [] (U ''  - '')) (acceptance_fields gates)"
proof -
  have "item_ok L (U ''  - '') (g, PStr g)" if "g \<in> set gates" for g
  proof -
    have "split_once (U ''-'') (U ''  - '' @ g) = Some (U ''  '', 32 # g)" by (simp add: U_def)
    with contract_value_id that assms(3) show ?thesis by (simp add: item_ok_def)
  qed
  moreover have "\<not> repeats (map PStr gates)"
    using assms(2) by (simp add: repeats_def o_def distinct_map inj_on_def)
  moreover have "contract_value L (U '' 1.0'') = Inr (pstr ''1.0'')" "contract_value L (U '' true'') = Inr (PBool True)"
    by (simp_all add: contract_value_def strip_def lstrip_def py_space_def is_digit_in_def is_digit_def U_def pstr_def)
  moreover have "strip (U '' 1.0'') \<noteq> []" "strip (U '' true'') \<noteq> []" by (simp_all add: strip_def lstrip_def py_space_def U_def)
  ultimately show ?thesis
    using assms(1) by (simp add: acceptance_fields_def list_all_iff o_def malformed_acceptance_def) (simp add: U_def)
qed

lemma load_acceptance_render:
  assumes "gates \<noteq> []" "distinct gates" "\<forall>g \<in> set gates. is_id g"
  shows "load_acceptance L (text_of_lines (acceptance_lines gates)) = Inr (acceptance_contract gates)"
proof -
  have "acceptance_lines gates = concat (map (field_lines [] (U ''  - '')) (acceptance_fields gates))"
    by (simp add: acceptance_lines_def acceptance_fields_def U_def)
  moreover have "map field_value (acceptance_fields gates) = acceptance_contract gates"
    by (simp add: acceptance_fields_def acceptance_contract_def kw_def pstr_def o_def)
  moreover have "distinct (map (fst \<circ> field_value) (acceptance_fields gates))" by (simp add: acceptance_fields_def)
  ultimately have f: "contract_fields L malformed_acceptance (\<lambda>line. line) (U ''  - '') ''acceptance'' [] (acceptance_lines gates)
      = Inr (acceptance_contract gates)"
    using contract_fields_render [OF acceptance_fields_ok [OF assms], of "[]"] by simp
  have ids: "check_ids (map PStr gates) = Inr ()" if "\<forall>g \<in> set gates. is_id g" for gates
    using that by (induction gates) (simp_all add: id_match_def)
  have "contract_lines (text_of_lines (acceptance_lines gates)) = Inr (acceptance_lines gates)"
    by (rule contract_lines_render) (use acceptance_lines_plain [OF assms(3)] in \<open>simp add: list_all_iff\<close>)
  moreover have "has_keys (acceptance_contract gates) [''version'', ''required_gates'', ''all_required'']"
    by (simp add: acceptance_contract_def has_keys_iff)
  ultimately show ?thesis
    using f ids [OF assms(3)] by (simp add: load_acceptance_def check_gate_ids_def) (simp add: acceptance_contract_def py_iter_def)
qed

section \<open>The repository's phase contract\<close>

text \<open>\<^verbatim>\<open>contracts/PHASES.yaml\<close>, line by line.\<close>

definition PHASES_LINES :: "string list" where
  "PHASES_LINES =
     [''phases:'', ''  - id: F00'', ''    name: '' @ [CHR 0x22] @ ''create_hello_world'' @ [CHR 0x22], ''    next: null'', ''    max_attempts: 3'',
      ''    agent: '' @ [CHR 0x22] @ ''codex'' @ [CHR 0x22],
      ''    prompt: '' @ [CHR 0x22] @ ''Create src/generated/hello.py with a function hello() that returns '' @ [CHR 0x27]
        @ ''Hello, MGK!'' @ [CHR 0x27] @ [CHR 0x22],
      ''    required_gates:'', ''      - ROOT_INTEGRITY'', ''      - STATE_INTEGRITY'', ''      - PATCH_SCOPE'', ''      - F00_HELLO_WORLD'',
      ''    allowed_paths:'', ''      - '' @ [CHR 0x22] @ ''src/generated/**'' @ [CHR 0x22]]"

definition PHASES_YAML :: bytes where
  "PHASES_YAML = text_of_lines (map U PHASES_LINES)"

definition quoted :: "string \<Rightarrow> ustr" where
  "quoted s = [32, 34] @ U s @ [34]"

definition phase_fields :: "contract_field list" where
  "phase_fields =
     [Scalar (U ''name'') (quoted ''create_hello_world'') (pstr ''create_hello_world''), Scalar (U ''next'') (U '' null'') PNone,
      Scalar (U ''max_attempts'') (U '' 3'') (PInt 3), Scalar (U ''agent'') (quoted ''codex'') (pstr ''codex''),
      (let prompt = ''Create src/generated/hello.py with a function hello() that returns '' @ [CHR 0x27] @ ''Hello, MGK!'' @ [CHR 0x27]
       in Scalar (U ''prompt'') (quoted prompt) (pstr prompt)),
      Items (U ''required_gates'') (map (\<lambda>g. (U g, pstr g)) [''ROOT_INTEGRITY'', ''STATE_INTEGRITY'', ''PATCH_SCOPE'', ''F00_HELLO_WORLD'']),
      Items (U ''allowed_paths'') [(tl (quoted ''src/generated/**''), pstr ''src/generated/**'')]]"

definition F00_PHASE :: pydict where
  "F00_PHASE = (kw ''id'', pstr ''F00'') # map field_value phase_fields"

lemma phase_blocks_none: "\<forall>l \<in> set ls. \<not> phase_start l \<Longrightarrow> phase_blocks ls = []"
  by (induction ls) auto

lemma phase_blocks_one:
  "\<not> phase_start a \<Longrightarrow> phase_start b \<Longrightarrow> list_all (\<lambda>l. \<not> phase_start l) ls \<Longrightarrow> phase_blocks (a # b # ls) = [b # ls]"
  by (simp add: phase_blocks_none list_all_iff)

definition PHASE_BODY :: "ustr list" where
  "PHASE_BODY = concat (map (field_lines (U ''    '') (U ''      - '')) phase_fields)"

lemmas contract_eval = contract_value_def strip_def lstrip_def py_space_def is_digit_in_def is_digit_def Let_def U_def kw_def pstr_def
  literal_eval_def plain_char_def int_of_text_def max_int_digits_def digits_val_def repeats_def

lemma phases_text: "map U PHASES_LINES = U ''phases:'' # U ''  - id: F00'' # PHASE_BODY"
  by (simp add: PHASES_LINES_def PHASE_BODY_def phase_fields_def quoted_def U_def)

lemma phases_plain: "list_all plain_line (map U PHASES_LINES)"
  by (simp add: PHASES_LINES_def plain_line_def lstrip_def py_space_def U_def)

lemma phases_starts: "list_all (\<lambda>l. \<not> phase_start l) PHASE_BODY" "\<not> phase_start (U ''phases:'')" "phase_start (U ''  - id: F00'')"
  by code_simp+

lemma phases_id: "block_id L (U ''  - id: F00'' # PHASE_BODY) = Inr (PStr (U ''F00''))"
  by (simp add: block_id_def contract_eval)

lemma phase_fields_ok: "list_all (field_ok L malformed_phase strip (U ''    '') (U ''      - '')) phase_fields"
  by (simp add: phase_fields_def item_ok_def contract_eval malformed_phase_def quoted_def)

lemma phases_contract:
  "load_phase L (U ''F00'') PHASES_YAML = Inr F00_PHASE"
  "load_phase L p PHASES_YAML = Inr phase \<Longrightarrow> p = U ''F00''"
proof -
  have lines: "contract_lines PHASES_YAML = Inr (U ''phases:'' # U ''  - id: F00'' # PHASE_BODY)"
    unfolding PHASES_YAML_def contract_lines_render [OF phases_plain] by (simp add: phases_text)
  have block: "phase_blocks (U ''phases:'' # U ''  - id: F00'' # PHASE_BODY) = [U ''  - id: F00'' # PHASE_BODY]"
    by (rule phase_blocks_one) (rule phases_starts)+
  have "distinct (map fst [(kw ''id'', PStr (U ''F00''))] @ map (fst \<circ> field_value) phase_fields)" by code_simp
  from contract_fields_render [OF phase_fields_ok this]
  have read: "contract_fields L malformed_phase strip (U ''      - '') ''phase'' [(kw ''id'', PStr (U ''F00''))] PHASE_BODY = Inr F00_PHASE"
    by (simp add: PHASE_BODY_def F00_PHASE_def pstr_def)
  have "is_id (U ''F00'')" "has_keys F00_PHASE PHASE_KEYS" "check_gate_ids F00_PHASE = Inr ()" by code_simp+
  with read show "load_phase L (U ''F00'') PHASES_YAML = Inr F00_PHASE"
    by (simp add: load_phase_def lines block phases_id del: phase_blocks.simps)
  show "load_phase L p PHASES_YAML = Inr phase \<Longrightarrow> p = U ''F00''"
    by (simp add: load_phase_def lines block phases_id rt_err_def Let_def del: phase_blocks.simps split: if_splits)
qed

end
