(* ===== verification/Tcb.thy ===== *)
theory Tcb
  imports Gates_Facts Contracts_Facts
begin

text \<open>The properties of the scripts that guard the repository's phases.\<close>

section \<open>Patches and attestations\<close>

lemma glob_match_literals: "glob_match (map Literal l @ ps) s \<Longrightarrow> \<exists>t. s = l @ t \<and> glob_match ps t"
  by (induction l arbitrary: s) (auto split: list.splits)

lemma generated_only: "fnmatchcase p (U ''src/generated/**'') \<Longrightarrow> startswith p (U ''src/generated/'')"
proof -
  have "glob_items (U ''src/generated/**'') = map Literal (U ''src/generated/'') @ [AnyText, AnyText]" by (simp add: U_def)
  moreover assume "fnmatchcase p (U ''src/generated/**'')"
  ultimately show ?thesis using glob_match_literals unfolding fnmatchcase_def startswith_iff by metis
qed

lemma generated_unprotected:
  assumes "startswith p (U ''src/generated/'')"
  shows "p \<notin> set REQUIRED_PROTECTED_PATHS" "p \<noteq> MANIFEST_PATH" "p \<noteq> STATE_PATH"
proof -
  have "list_all (\<lambda>q. \<not> startswith q (U ''src/generated/'')) (MANIFEST_PATH # STATE_PATH # REQUIRED_PROTECTED_PATHS)"
    by (simp add: MANIFEST_PATH_def STATE_PATH_def REQUIRED_PROTECTED_PATHS_def U_def)
  with assms show "p \<notin> set REQUIRED_PROTECTED_PATHS" "p \<noteq> MANIFEST_PATH" "p \<noteq> STATE_PATH"
    by (auto simp: list_all_iff)
qed

text \<open>The index is left as it was, or as a reset leaves it.\<close>

definition index_reset :: "'g git \<Rightarrow> 'g tcb \<Rightarrow> 'g tcb \<Rightarrow> bool" where
  "index_reset G s s' \<longleftrightarrow> git_index s' = git_index s \<or> (\<exists>g. git_index s' = snd (reset_mixed G g))"

lemma preorder_index_reset: "preorder_rel (index_reset G)"
  by (auto simp: preorder_rel_def reflp_def transp_def index_reset_def)

lemma index_reset_look [keeps_intro]: "keeps (index_reset G) (sees f)" "keeps (index_reset G) (asks h)"
  by (auto simp: keeps_def sees_def asks_def index_reset_def)

lemma index_reset_finally [keeps_intro]: "keeps (index_reset G) (sfinally m (runs (\<lambda>t. reset_mixed G)))"
proof (rule keepsI)
  fix s r s' assume "sfinally m (runs (\<lambda>t. reset_mixed G)) s = (r, s')"
  then obtain s1 r2 where "runs (\<lambda>t. reset_mixed G) s1 = (r2, s')"
    by (auto simp: sfinally_def split: prod.splits sum.splits)
  then have "git_index s' = snd (reset_mixed G (git_index s1))" by (auto simp: runs_def split: prod.splits)
  then show "index_reset G s s'" by (auto simp: index_reset_def)
qed

lemma index_reset_patch: "keeps (index_reset G) (verify_patch E L G anchor patch)"
  unfolding verify_patch_def by (intro keeps_intro preorder_index_reset)

lemma check_candidate_ok:
  assumes "check_candidate E G metadata_file patch_file b t g = Inr metadata"
  shows "document t metadata_file = Inr metadata \<and> (\<exists>content. read_bytes t patch_file = Inr content
    \<and> subscript metadata ''PATCH_SHA256'' = Inr (PStr (sha256_hex E content)))"
  using assms
  by (auto simp: check_candidate_def rbind_eq_Inr_iff rt_err_def sha256_file_def rmap_eq_Inr_iff split: if_splits)

lemma make_attestation_ok:
  assumes "make_attestation E L G metadata_file patch_file pre_file final_file output run_id attempt s = (Inr doc, s')"
  shows "(\<exists>metadata phase content commit base tree_sha state out pre final.
        check_candidate E G metadata_file patch_file False (repo s) (git_index s) = Inr metadata
        \<and> read_bytes (repo s) patch_file = Inr content \<and> subscript metadata ''PATCH_SHA256'' = Inr (PStr (sha256_hex E content))
        \<and> subscript metadata ''PHASE'' = Inr phase \<and> subscript metadata ''BASE_SHA'' = Inr (PStr base)
        \<and> rev_parse G ''HEAD'' (git_index s) = Inr commit \<and> rmap strip (rev_parse G ''HEAD^'' (git_index s)) = Inr base
        \<and> rev_parse G ''HEAD^{tree}'' (git_index s) = Inr tree_sha
        \<and> gates_passed L (repo s) pre_file (sha256_hex E content) \<and> gates_passed L (repo s) final_file (strip commit)
        \<and> read_bytes (repo s) pre_file = Inr pre \<and> read_bytes (repo s) final_file = Inr final
        \<and> porcelain G (repo s) (git_index s) = Inr out \<and> strip out = []
        \<and> verify_state E (repo s) = Inr state \<and> dval state ''phase'' = pstr ''DONE''
        \<and> doc = mk_dict
             [(''schema_version'', PInt 1), (''phase'', phase), (''base_sha'', PStr base), (''patch_sha256'', PStr (sha256_hex E content)),
              (''candidate_commit_sha'', PStr (strip commit)), (''candidate_tree_sha'', PStr (strip tree_sha)),
              (''state_sha256'', dval state ''hash''), (''pre_gate_results_sha256'', PStr (sha256_hex E pre)),
              (''final_gate_results_sha256'', PStr (sha256_hex E final)), (''workflow_run_id'', PStr run_id),
              (''workflow_run_attempt'', PStr attempt), (''human_authorization_required'', PBool True),
              (''automated_merge'', PBool False)])
    \<and> atomic_write output (json_text doc) s = (Inr (), s')"
proof -
  from assms obtain metadata commit parent tree_sha patch base dirty state pre final where
    c: "check_candidate E G metadata_file patch_file False (repo s) (git_index s) = Inr metadata"
    and g: "rev_parse G ''HEAD'' (git_index s) = Inr commit" "rmap strip (rev_parse G ''HEAD^'' (git_index s)) = Inr parent"
      "rev_parse G ''HEAD^{tree}'' (git_index s) = Inr tree_sha"
    and p: "subscript metadata ''PATCH_SHA256'' = Inr patch" "check_gates L pre_file (subject_of patch) (repo s) = Inr ()"
      "check_gates L final_file (Some (strip commit)) (repo s) = Inr ()"
    and b: "subscript metadata ''BASE_SHA'' = Inr base" "PStr parent = base"
    and d: "porcelain G (repo s) (git_index s) = Inr dirty" "strip dirty = []"
    and v: "verify_state E (repo s) = Inr state" "dval state ''phase'' = pstr ''DONE''"
    and h: "read_bytes (repo s) pre_file = Inr pre" "read_bytes (repo s) final_file = Inr final"
    and a: "attestation metadata state (strip commit) (strip tree_sha) (sha256_hex E pre) (sha256_hex E final) run_id attempt = Inr doc"
    and w: "atomic_write output (json_text doc) s = (Inr (), s')"
    by (auto simp: make_attestation_def sbind_ok sees_def asks_def rbind_eq_Inr_iff rmap_eq_Inr_iff sha256_file_def simp del: mk_dict_simps
        split: if_splits)
  from check_candidate_ok [OF c] p(1) obtain content where content: "read_bytes (repo s) patch_file = Inr content"
    "patch = PStr (sha256_hex E content)" by auto
  have "gates_passed L (repo s) pre_file (sha256_hex E content)"
    using check_gates_ok [OF p(2)] content(2) by (auto simp: subject_of_def)
  moreover have "gates_passed L (repo s) final_file (strip commit)" using check_gates_ok [OF p(3)] by auto
  moreover obtain phase where "subscript metadata ''PHASE'' = Inr phase"
    "doc = mk_dict
             [(''schema_version'', PInt 1), (''phase'', phase), (''base_sha'', base), (''patch_sha256'', patch),
              (''candidate_commit_sha'', PStr (strip commit)), (''candidate_tree_sha'', PStr (strip tree_sha)),
              (''state_sha256'', dval state ''hash''), (''pre_gate_results_sha256'', PStr (sha256_hex E pre)),
              (''final_gate_results_sha256'', PStr (sha256_hex E final)), (''workflow_run_id'', PStr run_id),
              (''workflow_run_attempt'', PStr attempt), (''human_authorization_required'', PBool True),
              (''automated_merge'', PBool False)]"
    using a p(1) b(1) unfolding attestation_def by (auto simp: rbind_eq_Inr_iff simp del: mk_dict_simps)
  moreover have "base = PStr parent" using b(2) by simp
  ultimately show ?thesis
    using p(1) b(1) content g c d v w h by blast
qed

section \<open>A sample working tree\<close>

definition manifest_text :: "platform \<Rightarrow> (ustr \<Rightarrow> bytes) \<Rightarrow> bytes" where
  "manifest_text E content = text_of_lines (map (\<lambda>p. sha256_hex E (content p) @ 32 # [32] @ p) REQUIRED_PROTECTED_PATHS)"

definition path_line_ok :: "ustr \<Rightarrow> bool" where
  "path_line_ok p \<longleftrightarrow> list_all (\<lambda>c. 32 \<le> c \<and> c < 127) p \<and> \<not> startswith p (U ''/'') \<and> posix_parts p \<noteq> [] \<and> \<not> list_ex dotty (posix_parts p)"

lemma required_safe: "list_all path_line_ok REQUIRED_PROTECTED_PATHS"
  by (simp add: REQUIRED_PROTECTED_PATHS_def path_line_ok_def posix_parts_def dotty_def U_def)

lemma required_sorted: "sorted_wrt (<) REQUIRED_PROTECTED_PATHS"
proof -
  have "successively (<) REQUIRED_PROTECTED_PATHS" by (simp add: REQUIRED_PROTECTED_PATHS_def U_def)
  then show ?thesis by (simp add: successively_conv_sorted_wrt)
qed

lemmas required_paths = required_safe required_sorted

lemma manifest_lines_render:
  assumes "platform_ok E" "list_all path_line_ok ps" "sorted_wrt (<) (map fst acc @ ps)"
  shows "manifest_lines acc (map (\<lambda>p. sha256_hex E (content p) @ 32 # [32] @ p) ps) = Inr (acc @ map (\<lambda>p. (p, sha256_hex E (content p))) ps)"
  using assms(2,3)
proof (induction ps arbitrary: acc)
  case (Cons p ps)
  have hex: "hex_match 64 (sha256_hex E (content p))" by (rule sha256_hex_match [OF assms(1)])
  then have "32 \<notin> set (sha256_hex E (content p))" by (auto simp: hex_match_def list_all_iff is_hex_def)
  then have split: "split_once (U ''  '') (sha256_hex E (content p) @ 32 # [32] @ p) = Some (sha256_hex E (content p), p)"
    using split_once_at [of 32 "sha256_hex E (content p)" "[32]" p] by (simp add: U_def)
  have less: "\<forall>x \<in> fst ` set acc. x < p" using Cons.prems(2) by (simp add: sorted_wrt_append)
  then have new: "map_of acc p = None" by (auto simp: map_of_eq_None_iff)
  have last: "acc \<noteq> [] \<Longrightarrow> \<not> p \<le> fst (last acc)" using less by (metis image_eqI last_in_set linorder_not_le)
  have "manifest_line acc (sha256_hex E (content p) @ 32 # [32] @ p) = Inr (acc @ [(p, sha256_hex E (content p))])"
    using Cons.prems(1) hex split new last by (auto simp: manifest_line_def path_line_ok_def)
  moreover have "manifest_lines (acc @ [(p, sha256_hex E (content p))]) (map (\<lambda>p. sha256_hex E (content p) @ 32 # [32] @ p) ps)
      = Inr ((acc @ [(p, sha256_hex E (content p))]) @ map (\<lambda>p. (p, sha256_hex E (content p))) ps)"
    using Cons.prems by (intro Cons.IH) simp_all
  ultimately show ?case by simp
qed simp

lemma ascii_decode_chars: "\<forall>c \<in> set s. c < 128 \<Longrightarrow> ascii_decode (map char_of s) = Inr s"
proof -
  assume s: "\<forall>c \<in> set s. c < 128"
  then have "U (map char_of s) = s" by (induction s) (simp_all add: U_def)
  with s show ?thesis by (auto simp: ascii_decode_def list_all_iff)
qed

lemma manifest_of_render:
  assumes "platform_ok E"
  shows "manifest_of (manifest_text E content) = Inr (map (\<lambda>p. (p, sha256_hex E (content p))) REQUIRED_PROTECTED_PATHS)"
proof -
  define ls where "ls = map (\<lambda>p. sha256_hex E (content p) @ 32 # [32] @ p) REQUIRED_PROTECTED_PATHS"
  define s where "s = concat (map (\<lambda>l. l @ [10]) ls)"
  have chars: "\<forall>l \<in> set ls. \<forall>c \<in> set l. 32 \<le> c \<and> c < 127"
  proof (intro ballI)
    fix l c assume "l \<in> set ls" "c \<in> set l"
    then obtain p where "p \<in> set REQUIRED_PROTECTED_PATHS" "c \<in> set (sha256_hex E (content p)) \<or> c = 32 \<or> c \<in> set p"
      by (auto simp: ls_def)
    then show "32 \<le> c \<and> c < 127"
      using required_paths(1) sha256_hex_match [OF assms, of "content p"]
      by (auto simp: list_all_iff path_line_ok_def hex_match_def is_hex_def)
  qed
  then have small: "\<forall>c \<in> set s. c < 128 \<and> c \<noteq> 13" unfolding s_def by (intro lines_chars) force+
  then have "ascii_decode (map char_of s) = Inr s" by (intro ascii_decode_chars) blast
  moreover have "manifest_text E content = map char_of s" by (simp add: manifest_text_def text_of_lines_def s_def ls_def)
  moreover have "newlines s = s" by (rule newlines_id) (use small in blast)
  moreover have "splitlines s = ls" unfolding s_def by (rule splitlines_lines) (use chars in \<open>force simp: line_break_def\<close>)
  moreover have "manifest_lines [] ls = Inr (map (\<lambda>p. (p, sha256_hex E (content p))) REQUIRED_PROTECTED_PATHS)"
    using manifest_lines_render [OF assms required_paths(1), of "[]"] required_paths(2) by (simp add: ls_def)
  ultimately show ?thesis by (simp add: manifest_of_def o_def image_image)
qed

text \<open>
  A tree with the repository's phase contract, an acceptance contract of one gate, empty other
  protected files, a phase state, and further files.
\<close>

definition demo_content :: "ustr \<Rightarrow> bytes" where
  "demo_content p = (if p = PHASES_PATH then PHASES_YAML else if p = ACCEPTANCE_PATH then text_of_lines (acceptance_lines [U ''PATCH_SCOPE'']) else [])"

definition demo_anchor :: ustr where
  "demo_anchor = sha256_hex demo_platform (manifest_text demo_platform demo_content)"

definition demo_state :: "bool \<Rightarrow> pydict" where
  "demo_state finished = phase_doc finished (compute_state_hash demo_platform (phase_doc finished []))"

definition tree_with :: "(ustr \<Rightarrow> bytes) \<Rightarrow> bool \<Rightarrow> (ustr \<rightharpoonup> bytes) \<Rightarrow> tree" where
  "tree_with content finished extra p =
     (if p = MANIFEST_PATH then Some (Regular (manifest_text demo_platform content))
      else if p \<in> set REQUIRED_PROTECTED_PATHS then Some (Regular (content p))
      else if p = STATE_PATH then Some (Regular (json_text (demo_state finished)))
      else map_option Regular (extra p))"

abbreviation demo_tree :: "bool \<Rightarrow> (ustr \<rightharpoonup> bytes) \<Rightarrow> tree" where
  "demo_tree \<equiv> tree_with demo_content"

lemma demo_paths:
  "PHASES_PATH \<in> set REQUIRED_PROTECTED_PATHS" "ACCEPTANCE_PATH \<in> set REQUIRED_PROTECTED_PATHS"
  "MANIFEST_PATH \<notin> set REQUIRED_PROTECTED_PATHS" "STATE_PATH \<notin> set REQUIRED_PROTECTED_PATHS"
  "STATE_PATH \<noteq> MANIFEST_PATH" "PHASES_PATH \<noteq> MANIFEST_PATH" "ACCEPTANCE_PATH \<noteq> MANIFEST_PATH" "ACCEPTANCE_PATH \<noteq> PHASES_PATH"
  by (simp_all add: PHASES_PATH_def ACCEPTANCE_PATH_def MANIFEST_PATH_def STATE_PATH_def REQUIRED_PROTECTED_PATHS_def)

lemma tree_protected:
  "verify_protected_tree demo_platform (sha256_hex demo_platform (manifest_text demo_platform content)) (tree_with content finished extra) = Inr ()"
proof -
  note ok = platform_ok_demo
  have "check_protected demo_platform (tree_with content finished extra)
      (map (\<lambda>p. (p, sha256_hex demo_platform (content p))) REQUIRED_PROTECTED_PATHS) = Inr ()"
    unfolding check_protected_ok using demo_paths(3) by (auto simp: tree_with_def)
  then show ?thesis
    unfolding verify_protected_ok using sha256_hex_match [OF ok] manifest_of_render [OF ok]
    by (auto simp: tree_with_def)
qed

lemma demo_protected: "verify_protected_tree demo_platform demo_anchor (demo_tree finished extra) = Inr ()"
  unfolding demo_anchor_def by (rule tree_protected)

lemma demo_tree_verified: "verify_state demo_platform (tree_with content finished extra) = Inr (demo_state finished)"
proof -
  have pop: "dpop (phase_doc finished h) ''hash'' = dpop (phase_doc finished []) ''hash''" for h
    by (simp add: phase_doc_def dpop_def)
  have h: "compute_state_hash demo_platform (demo_state finished) = compute_state_hash demo_platform (phase_doc finished [])"
    unfolding demo_state_def compute_state_hash_def [of _ "phase_doc finished h" for h] by (rule arg_cong [OF pop])
  have k: "distinct (map fst (demo_state finished))" "has_keys (demo_state finished) WRITTEN"
    by (simp_all add: demo_state_def phase_doc_def has_keys_iff WRITTEN_def)
  have "check_state demo_platform (demo_state finished) = Inr (demo_state finished)"
    unfolding check_state_ok h by (simp add: demo_state_def phase_doc_def)
  moreover have "dval (demo_state finished) ''phase'' = pstr (if finished then ''DONE'' else ''F00'')"
    "dval (demo_state finished) ''attempts'' = PInt 0" by (simp_all add: demo_state_def phase_doc_def)
  moreover have "tree_with content finished extra STATE_PATH = Some (Regular (json_text (demo_state finished)))"
    using demo_paths by (simp add: tree_with_def)
  ultimately show ?thesis using verify_phase [OF k] h by (simp add: demo_state_def)
qed

lemma atomic_write_clean:
  assumes "tcb_faults s = []" "repo s (next_temp s) = None" "next_temp s \<noteq> target"
  shows "atomic_write target data s = (Inr (), s\<lparr>repo := (repo s)(target \<mapsto> Regular data)\<rparr>)"
proof -
  have "(repo s)(next_temp s := None, target \<mapsto> Regular data) = (repo s)(target \<mapsto> Regular data)"
    using assms(2) by (metis fun_upd_triv)
  moreover have "s\<lparr>tcb_faults := []\<rparr> = s" using assms(1) by simp
  ultimately show ?thesis
    using assms
    by (simp add: atomic_write_def sbind_def effect_def fs_call_def mkstemp_def write_temp_def replace_file_def remove_temp_def
        sfinally_def sret_def fun_upd_twist)
qed

lemma demo_extra:
  assumes "p \<notin> {MANIFEST_PATH, STATE_PATH} \<union> set REQUIRED_PROTECTED_PATHS"
  shows "demo_tree finished extra p = map_option Regular (extra p)"
  using assms by (simp add: tree_with_def)

lemma demo_contracts:
  "read_bytes (demo_tree finished extra) PHASES_PATH = Inr PHASES_YAML"
  "read_bytes (demo_tree finished extra) ACCEPTANCE_PATH = Inr (text_of_lines (acceptance_lines [U ''PATCH_SCOPE'']))"
  using demo_paths by (simp_all add: tree_with_def demo_content_def read_bytes_def)

definition demo_tcb :: "bool \<Rightarrow> (ustr \<rightharpoonup> bytes) \<Rightarrow> nat tcb" where
  "demo_tcb finished extra = \<lparr>repo = demo_tree finished extra, next_temp = U ''orchestrator/tcb/state.x.tmp'', tcb_faults = [], git_index = 0\<rparr>"

lemma demo_advance:
  obtains d s' where "advance_state demo_platform demo_anchor (demo_tcb False Map.empty) = (Inr d, s')"
proof -
  let ?s = "demo_tcb False Map.empty"
  have p: "dval (demo_state False) ''phase'' = pstr ''F00''" by (simp add: demo_state_def phase_doc_def)
  have temp: "repo ?s (next_temp ?s) = None" "next_temp ?s \<noteq> STATE_PATH" "tcb_faults ?s = []"
    by (simp_all add: demo_tcb_def tree_with_def MANIFEST_PATH_def STATE_PATH_def REQUIRED_PROTECTED_PATHS_def)
  let ?a = "advanced demo_platform (demo_state False)"
  have w: "atomic_write_state ?a ?s = (Inr (), ?s\<lparr>repo := (repo ?s)(STATE_PATH \<mapsto> Regular (json_text ?a))\<rparr>)"
    unfolding atomic_write_state_def by (rule atomic_write_clean) (rule temp)+
  have A: "distinct (map fst ?a)" "has_keys ?a WRITTEN" "check_state demo_platform ?a = Inr ?a" "dval ?a ''phase'' = pstr ''DONE''"
    "dval ?a ''attempts'' = PInt 0"
    using advanced_ok [OF demo_tree_verified p] by simp_all
  have "verify_state demo_platform ((repo ?s)(STATE_PATH \<mapsto> Regular (json_text ?a)))
      = Inr (phase_doc True (compute_state_hash demo_platform ?a))"
    by (rule verify_phase) (use A in simp_all)
  with w have "advance_state demo_platform demo_anchor ?s
      = (Inr (phase_doc True (compute_state_hash demo_platform ?a)), ?s\<lparr>repo := (repo ?s)(STATE_PATH \<mapsto> Regular (json_text ?a))\<rparr>)"
    using demo_protected demo_tree_verified p by (simp add: advance_state_def sbind_def sees_def demo_tcb_def)
  with that show thesis by blast
qed

lemma advance_done:
  assumes "verify_state E (repo s) = Inr d" "dval d ''phase'' = pstr ''DONE''" "advance_state E anchor s = (r, s')"
  shows "(\<exists>e. r = Inl e) \<and> s' = s"
  using assms by (auto simp: advance_state_def sbind_def sees_def sraise_def split: sum.splits)

text \<open>A git that stages one new file.\<close>

definition demo_git :: "nat git" where
  "demo_git = \<lparr>rev_parse = (\<lambda>ref _. Inr (if ref = ''HEAD'' then replicate 40 49 @ [10] else replicate 40 48 @ [10])),
     diff_quiet = (\<lambda>g. Inr (int g)), apply_check = (\<lambda>_ _ _. Inr 0), apply_cached = (\<lambda>_ _ _. (Inr (), 1)),
     changed_names = (\<lambda>_. Inr (''src/generated/hello.py'' @ [CHR 0x00])),
     ls_stage = (\<lambda>_ _. Inr (''100644 abc 0'' @ [CHR 0x09] @ ''src/generated/hello.py'' @ [CHR 0x00])),
     reset_mixed = (\<lambda>_. (Inr (), 0)), porcelain = (\<lambda>_ _. Inr [])\<rparr>"

lemma demo_utf8: "utf8_decode ''src/generated/hello.py'' = Inr (U ''src/generated/hello.py'')"
proof -
  have "map char_of (U s) = s" for s by (simp add: U_def o_def)
  then have "utf8_decode (map char_of (U ''src/generated/hello.py'')) = utf8_decode ''src/generated/hello.py''" by (rule arg_cong)
  moreover have "\<forall>c \<in> set (U ''src/generated/hello.py''). c < 128" by (simp add: U_def)
  ultimately show ?thesis using utf8_ascii by metis
qed

lemma demo_names: "decode_all (filter (\<lambda>b. b \<noteq> []) (split_on CHR 0x00 (''src/generated/hello.py'' @ [CHR 0x00]))) = Inr [U ''src/generated/hello.py'']"
  by (simp add: demo_utf8)

lemma demo_mode: "staged_mode demo_git (U ''src/generated/hello.py'') g = Inr (Some (U ''100644''))"
  by (simp add: demo_utf8 staged_mode_def demo_git_def ascii_decode_def)

lemma demo_allowed: "fnmatchcase (U ''src/generated/hello.py'') (U ''src/generated/**'')"
proof -
  have any: "glob_match [AnyText, AnyText] s" for s by (induction s) auto
  have lit: "glob_match ps s \<Longrightarrow> glob_match (map Literal l @ ps) (l @ s)" for l ps s by (induction l) auto
  have "glob_items (U ''src/generated/**'') = map Literal (U ''src/generated/'') @ [AnyText, AnyText]"
    "U ''src/generated/hello.py'' = U ''src/generated/'' @ U ''hello.py''" by (simp_all add: U_def)
  with lit [OF any] show ?thesis unfolding fnmatchcase_def by metis
qed

definition demo_patch :: "ustr \<rightharpoonup> bytes" where
  "demo_patch = [U ''p.patch'' \<mapsto> ''x'']"

lemma demo_verify_patch:
  "verify_patch demo_platform L demo_git demo_anchor (U ''p.patch'') (demo_tcb False demo_patch) = (Inr (), demo_tcb False demo_patch)"
proof -
  let ?s = "demo_tcb False demo_patch"
  have s: "repo ?s = demo_tree False demo_patch" "git_index ?s = 0" by (simp_all add: demo_tcb_def)
  have phase: "rbind (read_bytes (repo ?s) PHASES_PATH) (load_phase L (U ''F00'')) = Inr F00_PHASE"
    by (simp add: s demo_contracts phases_contract)
  have p: "dval (demo_state False) ''phase'' = PStr (U ''F00'')" by (simp add: demo_state_def phase_doc_def pstr_def)
  have "demo_tree False demo_patch (U ''p.patch'') = Some (Regular ''x'')"
    by (subst demo_extra) (simp_all add: demo_patch_def MANIFEST_PATH_def STATE_PATH_def REQUIRED_PROTECTED_PATHS_def)
  then have patch_file: "check_patch_file (U ''p.patch'') (repo ?s) = Inr ()"
    by (simp add: s check_patch_file_def MAX_PATCH_BYTES_def)
  have pat: "dval F00_PHASE ''allowed_paths'' = PList [pstr ''src/generated/**'']"
    by (simp add: F00_PHASE_def phase_fields_def kw_def dval_def dget_def Let_def)
  have safe: "safe_path (U ''src/generated/hello.py'')" by (simp add: safe_path_def posix_parts_def dotty_def U_def)
  have paths: "check_paths demo_git (PList [pstr ''src/generated/**'']) [U ''src/generated/hello.py''] g = Inr ()" for g
    using safe demo_allowed demo_mode by (simp add: py_iter_def pstr_def)
  have git: "apply_check demo_git q t g = Inr 0" "apply_cached demo_git q t g = (Inr (), 1)" "diff_quiet demo_git 0 = Inr 0"
    "changed_names demo_git g = Inr (''src/generated/hello.py'' @ [CHR 0x00])" "reset_mixed demo_git g = (Inr (), 0)" for q t g
    by (simp_all add: demo_git_def)
  have "stage_patch demo_git (dval F00_PHASE ''allowed_paths'') (U ''p.patch'') ?s = (Inr (), ?s\<lparr>git_index := 1\<rparr>)"
    unfolding stage_patch_def sbind_def runs_def asks_def git using demo_names paths pat
    by (simp add: git MAX_CHANGED_PATHS_def slift_def s)
  moreover have "?s\<lparr>git_index := 0\<rparr> = ?s" by (simp add: demo_tcb_def)
  ultimately show ?thesis
    using demo_protected demo_tree_verified phase p patch_file
    by (simp add: verify_patch_def sbind_def sees_def asks_def sfinally_def runs_def git s)
qed

text \<open>The documents of an attestation.\<close>

definition demo_meta :: pydict where
  "demo_meta = mk_dict [(''BASE_SHA'', PStr (replicate 40 48)), (''PATCH_SHA256'', PStr (sha256_hex demo_platform ''x'')), (''PHASE'', pstr ''F00'')]"

definition demo_item :: pyval where
  "demo_item = PDict (mk_dict [(''evidence'', pstr ''log''), (''gate_id'', pstr ''PATCH_SCOPE''), (''status'', pstr ''PASS'')])"

definition demo_results :: "ustr \<Rightarrow> pydict" where
  "demo_results subject = mk_dict [(''results'', PList [demo_item]), (''schema_version'', PInt 1), (''subject'', PStr subject)]"

definition demo_documents :: "ustr \<rightharpoonup> bytes" where
  "demo_documents = [U ''p.patch'' \<mapsto> ''x'', U ''meta.json'' \<mapsto> json_text demo_meta,
     U ''pre.json'' \<mapsto> json_text (demo_results (sha256_hex demo_platform ''x'')),
     U ''final.json'' \<mapsto> json_text (demo_results (replicate 40 49))]"

lemma demo_document:
  assumes "sort_keys (PDict d) = PDict d" "printable (PDict d)" "json_ok (PDict d)" "demo_documents p = Some (json_text d)"
    and "p \<notin> {MANIFEST_PATH, STATE_PATH} \<union> set REQUIRED_PROTECTED_PATHS"
  shows "document (demo_tree finished demo_documents) p = Inr (PDict d)"
  unfolding document_def
  by (rule read_json_text [OF assms(1-3)]) (simp add: read_bytes_def demo_extra [OF assms(5)] assms(4))

lemma demo_sha_hex: "list_all is_hex (sha256_hex E b)" "length (sha256_hex demo_platform b) = 64"
  using sha256_hex_match [OF platform_ok_demo, of b] by (simp_all add: hex_match_def sha256_hex_def hex_of_bytes_is_hex)

lemma demo_outside:
  "{U ''p.patch'', U ''meta.json'', U ''pre.json'', U ''final.json'', U ''out.json''}
     \<inter> ({MANIFEST_PATH, STATE_PATH} \<union> set REQUIRED_PROTECTED_PATHS) = {}"
  by (simp add: MANIFEST_PATH_def STATE_PATH_def REQUIRED_PROTECTED_PATHS_def)

lemma demo_meta_document: "document (demo_tree finished demo_documents) (U ''meta.json'') = Inr (PDict demo_meta)"
proof (rule demo_document)
  show "sort_keys (PDict demo_meta) = PDict demo_meta"
    by (simp add: demo_meta_def kw_def pstr_def) (simp add: U_def)
  show "printable (PDict demo_meta)"
    using hex_string [OF demo_sha_hex(1)] by (simp add: demo_meta_def kw_def pstr_def list_all_iff) (simp add: U_def)
  show "json_ok (PDict demo_meta)" by (simp add: demo_meta_def kw_def pstr_def)
  show "demo_documents (U ''meta.json'') = Some (json_text demo_meta)" by (simp add: demo_documents_def)
qed (use demo_outside in blast)

lemma demo_results_document:
  assumes "list_all is_hex subject" "demo_documents p = Some (json_text (demo_results subject))"
    and "p \<notin> {MANIFEST_PATH, STATE_PATH} \<union> set REQUIRED_PROTECTED_PATHS"
  shows "document (demo_tree finished demo_documents) p = Inr (PDict (demo_results subject))"
proof (rule demo_document)
  show "sort_keys (PDict (demo_results subject)) = PDict (demo_results subject)"
    by (simp add: demo_results_def demo_item_def kw_def pstr_def) (simp add: U_def)
  show "printable (PDict (demo_results subject))"
    using hex_string [OF assms(1)] by (simp add: demo_results_def demo_item_def kw_def pstr_def list_all_iff) (simp add: U_def)
  show "json_ok (PDict (demo_results subject))" using one_small by (simp add: demo_results_def demo_item_def kw_def pstr_def)
qed (use assms in simp_all)

lemma demo_check_gates:
  assumes "document (demo_tree finished demo_documents) p = Inr (PDict (demo_results subject))"
    and "list_all is_hex subject" "40 \<le> length subject" "length subject \<le> 64"
  shows "check_gates L p (Some subject) (demo_tree finished demo_documents) = Inr ()"
proof -
  have "load_acceptance L (text_of_lines (acceptance_lines [U ''PATCH_SCOPE''])) = Inr (acceptance_contract [U ''PATCH_SCOPE''])"
    by (rule load_acceptance_render) (simp_all add: is_id_def U_def)
  moreover have "gate_items L [] [demo_item] = Inr [(pstr ''PATCH_SCOPE'', pstr ''PASS'')]"
    by (simp add: demo_item_def gate_item_def has_names_def has_keys_def subscript_def hashable_def is_str_def pstr_def)
  ultimately have "check_results L (PList [demo_item]) (demo_tree finished demo_documents) = Inr ()"
    by (simp add: check_results_def demo_contracts acceptance_contract_def py_iter_def pstr_def del: gate_items.simps)
  then show ?thesis
    using assms by (simp add: check_gates_def demo_results_def has_names_def has_keys_def subscript_def is_one_def is_str_def sha_match_def)
qed

definition demo_attest :: "nat tcb" where
  "demo_attest = \<lparr>repo = demo_tree True demo_documents, next_temp = U ''attestation.x.tmp'', tcb_faults = [], git_index = 0\<rparr>"

lemma step_rules:
  shows sees_step: "f (repo s) = Inr x \<Longrightarrow> g x s = r \<Longrightarrow> sbind (sees f) g s = r"
    and asks_step: "h (git_index s) = Inr x \<Longrightarrow> g x s = r \<Longrightarrow> sbind (asks h) g s = r"
    and slift_step: "m = Inr x \<Longrightarrow> g x s = r \<Longrightarrow> sbind (slift m) g s = r"
    and guard_step: "\<not> b \<Longrightarrow> k s = r \<Longrightarrow> (if b then sraise e else k) s = r"
  by (simp_all add: sbind_def sees_def asks_def slift_def)

lemma demo_attestation:
  obtains doc where "make_attestation demo_platform L demo_git (U ''meta.json'') (U ''p.patch'') (U ''pre.json'') (U ''final.json'')
      (U ''out.json'') (U ''local'') (U ''local'') demo_attest
    = (Inr doc, demo_attest\<lparr>repo := (demo_tree True demo_documents)(U ''out.json'' \<mapsto> Regular (json_text doc))\<rparr>)"
proof -
  let ?t = "demo_tree True demo_documents"
  have docs: "document ?t (U ''pre.json'') = Inr (PDict (demo_results (sha256_hex demo_platform ''x'')))"
    "document ?t (U ''final.json'') = Inr (PDict (demo_results (replicate 40 49)))"
  proof -
    have look: "demo_documents (U ''pre.json'') = Some (json_text (demo_results (sha256_hex demo_platform ''x'')))"
      "demo_documents (U ''final.json'') = Some (json_text (demo_results (replicate 40 49)))" by (simp_all add: demo_documents_def)
    have hex: "list_all is_hex (replicate 40 49)" by (simp add: list_all_iff is_hex_def)
    show "document ?t (U ''pre.json'') = Inr (PDict (demo_results (sha256_hex demo_platform ''x'')))"
      by (rule demo_results_document [OF demo_sha_hex(1) look(1)]) (use demo_outside in blast)
    show "document ?t (U ''final.json'') = Inr (PDict (demo_results (replicate 40 49)))"
      by (rule demo_results_document [OF hex look(2)]) (use demo_outside in blast)
  qed
  have gates: "check_gates L (U ''pre.json'') (Some (sha256_hex demo_platform ''x'')) ?t = Inr ()"
    "check_gates L (U ''final.json'') (Some (replicate 40 49)) ?t = Inr ()"
    by (rule demo_check_gates [OF docs(1)], simp_all add: demo_sha_hex) (rule demo_check_gates [OF docs(2)], simp_all add: is_hex_def list_all_iff)
  have read: "read_bytes ?t (U ''p.patch'') = Inr ''x''" "\<exists>a. read_bytes ?t (U ''pre.json'') = Inr a" "\<exists>a. read_bytes ?t (U ''final.json'') = Inr a"
    using demo_outside by (auto simp: read_bytes_def demo_extra demo_documents_def)
  then obtain pre final where pf: "read_bytes ?t (U ''pre.json'') = Inr pre" "read_bytes ?t (U ''final.json'') = Inr final" by blast
  have strips: "strip (replicate 40 49 @ [10]) = replicate 40 49" "strip (replicate 40 48 @ [10]) = replicate 40 48" "strip [] = []" by code_simp+
  have git: "rev_parse demo_git ref g = Inr (if ref = ''HEAD'' then replicate 40 49 @ [10] else replicate 40 48 @ [10])"
    "porcelain demo_git t g = Inr []" for ref t g by (simp_all add: demo_git_def)
  have hex: "sha_match (PStr (sha256_hex demo_platform ''x'')) 64 = Inr True" "sha_match (PStr (replicate 40 48)) 40 = Inr True"
    using demo_sha_hex by (simp_all add: sha_match_def list_all_iff is_hex_def)
  have cand: "check_candidate demo_platform demo_git (U ''meta.json'') (U ''p.patch'') False ?t 0 = Inr (PDict demo_meta)"
    unfolding check_candidate_def demo_meta_document rbind_Inr
    using hex read(1) by (simp add: demo_meta_def has_names_def has_keys_def subscript_def git sha256_file_def del: sha_match_def)
  have st: "repo demo_attest = ?t" "git_index demo_attest = 0" by (simp_all add: demo_attest_def)
  have fin: "dval (demo_state True) ''phase'' = pstr ''DONE''" by (simp add: demo_state_def phase_doc_def)
  have meta: "subscript (PDict demo_meta) ''PATCH_SHA256'' = Inr (PStr (sha256_hex demo_platform ''x''))"
    "subscript (PDict demo_meta) ''BASE_SHA'' = Inr (PStr (replicate 40 48))" "subscript (PDict demo_meta) ''PHASE'' = Inr (pstr ''F00'')"
    by (simp_all add: demo_meta_def subscript_def)
  obtain doc where doc: "attestation (PDict demo_meta) (demo_state True) (replicate 40 49) (replicate 40 48)
      (sha256_hex demo_platform pre) (sha256_hex demo_platform final) (U ''local'') (U ''local'') = Inr doc"
    by (simp add: attestation_def meta)
  have w: "atomic_write (U ''out.json'') (json_text doc) demo_attest
      = (Inr (), demo_attest\<lparr>repo := ?t(U ''out.json'' \<mapsto> Regular (json_text doc))\<rparr>)"
    using atomic_write_clean [of demo_attest "U ''out.json''" "json_text doc"]
    by (simp add: demo_attest_def tree_with_def demo_documents_def MANIFEST_PATH_def STATE_PATH_def REQUIRED_PROTECTED_PATHS_def)
  have "make_attestation demo_platform L demo_git (U ''meta.json'') (U ''p.patch'') (U ''pre.json'') (U ''final.json'')
      (U ''out.json'') (U ''local'') (U ''local'') demo_attest
    = (Inr doc, demo_attest\<lparr>repo := ?t(U ''out.json'' \<mapsto> Regular (json_text doc))\<rparr>)"
    unfolding make_attestation_def
    apply (rule sees_step, unfold st, rule cand)
    apply (rule asks_step, simp add: git strips)
    apply (rule asks_step, simp add: git strips)
    apply (rule asks_step, simp add: git strips)
    apply (rule sees_step, simp add: meta subject_of_def st gates)
    apply (rule sees_step, simp add: st gates)
    apply (rule slift_step, rule meta)
    apply (rule guard_step, simp)
    apply (rule sees_step, simp add: git strips)
    apply (rule guard_step, simp)
    apply (rule sees_step, simp add: st demo_tree_verified)
    apply (rule guard_step, simp add: fin)
    apply (rule sees_step, simp add: st sha256_file_def pf)
    apply (rule sees_step, simp add: st sha256_file_def pf)
    apply (rule slift_step, rule doc)
    apply (simp add: sbind_def w)
    done
  with that show thesis by blast
qed


section \<open>Properties\<close>

definition demo_literals :: literals where
  "demo_literals = \<lparr>other_literal = (\<lambda>_. rt_err ''literal''), other_digit = (\<lambda>_. False), other_int = (\<lambda>_. rt_err ''integer''),
     float_is = (\<lambda>_ _. False), other_same = (\<lambda>_ _. False)\<rparr>"

text \<open>A step that only looks either fails, with nothing changed, or goes on from the same state.\<close>

lemma sees_cases:
  assumes "sbind (sees f) g s = (r, s')"
  obtains e where "r = Inl e" "s' = s" | x where "g x s = (r, s')"
  using assms by (auto simp: sbind_def sees_def split: sum.splits)

lemma asks_cases:
  assumes "sbind (asks f) g s = (r, s')"
  obtains e where "r = Inl e" "s' = s" | x where "g x s = (r, s')"
  using assms by (auto simp: sbind_def asks_def split: sum.splits)

lemma slift_cases:
  assumes "sbind (slift f) g s = (r, s')"
  obtains e where "r = Inl e" "s' = s" | x where "g x s = (r, s')"
  using assms by (auto simp: sbind_def slift_def split: sum.splits)

lemma guard_cases:
  assumes "(if b then sraise e else g) s = (r, s')"
  obtains "r = Inl e" "s' = s" | "g s = (r, s')"
  using assms by (auto simp: sraise_def split: if_splits)

text \<open>A patch that passes, under the repository's own phase contract, touches only new territory.\<close>

definition confined :: "'g git \<Rightarrow> 'g \<Rightarrow> ustr \<Rightarrow> bool" where
  "confined G g p \<longleftrightarrow> safe_path p \<and> startswith p (U ''src/generated/'')
     \<and> p \<notin> set REQUIRED_PROTECTED_PATHS \<and> p \<noteq> MANIFEST_PATH \<and> p \<noteq> STATE_PATH
     \<and> (staged_mode G p g = Inr None \<or> staged_mode G p g = Inr (Some (U ''100644'')))"

lemma f00_patterns: "dval F00_PHASE ''allowed_paths'' = PList [pstr ''src/generated/**'']"
  by (simp add: F00_PHASE_def phase_fields_def kw_def dval_def dget_def Let_def)

lemma path_ok_confined:
  assumes "path_ok G (dval F00_PHASE ''allowed_paths'') g p"
  shows "confined G g p"
proof -
  from assms have p: "safe_path p" "fnmatchcase p (U ''src/generated/**'')"
    "staged_mode G p g = Inr None \<or> staged_mode G p g = Inr (Some (U ''100644''))"
    by (auto simp: path_ok_def f00_patterns py_iter_def pstr_def)
  with generated_unprotected [OF generated_only [OF p(2)]] generated_only [OF p(2)] show ?thesis
    by (simp add: confined_def)
qed

text \<open>C9: under the phase contract of the repository, checking a patch leaves every file of the working tree as it was and the
  index as it was or as a reset leaves it; and the check passes only on a tree whose protected files match the anchored manifest,
  whose state is in phase F00, and for a patch that stages between 1 and 32 different paths, each a safe path under
  src/generated/, none of them protected, each deleted or a plain file.\<close>

theorem patch_confined:
  assumes "read_bytes (repo s) PHASES_PATH = Inr PHASES_YAML" and run: "verify_patch E L G anchor patch s = (r, s')"
  shows "repo s' = repo s \<and> index_reset G s s'
    \<and> (r = Inr () \<longrightarrow> verify_protected_tree E anchor (repo s) = Inr ()
         \<and> (\<exists>state g1 paths. verify_state E (repo s) = Inr state \<and> dval state ''phase'' = pstr ''F00''
             \<and> apply_cached G patch (repo s) (git_index s) = (Inr (), g1)
             \<and> (\<exists>raw. changed_names G g1 = Inr raw \<and> decode_all (filter (\<lambda>b. b \<noteq> []) (split_on CHR 0x00 raw)) = Inr paths)
             \<and> paths \<noteq> [] \<and> length paths \<le> 32 \<and> distinct paths \<and> (\<forall>p \<in> set paths. confined G g1 p)))"
proof (intro conjI impI)
  show "repo s' = repo s" using same_repo_patch run unfolding keeps_def by (metis snd_conv)
  show "index_reset G s s'" using index_reset_patch run unfolding keeps_def by (metis snd_conv)
  assume "r = Inr ()"
  with run have run': "verify_patch E L G anchor patch s = (Inr (), s')" by simp
  note ok = verify_patch_ok [OF this]
  then show "verify_protected_tree E anchor (repo s) = Inr ()" by blast
  from ok assms(1) obtain state phase_id phase paths g1 where
    st: "verify_state E (repo s) = Inr state" "dval state ''phase'' = PStr phase_id" "load_phase L phase_id PHASES_YAML = Inr phase"
    and g: "patch_staged G (dval phase ''allowed_paths'') patch (repo s) (git_index s) paths g1" by auto
  from phases_contract(2) [OF st(3)] have f: "phase_id = U ''F00''" .
  with st(3) phases_contract(1) [of L] have "phase = F00_PHASE" by simp
  with g have "\<forall>p \<in> set paths. confined G g1 p" by (auto simp: patch_staged_def intro: path_ok_confined)
  with st f g show "\<exists>state g1 paths. verify_state E (repo s) = Inr state \<and> dval state ''phase'' = pstr ''F00''
             \<and> apply_cached G patch (repo s) (git_index s) = (Inr (), g1)
             \<and> (\<exists>raw. changed_names G g1 = Inr raw \<and> decode_all (filter (\<lambda>b. b \<noteq> []) (split_on CHR 0x00 raw)) = Inr paths)
             \<and> paths \<noteq> [] \<and> length paths \<le> 32 \<and> distinct paths \<and> (\<forall>p \<in> set paths. confined G g1 p)"
    by (auto simp: patch_staged_def pstr_def)
qed

theorem patch_confined_witness:
  "\<exists>raw paths. changed_names demo_git 1 = Inr raw \<and> decode_all (filter (\<lambda>b. b \<noteq> []) (split_on CHR 0x00 raw)) = Inr paths
     \<and> paths \<noteq> [] \<and> (\<forall>p \<in> set paths. confined demo_git 1 p)"
proof -
  have c: "read_bytes (repo (demo_tcb False demo_patch)) PHASES_PATH = Inr PHASES_YAML"
    by (simp add: demo_tcb_def demo_contracts)
  have "apply_cached demo_git p t g = (Inr (), 1)" for p t g by (simp add: demo_git_def)
  with patch_confined [OF c demo_verify_patch [of demo_literals]] show ?thesis by auto
qed

text \<open>C10: advancing the state changes no file but the state file and its temporary file. When it succeeds the protected files match
  the anchored manifest, the state was in phase F00, the state file now verifies as the document that the call returns, in phase
  DONE, no temporary file is left, and every later call on the new tree is refused and changes nothing. When it fails, in a check
  or in a call of the file system, the state file is as it was.\<close>

theorem advance_once:
  assumes "advance_state E anchor s = (r, s')"
  shows "git_index s' = git_index s \<and> (\<forall>p. p \<noteq> STATE_PATH \<longrightarrow> p \<noteq> next_temp s \<longrightarrow> repo s' p = repo s p)
    \<and> (case r of
         Inr d \<Rightarrow> verify_protected_tree E anchor (repo s) = Inr ()
           \<and> (\<exists>old. verify_state E (repo s) = Inr old \<and> dval old ''phase'' = pstr ''F00'')
           \<and> verify_state E (repo s') = Inr d \<and> dval d ''phase'' = pstr ''DONE'' \<and> dval d ''phases_done'' = PList [pstr ''F00'']
           \<and> repo s' (next_temp s) = None
           \<and> (\<forall>anchor' r2 s2. advance_state E anchor' s' = (r2, s2) \<longrightarrow> (\<exists>e. r2 = Inl e) \<and> s2 = s')
       | Inl e \<Rightarrow> repo s' STATE_PATH = repo s STATE_PATH)"
proof (cases r)
  case (Inl e)
  with advance_cases [OF assms] show ?thesis by auto
next
  case (Inr d)
  with advance_cases [OF assms] obtain old where d: "verify_protected_tree E anchor (repo s) = Inr ()"
    "verify_state E (repo s) = Inr old" "dval old ''phase'' = pstr ''F00''" "verify_state E (repo s') = Inr d"
    "d = phase_doc True (compute_state_hash E (advanced E old))" "repo s' (next_temp s) = None" by auto
  then have p: "dval d ''phase'' = pstr ''DONE''" "dval d ''phases_done'' = PList [pstr ''F00'']" by (simp_all add: phase_doc_def)
  with Inr d advance_cases [OF assms] advance_done [OF d(4) p(1)] show ?thesis by auto
qed

theorem advance_once_witness:
  "\<exists>s' d. advance_state demo_platform demo_anchor (demo_tcb False Map.empty) = (Inr d, s')
     \<and> verify_state demo_platform (repo s') = Inr d \<and> dval d ''phase'' = pstr ''DONE''"
proof -
  obtain d s' where "advance_state demo_platform demo_anchor (demo_tcb False Map.empty) = (Inr d, s')" by (rule demo_advance)
  with advance_once [OF this] show ?thesis by auto
qed

text \<open>C12: an attestation is written only for a patch whose digest the candidate metadata carries, whose pre-commit gate results
  all pass for that digest and whose final gate results all pass for the commit at HEAD, with the required gates of the acceptance
  contract covered once each; the commit is a single child of the base in the metadata, the workspace is clean, and the state
  verifies in phase DONE. The document has exactly thirteen fields: the schema version, the phase, base and patch digest of
  the candidate metadata, the commit at HEAD and its tree, the hash of the verified state, the digests of the pre-commit and of the
  final gate results as read, the two workflow variables, that a human's authorization is required, and that nothing merges by
  itself. It is the only file that the call changes; a call that fails leaves the output file as it was.\<close>

theorem attestation_sound:
  assumes run: "make_attestation E L G metadata_file patch_file pre_file final_file output run_id attempt s = (r, s')"
    and new: "next_temp s \<noteq> output"
  shows "case r of
      Inr doc \<Rightarrow> (\<exists>metadata phase content commit base tree_sha state out pre final.
        check_candidate E G metadata_file patch_file False (repo s) (git_index s) = Inr metadata
        \<and> read_bytes (repo s) patch_file = Inr content \<and> subscript metadata ''PATCH_SHA256'' = Inr (PStr (sha256_hex E content))
        \<and> subscript metadata ''PHASE'' = Inr phase \<and> subscript metadata ''BASE_SHA'' = Inr (PStr base)
        \<and> rev_parse G ''HEAD'' (git_index s) = Inr commit \<and> rmap strip (rev_parse G ''HEAD^'' (git_index s)) = Inr base
        \<and> rev_parse G ''HEAD^{tree}'' (git_index s) = Inr tree_sha
        \<and> gates_passed L (repo s) pre_file (sha256_hex E content) \<and> gates_passed L (repo s) final_file (strip commit)
        \<and> read_bytes (repo s) pre_file = Inr pre \<and> read_bytes (repo s) final_file = Inr final
        \<and> porcelain G (repo s) (git_index s) = Inr out \<and> strip out = []
        \<and> verify_state E (repo s) = Inr state \<and> dval state ''phase'' = pstr ''DONE''
        \<and> doc = mk_dict
             [(''schema_version'', PInt 1), (''phase'', phase), (''base_sha'', PStr base), (''patch_sha256'', PStr (sha256_hex E content)),
              (''candidate_commit_sha'', PStr (strip commit)), (''candidate_tree_sha'', PStr (strip tree_sha)),
              (''state_sha256'', dval state ''hash''), (''pre_gate_results_sha256'', PStr (sha256_hex E pre)),
              (''final_gate_results_sha256'', PStr (sha256_hex E final)), (''workflow_run_id'', PStr run_id),
              (''workflow_run_attempt'', PStr attempt), (''human_authorization_required'', PBool True),
              (''automated_merge'', PBool False)])
        \<and> git_index s' = git_index s \<and> repo s' = (repo s)(output \<mapsto> Regular (json_text doc))
    | Inl e \<Rightarrow> repo s' output = repo s output"
proof (cases r)
  case (Inr doc)
  note ok = make_attestation_ok [OF run [unfolded Inr]]
  then have w: "atomic_write output (json_text doc) s = (Inr (), s')" by blast
  from atomic_write_cases [OF w] new have "git_index s' = git_index s \<and> repo s' = (repo s)(output \<mapsto> Regular (json_text doc))" by auto
  with ok Inr show ?thesis by (simp only: sum.case)
next
  case (Inl e)
  from run [unfolded Inl make_attestation_def] have "repo s' output = repo s output"
    by (elim sees_cases asks_cases slift_cases guard_cases) (use Inl new in \<open>auto simp: sbind_def split: prod.splits sum.splits dest!: atomic_write_cases\<close>)
  with Inl show ?thesis by simp
qed

theorem attestation_sound_witness:
  "\<exists>doc s'. make_attestation demo_platform demo_literals demo_git (U ''meta.json'') (U ''p.patch'') (U ''pre.json'') (U ''final.json'')
      (U ''out.json'') (U ''local'') (U ''local'') demo_attest = (Inr doc, s')
     \<and> dval doc ''candidate_commit_sha'' = PStr (replicate 40 49) \<and> repo s' (U ''out.json'') = Some (Regular (json_text doc))"
proof -
  obtain doc where run: "make_attestation demo_platform demo_literals demo_git (U ''meta.json'') (U ''p.patch'') (U ''pre.json'')
      (U ''final.json'') (U ''out.json'') (U ''local'') (U ''local'') demo_attest
    = (Inr doc, demo_attest\<lparr>repo := (demo_tree True demo_documents)(U ''out.json'' \<mapsto> Regular (json_text doc))\<rparr>)"
    by (rule demo_attestation)
  have "rev_parse demo_git ''HEAD'' g = Inr (replicate 40 49 @ [10])" for g by (simp add: demo_git_def)
  moreover have "strip (replicate 40 49 @ [10]) = replicate 40 49" by code_simp
  moreover have "next_temp demo_attest \<noteq> U ''out.json''" by (simp add: demo_attest_def U_def)
  ultimately show ?thesis using attestation_sound [OF run] run by auto
qed

end
