(* ===== verification/Protected_Facts.thy ===== *)
theory Protected_Facts
  imports Candidate Tcb
begin

text \<open>
  The gates and the checker of their results agree: what \<^verbatim>\<open>run_gates.py\<close> reports is what
  \<^verbatim>\<open>check_gates.py\<close> concludes from the file it wrote. The verdicts of the two other scripts.
\<close>

section \<open>The generated module\<close>











section \<open>The results file\<close>














section \<open>Running the gates\<close>















section \<open>The two other scripts\<close>

lemma map_of_agree:
  "list_all (\<lambda>p. map_of cf p = expected p) (map fst cf @ map fst tf) \<and> dom expected \<subseteq> fst ` set tf \<longleftrightarrow>
     map_of cf = expected \<and> dom expected \<subseteq> fst ` set tf"
proof (intro iffI conjI; (elim conjE)?)
  assume l: "list_all (\<lambda>p. map_of cf p = expected p) (map fst cf @ map fst tf)" and d: "dom expected \<subseteq> fst ` set tf"
  show "map_of cf = expected"
  proof
    fix p
    show "map_of cf p = expected p"
    proof (cases "p \<in> fst ` set cf \<union> fst ` set tf")
      case True
      with l show ?thesis by (auto simp: list_all_iff)
    next
      case False
      then have "map_of cf p = None" by (simp add: map_of_eq_None_iff)
      moreover have "expected p = None" using False d by blast
      ultimately show ?thesis by simp
    qed
  qed
qed (simp_all add: list_all_iff)

text \<open>
  The cleanup passes exactly when the candidate tracks what the trusted checkout tracks, with the
  same modes and objects, without the one workflow that the trusted one still has, and both are clean.
\<close>

definition cleanup_exact :: "checkout \<Rightarrow> checkout \<Rightarrow> bool" where
  "cleanup_exact trusted candidate \<longleftrightarrow> (\<exists>tf cf. rbind (ls_files trusted) tracked = Inr tf \<and> rbind (ls_files candidate) tracked = Inr cf
     \<and> map_of tf ONE_TIME_PATH \<noteq> None \<and> map_of cf = (map_of tf)(ONE_TIME_PATH := None)
     \<and> status_lines trusted = Inr [] \<and> status_lines candidate = Inr [])"

lemma cleanup_passes: "cleanup_failures trusted candidate = Inr [] \<longleftrightarrow> cleanup_exact trusted candidate"
proof -
  have d: "dom ((map_of tf)(ONE_TIME_PATH := None)) \<subseteq> fst ` set tf" for tf :: tracked_files
    by (auto simp: dom_def) (metis domI dom_map_of_conv_image_fst image_iff fst_conv)
  have m: "list_all (\<lambda>p. map_of cf p = ((map_of tf)(ONE_TIME_PATH := None)) p) (map fst cf @ map fst tf)
      \<longleftrightarrow> map_of cf = (map_of tf)(ONE_TIME_PATH := None)" for cf tf :: tracked_files
    using map_of_agree [of cf "(map_of tf)(ONE_TIME_PATH := None)" tf] d by blast
  have c: "clean x = Inr True \<longleftrightarrow> status_lines x = Inr []" for x
    by (cases "status_lines x") (auto simp: clean_def rmap_def)
  show ?thesis
    unfolding cleanup_failures_def cleanup_exact_def Let_def rbind_eq_Inr_iff m
    by (auto simp: c split: if_splits)
qed

text \<open>What decodes strictly is decoded the same with replacement.\<close>

lemma utf8_replace_strict: "utf8_encode s = Inr b \<Longrightarrow> utf8_replace b = s"
proof -
  have "list_all is_scalar s \<Longrightarrow> utf8_replace (concat (map utf8_char s)) = s"
    by (induction s) (simp_all add: utf8_replace.simps [of "[]"] utf8_replace.simps [of "utf8_char c @ r" for c r] utf8_next_char)
  then show "utf8_encode s = Inr b \<Longrightarrow> utf8_replace b = s" by (auto simp: utf8_encode_def split: if_splits)
qed

text \<open>
  A candidate that passes was examined outside the trusted root, every command ended with status 0
  in its time, and the red team's own document says that it passed.
\<close>

lemma candidate_passes:
  assumes "examine_candidate E X sha output s = (Inr True, s')"
  shows "disjoint_roots X \<and> list_all is_hex sha \<and> 40 \<le> length sha
    \<and> (\<forall>c \<in> {candidate_tests X, frozen_exam X, red_team X, h14_smoke X}. exit_status c = Some 0)
    \<and> (\<exists>doc. redteam_document X = Inr doc \<and> redteam_passed doc)"
proof -
  from assms obtain doc where d: "disjoint_roots X" "sha_match (PStr sha) 40 = Inr True" "redteam_document X = Inr doc"
    "checks_passed (exam_checks E X doc)"
    by (auto simp: examine_candidate_def sbind_ok sret_def sraise_def Let_def split: if_splits)
  have names: "dval (check_entry E n c) ''name'' = pstr n" "dval (check_entry E n c) ''status'' = pstr ''PASS'' \<longleftrightarrow> exit_status c = Some 0"
    for n c
    by (simp_all add: check_entry_def dval_def pstr_def U_def)
  have rp: "redteam_passed doc"
  proof (rule ccontr)
    assume "\<not> ?thesis"
    then have "dset (check_entry E ''independent_red_team'' (red_team X)) ''status'' (pstr ''FAIL'') \<in> set (exam_checks E X doc)"
      by (simp add: exam_checks_def names)
    moreover have "dval (dset (check_entry E n c) ''status'' v) ''status'' = v" for n c v
      by (simp add: dset_def dval_def dget_def update_conv)
    ultimately show False using d(4) by (auto simp: checks_passed_def list_all_iff pstr_def U_def)
  qed
  with d(4) have "\<forall>c \<in> {candidate_tests X, frozen_exam X, red_team X, h14_smoke X}. exit_status c = Some 0"
    by (simp add: checks_passed_def exam_checks_def names)
  with d(1,2,3) rp show ?thesis by (auto simp: sha_match_def)
qed

end

