(* ===== verification/Smoke.thy ===== *)
theory Smoke
  imports Workspace
begin

text \<open>
  \<^verbatim>\<open>h14_smoke\<close> of \<^verbatim>\<open>src/mgk/cli.py\<close>: the kernel is assembled in a directory of its own, with fresh
  keys and a clock that stands still; a request for a forbidden action must get no capability, and a
  permitted read must be issued and executed.
\<close>

section \<open>The resources\<close>

text \<open>
  The directory \<^verbatim>\<open>resources\<close> is the tree of the state, an empty one when it is not there yet.
  \<^verbatim>\<open>write_bytes\<close> goes on after a short write until everything is written or a write fails.
\<close>

fun buffered_write :: "fpath \<Rightarrow> bytes \<Rightarrow> io_event list \<Rightarrow> fsys \<Rightarrow> unit res \<times> fsys" where
  "buffered_write path data [] s = (Inr (), add_bytes path data (s\<lparr>io := []\<rparr>))"
| "buffered_write path data (e # es) s =
     (if data = [] then (Inr (), s\<lparr>io := e # es\<rparr>)
      else case e of
        IoOk \<Rightarrow> (Inr (), add_bytes path data (s\<lparr>io := es\<rparr>))
      | IoFail \<Rightarrow> (Inl (Exn OSError ''write''), s\<lparr>io := es\<rparr>)
      | IoShort n \<Rightarrow> buffered_write path (drop n data) es (add_bytes path (take n data) s))"

text \<open>A file that is not there yet: the directory has just been made.\<close>

definition write_bytes :: "fpath \<Rightarrow> bytes \<Rightarrow> unit fs" where
  "write_bytes path data =
     sbind sys_check (\<lambda>_.
     sbind (smodify (set_node path (Some (File [])))) (\<lambda>_ s. buffered_write path data (io s) s))"

definition make_resources :: "unit fs" where
  "make_resources =
     sbind sys_check (\<lambda>_.
     sbind (sget fs_root) (\<lambda>root.
     case root of
       Dir m \<Rightarrow>
         if m (U ''workspace'') \<noteq> None then sraise (Exn FileExistsError ''mkdir'')
         else
           sbind (smodify (set_node [U ''workspace''] (Some (Dir Map.empty)))) (\<lambda>_.
           write_bytes [U ''workspace'', U ''allowed.txt''] (''MGK authority boundary'' @ [NL]))
     | _ \<Rightarrow> sraise (Exn OSError ''mkdir'')))"

section \<open>The parts\<close>

text \<open>\<^verbatim>\<open>FixedClock(2_000_000_000)\<close>: from here on every reading is the same.\<close>

definition fix_clock :: "unit kernel" where
  "fix_clock = smodify (\<lambda>w. w\<lparr>clk := (\<lambda>_. fixed_now \<lparr>clock_value = 2000000000\<rparr>)\<rparr>)"

definition safe_context :: "action_request \<Rightarrow> saxp_context" where
  "safe_context request =
     \<lparr>coherence_delta = PInt 100, systemic_pressure = PInt 10, threshold_k = PInt 100, sentidino = PInt 9000,
      information_complete = PBool True, critical_uncertainty = PBool False, control_risk = PBool False,
      ethical_constraints_satisfied = PBool True\<rparr>"

definition smoke_policy :: authority_policy where
  "smoke_policy = default_policy\<lparr>allowed_principals := [U ''planner''], allowed_audiences := [U ''executor''],
     allowed_resource_prefixes := [U ''workspace/'']\<rparr>"

definition smoke_authority :: "platform \<Rightarrow> bytes \<Rightarrow> capability_authority" where
  "smoke_authority E key =
     \<lparr>issuer = U ''authority'', private_key = key, state_public_key = ed_public E key,
      context_provider = (\<lambda>request. Inr (Context (safe_context request))), evaluator = default_saxp,
      policy = smoke_policy\<rparr>"

definition forbidden :: action_request where
  "forbidden = \<lparr>request_id = pstr ''h14-forbidden'', principal = pstr ''planner'', audience = pstr ''executor'',
     action = pstr ''process.exec'', resource = pstr ''workspace/allowed.txt'',
     parameters = PDict (mk_dict [(''command'', pstr ''id'')])\<rparr>"

definition allowed :: action_request where
  "allowed = \<lparr>request_id = pstr ''h14-control'', principal = pstr ''planner'', audience = pstr ''executor'',
     action = pstr ''resource.read'', resource = pstr ''workspace/allowed.txt'', parameters = PDict []\<rparr>"

section \<open>The run\<close>

record smoke_report =
  allowed_control_executed :: bool
  forbidden_capability_issued :: bool
  h14_forbidden_executions :: int
  smoke_result :: string

definition smoke_requests :: "platform \<Rightarrow> capability_authority \<Rightarrow> capability_executor \<Rightarrow> smoke_report kernel" where
  "smoke_requests E A X =
     sbind (scatch any_exn (\<lambda>_. sret False)
       (sbind (issue_capability E A forbidden PNone NoContext) (\<lambda>r. sret (envelope r \<noteq> None)))) (\<lambda>forbidden_capability.
     sbind (issue_capability E A allowed PNone NoContext) (\<lambda>issued.
     sbind (case envelope issued of
              None \<Rightarrow> sret False
            | Some raw \<Rightarrow> if raw = [] then sret False else sbind (execute E X raw allowed) (\<lambda>r. sret (success r))) (\<lambda>executed.
     sret \<lparr>allowed_control_executed = executed, forbidden_capability_issued = forbidden_capability,
           h14_forbidden_executions = 0,
           smoke_result = (if executed \<and> \<not> forbidden_capability then ''PASS'' else ''FAIL'')\<rparr>)))"

text \<open>The executor has the constants of a runtime's.\<close>

definition smoke_kernel :: "platform \<Rightarrow> bytes \<Rightarrow> bytes \<Rightarrow> smoke_report kernel" where
  "smoke_kernel E authority_key audit_private =
     sbind (on_sec (state_init (PInt 1))) (\<lambda>_.
     sbind (on_sec (initialize_epoch E (PInt 1) authority_key)) (\<lambda>_.
     sbind (sget (\<lambda>w. fs_root (files w))) (\<lambda>root.
     sbind (slift (guard_init root)) (\<lambda>_.
     sbind (slift (authority_init (smoke_authority E authority_key))) (\<lambda>A.
     let X = runtime_executor E authority_key audit_private in
     sbind (on_audit (ledger_init E (audit_key X) (audit_signer X))) (\<lambda>_.
     sbind (on_failures (ledger_init E (failure_key X) (failure_signer X))) (\<lambda>_.
     smoke_requests E A X)))))))"

definition h14_smoke :: "platform \<Rightarrow> smoke_report home_op" where
  "h14_smoke E =
     sbind (on_stores (on_kernel (on_files make_resources))) (\<lambda>_.
     sbind (on_stores (on_kernel fix_clock)) (\<lambda>_.
     sbind generate_private_key (\<lambda>authority_key.
     sbind generate_private_key (\<lambda>audit_private.
     on_stores (on_kernel (smoke_kernel E authority_key audit_private))))))"

end
