(* ===== verification/Smoke_Facts.thy ===== *)
theory Smoke_Facts
  imports Smoke Execution Runtime_Ledger_Facts
begin

text \<open>
  The smoke check of \<^verbatim>\<open>src/mgk/cli.py\<close> passes: the whole way from fresh stores and keys to an executed
  read, on every conforming platform.
\<close>

section \<open>A fresh kernel\<close>

definition fresh_kernel :: "world \<Rightarrow> bool" where
  "fresh_kernel w \<longleftrightarrow> files w = \<lparr>fs_root = Dir Map.empty, io = []\<rparr> \<and> db_header (sec w) = None \<and> db_faults (sec w) = []
     \<and> audit_ledger w = \<lparr>log_file = None, checkpoint_file = None, lg_faults = []\<rparr>
     \<and> failure_ledger w = \<lparr>log_file = None, checkpoint_file = None, lg_faults = []\<rparr>
     \<and> length (entropy w (draws w)) = 16"

definition smoke_text :: bytes where
  "smoke_text = ''MGK authority boundary'' @ [NL]"

definition smoke_tree :: fsnode where
  "smoke_tree = Dir [U ''workspace'' \<mapsto> Dir [U ''allowed.txt'' \<mapsto> File smoke_text]]"

lemma make_resources_fresh:
  "make_resources \<lparr>fs_root = Dir Map.empty, io = []\<rparr> = (Inr (), \<lparr>fs_root = smoke_tree, io = []\<rparr>)"
  by (simp add: make_resources_def write_bytes_def op_defs sys_check_def next_io_def set_node_def add_bytes_def file_bytes_def node_at_def
      smoke_tree_def smoke_text_def)

lemma state_fresh:
  assumes ok: "platform_ok E" and s: "db_header s = None" "db_faults s = []"
  obtains s1 s2 where "state_init (PInt 1) s = (Inr (), s1)" and "initialize_epoch E (PInt 1) k s1 = (Inr (), s2)"
    and "sound s2" and "db_faults s2 = []" and "consumed_nonces s2 = []"
    and "current_epoch E (ed_public E k) s2 = (Inr 1, s2)"
proof -
  obtain raw where raw: "epoch_envelope E k 1 = Inr raw"
    using epoch_envelope_total [OF ok, of 1 k] by (auto simp: MAX_INTEGER_def)
  let ?s1 = "s\<lparr>expected_minimum_epoch := 1, db_header := Some SQLITE_MAGIC, db_ok := True, db_quick := True, db_tables := True,
    metadata := [''schema_version'' \<mapsto> SCHEMA_VERSION], consumed_nonces := []\<rparr>"
  let ?s2 = "?s1\<lparr>metadata := [''schema_version'' \<mapsto> SCHEMA_VERSION, ''epoch_envelope'' \<mapsto> raw]\<rparr>"
  have 1: "state_init (PInt 1) s = (Inr (), ?s1)"
    using s by (simp add: state_init_def ensure_schema_def translate_db_def with_connect_def select_metadata_def insert_metadata_def op_defs)
  have 2: "initialize_epoch E (PInt 1) k ?s1 = (Inr (), ?s2)"
    using s raw by (simp add: initialize_epoch_def with_connect_def select_metadata_def insert_metadata_def op_defs)
  have 3: "sound ?s2" "next_tx ?s2 = ?s2" using s by (simp_all add: sound_def next_tx_def)
  then have "current_epoch E (ed_public E k) ?s2 = (Inr 1, ?s2)"
    using s decode_envelope [OF ok raw, of 1] unfolding current_epoch_ok by simp
  with 1 2 3 s show ?thesis by (intro that [of ?s1 ?s2]) simp_all
qed

lemma ledger_fresh:
  assumes ok: "platform_ok E"
  obtains L where "ledger_init E (ed_public E k) (Some k) \<lparr>log_file = None, checkpoint_file = None, lg_faults = []\<rparr> = (Inr (0, GENESIS_HASH), L)"
    and "verify_ledger E (ed_public E k) L = Inr (0, GENESIS_HASH)" and "lg_faults L = []" and "log_file L \<noteq> None"
proof -
  obtain env where env: "checkpoint_envelope E (ed_public E k) k 0 GENESIS_HASH 0 = Inr env"
    using checkpoint_envelope_total [OF ok genesis_hex, of 0 0] by (auto simp: MAX_INTEGER_def)
  let ?L = "\<lparr>log_file = Some [], checkpoint_file = Some (env @ [NL]), lg_faults = []\<rparr>"
  have v: "verify_ledger E (ed_public E k) ?L = Inr (0, GENESIS_HASH)"
    using load_written [OF ok genesis_hex _ _ env] by (auto simp: verify_ledger_ok scan_ok)
  then have "ledger_init E (ed_public E k) (Some k) \<lparr>log_file = None, checkpoint_file = None, lg_faults = []\<rparr> = (Inr (0, GENESIS_HASH), ?L)"
    using env by (simp add: ledger_init_def op_defs take_fault_def write_checkpoint_def verify_integrity_def)
  with v that [of ?L] show ?thesis by simp
qed

section \<open>The two requests\<close>

lemma validate_forbidden: "\<exists>e. validate_request E smoke_policy forbidden = Inl e"
proof (cases "request_digest E forbidden")
  case (Inr d)
  then show ?thesis
    by (simp add: validate_request_def forbidden_def smoke_policy_def default_policy_def check_identifier_def pstr_def U_def rbind_def denied_def
        ident_match_def is_alnum_def ident_char_def)
next
  case (Inl e)
  then show ?thesis
    by (simp add: validate_request_def forbidden_def check_identifier_def pstr_def U_def rbind_def
        ident_match_def is_alnum_def ident_char_def)
qed

lemma issue_forbidden: "\<exists>e. issue_capability E (smoke_authority E k) forbidden PNone NoContext w = (Inl e, w)"
  using validate_forbidden [of E] by (auto simp: issue_capability_eq smoke_authority_def)

lemma validate_allowed:
  assumes ok: "platform_ok E"
  shows "validate_request E smoke_policy allowed = Inr ()"
proof -
  have "\<exists>b. canonicalize E (PDict (mk_dict
       [(''action'', pstr ''resource.read''), (''audience'', pstr ''executor''), (''parameters'', PDict []),
        (''principal'', pstr ''planner''), (''request_id'', pstr ''h14-control''), (''resource'', pstr ''workspace/allowed.txt'')])) = Inr b"
    by (rule canonicalize_plain [OF ok]) (simp_all add: demo_doc_simps ascii_def)
  then obtain d where "request_digest E allowed = Inr d"
    by (auto simp: request_digest_def request_payload_def copy_mapping_def allowed_def digest_def)
  then show ?thesis
    by (simp add: validate_request_def allowed_def smoke_policy_def default_policy_def check_identifier_def pstr_def U_def
        ident_match_def is_alnum_def ident_char_def)
qed

lemma gate_safe:
  assumes ok: "platform_ok E"
  shows "context_typed (safe_context r)" and "verdict 5000 (safe_context r) = (TEN_XEITO, [''COHERENCE_GATE_SATISFIED''])"
    and "\<exists>cd. digest E (context_payload (safe_context r)) = Inr cd"
proof -
  show "context_typed (safe_context r)" by (simp add: context_typed_def safe_context_def) blast
  show "verdict 5000 (safe_context r) = (TEN_XEITO, [''COHERENCE_GATE_SATISFIED''])" by (simp add: verdict_def safe_context_def)
  have "\<exists>b. canonicalize E (context_payload (safe_context r)) = Inr b"
    by (rule canonicalize_plain [OF ok]) (simp_all add: context_payload_def safe_context_def demo_doc_simps ascii_def)
  then show "\<exists>cd. digest E (context_payload (safe_context r)) = Inr cd" by (auto simp: digest_def)
qed


lemma smoke_file: "length smoke_text = 23" "MAX_RESOURCE_BYTES = 8388608"
  by (simp_all add: smoke_text_def MAX_RESOURCE_BYTES_def)

lemma smoke_bound:
  shows "bind_present E (PStr (U ''workspace/allowed.txt'')) \<lparr>fs_root = smoke_tree, io = []\<rparr> =
      (Inr (mk_dict [(''path'', PStr (U ''workspace/allowed.txt'')), (''sha256'', PStr (sha256_hex E smoke_text)),
        (''size'', PInt (int (length smoke_text))), (''state'', pstr ''present'')]), \<lparr>fs_root = smoke_tree, io = []\<rparr>)"
    and "read_bound E (mk_dict [(''path'', PStr (U ''workspace/allowed.txt'')), (''sha256'', PStr (sha256_hex E smoke_text)),
        (''size'', PInt (int (length smoke_text))), (''state'', pstr ''present'')]) \<lparr>fs_root = smoke_tree, io = []\<rparr>
      = (Inr smoke_text, \<lparr>fs_root = smoke_tree, io = []\<rparr>)"
  by (simp_all add: bind_present_def read_bound_def smoke_tree_def smoke_text_def fs_eval U_def has_keys_def py_is_str_def py_eq_str_def)

lemma accepted_nonce:
  assumes "verify_capability E V raw request True w = (Inr payload, v)"
  shows "length (consumed_nonces (sec v)) = length (consumed_nonces (sec w)) + 1"
proof -
  from assms obtain n s1 s2 i x where ep: "current_epoch E (epoch_public_key V) (sec w) = (Inr n, s1)"
    and con: "consume_nonce i x (PInt (clk w (ticks w))) s1 = (Inr (), s2)" and v: "v = w\<lparr>sec := s2, ticks := ticks w + 1\<rparr>"
    unfolding verify_capability_ok by auto
  obtain m c where "i = PStr m" "x = PStr c"
    using con by (cases i; cases x) (auto simp: consume_nonce_def sraise_def)
  with con v same_dbD [OF keepsD [OF current_epoch_same ep]] show ?thesis by (auto simp: consume_ok)
qed

text \<open>On a fresh state, with a clock that stands still, the permitted read goes through.\<close>

lemma smoke_requests_pass:
  assumes ok: "platform_ok E" and f: "files w = \<lparr>fs_root = smoke_tree, io = []\<rparr>" and clk: "clk w = (\<lambda>_. 2000000000)"
    and db: "sound (sec w)" "db_faults (sec w) = []" "consumed_nonces (sec w) = []" "current_epoch E (ed_public E k) (sec w) = (Inr 1, sec w)"
    and la: "verify_ledger E (ed_public E a) (audit_ledger w) = Inr (0, GENESIS_HASH)" "lg_faults (audit_ledger w) = []"
      "log_file (audit_ledger w) \<noteq> None"
    and lf: "verify_ledger E (ed_public E a) (failure_ledger w) = Inr (0, GENESIS_HASH)"
    and rnd: "length (entropy w (draws w)) = 16"
  shows "\<exists>w' h. smoke_requests E (smoke_authority E k) (runtime_executor E k a) w =
      (Inr \<lparr>allowed_control_executed = True, forbidden_capability_issued = False, h14_forbidden_executions = 0, smoke_result = ''PASS''\<rparr>, w')
    \<and> fs_root (files w') = smoke_tree \<and> verify_ledger E (ed_public E a) (audit_ledger w') = Inr (2, h)
    \<and> failure_ledger w' = failure_ledger w \<and> length (consumed_nonces (sec w')) = 1"
proof -
  let ?A = "smoke_authority E k" and ?X = "runtime_executor E k a" and ?p = "U ''workspace/allowed.txt''"
  let ?b = "mk_dict [(''path'', PStr ?p), (''sha256'', PStr (sha256_hex E smoke_text)),
        (''size'', PInt (int (length smoke_text))), (''state'', pstr ''present'')]"
  have A: "evaluator ?A = \<lparr>policy_id = U ''saxp-level1-v1'', minimum_sentidino = 5000\<rparr>" "ident_match (issuer ?A)" "authority_init ?A = Inr ?A"
    "policy ?A = smoke_policy" "state_public_key ?A = ed_public E k"
    by (simp_all add: smoke_authority_def default_saxp_def authority_init_def ident_match_def is_alnum_def ident_char_def U_def
        validate_policy_def smoke_policy_def default_policy_def)
  have vr: "validate_request E (policy ?A) allowed = Inr ()" using validate_allowed [OF ok] A by simp
  have cx: "resolved ?A allowed NoContext = Inr (Context (safe_context allowed))" by (simp add: resolved_def smoke_authority_def)
  have rq: "principal allowed = PStr (U ''planner'')" "audience allowed = PStr (U ''executor'')" "action allowed = PStr (U ''resource.read'')"
    "resource allowed = PStr ?p" "parameters allowed = PDict []" "request_id allowed = PStr (U ''h14-control'')"
    by (simp_all add: allowed_def pstr_def)
  have idt: "ident_match (U ''planner'')" "ident_match (U ''executor'')" "ident_match (U ''h14-control'')"
    by (simp_all add: ident_match_def is_alnum_def ident_char_def U_def)
  have sm: "list_all (\<lambda>c. c < 128) ?p" "length ?p \<le> 1000" "length ?p \<le> 4096" by (simp_all add: ascii_def)
  have ttl: "choose_ttl (policy ?A) PNone = Inr 60" by (simp add: A choose_ttl_def smoke_policy_def default_policy_def)
  obtain cd where cd: "digest E (context_payload (safe_context allowed)) = Inr cd" using gate_safe(3) [OF ok] by blast
  let ?w1 = "w\<lparr>files := files w, ticks := ticks w + 1, sec := sec w, draws := draws w + 1\<rparr>"
  obtain dec raw cap where iss: "issue_capability E ?A allowed PNone NoContext w
      = (Inr \<lparr>envelope = Some raw, decision = dec, i_capability_id = Some cap\<rparr>, ?w1)"
    using issue_read [OF ok A(1,2) vr cx gate_safe(1,2) [OF ok] cd rq(1-5) idt(1,2) sm(1,3) ttl, of w smoke_text "files w" 1 "sec w"]
      f clk db(4) A(5) rnd smoke_bound(1) smoke_file by (auto simp: MAX_INTEGER_def)
  have ver: "\<exists>payload cap' v b f. verify_capability E (verifier ?X) raw allowed True ?w1 = (Inr payload, v)
    \<and> Some cap = Some cap' \<and> dval payload ''capability_id'' = PStr cap'
    \<and> bind_resource E allowed (files w) = (Inr b, f) \<and> dval payload ''resource_binding'' = PDict b"
    using issued_accepted [OF ok A(3) iss _ rq(4) _ rnd, of raw "verifier ?X" ?w1 60] ttl A db clk platform_okD(3) [OF ok, of ?p] sm
    by (auto simp: runtime_executor_def smoke_authority_def smoke_policy_def default_policy_def seen_nonce_def list_all_iff)
  then obtain payload v b f' where v: "verify_capability E (verifier ?X) raw allowed True ?w1 = (Inr payload, v)"
    and b: "bind_resource E allowed (files w) = (Inr b, f')" "dval payload ''resource_binding'' = PDict b" by blast
  have "b = ?b" using b(1) smoke_bound(1) [of E] f rq
    by (simp add: bind_resource_ok bind_resource_dispatch_def copy_mapping_def py_is_str_def pstr_def sbind_def slift_def Let_def)
  then have bo: "bound_of payload = ?b" using b(2) by (simp add: bound_of_def)
  have X: "audit_key ?X = ed_public E a" "audit_signer ?X = Some a" "failure_key ?X = ed_public E a" "executor_id ?X = U ''executor''"
    by (simp_all add: runtime_executor_def)
  obtain cap' h L where ex: "execute E ?X raw allowed ?w1 = (Inr (executed_result (PStr cap') (PStr (sha256_hex E smoke_text)) (Some smoke_text)),
      v\<lparr>audit_ledger := L, files := files w, ticks := ticks v + 2\<rparr>)" and L: "verify_ledger E (ed_public E a) L = Inr (0 + 2, h)"
    using execute_read [OF ok X(1,2) v _ rq(3,6,4) idt(3) sm(1,2), of 0 GENESIS_HASH "(0, GENESIS_HASH)" smoke_text "files w"]
      rq(2) X(3,4) la lf genesis_hex db clk bo f smoke_bound(2) by (auto simp: MAX_INTEGER_def)
  have ne: "raw \<noteq> []"
  proof
    assume "raw = []"
    moreover have "\<exists>e. parse_canonical E [] = Inl e"
      using parse_canonicalD [of E "[]"] by (cases "parse_canonical E []") auto
    ultimately show False using v by (auto simp: verify_capability_eq open_envelope_def)
  qed
  obtain e where e: "issue_capability E ?A forbidden PNone NoContext w = (Inl e, w)" using issue_forbidden by blast
  have nonces: "length (consumed_nonces (sec v)) = 1" "failure_ledger v = failure_ledger w"
    using accepted_nonce [OF v] keepsD [OF same_stores_verify v] db(3) by (auto simp: same_stores_def)
  show ?thesis
    unfolding smoke_requests_def using e iss ex ne L nonces f
    by (simp add: sbind_def scatch_def sret_def executed_result_def)
qed


section \<open>The run\<close>

lemma smoke_requests_report:
  assumes "smoke_requests E (smoke_authority E k) X w = (Inr rep, w')"
  shows "\<not> forbidden_capability_issued rep \<and> (smoke_result rep = ''PASS'' \<longleftrightarrow> allowed_control_executed rep)"
proof -
  obtain e where "issue_capability E (smoke_authority E k) forbidden PNone NoContext w = (Inl e, w)" using issue_forbidden by blast
  then have "scatch any_exn (\<lambda>_. sret False)
      (sbind (issue_capability E (smoke_authority E k) forbidden PNone NoContext) (\<lambda>r. sret (envelope r \<noteq> None))) w = (Inr False, w)"
    by (simp add: scatch_def sbind_def sret_def)
  moreover from assms obtain fc v executed where "scatch any_exn (\<lambda>_. sret False)
      (sbind (issue_capability E (smoke_authority E k) forbidden PNone NoContext) (\<lambda>r. sret (envelope r \<noteq> None))) w = (Inr fc, v)"
    and "rep = \<lparr>allowed_control_executed = executed, forbidden_capability_issued = fc, h14_forbidden_executions = 0,
      smoke_result = (if executed \<and> \<not> fc then ''PASS'' else ''FAIL'')\<rparr>"
    unfolding smoke_requests_def sbind_ok [of "scatch p h m" for p h m] sbind_ok [of "issue_capability E A r t c" for A r t c]
      sbind_ok [of "case envelope i of None \<Rightarrow> n | Some raw \<Rightarrow> m raw" for i n m] sret_def prod.inject by blast
  ultimately have "\<not> fc" and "rep = \<lparr>allowed_control_executed = executed, forbidden_capability_issued = fc, h14_forbidden_executions = 0,
      smoke_result = (if executed \<and> \<not> fc then ''PASS'' else ''FAIL'')\<rparr>" by auto
  then show ?thesis by simp
qed

lemma smoke_authority_ok: "authority_init (smoke_authority E k) = Inr (smoke_authority E k)"
  by (simp add: smoke_authority_def authority_init_def ident_match_def is_alnum_def ident_char_def U_def
      validate_policy_def smoke_policy_def default_policy_def)

lemma smoke_kernel_report:
  assumes "smoke_kernel E k a w = (Inr rep, w')"
  shows "\<not> forbidden_capability_issued rep \<and> (smoke_result rep = ''PASS'' \<longleftrightarrow> allowed_control_executed rep)"
  using assms smoke_requests_report unfolding smoke_kernel_def sbind_ok Let_def slift_eq smoke_authority_ok by auto

lemma smoke_kernel_pass:
  assumes ok: "platform_ok E" and f: "files w = \<lparr>fs_root = smoke_tree, io = []\<rparr>" and clk: "clk w = (\<lambda>_. 2000000000)"
    and s: "db_header (sec w) = None" "db_faults (sec w) = []"
    and l: "audit_ledger w = \<lparr>log_file = None, checkpoint_file = None, lg_faults = []\<rparr>"
      "failure_ledger w = \<lparr>log_file = None, checkpoint_file = None, lg_faults = []\<rparr>"
    and rnd: "length (entropy w (draws w)) = 16"
  shows "\<exists>w' h. smoke_kernel E k a w =
      (Inr \<lparr>allowed_control_executed = True, forbidden_capability_issued = False, h14_forbidden_executions = 0, smoke_result = ''PASS''\<rparr>, w')
    \<and> fs_root (files w') = smoke_tree \<and> verify_ledger E (ed_public E a) (audit_ledger w') = Inr (2, h)
    \<and> verify_ledger E (ed_public E a) (failure_ledger w') = Inr (0, GENESIS_HASH) \<and> length (consumed_nonces (sec w')) = 1"
proof -
  obtain s1 s2 where st: "state_init (PInt 1) (sec w) = (Inr (), s1)" "initialize_epoch E (PInt 1) k s1 = (Inr (), s2)"
    and db: "sound s2" "db_faults s2 = []" "consumed_nonces s2 = []" "current_epoch E (ed_public E k) s2 = (Inr 1, s2)"
    by (rule state_fresh [OF ok s])
  obtain L where li: "ledger_init E (ed_public E a) (Some a) \<lparr>log_file = None, checkpoint_file = None, lg_faults = []\<rparr>
      = (Inr (0, GENESIS_HASH), L)"
    and L: "verify_ledger E (ed_public E a) L = Inr (0, GENESIS_HASH)" "lg_faults L = []" "log_file L \<noteq> None"
    by (rule ledger_fresh [OF ok])
  let ?w = "w\<lparr>sec := s2, audit_ledger := L, failure_ledger := L\<rparr>"
  have g: "guard_init smoke_tree = Inr ()" by (simp add: guard_init_def smoke_tree_def)
  have X: "audit_key (runtime_executor E k a) = ed_public E a" "audit_signer (runtime_executor E k a) = Some a"
    "failure_key (runtime_executor E k a) = ed_public E a" "failure_signer (runtime_executor E k a) = Some a"
    by (simp_all add: runtime_executor_def)
  have run: "smoke_kernel E k a w = smoke_requests E (smoke_authority E k) (runtime_executor E k a) ?w"
    unfolding smoke_kernel_def Let_def X
    using st li l f g by (simp add: sbind_def on_sec_def on_audit_def on_failures_def szoom_def sget_def slift_def smoke_authority_ok)
  have "\<exists>w' h. smoke_requests E (smoke_authority E k) (runtime_executor E k a) ?w =
      (Inr \<lparr>allowed_control_executed = True, forbidden_capability_issued = False, h14_forbidden_executions = 0, smoke_result = ''PASS''\<rparr>, w')
    \<and> fs_root (files w') = smoke_tree \<and> verify_ledger E (ed_public E a) (audit_ledger w') = Inr (2, h)
    \<and> failure_ledger w' = failure_ledger ?w \<and> length (consumed_nonces (sec w')) = 1"
    by (rule smoke_requests_pass [OF ok]) (use db L f clk rnd in simp_all)
  with run L show ?thesis by auto
qed

text \<open>
  C8: The authority boundary works out of the box. On every conforming platform and whatever keys are generated,
  a run of the smoke check in a fresh directory returns PASS: the permitted read was issued and executed, the forbidden action got no capability,
  the file is as it was written, the audit ledger verifies with exactly the two records of the read, the failure ledger
  verifies and is empty and exactly one nonce is consumed. On any state, with any faults, a run that returns reports no
  forbidden capability, and PASS exactly when the read was executed.
\<close>

theorem smoke_passes:
  assumes ok: "platform_ok E" and fresh: "fresh_kernel (kernel (stores h))"
  shows "(\<exists>rep h' head. h14_smoke E h = (Inr rep, h') \<and> smoke_result rep = ''PASS'' \<and> allowed_control_executed rep
      \<and> fs_root (files (kernel (stores h'))) = smoke_tree
      \<and> verify_ledger E (ed_public E (new_keys h (generated h + 1))) (audit_ledger (kernel (stores h'))) = Inr (2, head)
      \<and> verify_ledger E (ed_public E (new_keys h (generated h + 1))) (failure_ledger (kernel (stores h'))) = Inr (0, GENESIS_HASH)
      \<and> length (consumed_nonces (sec (kernel (stores h')))) = 1)
    \<and> (\<forall>h rep h'. h14_smoke E h = (Inr rep, h') \<longrightarrow>
         \<not> forbidden_capability_issued rep \<and> (smoke_result rep = ''PASS'' \<longleftrightarrow> allowed_control_executed rep))"
proof (intro conjI allI impI)
  let ?w = "kernel (stores h)"
  let ?w1 = "?w\<lparr>files := \<lparr>fs_root = smoke_tree, io = []\<rparr>, clk := (\<lambda>_. 2000000000)\<rparr>"
  let ?k = "new_keys h (generated h)" and ?a = "new_keys h (generated h + 1)"
  obtain w' head where run: "smoke_kernel E ?k ?a ?w1 = (Inr \<lparr>allowed_control_executed = True, forbidden_capability_issued = False,
       h14_forbidden_executions = 0, smoke_result = ''PASS''\<rparr>, w')" and w': "fs_root (files w') = smoke_tree"
    "verify_ledger E (ed_public E ?a) (audit_ledger w') = Inr (2, head)" "verify_ledger E (ed_public E ?a) (failure_ledger w') = Inr (0, GENESIS_HASH)"
    "length (consumed_nonces (sec w')) = 1"
    using smoke_kernel_pass [OF ok, of ?w1 ?k ?a] fresh by (auto simp: fresh_kernel_def)
  have "files ?w = \<lparr>fs_root = Dir Map.empty, io = []\<rparr>" using fresh by (simp add: fresh_kernel_def)
  then have "\<exists>h'. h14_smoke E h = (Inr \<lparr>allowed_control_executed = True, forbidden_capability_issued = False,
       h14_forbidden_executions = 0, smoke_result = ''PASS''\<rparr>, h') \<and> kernel (stores h') = w'"
    using make_resources_fresh run
    by (simp add: h14_smoke_def sbind_def on_stores_def on_kernel_def on_files_def szoom_def fix_clock_def smodify_def fixed_now_def
        generate_private_key_def)
  with w' show "\<exists>rep h' head. h14_smoke E h = (Inr rep, h') \<and> smoke_result rep = ''PASS'' \<and> allowed_control_executed rep
      \<and> fs_root (files (kernel (stores h'))) = smoke_tree
      \<and> verify_ledger E (ed_public E ?a) (audit_ledger (kernel (stores h'))) = Inr (2, head)
      \<and> verify_ledger E (ed_public E ?a) (failure_ledger (kernel (stores h'))) = Inr (0, GENESIS_HASH)
      \<and> length (consumed_nonces (sec (kernel (stores h')))) = 1"
    by auto
next
  fix h rep h' assume "h14_smoke E h = (Inr rep, h')"
  then obtain k a w w' where run: "smoke_kernel E k a w = (Inr rep, w')"
    unfolding h14_smoke_def sbind_ok by (auto simp: on_stores_def on_kernel_def szoom_eq)
  note report = smoke_kernel_report [OF run]
  show "\<not> forbidden_capability_issued rep" "smoke_result rep = ''PASS'' \<longleftrightarrow> allowed_control_executed rep" using report by blast+
qed

definition smoke_home :: home where
  "smoke_home = \<lparr>stores = \<lparr>kernel = \<lparr>sec = demo_state\<lparr>db_header := None\<rparr>,
       audit_ledger = \<lparr>log_file = None, checkpoint_file = None, lg_faults = []\<rparr>,
       failure_ledger = \<lparr>log_file = None, checkpoint_file = None, lg_faults = []\<rparr>,
       files = \<lparr>fs_root = Dir Map.empty, io = []\<rparr>, clk = (\<lambda>_. 0), ticks = 0, entropy = (\<lambda>_. replicate 16 (CHR ''a'')), draws = 0\<rparr>,
       flight_log = \<lparr>log_file = None, checkpoint_file = None, lg_faults = []\<rparr>, index = sample_index\<rparr>,
     key_files = Map.empty, new_keys = (\<lambda>n. replicate 32 (char_of n)), generated = 0, key_faults = []\<rparr>"

theorem smoke_passes_witness:
  "\<exists>rep h'. h14_smoke demo_platform smoke_home = (Inr rep, h') \<and> smoke_result rep = ''PASS'' \<and> \<not> forbidden_capability_issued rep
     \<and> at (fs_root (files (kernel (stores h')))) [U ''workspace'', U ''allowed.txt''] = Some (File (''MGK authority boundary'' @ [NL]))"
proof -
  have f: "fresh_kernel (kernel (stores smoke_home))" by (simp add: fresh_kernel_def smoke_home_def demo_state_def)
  show ?thesis using smoke_passes [OF platform_ok_demo f] by (fastforce simp: smoke_tree_def smoke_text_def)
qed

end
